(* ===== verification/Prelude.thy ===== *)
theory Prelude
  imports Main
begin

text \<open>
  Shared vocabulary of the development: the Rust number types the sources use, durations and
  instants, byte strings and the generic list lemmas the components share.

  Conventions.
  \<^item> An unsigned machine integer is a \<^typ>\<open>nat\<close> below its limit; every place where the source
    saturates, wraps or checks is written out with the functions of this theory.
  \<^item> A \<open>std::time::Duration\<close> is its number of nanoseconds, a \<open>tokio::time::Instant\<close> the number of
    nanoseconds since some fixed origin of the monotonic clock.  Operations read the clock once,
    so the time they see is an argument of the model.
  \<^item> A Rust \<open>str\<close> or byte slice is a \<^typ>\<open>string\<close>, one \<^typ>\<open>char\<close> per UTF-8 byte.
\<close>

section \<open>Collections of facts\<close>

named_theorems breaker_simps \<open>evaluation of the circuit breaker on its machine states\<close>
named_theorems step_simps \<open>effects of single operations on the state they act on\<close>
named_theorems ascii_simps \<open>byte classification predicates\<close>

section \<open>Machine integers\<close>

definition U32_MAX :: nat where "U32_MAX = 2 ^ 32 - 1"
definition U64_MAX :: nat where "U64_MAX = 2 ^ 64 - 1"
definition U128_MAX :: nat where "U128_MAX = 2 ^ 128 - 1"

text \<open>\<open>usize\<close> on the 64-bit targets the workspace is released for.\<close>

definition USIZE_MAX :: nat where "USIZE_MAX = 2 ^ 64 - 1"

text \<open>\<open>saturating_add\<close>, \<open>saturating_mul\<close>, \<open>wrapping_add\<close> and \<open>checked_add\<close> at a given maximum.
  \<open>saturating_sub\<close> is the truncating subtraction of \<^typ>\<open>nat\<close>.\<close>

definition saturating_add :: "nat \<Rightarrow> nat \<Rightarrow> nat \<Rightarrow> nat" where
  "saturating_add m a b = min (a + b) m"

definition saturating_mul :: "nat \<Rightarrow> nat \<Rightarrow> nat \<Rightarrow> nat" where
  "saturating_mul m a b = min (a * b) m"

definition wrapping_add :: "nat \<Rightarrow> nat \<Rightarrow> nat \<Rightarrow> nat" where
  "wrapping_add m a b = (a + b) mod (Suc m)"

definition checked_add :: "nat \<Rightarrow> nat \<Rightarrow> nat \<Rightarrow> nat option" where
  "checked_add m a b = (if a + b \<le> m then Some (a + b) else None)"

lemma saturating_add_le [simp]: "saturating_add m a b \<le> m"
  by (simp add: saturating_add_def)

lemma saturating_add_exact: "a + b \<le> m \<Longrightarrow> saturating_add m a b = a + b"
  by (simp add: saturating_add_def)

lemma saturating_mul_exact: "a * b \<le> m \<Longrightarrow> saturating_mul m a b = a * b"
  by (simp add: saturating_mul_def)

lemma wrapping_add_exact: "a + b \<le> m \<Longrightarrow> wrapping_add m a b = a + b"
  by (simp add: wrapping_add_def)

lemma wrapping_add_le: "wrapping_add m a b \<le> m"
  by (simp add: wrapping_add_def flip: less_Suc_eq_le)

lemma wrapping_add_neq: "a \<le> m \<Longrightarrow> 0 < m \<Longrightarrow> wrapping_add m a 1 \<noteq> a"
  by (auto simp: wrapping_add_def mod_Suc split: if_splits)

lemma checked_add_Some_iff: "checked_add m a b = Some c \<longleftrightarrow> c = a + b \<and> a + b \<le> m"
  by (auto simp: checked_add_def)

section \<open>Time\<close>

type_synonym instant = nat
type_synonym duration = nat

definition NANOS_PER_SEC :: nat where "NANOS_PER_SEC = 10 ^ 9"

text \<open>The first number of nanoseconds a \<open>Duration\<close> cannot hold: its seconds are a \<open>u64\<close>.\<close>

definition DURATION_LIMIT :: nat where "DURATION_LIMIT = 2 ^ 64 * NANOS_PER_SEC"

definition from_secs :: "nat \<Rightarrow> duration" where "from_secs s = s * NANOS_PER_SEC"

definition from_millis :: "nat \<Rightarrow> duration" where "from_millis ms = ms * 10 ^ 6"

definition checked_mul_duration :: "duration \<Rightarrow> nat \<Rightarrow> duration option" where
  "checked_mul_duration d k = (if d * k < DURATION_LIMIT then Some (d * k) else None)"

text \<open>\<open>Instant::saturating_duration_since\<close>: zero when the other instant is later.\<close>

definition saturating_duration_since :: "instant \<Rightarrow> instant \<Rightarrow> duration" where
  "saturating_duration_since a b = a - b"

section \<open>Byte strings\<close>

definition is_ascii_lowercase :: "char \<Rightarrow> bool" where
  "is_ascii_lowercase c = (97 \<le> (of_char c :: nat) \<and> (of_char c :: nat) \<le> 122)"

definition is_ascii_uppercase :: "char \<Rightarrow> bool" where
  "is_ascii_uppercase c = (65 \<le> (of_char c :: nat) \<and> (of_char c :: nat) \<le> 90)"

definition is_ascii_digit :: "char \<Rightarrow> bool" where
  "is_ascii_digit c = (48 \<le> (of_char c :: nat) \<and> (of_char c :: nat) \<le> 57)"

definition is_ascii_alphabetic :: "char \<Rightarrow> bool" where
  "is_ascii_alphabetic c = (is_ascii_lowercase c \<or> is_ascii_uppercase c)"

definition is_ascii_alphanumeric :: "char \<Rightarrow> bool" where
  "is_ascii_alphanumeric c = (is_ascii_alphabetic c \<or> is_ascii_digit c)"

definition is_ascii_hexdigit :: "char \<Rightarrow> bool" where
  "is_ascii_hexdigit c =
     (is_ascii_digit c \<or> (97 \<le> (of_char c :: nat) \<and> (of_char c :: nat) \<le> 102)
      \<or> (65 \<le> (of_char c :: nat) \<and> (of_char c :: nat) \<le> 70))"

definition is_ascii_control :: "char \<Rightarrow> bool" where
  "is_ascii_control c = ((of_char c :: nat) < 32 \<or> (of_char c :: nat) = 127)"

lemmas ascii_defs = is_ascii_lowercase_def is_ascii_uppercase_def is_ascii_digit_def
  is_ascii_alphabetic_def is_ascii_alphanumeric_def is_ascii_hexdigit_def is_ascii_control_def

text \<open>\<open>str::starts_with\<close>, \<open>strip_prefix\<close>, \<open>strip_suffix\<close>, \<open>split\<close> and \<open>split_once\<close> on a byte.\<close>

fun strip_prefix :: "'a list \<Rightarrow> 'a list \<Rightarrow> 'a list option" where
  "strip_prefix [] ys = Some ys"
| "strip_prefix (x # xs) [] = None"
| "strip_prefix (x # xs) (y # ys) = (if x = y then strip_prefix xs ys else None)"

definition strip_suffix :: "'a list \<Rightarrow> 'a list \<Rightarrow> 'a list option" where
  "strip_suffix suf ys = map_option rev (strip_prefix (rev suf) (rev ys))"

definition starts_with :: "'a list \<Rightarrow> 'a list \<Rightarrow> bool" where
  "starts_with p ys = (strip_prefix p ys \<noteq> None)"

lemma strip_prefix_Some_iff: "strip_prefix p ys = Some zs \<longleftrightarrow> ys = p @ zs"
  by (induction p ys rule: strip_prefix.induct) auto

lemma strip_prefix_append [simp]: "strip_prefix p (p @ zs) = Some zs"
  by (simp add: strip_prefix_Some_iff)

lemma strip_suffix_Some_iff: "strip_suffix p ys = Some zs \<longleftrightarrow> ys = zs @ p"
proof -
  have "strip_suffix p ys = Some zs \<longleftrightarrow> strip_prefix (rev p) (rev ys) = Some (rev zs)"
    by (auto simp: strip_suffix_def) 
  also have "\<dots> \<longleftrightarrow> rev ys = rev (zs @ p)"
    by (simp add: strip_prefix_Some_iff)
  also have "\<dots> \<longleftrightarrow> ys = zs @ p"
    by (rule rev_is_rev_conv)
  finally show ?thesis .
qed

lemma starts_with_iff: "starts_with p ys \<longleftrightarrow> (\<exists>zs. ys = p @ zs)"
  unfolding starts_with_def by (metis not_None_eq strip_prefix_Some_iff)

fun split_on :: "('a \<Rightarrow> bool) \<Rightarrow> 'a list \<Rightarrow> 'a list list" where
  "split_on p [] = [[]]"
| "split_on p (x # xs) =
     (if p x then [] # split_on p xs
      else (case split_on p xs of [] \<Rightarrow> [[x]] | s # ss \<Rightarrow> (x # s) # ss))"

fun split_once :: "'a \<Rightarrow> 'a list \<Rightarrow> ('a list \<times> 'a list) option" where
  "split_once d [] = None"
| "split_once d (x # xs) =
     (if x = d then Some ([], xs)
      else map_option (\<lambda>(a, b). (x # a, b)) (split_once d xs))"

text \<open>\<open>rsplit_once\<close>: at the last occurrence.\<close>

definition rsplit_once :: "'a \<Rightarrow> 'a list \<Rightarrow> ('a list \<times> 'a list) option" where
  "rsplit_once d xs = map_option (\<lambda>(a, b). (rev b, rev a)) (split_once d (rev xs))"

lemma split_on_neq_Nil [simp]: "split_on p xs \<noteq> []"
  by (induction xs) (auto split: list.splits)

lemma split_on_no_sep: "\<forall>s \<in> set (split_on p xs). \<forall>x \<in> set s. \<not> p x"
  by (induction xs) (auto split: list.splits)

lemma split_on_absent: "\<forall>x \<in> set xs. \<not> p x \<Longrightarrow> split_on p xs = [xs]"
  by (induction xs) auto

lemma split_on_append_sep:
  "\<forall>x \<in> set xs. \<not> p x \<Longrightarrow> p d \<Longrightarrow> split_on p (xs @ d # ys) = xs # split_on p ys"
  by (induction xs) (auto split: list.splits)

lemma split_once_Some_iff:
  "split_once d xs = Some (a, b) \<longleftrightarrow> xs = a @ d # b \<and> d \<notin> set a"
proof (induction xs arbitrary: a)
  case Nil
  then show ?case by simp
next
  case (Cons x xs)
  show ?case by (cases a) (auto simp: Cons.IH)
qed

lemma split_once_None_iff: "split_once d xs = None \<longleftrightarrow> d \<notin> set xs"
  by (induction xs) auto

lemma split_once_append: "d \<notin> set a \<Longrightarrow> split_once d (a @ d # b) = Some (a, b)"
  by (simp add: split_once_Some_iff)

text \<open>Joining with a leading separator is inverse to splitting.\<close>

lemma concat_Cons_split_on: "concat (map ((#) d) (split_on (\<lambda>c. c = d) xs)) = d # xs"
  by (induction xs) (auto split: list.splits)

lemma split_on_concat_Cons:
  "\<forall>s \<in> set ss. d \<notin> set s \<Longrightarrow> split_on (\<lambda>c. c = d) (concat (map ((#) d) ss)) = [] # ss"
proof (induction ss)
  case (Cons s ss)
  show ?case
  proof (cases ss)
    case Nil
    moreover have "split_on (\<lambda>c. c = d) s = [s]"
      using Cons.prems by (intro split_on_absent) auto
    ultimately show ?thesis by simp
  next
    case (Cons t ts)
    then obtain rest where "concat (map ((#) d) ss) = d # rest" by simp
    moreover have "split_on (\<lambda>c. c = d) (s @ d # rest) = s # split_on (\<lambda>c. c = d) rest"
      using Cons.prems by (intro split_on_append_sep) auto
    ultimately show ?thesis using Cons.IH Cons.prems by auto
  qed
qed simp

text \<open>\<open>trim_matches\<close> with one byte.\<close>

definition trim_matches :: "'a \<Rightarrow> 'a list \<Rightarrow> 'a list" where
  "trim_matches d xs = rev (dropWhile (\<lambda>x. x = d) (rev (dropWhile (\<lambda>x. x = d) xs)))"

section \<open>Lists\<close>

lemma length_filter_count: "length (filter p xs) = (\<Sum>x\<leftarrow>xs. if p x then 1 else 0)"
  by (induction xs) auto

lemma sum_list_sum_swap:
  "(\<Sum>j<(n::nat). \<Sum>x\<leftarrow>xs. (f j x :: nat)) = (\<Sum>x\<leftarrow>xs. \<Sum>j<n. f j x)"
  by (induction xs) (simp_all add: sum.distrib)

lemma length_filter_remove_nth:
  "i < length xs \<Longrightarrow>
   length (filter p xs) = length (filter p (take i xs @ drop (Suc i) xs)) + (if p (xs ! i) then 1 else 0)"
proof -
  assume i: "i < length xs"
  then have "length (filter p xs) = length (filter p (take i xs @ xs ! i # drop (Suc i) xs))"
    by (simp flip: id_take_nth_drop)
  then show ?thesis by simp
qed

lemma sum_list_map_update:
  "i < length xs \<Longrightarrow> sum_list (map f (xs[i := x])) + f (xs ! i) = sum_list (map f xs) + (f x :: nat)"
  by (induction xs arbitrary: i) (auto simp: nth_Cons split: nat.splits)

lemma member_le_sum: "i < length xs \<Longrightarrow> f (xs ! i) \<le> sum_list (map f xs)" for f :: "'a \<Rightarrow> nat"
  by (induction xs arbitrary: i) (auto simp: nth_Cons intro: trans_le_add2 split: nat.splits)

text \<open>How many elements have a property, and what updating one of them does to that number.\<close>

definition tally :: "('a \<Rightarrow> bool) \<Rightarrow> 'a list \<Rightarrow> nat" where
  "tally p xs = sum_list (map (\<lambda>x. if p x then 1 else 0) xs)"

lemma tally_update:
  "i < length xs \<Longrightarrow>
   tally p (xs[i := x]) + (if p (xs ! i) then 1 else 0) = tally p xs + (if p x then 1 else 0)"
  unfolding tally_def by (rule sum_list_map_update)

lemma tally_pos: "i < length xs \<Longrightarrow> p (xs ! i) \<Longrightarrow> 0 < tally p xs"
  using member_le_sum[of i xs "\<lambda>x. if p x then 1 else 0 :: nat"] by (simp add: tally_def)

lemma tally_eq_0: "tally p xs = 0 \<longleftrightarrow> (\<forall>x \<in> set xs. \<not> p x)"
  by (auto simp: tally_def)

lemma tally_replicate: "\<not> p x \<Longrightarrow> tally p (replicate n x) = 0"
  by (simp add: tally_eq_0)

lemma tally_length: "tally p xs = length (filter p xs)"
  by (simp add: tally_def length_filter_count)

section \<open>Step relations\<close>

text \<open>
  Concurrent components are step relations; a run is a finite sequence of steps.  What every step keeps
  holds along every run.
\<close>

locale stepwise =
  fixes step :: "'s \<Rightarrow> 's \<Rightarrow> bool" and inv :: "'s \<Rightarrow> bool"
  assumes preserved: "step s s' \<Longrightarrow> inv s \<Longrightarrow> inv s'"
begin

lemma along_runs: "step\<^sup>*\<^sup>* s s' \<Longrightarrow> inv s \<Longrightarrow> inv s'"
  by (induction rule: rtranclp_induct) (auto intro: preserved)

lemma reached: "step\<^sup>*\<^sup>* s t \<Longrightarrow> step\<^sup>*\<^sup>* t u \<Longrightarrow> inv s \<Longrightarrow> inv t \<and> inv u"
  using along_runs by blast

end

section \<open>Fallible code\<close>

text \<open>\<open>Result\<close> is a sum, the error on the left; the \<open>?\<close> operator is \<open>bind_result\<close>.\<close>

definition bind_result :: "'e + 'a \<Rightarrow> ('a \<Rightarrow> 'e + 'b) \<Rightarrow> 'e + 'b" where
  "bind_result r f = (case r of Inl e \<Rightarrow> Inl e | Inr x \<Rightarrow> f x)"

lemma bind_result_simps [simp]:
  "bind_result (Inl e) f = Inl e"
  "bind_result (Inr x) f = f x"
  by (simp_all add: bind_result_def)

lemma bind_result_Inr_iff: "bind_result r f = Inr y \<longleftrightarrow> (\<exists>x. r = Inr x \<and> f x = Inr y)"
  by (cases r) auto

lemma bind_result_Inl_iff:
  "bind_result r f = Inl e \<longleftrightarrow> r = Inl e \<or> (\<exists>x. r = Inr x \<and> f x = Inl e)"
  by (cases r) auto

text \<open>\<open>map_err\<close> and collecting a list of results, stopping at the first error.\<close>

definition map_err :: "('e \<Rightarrow> 'f) \<Rightarrow> 'e + 'a \<Rightarrow> 'f + 'a" where
  "map_err f r = (case r of Inl e \<Rightarrow> Inl (f e) | Inr x \<Rightarrow> Inr x)"

fun collect_results :: "('e + 'a) list \<Rightarrow> 'e + 'a list" where
  "collect_results [] = Inr []"
| "collect_results (Inl e # rs) = Inl e"
| "collect_results (Inr x # rs) = bind_result (collect_results rs) (\<lambda>xs. Inr (x # xs))"

lemma collect_results_map_Inr [simp]: "collect_results (map (\<lambda>x. Inr (f x)) xs) = Inr (map f xs)"
  by (induction xs) auto

end
