(* ===== verification/Errors.thy ===== *)
theory Errors
  imports Prelude
begin

text \<open>
  The service invocation error of \<open>fusen/src/error/invocation.rs\<close>: its code, kind, semantic
  category, origin and retry hint, its constructors and its builder methods.

  An \<^verbatim>\<open>Error\<close> is an \<^verbatim>\<open>Arc<ErrorInner>\<close> with copy-on-write updates (\<^verbatim>\<open>Arc::make_mut\<close>), so it is a
  value: the record \<open>error\<close> below.  The diagnostic source is kept as opaque text, it never
  reaches the wire.
\<close>

section \<open>JSON values and header maps\<close>

text \<open>\<^verbatim>\<open>serde_json::Value\<close> as data; a number is its canonical text, an object its ordered entries.\<close>

datatype json =
  JNull
| JBool bool
| JNumber string
| JString string
| JArray "json list"
| JObject "(string \<times> json) list"

text \<open>
  \<^verbatim>\<open>http::HeaderMap\<close> as data: the multimap of its entries in iteration order, the names in
  lower case.
\<close>

type_synonym header_map = "(string \<times> string) list"

definition get_all :: "header_map \<Rightarrow> string \<Rightarrow> string list" where
  "get_all h n = map snd (filter (\<lambda>(k, _). k = n) h)"

definition contains_key :: "header_map \<Rightarrow> string \<Rightarrow> bool" where
  "contains_key h n = (n \<in> fst ` set h)"

definition remove_header :: "string \<Rightarrow> header_map \<Rightarrow> header_map" where
  "remove_header n h = filter (\<lambda>(k, _). k \<noteq> n) h"

definition insert_header :: "string \<Rightarrow> string \<Rightarrow> header_map \<Rightarrow> header_map" where
  "insert_header n v h = remove_header n h @ [(n, v)]"

definition append_header :: "string \<Rightarrow> string \<Rightarrow> header_map \<Rightarrow> header_map" where
  "append_header n v h = h @ [(n, v)]"

lemma get_all_Nil [simp]: "get_all [] n = []"
  by (simp add: get_all_def)

lemma get_all_append [simp]: "get_all (h @ h') n = get_all h n @ get_all h' n"
  by (simp add: get_all_def)

lemma get_all_singleton [simp]: "get_all [(k, v)] n = (if k = n then [v] else [])"
  by (simp add: get_all_def)

lemma get_all_remove_header [simp]:
  "get_all (remove_header k h) n = (if n = k then [] else get_all h n)"
  by (induction h) (auto simp: get_all_def remove_header_def)

lemma get_all_insert_header [simp]:
  "get_all (insert_header k v h) n = (if n = k then [v] else get_all h n)"
  by (simp add: insert_header_def)

lemma contains_key_iff: "contains_key h n \<longleftrightarrow> get_all h n \<noteq> []"
  by (auto simp: contains_key_def get_all_def filter_empty_conv image_iff) force+

lemma get_all_fold_remove_header:
  "get_all (fold remove_header ns h) n = (if n \<in> set ns then [] else get_all h n)"
  by (induction ns arbitrary: h) auto

section \<open>Error codes\<close>

definition valid_error_code :: "string \<Rightarrow> bool" where
  "valid_error_code bs =
     (bs \<noteq> [] \<and> length bs \<le> 64 \<and> is_ascii_lowercase (bs ! 0) \<and> last bs \<noteq> CHR ''_''
      \<and> (\<forall>i \<in> set [0..<length bs].
           is_ascii_lowercase (bs ! i) \<or> is_ascii_digit (bs ! i)
           \<or> (bs ! i = CHR ''_'' \<and> 0 < i \<and> bs ! (i - 1) \<noteq> CHR ''_'')))"

text \<open>\<^verbatim>\<open>ErrorCode::new\<close>: the invalid text itself is the error.\<close>

definition ErrorCode_new :: "string \<Rightarrow> string + string" where
  "ErrorCode_new v = (if valid_error_code v then Inr v else Inl v)"

section \<open>Kinds, categories, origins, retry hints\<close>

datatype ErrorKind = EK_Application | EK_Framework

datatype ErrorCategory =
  EC_InvalidArgument
| EC_NotFound
| EC_Conflict
| EC_Unauthenticated
| EC_PermissionDenied
| EC_PayloadTooLarge
| EC_ResourceExhausted
| EC_Unavailable
| EC_DeadlineExceeded
| EC_Cancelled
| EC_Unimplemented
| EC_Internal
| EC_DataLoss
| EC_Unknown

datatype ErrorOrigin = EO_Local | EO_Remote

datatype RetryHint = RH_Never | RH_Retryable | RH_After duration

type_synonym status_code = nat

fun canonical_status :: "ErrorCategory \<Rightarrow> status_code option" where
  "canonical_status EC_InvalidArgument = Some 400"
| "canonical_status EC_NotFound = Some 404"
| "canonical_status EC_Conflict = Some 409"
| "canonical_status EC_Unauthenticated = Some 401"
| "canonical_status EC_PermissionDenied = Some 403"
| "canonical_status EC_PayloadTooLarge = Some 413"
| "canonical_status EC_ResourceExhausted = Some 429"
| "canonical_status EC_Unavailable = Some 503"
| "canonical_status EC_DeadlineExceeded = Some 504"
| "canonical_status EC_Cancelled = Some 499"
| "canonical_status EC_Unimplemented = Some 501"
| "canonical_status EC_Internal = Some 500"
| "canonical_status EC_DataLoss = Some 502"
| "canonical_status EC_Unknown = None"

definition category_from_status :: "status_code \<Rightarrow> ErrorCategory" where
  "category_from_status s =
     (if s = 400 \<or> s = 405 then EC_InvalidArgument
      else if s = 401 then EC_Unauthenticated
      else if s = 403 then EC_PermissionDenied
      else if s = 404 then EC_NotFound
      else if s = 409 then EC_Conflict
      else if s = 413 then EC_PayloadTooLarge
      else if s = 429 then EC_ResourceExhausted
      else if s = 503 then EC_Unavailable
      else if s = 504 \<or> s = 408 then EC_DeadlineExceeded
      else if s = 501 then EC_Unimplemented
      else if s = 502 then EC_DataLoss
      else if s = 500 then EC_Internal
      else if s = 499 then EC_Cancelled
      else EC_Unknown)"

text \<open>\<^verbatim>\<open>StatusCode::is_client_error\<close>, \<open>is_server_error\<close> and \<open>is_success\<close>.\<close>

definition is_client_error :: "status_code \<Rightarrow> bool" where
  "is_client_error s = (400 \<le> s \<and> s < 500)"

definition is_server_error :: "status_code \<Rightarrow> bool" where
  "is_server_error s = (500 \<le> s \<and> s < 600)"

definition is_success :: "status_code \<Rightarrow> bool" where
  "is_success s = (200 \<le> s \<and> s < 300)"

fun hint_is_retryable :: "RetryHint \<Rightarrow> bool" where
  "hint_is_retryable RH_Never = False"
| "hint_is_retryable RH_Retryable = True"
| "hint_is_retryable (RH_After d) = True"

fun retry_after :: "RetryHint \<Rightarrow> duration option" where
  "retry_after (RH_After d) = Some d"
| "retry_after RH_Never = None"
| "retry_after RH_Retryable = None"

section \<open>The error value\<close>

record error =
  e_kind :: ErrorKind
  e_category :: ErrorCategory
  e_code :: string
  e_message :: string
  e_status :: status_code
  e_origin :: ErrorOrigin
  e_request_id :: "string option"
  e_attempts :: nat
  e_headers :: header_map
  e_details :: "(string \<times> json) list option"
  e_retry_hint :: RetryHint
  e_source :: "string option"

datatype ErrorConstructionError =
  InvalidCode string
| NonCanonicalCategory ErrorCategory
| InvalidApplicationStatus status_code

definition local_inner ::
  "ErrorKind \<Rightarrow> ErrorCategory \<Rightarrow> status_code \<Rightarrow> string \<Rightarrow> string \<Rightarrow> error" where
  "local_inner kind category status code message =
     \<lparr>e_kind = kind, e_category = category, e_code = code, e_message = message,
      e_status = status, e_origin = EO_Local, e_request_id = None, e_attempts = 0,
      e_headers = [], e_details = None, e_retry_hint = RH_Never, e_source = None\<rparr>"

definition application_parts ::
  "ErrorCategory \<Rightarrow> status_code \<Rightarrow> string \<Rightarrow> string \<Rightarrow> ErrorConstructionError + error" where
  "application_parts category status code message =
     bind_result (map_err InvalidCode (ErrorCode_new code))
       (\<lambda>code. Inr (local_inner EK_Application category status code message))"

definition Error_application ::
  "ErrorCategory \<Rightarrow> string \<Rightarrow> string \<Rightarrow> ErrorConstructionError + error" where
  "Error_application category code message =
     (case canonical_status category of
        None \<Rightarrow> Inl (NonCanonicalCategory category)
      | Some status \<Rightarrow> application_parts category status code message)"

definition Error_application_status ::
  "status_code \<Rightarrow> string \<Rightarrow> string \<Rightarrow> ErrorConstructionError + error" where
  "Error_application_status status code message =
     (if \<not> is_client_error status \<and> \<not> is_server_error status
      then Inl (InvalidApplicationStatus status)
      else application_parts (category_from_status status) status code message)"

definition Error_local ::
  "ErrorCategory \<Rightarrow> string \<Rightarrow> string \<Rightarrow> ErrorConstructionError + error" where
  "Error_local category code message =
     (case canonical_status category of
        None \<Rightarrow> Inl (NonCanonicalCategory category)
      | Some status \<Rightarrow>
          bind_result (map_err InvalidCode (ErrorCode_new code))
            (\<lambda>code. Inr (local_inner EK_Framework category status code message)))"

text \<open>
  \<^verbatim>\<open>Error::framework\<close> panics when the category has no canonical status or the literal code is
  not valid; \<open>None\<close> is that panic.  Every call site passes a literal, so the model uses
  \<open>framework\<close>, and \<open>framework_literal\<close> discharges the two conditions for it.
\<close>

definition Error_framework :: "ErrorCategory \<Rightarrow> string \<Rightarrow> string \<Rightarrow> error option" where
  "Error_framework category code message =
     (case canonical_status category of
        None \<Rightarrow> None
      | Some status \<Rightarrow>
          (case ErrorCode_new code of
             Inl _ \<Rightarrow> None
           | Inr code \<Rightarrow> Some (local_inner EK_Framework category status code message)))"

definition framework :: "ErrorCategory \<Rightarrow> string \<Rightarrow> string \<Rightarrow> error" where
  "framework category code message = the (Error_framework category code message)"

record remote_error_parts =
  rp_kind :: ErrorKind
  rp_category :: ErrorCategory
  rp_code :: string
  rp_message :: string
  rp_status :: status_code
  rp_request_id :: string
  rp_details :: "(string \<times> json) list option"
  rp_retry_hint :: RetryHint

definition from_remote_parts :: "remote_error_parts \<Rightarrow> error" where
  "from_remote_parts p =
     \<lparr>e_kind = rp_kind p, e_category = rp_category p, e_code = rp_code p,
      e_message = rp_message p, e_status = rp_status p, e_origin = EO_Remote,
      e_request_id = Some (rp_request_id p), e_attempts = 0, e_headers = [],
      e_details = rp_details p,
      e_retry_hint = (if rp_kind p = EK_Application then RH_Never else rp_retry_hint p),
      e_source = None\<rparr>"

definition with_source :: "error \<Rightarrow> string \<Rightarrow> error" where
  "with_source e src = e\<lparr>e_source := Some src\<rparr>"

definition Error_internal :: "string \<Rightarrow> string \<Rightarrow> error" where
  "Error_internal message src =
     with_source (framework EC_Internal ''internal_error'' message) src"

definition Error_invalid_result :: "string \<Rightarrow> string \<Rightarrow> error" where
  "Error_invalid_result message src =
     with_source (framework EC_DataLoss ''invalid_result'' message) src"

definition with_attempts :: "error \<Rightarrow> nat \<Rightarrow> error" where
  "with_attempts e n = e\<lparr>e_attempts := n\<rparr>"

definition with_request_id :: "error \<Rightarrow> string \<Rightarrow> error" where
  "with_request_id e r = e\<lparr>e_request_id := Some r\<rparr>"

definition with_remote_origin :: "error \<Rightarrow> error" where
  "with_remote_origin e = e\<lparr>e_origin := EO_Remote\<rparr>"

definition with_local_origin :: "error \<Rightarrow> error" where
  "with_local_origin e = e\<lparr>e_origin := EO_Local\<rparr>"

definition with_headers :: "error \<Rightarrow> header_map \<Rightarrow> error" where
  "with_headers e h = e\<lparr>e_headers := h\<rparr>"

definition with_details :: "error \<Rightarrow> (string \<times> json) list \<Rightarrow> error" where
  "with_details e d = e\<lparr>e_details := Some d\<rparr>"

definition with_retry_hint :: "error \<Rightarrow> RetryHint \<Rightarrow> error" where
  "with_retry_hint e h = (if e_kind e \<noteq> EK_Application then e\<lparr>e_retry_hint := h\<rparr> else e)"

lemmas error_builders = with_source_def with_attempts_def with_request_id_def
  with_remote_origin_def with_local_origin_def with_headers_def with_details_def
  with_retry_hint_def

section \<open>Facts\<close>

lemma framework_literal:
  assumes "canonical_status c = Some s" and "valid_error_code code"
  shows "Error_framework c code m = Some (local_inner EK_Framework c s code m)"
  using assms by (simp add: Error_framework_def ErrorCode_new_def)

lemma framework_eq:
  assumes "canonical_status c = Some s" and "valid_error_code code"
  shows "framework c code m = local_inner EK_Framework c s code m"
  using assms by (simp add: framework_def framework_literal)

lemma local_inner_simps [simp]:
  "e_kind (local_inner k c s code m) = k"
  "e_category (local_inner k c s code m) = c"
  "e_code (local_inner k c s code m) = code"
  "e_message (local_inner k c s code m) = m"
  "e_status (local_inner k c s code m) = s"
  "e_origin (local_inner k c s code m) = EO_Local"
  "e_request_id (local_inner k c s code m) = None"
  "e_headers (local_inner k c s code m) = []"
  "e_details (local_inner k c s code m) = None"
  "e_retry_hint (local_inner k c s code m) = RH_Never"
  by (simp_all add: local_inner_def)

lemma category_from_canonical_status:
  "canonical_status c = Some s \<Longrightarrow> category_from_status s = c"
  by (cases c) (auto simp: category_from_status_def)

lemma canonical_status_from_category:
  "category_from_status s \<noteq> EC_Unknown \<Longrightarrow>
   canonical_status (category_from_status s) = Some s \<or> s = 405 \<or> s = 408"
  by (auto simp: category_from_status_def split: if_splits)

lemma canonical_status_is_error:
  "canonical_status c = Some s \<Longrightarrow> is_client_error s \<or> is_server_error s"
  by (cases c) (auto simp: is_client_error_def is_server_error_def)

lemma canonical_status_None_iff: "canonical_status c = None \<longleftrightarrow> c = EC_Unknown"
  by (cases c) auto

text \<open>
  Application errors never become retryable, whichever constructor and builder methods produced
  them: the invariant behind "application errors remain non-retryable".
\<close>

definition error_wf :: "error \<Rightarrow> bool" where
  "error_wf e \<longleftrightarrow>
     (e_kind e = EK_Application \<longrightarrow> e_retry_hint e = RH_Never) \<and> valid_error_code (e_code e)"

lemma error_wf_from_remote_parts:
  "valid_error_code (rp_code p) \<Longrightarrow> error_wf (from_remote_parts p)"
  by (simp add: error_wf_def from_remote_parts_def)

lemma error_wf_application:
  "Error_application c code m = Inr e \<Longrightarrow> error_wf e"
  by (auto simp: Error_application_def application_parts_def ErrorCode_new_def error_wf_def
      map_err_def split: option.splits if_splits)

lemma error_wf_application_status:
  "Error_application_status s code m = Inr e \<Longrightarrow> error_wf e"
  by (auto simp: Error_application_status_def application_parts_def ErrorCode_new_def error_wf_def
      map_err_def split: if_splits)

lemma error_wf_local: "Error_local c code m = Inr e \<Longrightarrow> error_wf e"
  by (auto simp: Error_local_def ErrorCode_new_def error_wf_def map_err_def
      split: option.splits if_splits)

lemma error_wf_framework: "Error_framework c code m = Some e \<Longrightarrow> error_wf e"
  by (auto simp: Error_framework_def ErrorCode_new_def error_wf_def
      split: option.splits sum.splits if_splits)

lemma error_wf_builders:
  assumes "error_wf e"
  shows "error_wf (with_source e src)" "error_wf (with_attempts e n)"
    "error_wf (with_request_id e r)" "error_wf (with_remote_origin e)"
    "error_wf (with_local_origin e)" "error_wf (with_headers e h)"
    "error_wf (with_details e d)" "error_wf (with_retry_hint e hint)"
  using assms by (auto simp: error_wf_def error_builders)

end
