(* ===== verification/Classify.thy ===== *)
theory Classify
  imports Errors
begin

text \<open>
  The failure classes of \<open>fusen/src/resilience/breaker.rs\<close> and the classification of an
  invocation error in \<open>fusen/src/resilience/classify.rs\<close>: which failures may be retried, and
  which ones count against a circuit breaker.
\<close>

datatype FailureClass =
  FC_Connect
| FC_Transport
| FC_Timeout
| FC_Unavailable
| FC_Overloaded
| FC_RemoteServer
| FC_RemoteFailure
| FC_Protocol
| FC_Application
| FC_InvalidRequest
| FC_Cancelled
| FC_LocalRejection

fun is_retryable :: "FailureClass \<Rightarrow> bool" where
  "is_retryable FC_Connect = True"
| "is_retryable FC_Transport = True"
| "is_retryable FC_Timeout = True"
| "is_retryable FC_Unavailable = True"
| "is_retryable FC_Overloaded = True"
| "is_retryable FC_RemoteServer = True"
| "is_retryable _ = False"

datatype BreakerImpact = BI_Success | BI_Failure | BI_Ignore | BI_Unattempted

fun breaker_impact :: "FailureClass \<Rightarrow> BreakerImpact" where
  "breaker_impact FC_Connect = BI_Failure"
| "breaker_impact FC_Transport = BI_Failure"
| "breaker_impact FC_Timeout = BI_Failure"
| "breaker_impact FC_Unavailable = BI_Failure"
| "breaker_impact FC_RemoteServer = BI_Failure"
| "breaker_impact FC_RemoteFailure = BI_Failure"
| "breaker_impact FC_Protocol = BI_Failure"
| "breaker_impact FC_Application = BI_Success"
| "breaker_impact FC_Overloaded = BI_Ignore"
| "breaker_impact FC_InvalidRequest = BI_Ignore"
| "breaker_impact FC_Cancelled = BI_Ignore"
| "breaker_impact FC_LocalRejection = BI_Ignore"

text \<open>The statuses \<^verbatim>\<open>classify_error\<close> and \<^verbatim>\<open>is_transient_status\<close> treat as transient.\<close>

definition is_transient_status :: "status_code \<Rightarrow> bool" where
  "is_transient_status s = (s \<in> {408, 425, 429, 500, 502, 503, 504})"

fun classify_local :: "ErrorCategory \<Rightarrow> FailureClass" where
  "classify_local EC_DeadlineExceeded = FC_Timeout"
| "classify_local EC_Cancelled = FC_Cancelled"
| "classify_local EC_DataLoss = FC_Protocol"
| "classify_local EC_PayloadTooLarge = FC_LocalRejection"
| "classify_local EC_ResourceExhausted = FC_LocalRejection"
| "classify_local EC_Unavailable = FC_LocalRejection"
| "classify_local _ = FC_InvalidRequest"

definition classify_error :: "error \<Rightarrow> FailureClass" where
  "classify_error e =
     (if e_kind e = EK_Framework \<and> e_origin e = EO_Remote \<and> e_category e = EC_DataLoss
      then FC_Protocol
      else if e_kind e = EK_Application
      then (case (e_origin e, is_server_error (e_status e)) of
              (EO_Remote, True) \<Rightarrow> FC_RemoteFailure
            | (EO_Remote, False) \<Rightarrow> FC_Application
            | (EO_Local, _) \<Rightarrow> FC_InvalidRequest)
      else if e_origin e = EO_Local
      then (if hint_is_retryable (e_retry_hint e) then FC_Transport
            else classify_local (e_category e))
      else if is_transient_status (e_status e)
      then (if \<not> hint_is_retryable (e_retry_hint e) then FC_RemoteFailure
            else if e_status e = 408 then FC_Timeout
            else if e_status e = 429 then FC_Overloaded
            else if 502 \<le> e_status e \<and> e_status e \<le> 504 then FC_Unavailable
            else FC_RemoteServer)
      else if is_server_error (e_status e) then FC_RemoteFailure
      else FC_InvalidRequest)"

record ClassifiedError =
  ce_error :: error
  ce_class :: FailureClass

definition ClassifiedError_classify :: "error \<Rightarrow> ClassifiedError" where
  "ClassifiedError_classify e = \<lparr>ce_error = e, ce_class = classify_error e\<rparr>"

section \<open>Facts\<close>

lemma overloaded_is_the_retryable_ignored_class:
  "is_retryable c \<Longrightarrow> breaker_impact c \<noteq> BI_Failure \<longleftrightarrow> c = FC_Overloaded"
  by (cases c) auto

lemma classify_application:
  "e_kind e = EK_Application \<Longrightarrow> \<not> is_retryable (classify_error e)"
  by (cases "e_origin e"; cases "is_server_error (e_status e)")
     (auto simp: classify_error_def)

lemma classify_remote_framework_retryable:
  assumes "e_kind e = EK_Framework" and "e_origin e = EO_Remote"
    and "is_retryable (classify_error e)"
  shows "is_transient_status (e_status e) \<and> hint_is_retryable (e_retry_hint e)"
  using assms by (auto simp: classify_error_def split: if_splits)

lemma classify_local_class_retryable: "is_retryable (classify_local c) \<longleftrightarrow> c = EC_DeadlineExceeded"
  by (cases c) auto

lemma classify_local_framework_retryable:
  assumes "e_kind e = EK_Framework" and "e_origin e = EO_Local"
    and "is_retryable (classify_error e)"
  shows "hint_is_retryable (e_retry_hint e) \<or> e_category e = EC_DeadlineExceeded"
  using assms by (auto simp: classify_error_def classify_local_class_retryable split: if_splits)

lemma classify_remote_client_rejection:
  assumes "e_origin e = EO_Remote" and "is_client_error (e_status e)"
    and "e_category e \<noteq> EC_DataLoss" and "breaker_impact (classify_error e) = BI_Failure"
  shows "is_transient_status (e_status e)"
  using assms
  by (cases "e_kind e") (auto simp: classify_error_def is_client_error_def is_server_error_def split: if_splits)

text \<open>
   Retry eligibility is read off the error, never invented: an error whose failure class may
  be retried is a framework error (application errors are never retried), and either it was
  produced by the peer with a transient status and a retry hint, or it is local and carries a
  retry hint or is the elapsed deadline.
\<close>
theorem classify_error_retryable:
  assumes "is_retryable (classify_error e)"
  shows "e_kind e = EK_Framework
     \<and> (e_origin e = EO_Remote \<longrightarrow>
          is_transient_status (e_status e) \<and> hint_is_retryable (e_retry_hint e))
     \<and> (e_origin e = EO_Local \<longrightarrow>
          hint_is_retryable (e_retry_hint e) \<or> e_category e = EC_DeadlineExceeded)"
proof -
  have kind: "e_kind e = EK_Framework"
    using assms classify_application by (cases "e_kind e") auto
  with assms show ?thesis
    using classify_remote_framework_retryable classify_local_framework_retryable by blast
qed

theorem classify_error_retryable_witness:
  "let e = (local_inner EK_Framework EC_Unavailable 503 ''unavailable'' [])
             \<lparr>e_origin := EO_Remote, e_retry_hint := RH_Retryable\<rparr>
   in is_retryable (classify_error e) \<and> is_transient_status (e_status e)"
proof -
  let ?e = "(local_inner EK_Framework EC_Unavailable 503 ''unavailable'' [])
              \<lparr>e_origin := EO_Remote, e_retry_hint := RH_Retryable\<rparr>"
  have h: "is_retryable (classify_error ?e)"
    by (simp add: classify_error_def is_transient_status_def)
  from classify_error_retryable [OF h] h show ?thesis
    by (simp add: Let_def)
qed

end
