(* ===== verification/Float_Ratio.thy ===== *)
theory Float_Ratio
  imports Prelude
begin

text \<open>
  The one floating-point decision of the circuit breaker,
  \<^verbatim>\<open>counts.failures as f64 / samples as f64 >= failure_ratio\<close>, with its IEEE 754 rounding.

  A finite non-negative \<open>f64\<close> is a dyadic number \<open>mant / 2 ^ expo\<close>.  The counts are sums of at
  most 255 saturating \<open>u32\<close> counters, so both conversions to \<open>f64\<close> are exact and the quotient of
  two counts \<open>a \<le> b\<close> is \<open>0\<close> or a normal number: \<open>f64_div\<close> scales it to 53 significant bits and
  rounds to nearest, ties to even, as the division instruction does.
\<close>

record f64 =
  mant :: nat
  expo :: nat

text \<open>The number of doublings that bring the quotient \<open>a / b\<close> up to at least \<open>2 ^ 52\<close>.\<close>

function norm_shift :: "nat \<Rightarrow> nat \<Rightarrow> nat" where
  "norm_shift a b = (if a = 0 \<or> b * 2 ^ 52 \<le> a then 0 else Suc (norm_shift (2 * a) b))"
  by pat_completeness auto
termination
  by (relation "measure (\<lambda>(a, b). b * 2 ^ 52 - a)") auto

declare norm_shift.simps [simp del]

definition round_half_even :: "nat \<Rightarrow> nat \<Rightarrow> nat" where
  "round_half_even n d =
     (let q = n div d; r = n mod d
      in if d < 2 * r \<or> (d = 2 * r \<and> odd q) then Suc q else q)"

definition f64_div :: "nat \<Rightarrow> nat \<Rightarrow> f64" where
  "f64_div a b =
     (let k = norm_shift a b in \<lparr>mant = round_half_even (a * 2 ^ k) b, expo = k\<rparr>)"

definition f64_le :: "f64 \<Rightarrow> f64 \<Rightarrow> bool" where
  "f64_le x y = (mant x * 2 ^ expo y \<le> mant y * 2 ^ expo x)"

definition f64_one :: f64 where "f64_one = \<lparr>mant = 1, expo = 0\<rparr>"

section \<open>Facts\<close>

lemma norm_shift_enough: "0 < a \<Longrightarrow> b * 2 ^ 52 \<le> a * 2 ^ norm_shift a b"
proof (induction a b rule: norm_shift.induct)
  case (1 a b)
  show ?case
  proof (cases "b * 2 ^ 52 \<le> a")
    case True
    then show ?thesis by (simp add: norm_shift.simps [of a b])
  next
    case False
    with "1" have "b * 2 ^ 52 \<le> 2 * a * 2 ^ norm_shift (2 * a) b" by simp
    with False "1.prems" show ?thesis
      by (subst norm_shift.simps) (simp add: ac_simps)
  qed
qed

lemma round_half_even_bounds:
  assumes "0 < d"
  shows "2 * n \<le> 2 * (round_half_even n d * d) + d" "2 * (round_half_even n d * d) \<le> 2 * n + d"
proof -
  obtain q r where q: "q = n div d" and r: "r = n mod d" by simp
  obtain p where p: "p = q * d" by simp
  have n: "n = p + r" using q r p by simp
  have rd: "r < d" using assms r by simp
  have "2 * n \<le> 2 * (round_half_even n d * d) + d \<and> 2 * (round_half_even n d * d) \<le> 2 * n + d"
  proof (cases "d < 2 * r \<or> (d = 2 * r \<and> odd q)")
    case True
    then have "round_half_even n d = Suc q" by (simp add: round_half_even_def Let_def q r)
    then have e: "round_half_even n d * d = p + d" by (simp add: p)
    from True have "d \<le> 2 * r" by auto
    then show ?thesis unfolding e using n rd by simp
  next
    case False
    then have "round_half_even n d = q" by (auto simp: round_half_even_def Let_def q r)
    then have e: "round_half_even n d * d = p" by (simp add: p)
    from False have "2 * r \<le> d" by auto
    then show ?thesis unfolding e using n rd by simp
  qed
  then show "2 * n \<le> 2 * (round_half_even n d * d) + d" "2 * (round_half_even n d * d) \<le> 2 * n + d"
    by auto
qed

lemma round_half_even_exact: "0 < d \<Longrightarrow> round_half_even (q * d) d = q"
  by (simp add: round_half_even_def Let_def)

text \<open>The rounded quotient is off by at most half a unit in its last place.\<close>

lemma f64_div_half_ulp:
  assumes "0 < b"
  shows "2 * (a * 2 ^ expo (f64_div a b)) \<le> 2 * (mant (f64_div a b) * b) + b
       \<and> 2 * (mant (f64_div a b) * b) \<le> 2 * (a * 2 ^ expo (f64_div a b)) + b"
  using round_half_even_bounds [OF assms, of "a * 2 ^ norm_shift a b"]
  by (simp add: f64_div_def Let_def)

lemma f64_div_zero: "mant (f64_div 0 b) = 0"
  by (simp add: f64_div_def Let_def round_half_even_def norm_shift.simps)

lemma f64_div_self:
  assumes "0 < n"
  shows "f64_le r (f64_div n n) \<longleftrightarrow> f64_le r f64_one"
proof -
  let ?k = "norm_shift n n"
  have "round_half_even (n * 2 ^ ?k) n = 2 ^ ?k"
    using round_half_even_exact [OF assms, of "2 ^ ?k"] by (simp add: mult.commute)
  then show ?thesis
    by (simp add: f64_div_def f64_le_def f64_one_def Let_def)
qed

lemma f64_div_zero_le: "f64_le r (f64_div 0 b) \<longleftrightarrow> mant r = 0"
  using f64_div_zero [of b] by (simp add: f64_le_def)

lemma f64_div_half: "f64_div 1 2 = \<lparr>mant = 2 ^ 52, expo = 53\<rparr>"
  by (simp add: f64_div_def norm_shift.simps round_half_even_def)

end
