(* ===== verification/Breaker.thy ===== *)
theory Breaker
  imports Classify Float_Ratio
begin

text \<open>
  The circuit breaker of \<open>fusen/src/resilience/breaker.rs\<close>: its configuration, the ring of
  buckets behind the rolling window, the machine with the states Closed, Open and HalfOpen, and
  the permits that tie the completion of a call to the epoch it was admitted in.

  Every operation runs under the breaker's mutex and reads the clock once, so an operation is a
  function of the current instant and of the state.  \<^verbatim>\<open>notify\<close> passes a phase to the observer
  after the lock is released; the model returns that phase.
\<close>

section \<open>Configuration\<close>

record BreakerConfig =
  bc_window :: duration
  bc_buckets :: nat
  bc_minimum_samples :: nat
  bc_failure_ratio :: f64
  bc_open_duration :: duration
  bc_max_open_duration :: duration
  bc_half_open_concurrency :: nat
  bc_close_successes :: nat

definition HARD_MAX_OPEN_DURATION :: duration where
  "HARD_MAX_OPEN_DURATION = from_secs 120"

definition BreakerConfig_new ::
  "duration \<Rightarrow> nat \<Rightarrow> nat \<Rightarrow> f64 \<Rightarrow> duration \<Rightarrow> duration \<Rightarrow> nat \<Rightarrow> nat \<Rightarrow> BreakerConfig" where
  "BreakerConfig_new window buckets minimum_samples failure_ratio open_duration
       max_open_duration half_open_concurrency close_successes =
     \<lparr>bc_window = window, bc_buckets = buckets, bc_minimum_samples = minimum_samples,
      bc_failure_ratio = failure_ratio, bc_open_duration = open_duration,
      bc_max_open_duration = min max_open_duration HARD_MAX_OPEN_DURATION,
      bc_half_open_concurrency = half_open_concurrency,
      bc_close_successes = close_successes\<rparr>"

text \<open>What \<^verbatim>\<open>BreakerConfig::new\<close> asserts in debug builds and the client configuration validates.\<close>

definition config_ok :: "BreakerConfig \<Rightarrow> bool" where
  "config_ok c \<longleftrightarrow>
     0 < bc_window c \<and> 0 < bc_buckets c \<and> 0 < bc_minimum_samples c
     \<and> f64_le (bc_failure_ratio c) f64_one
     \<and> 0 < bc_open_duration c \<and> 0 < bc_max_open_duration c
     \<and> bc_max_open_duration c \<le> HARD_MAX_OPEN_DURATION
     \<and> 0 < bc_half_open_concurrency c \<and> 0 < bc_close_successes c"

definition initial_open_duration :: "BreakerConfig \<Rightarrow> duration" where
  "initial_open_duration c = min (bc_open_duration c) (bc_max_open_duration c)"

definition next_open_duration :: "BreakerConfig \<Rightarrow> duration \<Rightarrow> duration" where
  "next_open_duration c previous =
     min (case checked_mul_duration previous 2 of
            Some d \<Rightarrow> d
          | None \<Rightarrow> bc_max_open_duration c)
         (bc_max_open_duration c)"

section \<open>The rolling window\<close>

record Bucket =
  bk_successes :: nat
  bk_failures :: nat

definition Bucket_default :: Bucket where
  "Bucket_default = \<lparr>bk_successes = 0, bk_failures = 0\<rparr>"

record RollingWindow =
  rw_buckets :: "Bucket list"
  rw_current :: nat
  rw_current_start :: instant
  rw_bucket_width :: duration

definition RollingWindow_new :: "BreakerConfig \<Rightarrow> instant \<Rightarrow> RollingWindow" where
  "RollingWindow_new c now =
     \<lparr>rw_buckets = replicate (bc_buckets c) Bucket_default, rw_current = 0,
      rw_current_start = now, rw_bucket_width = max (bc_window c div bc_buckets c) 1\<rparr>"

text \<open>One turn of the loop in \<^verbatim>\<open>advance\<close>, and its \<open>steps\<close> turns.\<close>

definition rotate_once :: "RollingWindow \<Rightarrow> RollingWindow" where
  "rotate_once w =
     (let current = (rw_current w + 1) mod length (rw_buckets w)
      in w\<lparr>rw_current := current,
           rw_buckets := (rw_buckets w)[current := Bucket_default],
           rw_current_start := rw_current_start w + rw_bucket_width w\<rparr>)"

fun rotate_steps :: "nat \<Rightarrow> RollingWindow \<Rightarrow> RollingWindow" where
  "rotate_steps 0 w = w"
| "rotate_steps (Suc n) w = rotate_steps n (rotate_once w)"

definition advance :: "RollingWindow \<Rightarrow> instant \<Rightarrow> RollingWindow" where
  "advance w now =
     (let elapsed = saturating_duration_since now (rw_current_start w);
          steps = elapsed div rw_bucket_width w
      in if steps = 0 then w
         else if length (rw_buckets w) \<le> steps
         then w\<lparr>rw_buckets := replicate (length (rw_buckets w)) Bucket_default,
                rw_current := 0, rw_current_start := now\<rparr>
         else rotate_steps steps w)"

definition record_success :: "RollingWindow \<Rightarrow> RollingWindow" where
  "record_success w =
     w\<lparr>rw_buckets := (rw_buckets w)[rw_current w :=
          (rw_buckets w ! rw_current w)
            \<lparr>bk_successes := saturating_add U32_MAX (bk_successes (rw_buckets w ! rw_current w)) 1\<rparr>]\<rparr>"

definition record_failure :: "RollingWindow \<Rightarrow> RollingWindow" where
  "record_failure w =
     w\<lparr>rw_buckets := (rw_buckets w)[rw_current w :=
          (rw_buckets w ! rw_current w)
            \<lparr>bk_failures := saturating_add U32_MAX (bk_failures (rw_buckets w ! rw_current w)) 1\<rparr>]\<rparr>"

record WindowCounts =
  wc_successes :: nat
  wc_failures :: nat

definition window_counts :: "RollingWindow \<Rightarrow> WindowCounts" where
  "window_counts w =
     fold (\<lambda>b c. \<lparr>wc_successes = wc_successes c + bk_successes b,
                  wc_failures = wc_failures c + bk_failures b\<rparr>)
       (rw_buckets w) \<lparr>wc_successes = 0, wc_failures = 0\<rparr>"

definition samples :: "WindowCounts \<Rightarrow> nat" where
  "samples c = wc_successes c + wc_failures c"

definition threshold_exceeded :: "BreakerConfig \<Rightarrow> WindowCounts \<Rightarrow> bool" where
  "threshold_exceeded cfg c =
     (bc_minimum_samples cfg \<le> samples c
      \<and> f64_le (bc_failure_ratio cfg) (f64_div (wc_failures c) (samples c)))"

section \<open>The machine\<close>

datatype BreakerRejection =
  BR_Open (retry_after_hint: duration)
| BR_HalfOpenSaturated

datatype BreakerPhase = BP_Closed | BP_Open | BP_HalfOpen

datatype MachineState =
  MS_Closed RollingWindow
| MS_Open (ms_until: instant) (ms_duration: duration)
| MS_HalfOpen (in_flight: nat) (consecutive_successes: nat) (previous_open_duration: duration)

record BreakerInner =
  bi_epoch :: nat
  bi_state :: MachineState

datatype PermitPhase = PP_Closed | PP_HalfOpen

record PermitToken =
  pt_epoch :: nat
  pt_phase :: PermitPhase

datatype PermitOutcome =
  PO_Success
| PO_Failure FailureClass
| PO_Abandoned
| PO_Unattempted

definition epoch_next :: "nat \<Rightarrow> nat" where
  "epoch_next e = wrapping_add U64_MAX e 1"

definition breaker_initial :: "BreakerConfig \<Rightarrow> instant \<Rightarrow> BreakerInner" where
  "breaker_initial cfg now =
     \<lparr>bi_epoch = 0, bi_state = MS_Closed (RollingWindow_new cfg now)\<rparr>"

fun is_open :: "MachineState \<Rightarrow> bool" where
  "is_open (MS_Open _ _) = True"
| "is_open _ = False"

text \<open>
  \<^verbatim>\<open>try_acquire\<close>: its loop turns at most twice, since the only branch that does not return leaves
  the Open state.
\<close>

function acquire_loop ::
  "BreakerConfig \<Rightarrow> instant \<Rightarrow> BreakerInner \<Rightarrow> BreakerPhase option \<Rightarrow>
   (BreakerRejection + PermitToken) \<times> BreakerInner \<times> BreakerPhase option" where
  "acquire_loop cfg now inner transition =
     (case bi_state inner of
        MS_Closed window \<Rightarrow>
          (Inr \<lparr>pt_epoch = bi_epoch inner, pt_phase = PP_Closed\<rparr>,
           inner\<lparr>bi_state := MS_Closed (advance window now)\<rparr>, transition)
      | MS_Open until duration \<Rightarrow>
          if until \<le> now
          then acquire_loop cfg now
                 (inner\<lparr>bi_epoch := epoch_next (bi_epoch inner),
                        bi_state := MS_HalfOpen 0 0 duration\<rparr>) (Some BP_HalfOpen)
          else (Inl (BR_Open (saturating_duration_since until now)), inner, transition)
      | MS_HalfOpen fl cs prev \<Rightarrow>
          if bc_half_open_concurrency cfg \<le> fl
          then (Inl BR_HalfOpenSaturated, inner, transition)
          else (Inr \<lparr>pt_epoch = bi_epoch inner, pt_phase = PP_HalfOpen\<rparr>,
                inner\<lparr>bi_state := MS_HalfOpen (fl + 1) cs prev\<rparr>, transition))"
  by pat_completeness auto
termination
  by (relation "measure (\<lambda>(_, _, inner, _). if is_open (bi_state inner) then 1 else 0)") auto

declare acquire_loop.simps [simp del]

definition try_acquire ::
  "BreakerConfig \<Rightarrow> instant \<Rightarrow> BreakerInner \<Rightarrow>
   (BreakerRejection + PermitToken) \<times> BreakerInner \<times> BreakerPhase option" where
  "try_acquire cfg now inner = acquire_loop cfg now inner None"

definition complete_closed ::
  "BreakerConfig \<Rightarrow> BreakerInner \<Rightarrow> instant \<Rightarrow> BreakerImpact \<Rightarrow>
   BreakerInner \<times> BreakerPhase option" where
  "complete_closed cfg inner now impact =
     (case bi_state inner of
        MS_Closed window0 \<Rightarrow>
          (let window = advance window0 now
           in case impact of
                BI_Success \<Rightarrow>
                  (inner\<lparr>bi_state := MS_Closed (record_success window)\<rparr>, None)
              | BI_Failure \<Rightarrow>
                  (let window = record_failure window
                   in if threshold_exceeded cfg (window_counts window)
                      then (let duration = initial_open_duration cfg
                            in (inner\<lparr>bi_epoch := epoch_next (bi_epoch inner),
                                      bi_state := MS_Open (now + duration) duration\<rparr>,
                                Some BP_Open))
                      else (inner\<lparr>bi_state := MS_Closed window\<rparr>, None))
              | _ \<Rightarrow> (inner\<lparr>bi_state := MS_Closed window\<rparr>, None))
      | _ \<Rightarrow> (inner, None))"

definition complete_half_open ::
  "BreakerConfig \<Rightarrow> BreakerInner \<Rightarrow> instant \<Rightarrow> BreakerImpact \<Rightarrow>
   BreakerInner \<times> BreakerPhase option" where
  "complete_half_open cfg inner now impact =
     (case bi_state inner of
        MS_HalfOpen fl cs prev \<Rightarrow>
          (case impact of
             BI_Success \<Rightarrow>
               (let cs' = saturating_add U32_MAX cs 1
                in if bc_close_successes cfg \<le> cs'
                   then (inner\<lparr>bi_epoch := epoch_next (bi_epoch inner),
                               bi_state := MS_Closed (RollingWindow_new cfg now)\<rparr>,
                         Some BP_Closed)
                   else (inner\<lparr>bi_state := MS_HalfOpen (fl - 1) cs' prev\<rparr>, None))
           | BI_Failure \<Rightarrow>
               (let duration = next_open_duration cfg prev
                in (inner\<lparr>bi_epoch := epoch_next (bi_epoch inner),
                          bi_state := MS_Open (now + duration) duration\<rparr>, Some BP_Open))
           | _ \<Rightarrow> (inner\<lparr>bi_state := MS_HalfOpen (fl - 1) cs prev\<rparr>, None))
      | _ \<Rightarrow> (inner, None))"

fun outcome_impact :: "PermitOutcome \<Rightarrow> BreakerImpact" where
  "outcome_impact PO_Success = BI_Success"
| "outcome_impact (PO_Failure f) = breaker_impact f"
| "outcome_impact PO_Abandoned = BI_Ignore"
| "outcome_impact PO_Unattempted = BI_Unattempted"

definition complete ::
  "BreakerConfig \<Rightarrow> instant \<Rightarrow> BreakerInner \<Rightarrow> PermitToken \<Rightarrow> PermitOutcome \<Rightarrow>
   BreakerInner \<times> BreakerPhase option" where
  "complete cfg now inner token outcome =
     (let impact = outcome_impact outcome
      in if pt_epoch token \<noteq> bi_epoch inner then (inner, None)
         else case pt_phase token of
                PP_Closed \<Rightarrow> complete_closed cfg inner now impact
              | PP_HalfOpen \<Rightarrow> complete_half_open cfg inner now impact)"

text \<open>
  A permit holds its token until it is finished; \<^verbatim>\<open>finish\<close> takes the token out, so that dropping a
  finished permit does nothing.
\<close>

type_synonym BreakerPermit = "PermitToken option"

definition finish ::
  "BreakerConfig \<Rightarrow> instant \<Rightarrow> BreakerInner \<Rightarrow> BreakerPermit \<Rightarrow> PermitOutcome \<Rightarrow>
   BreakerInner \<times> BreakerPermit \<times> BreakerPhase option" where
  "finish cfg now inner permit outcome =
     (case permit of
        None \<Rightarrow> (inner, None, None)
      | Some token \<Rightarrow>
          (let (inner', phase) = complete cfg now inner token outcome in (inner', None, phase)))"

definition drop_permit ::
  "BreakerConfig \<Rightarrow> instant \<Rightarrow> BreakerInner \<Rightarrow> BreakerPermit \<Rightarrow>
   BreakerInner \<times> BreakerPermit \<times> BreakerPhase option" where
  "drop_permit cfg now inner permit = finish cfg now inner permit PO_Abandoned"

end
