(* ===== verification/Breaker_Window.thy ===== *)
theory Breaker_Window
  imports Breaker
begin

text \<open>
  The rolling window of the circuit breaker against its specification: the ring of buckets counts
  exactly the recorded events of a sliding suffix of time.  The specification is the log of the
  events, each with its instant and whether it was a failure; \<open>window_inv\<close> relates a ring to the
  log it represents, and every window operation keeps it.
\<close>

type_synonym event_log = "(instant \<times> bool) list"

definition slot_of :: "RollingWindow \<Rightarrow> nat \<Rightarrow> instant \<Rightarrow> bool" where
  "slot_of w j t \<longleftrightarrow>
     rw_current_start w \<le> t + j * rw_bucket_width w
     \<and> t + j * rw_bucket_width w < rw_current_start w + rw_bucket_width w"

definition slot_count :: "RollingWindow \<Rightarrow> bool \<Rightarrow> nat \<Rightarrow> event_log \<Rightarrow> nat" where
  "slot_count w b j es = length (filter (\<lambda>(t, f). f = b \<and> slot_of w j t) es)"

definition bucket_at :: "RollingWindow \<Rightarrow> nat \<Rightarrow> Bucket" where
  "bucket_at w j =
     rw_buckets w ! ((rw_current w + length (rw_buckets w) - j) mod length (rw_buckets w))"

definition window_inv :: "RollingWindow \<Rightarrow> event_log \<Rightarrow> bool" where
  "window_inv w es \<longleftrightarrow>
     0 < length (rw_buckets w) \<and> rw_current w < length (rw_buckets w)
     \<and> 0 < rw_bucket_width w
     \<and> (\<forall>(t, f) \<in> set es. t < rw_current_start w + rw_bucket_width w)
     \<and> (\<forall>j < length (rw_buckets w).
          bk_successes (bucket_at w j) = slot_count w False j es
          \<and> bk_failures (bucket_at w j) = slot_count w True j es)"

section \<open>New windows and rotation\<close>

lemma window_inv_new:
  assumes "0 < bc_buckets cfg"
  shows "window_inv (RollingWindow_new cfg t0) []"
  using assms by (auto simp: window_inv_def RollingWindow_new_def bucket_at_def slot_count_def
      Bucket_default_def)

lemma rotate_once_simps [simp]:
  "length (rw_buckets (rotate_once w)) = length (rw_buckets w)"
  "rw_bucket_width (rotate_once w) = rw_bucket_width w"
  "rw_current_start (rotate_once w) = rw_current_start w + rw_bucket_width w"
  by (simp_all add: rotate_once_def Let_def)

lemma ring_index_shift:
  assumes "c < n" and "0 < j" and "j < (n::nat)"
  shows "((c + 1) mod n + n - j) mod n = (c + n - (j - 1)) mod n"
proof -
  have "((c + 1) mod n + n - j) mod n = ((c + 1) mod n + (n - j)) mod n"
    using assms by simp
  also have "\<dots> = (c + 1 + (n - j)) mod n"
    by (simp add: mod_simps)
  also have "c + 1 + (n - j) = c + n - (j - 1)"
    using assms by simp
  finally show ?thesis .
qed

lemma ring_index_inj:
  assumes "c < n" and "j < n" and "i < (n::nat)" and "(c + n - j) mod n = (c + n - i) mod n"
  shows "j = i"
proof -
  have mod_cases: "(c + n - k) mod n = (if k \<le> c then c - k else c + n - k)" if "k < n" for k
    using assms(1) that by (auto simp: mod_if)
  show ?thesis
    using assms mod_cases [OF assms(2)] mod_cases [OF assms(3)] by (auto split: if_splits)
qed

lemma ring_index_neq:
  assumes "c < n" and "0 < j" and "j < (n::nat)"
  shows "(c + n - j) mod n \<noteq> c"
  using assms by (auto simp: mod_if)

lemma slot_of_rotate_once:
  "0 < j \<Longrightarrow> slot_of (rotate_once w) j t = slot_of w (j - 1) t"
  by (cases j) (auto simp: slot_of_def)

lemma bucket_at_rotate_once:
  assumes "rw_current w < length (rw_buckets w)" and "0 < j" and "j < length (rw_buckets w)"
  shows "bucket_at (rotate_once w) j = bucket_at w (j - 1)"
proof -
  let ?n = "length (rw_buckets w)" and ?c = "(rw_current w + 1) mod length (rw_buckets w)"
  have idx: "(?c + ?n - j) mod ?n = (rw_current w + ?n - (j - 1)) mod ?n"
    using assms by (intro ring_index_shift) auto
  have "(?c + ?n - j) mod ?n \<noteq> ?c"
    using assms by (intro ring_index_neq) (auto intro!: mod_less_divisor)
  then show ?thesis
    unfolding bucket_at_def rotate_once_def Let_def using idx by simp
qed

lemma bucket_at_rotate_once_0:
  assumes "0 < length (rw_buckets w)"
  shows "bucket_at (rotate_once w) 0 = Bucket_default"
  using assms by (simp add: bucket_at_def rotate_once_def Let_def)

lemma window_inv_rotate_once:
  assumes inv: "window_inv w es"
  shows "window_inv (rotate_once w) es"
proof -
  let ?n = "length (rw_buckets w)"
  have cur: "rw_current (rotate_once w) < ?n"
    using inv by (simp add: rotate_once_def Let_def window_inv_def)
  have old: "\<forall>(t, f) \<in> set es. t < rw_current_start w + rw_bucket_width w"
    using inv by (simp add: window_inv_def)
  have "bk_successes (bucket_at (rotate_once w) j) = slot_count (rotate_once w) False j es
      \<and> bk_failures (bucket_at (rotate_once w) j) = slot_count (rotate_once w) True j es"
    if j: "j < ?n" for j
  proof (cases "j = 0")
    case True
    have "slot_count (rotate_once w) b 0 es = 0" for b
      using old by (auto simp: slot_count_def slot_of_def filter_empty_conv)
    with True show ?thesis
      using inv by (simp add: bucket_at_rotate_once_0 Bucket_default_def window_inv_def)
  next
    case False
    then have "slot_count (rotate_once w) b j es = slot_count w b (j - 1) es" for b
      by (simp add: slot_count_def slot_of_rotate_once)
    with False j inv show ?thesis
      by (simp add: bucket_at_rotate_once window_inv_def)
  qed
  with inv cur old show ?thesis
    by (auto simp: window_inv_def)
qed

lemma rotate_steps_simps [simp]:
  "length (rw_buckets (rotate_steps n w)) = length (rw_buckets w)"
  "rw_bucket_width (rotate_steps n w) = rw_bucket_width w"
  "rw_current_start (rotate_steps n w) = rw_current_start w + n * rw_bucket_width w"
  by (induction n arbitrary: w) auto

lemma window_inv_rotate_steps: "window_inv w es \<Longrightarrow> window_inv (rotate_steps n w) es"
  by (induction n arbitrary: w) (auto intro: window_inv_rotate_once)

section \<open>Advancing and recording\<close>

lemma advance_simps [simp]:
  "length (rw_buckets (advance w now)) = length (rw_buckets w)"
  "rw_bucket_width (advance w now) = rw_bucket_width w"
  by (simp_all add: advance_def Let_def)

lemma advance_current:
  assumes "0 < rw_bucket_width w" and "rw_current_start w \<le> now"
  shows "rw_current_start (advance w now) \<le> now"
    "now < rw_current_start (advance w now) + rw_bucket_width w"
proof -
  let ?d = "now - rw_current_start w" and ?b = "rw_bucket_width w"
  have d: "?d = ?d div ?b * ?b + ?d mod ?b" by simp
  have m: "?d mod ?b < ?b" using assms by simp
  have "rw_current_start (advance w now) \<le> now
      \<and> now < rw_current_start (advance w now) + rw_bucket_width w"
  proof (cases "?d div ?b = 0")
    case True
    then have "?d < ?b" using assms by (simp add: div_eq_0_iff)
    with True assms show ?thesis
      by (auto simp: advance_def Let_def saturating_duration_since_def)
  next
    case nz: False
    show ?thesis
    proof (cases "length (rw_buckets w) \<le> ?d div ?b")
      case True
      with nz assms show ?thesis
        by (simp add: advance_def Let_def saturating_duration_since_def)
    next
      case False
      with nz have "rw_current_start (advance w now) = rw_current_start w + ?d div ?b * ?b"
        by (simp add: advance_def Let_def saturating_duration_since_def)
      then show ?thesis using d m assms(2) by linarith
    qed
  qed
  then show "rw_current_start (advance w now) \<le> now"
    "now < rw_current_start (advance w now) + rw_bucket_width w" by auto
qed

lemma window_inv_reset:
  assumes inv: "window_inv w es"
    and gap: "rw_current_start w + length (rw_buckets w) * rw_bucket_width w \<le> now"
  shows "window_inv (w\<lparr>rw_buckets := replicate (length (rw_buckets w)) Bucket_default,
                      rw_current := 0, rw_current_start := now\<rparr>) es"
    (is "window_inv ?w es")
proof -
  let ?n = "length (rw_buckets w)" and ?b = "rw_bucket_width w"
  have old: "t < rw_current_start w + ?b" if "(t, f) \<in> set es" for t f
    using inv that by (auto simp: window_inv_def)
  have pos: "0 < ?n" using inv by (simp add: window_inv_def)
  have none: "slot_count ?w c j es = 0" if "j < ?n" for c j
  proof -
    have "\<not> slot_of ?w j t" if "(t, f) \<in> set es" for t f
    proof -
      have "j * ?b + ?b \<le> ?n * ?b"
        using \<open>j < ?n\<close> by (metis Suc_leI add.commute mult_Suc mult_le_mono1)
      with old [OF that] gap have "t + j * ?b < now" by linarith
      then show ?thesis by (simp add: slot_of_def)
    qed
    then show ?thesis by (auto simp: slot_count_def filter_empty_conv)
  qed
  have "?b \<le> ?n * ?b" using mult_le_mono1 [of 1 ?n ?b] pos by (simp add: Suc_le_eq)
  with gap have "t < now + ?b" if "(t, f) \<in> set es" for t f
    using old [OF that] by linarith
  with inv none show ?thesis
    by (auto simp: window_inv_def bucket_at_def Bucket_default_def)
qed

lemma window_inv_advance:
  assumes inv: "window_inv w es" and "rw_current_start w \<le> now"
  shows "window_inv (advance w now) es"
proof -
  let ?d = "now - rw_current_start w" and ?b = "rw_bucket_width w"
  have gap: "rw_current_start w + length (rw_buckets w) * ?b \<le> now"
    if "length (rw_buckets w) \<le> ?d div ?b"
  proof -
    have "length (rw_buckets w) * ?b \<le> ?d div ?b * ?b" using that by (rule mult_le_mono1)
    also have "\<dots> \<le> ?d" by simp
    finally show ?thesis using assms(2) by simp
  qed
  show ?thesis
  proof (cases "length (rw_buckets w) \<le> ?d div ?b \<and> ?d div ?b \<noteq> 0")
    case True
    with window_inv_reset [OF inv] gap show ?thesis
      by (simp add: advance_def Let_def saturating_duration_since_def)
  next
    case False
    with inv window_inv_rotate_steps show ?thesis
      by (auto simp: advance_def Let_def saturating_duration_since_def)
  qed
qed

definition record_event :: "bool \<Rightarrow> RollingWindow \<Rightarrow> RollingWindow" where
  "record_event failed w = (if failed then record_failure w else record_success w)"

lemma record_event_simps [simp]:
  "length (rw_buckets (record_event f w)) = length (rw_buckets w)"
  "rw_bucket_width (record_event f w) = rw_bucket_width w"
  "rw_current_start (record_event f w) = rw_current_start w"
  "rw_current (record_event f w) = rw_current w"
  by (simp_all add: record_event_def record_success_def record_failure_def)

lemma slot_of_record_event [simp]: "slot_of (record_event f w) j t = slot_of w j t"
  by (simp add: slot_of_def)

lemma bucket_at_0: "rw_current w < length (rw_buckets w) \<Longrightarrow> bucket_at w 0 = rw_buckets w ! rw_current w"
  by (simp add: bucket_at_def)

lemma bucket_at_record_event_other:
  assumes "rw_current w < length (rw_buckets w)" and "0 < j" and "j < length (rw_buckets w)"
  shows "bucket_at (record_event f w) j = bucket_at w j"
proof -
  have "(rw_current w + length (rw_buckets w) - j) mod length (rw_buckets w) \<noteq> rw_current w"
    using assms by (rule ring_index_neq)
  then show ?thesis
    by (simp add: bucket_at_def record_event_def record_success_def record_failure_def)
qed

lemma slot_count_le: "slot_count w b j es \<le> length es"
  by (simp add: slot_count_def)

lemma window_inv_record_event:
  assumes inv: "window_inv w es"
    and cur: "rw_current_start w \<le> now" "now < rw_current_start w + rw_bucket_width w"
    and small: "length es < U32_MAX"
  shows "window_inv (record_event f w) (es @ [(now, f)])"
proof -
  let ?n = "length (rw_buckets w)"
  have len: "rw_current w < ?n" using inv by (simp add: window_inv_def)
  have slot0: "slot_of w 0 now" using cur by (simp add: slot_of_def)
  have slotj: "\<not> slot_of w j now" if "0 < j" for j
    using cur that by (cases j) (auto simp: slot_of_def)
  have count: "slot_count (record_event f w) b j (es @ [(now, f)])
      = slot_count w b j es + (if j = 0 \<and> f = b then 1 else 0)" for b j
    using slot0 slotj by (auto simp: slot_count_def)
  have cnt: "slot_count w b j es < U32_MAX" for b j
    using slot_count_le [of w b j es] small by linarith
  have "bk_successes (bucket_at (record_event f w) j)
        = slot_count (record_event f w) False j (es @ [(now, f)])
      \<and> bk_failures (bucket_at (record_event f w) j)
        = slot_count (record_event f w) True j (es @ [(now, f)])"
    if j: "j < ?n" for j
  proof (cases "j = 0")
    case True
    have b0: "bk_successes (rw_buckets w ! rw_current w) = slot_count w False 0 es"
      "bk_failures (rw_buckets w ! rw_current w) = slot_count w True 0 es"
      using inv j True len by (auto simp: window_inv_def bucket_at_0 [symmetric])
    show ?thesis
      unfolding True count using len b0 cnt [of False 0] cnt [of True 0]
      by (auto simp: bucket_at_0 record_event_def record_success_def record_failure_def
          saturating_add_exact)
  next
    case False
    with j len inv show ?thesis
      by (simp add: count bucket_at_record_event_other window_inv_def)
  qed
  with inv cur show ?thesis
    by (auto simp: window_inv_def)
qed

section \<open>What the counts mean\<close>

lemma slots_partition:
  assumes "t < rw_current_start w + rw_bucket_width w"
  shows "(\<Sum>j < Suc n. if slot_of w j t then 1 else (0::nat))
       = (if rw_current_start w \<le> t + n * rw_bucket_width w then 1 else 0)"
proof (induction n)
  case 0
  then show ?case using assms by (simp add: slot_of_def)
next
  case (Suc n)
  let ?c = "rw_current_start w" and ?b = "rw_bucket_width w"
  have "slot_of w (Suc n) t \<longleftrightarrow> ?c \<le> t + n * ?b + ?b \<and> t + n * ?b < ?c"
    by (auto simp: slot_of_def)
  then show ?case
    unfolding sum.lessThan_Suc [of _ "Suc n"] Suc.IH by auto
qed

lemma sum_slot_count:
  assumes "\<forall>(t, f) \<in> set es. t < rw_current_start w + rw_bucket_width w"
  shows "(\<Sum>j < Suc n. slot_count w b j es)
       = length (filter (\<lambda>(t, f). f = b \<and> rw_current_start w \<le> t + n * rw_bucket_width w) es)"
  using assms
proof (induction es)
  case Nil
  then show ?case by (simp add: slot_count_def)
next
  case (Cons e es)
  obtain t f where e: "e = (t, f)" by (cases e)
  have "(\<Sum>j < Suc n. slot_count w b j (e # es))
      = (\<Sum>j < Suc n. if f = b \<and> slot_of w j t then 1 else 0) + (\<Sum>j < Suc n. slot_count w b j es)"
    unfolding e slot_count_def by (subst sum.distrib [symmetric]) (auto intro!: sum.cong)
  moreover have "(\<Sum>j < Suc n. if f = b \<and> slot_of w j t then 1 else (0::nat))
      = (if f = b \<and> rw_current_start w \<le> t + n * rw_bucket_width w then 1 else 0)"
    using slots_partition [of t w n] Cons.prems e by (cases "f = b") auto
  ultimately show ?case
    using Cons by (auto simp: e)
qed

lemma bij_betw_ring:
  assumes "c < (n::nat)"
  shows "bij_betw (\<lambda>j. (c + n - j) mod n) {..<n} {..<n}"
proof -
  have inj: "inj_on (\<lambda>j. (c + n - j) mod n) {..<n}"
  proof (rule inj_onI)
    fix i j
    assume "i \<in> {..<n}" and "j \<in> {..<n}" and "(c + n - i) mod n = (c + n - j) mod n"
    then show "i = j" using ring_index_inj [OF assms] by (meson lessThan_iff)
  qed
  moreover have "(\<lambda>j. (c + n - j) mod n) ` {..<n} \<subseteq> {..<n}"
    using assms by (simp add: image_subset_iff)
  then have "(\<lambda>j. (c + n - j) mod n) ` {..<n} = {..<n}"
    using inj by (intro endo_inj_surj) simp_all
  ultimately show ?thesis by (simp add: bij_betw_def)
qed

lemma sum_buckets_ring:
  assumes "rw_current w < length (rw_buckets w)"
  shows "(\<Sum>b \<leftarrow> rw_buckets w. g b) = (\<Sum>j < length (rw_buckets w). (g (bucket_at w j) :: nat))"
proof -
  let ?n = "length (rw_buckets w)"
  have "(\<Sum>b \<leftarrow> rw_buckets w. g b) = (\<Sum>i < ?n. g (rw_buckets w ! i))"
    by (simp add: sum_list_sum_nth atLeast0LessThan)
  also have "\<dots> = (\<Sum>j < ?n. g (rw_buckets w ! ((rw_current w + ?n - j) mod ?n)))"
    by (rule sum.reindex_bij_betw [OF bij_betw_ring [OF assms], symmetric])
  finally show ?thesis by (simp add: bucket_at_def)
qed

lemma fold_window_counts:
  "fold (\<lambda>b c. \<lparr>wc_successes = wc_successes c + bk_successes b,
                wc_failures = wc_failures c + bk_failures b\<rparr>) bs c
   = \<lparr>wc_successes = wc_successes c + (\<Sum>b \<leftarrow> bs. bk_successes b),
      wc_failures = wc_failures c + (\<Sum>b \<leftarrow> bs. bk_failures b)\<rparr>"
  by (induction bs arbitrary: c) auto

lemma window_counts_eq:
  "window_counts w = \<lparr>wc_successes = (\<Sum>b \<leftarrow> rw_buckets w. bk_successes b),
                      wc_failures = (\<Sum>b \<leftarrow> rw_buckets w. bk_failures b)\<rparr>"
  by (simp add: window_counts_def fold_window_counts)

definition count_since :: "bool \<Rightarrow> instant \<Rightarrow> event_log \<Rightarrow> nat" where
  "count_since b lo es = length (filter (\<lambda>(t, f). f = b \<and> lo \<le> t) es)"

definition window_cutoff :: "RollingWindow \<Rightarrow> instant" where
  "window_cutoff w = rw_current_start w - (length (rw_buckets w) - 1) * rw_bucket_width w"

lemma window_counts_since:
  assumes "window_inv w es"
  shows "window_counts w = \<lparr>wc_successes = count_since False (window_cutoff w) es,
                            wc_failures = count_since True (window_cutoff w) es\<rparr>"
proof -
  let ?n = "length (rw_buckets w)"
  have inv: "rw_current w < ?n" "\<forall>(t, f) \<in> set es. t < rw_current_start w + rw_bucket_width w"
    "\<And>j. j < ?n \<Longrightarrow> bk_successes (bucket_at w j) = slot_count w False j es"
    "\<And>j. j < ?n \<Longrightarrow> bk_failures (bucket_at w j) = slot_count w True j es"
    using assms by (auto simp: window_inv_def)
  from inv(1) obtain m where m: "?n = Suc m" by (cases ?n) auto
  have cut: "rw_current_start w \<le> t + m * rw_bucket_width w \<longleftrightarrow> window_cutoff w \<le> t" for t
    by (auto simp: window_cutoff_def m)
  have since: "(\<Sum>j < ?n. slot_count w b j es) = count_since b (window_cutoff w) es" for b
    unfolding m sum_slot_count [OF inv(2)] count_since_def cut ..
  have "(\<Sum>j < ?n. bk_successes (bucket_at w j)) = (\<Sum>j < ?n. slot_count w False j es)"
    "(\<Sum>j < ?n. bk_failures (bucket_at w j)) = (\<Sum>j < ?n. slot_count w True j es)"
    by (rule sum.cong; use inv(3,4) in simp)+
  then show ?thesis
    unfolding window_counts_eq sum_buckets_ring [OF inv(1)] since by simp
qed

lemma window_cutoff_bounds:
  assumes "window_inv w es"
    and "rw_current_start w \<le> now" and "now < rw_current_start w + rw_bucket_width w"
  shows "now < t + (length (rw_buckets w) - 1) * rw_bucket_width w \<Longrightarrow> window_cutoff w \<le> t"
    and "window_cutoff w \<le> t \<Longrightarrow> now < t + length (rw_buckets w) * rw_bucket_width w"
proof -
  show "now < t + (length (rw_buckets w) - 1) * rw_bucket_width w \<Longrightarrow> window_cutoff w \<le> t"
    using assms by (auto simp: window_cutoff_def)
  assume "window_cutoff w \<le> t"
  then have "rw_current_start w \<le> t + (length (rw_buckets w) - 1) * rw_bucket_width w"
    by (auto simp: window_cutoff_def)
  moreover have "length (rw_buckets w) * rw_bucket_width w
      = (length (rw_buckets w) - 1) * rw_bucket_width w + rw_bucket_width w"
    using assms(1) by (cases "rw_buckets w") (auto simp: window_inv_def)
  ultimately show "now < t + length (rw_buckets w) * rw_bucket_width w"
    using assms(3) by linarith
qed

section \<open>Runs of a window\<close>

text \<open>Events in the order the breaker sees them: the window advances to each instant, then records.\<close>

fun window_run :: "RollingWindow \<Rightarrow> event_log \<Rightarrow> RollingWindow" where
  "window_run w [] = w"
| "window_run w ((t, f) # es) = window_run (record_event f (advance w t)) es"

fun times_ordered :: "instant \<Rightarrow> event_log \<Rightarrow> instant \<Rightarrow> bool" where
  "times_ordered t0 [] now = (t0 \<le> now)"
| "times_ordered t0 ((t, f) # es) now = (t0 \<le> t \<and> times_ordered t es now)"

lemma window_run_inv:
  assumes "window_inv w es" and "rw_current_start w \<le> t0" and "times_ordered t0 es' now"
    and "length es + length es' \<le> U32_MAX"
  shows "window_inv (window_run w es') (es @ es')
       \<and> rw_current_start (window_run w es') \<le> now
       \<and> length (rw_buckets (window_run w es')) = length (rw_buckets w)
       \<and> rw_bucket_width (window_run w es') = rw_bucket_width w"
  using assms
proof (induction es' arbitrary: w es t0)
  case Nil
  then show ?case by simp
next
  case (Cons e es')
  obtain t f where e: "e = (t, f)" by (cases e)
  let ?w = "record_event f (advance w t)"
  from Cons.prems e have t: "rw_current_start w \<le> t" and ord: "times_ordered t es' now"
    by auto
  have w: "0 < rw_bucket_width w" using Cons.prems(1) by (simp add: window_inv_def)
  have inv: "window_inv ?w (es @ [(t, f)])"
    by (rule window_inv_record_event)
       (use window_inv_advance [OF Cons.prems(1) t] advance_current [OF w t] Cons.prems(4) in auto)
  have "window_inv (window_run ?w es') ((es @ [(t, f)]) @ es')
      \<and> rw_current_start (window_run ?w es') \<le> now
      \<and> length (rw_buckets (window_run ?w es')) = length (rw_buckets ?w)
      \<and> rw_bucket_width (window_run ?w es') = rw_bucket_width ?w"
    by (rule Cons.IH [OF inv _ ord]) (use advance_current [OF w t] Cons.prems(4) in auto)
  then show ?case by (simp add: e)
qed

end
