(* ===== verification/Breaker_Machine.thy ===== *)
theory Breaker_Machine
  imports Breaker_Window
begin

text \<open>
  The properties of the circuit breaker: how its operations act on each machine state, the
  accounting of permits by epoch, when a closed breaker trips, how an open one recovers.
\<close>

section \<open>Operations on each state\<close>

lemma try_acquire_closed [breaker_simps]:
  "bi_state inner = MS_Closed w \<Longrightarrow>
   try_acquire cfg now inner =
     (Inr \<lparr>pt_epoch = bi_epoch inner, pt_phase = PP_Closed\<rparr>,
      inner\<lparr>bi_state := MS_Closed (advance w now)\<rparr>, None)"
  by (simp add: try_acquire_def acquire_loop.simps)

lemma try_acquire_open_early [breaker_simps]:
  "bi_state inner = MS_Open until d \<Longrightarrow> now < until \<Longrightarrow>
   try_acquire cfg now inner = (Inl (BR_Open (until - now)), inner, None)"
  by (simp add: try_acquire_def acquire_loop.simps saturating_duration_since_def)

lemma try_acquire_open_expired [breaker_simps]:
  "bi_state inner = MS_Open until d \<Longrightarrow> until \<le> now \<Longrightarrow> 0 < bc_half_open_concurrency cfg \<Longrightarrow>
   try_acquire cfg now inner =
     (Inr \<lparr>pt_epoch = epoch_next (bi_epoch inner), pt_phase = PP_HalfOpen\<rparr>,
      inner\<lparr>bi_epoch := epoch_next (bi_epoch inner), bi_state := MS_HalfOpen 1 0 d\<rparr>,
      Some BP_HalfOpen)"
  by (simp add: try_acquire_def acquire_loop.simps)

lemma try_acquire_half_open_saturated [breaker_simps]:
  "bi_state inner = MS_HalfOpen fl cs d \<Longrightarrow> bc_half_open_concurrency cfg \<le> fl \<Longrightarrow>
   try_acquire cfg now inner = (Inl BR_HalfOpenSaturated, inner, None)"
  by (simp add: try_acquire_def acquire_loop.simps)

lemma try_acquire_half_open [breaker_simps]:
  "bi_state inner = MS_HalfOpen fl cs d \<Longrightarrow> fl < bc_half_open_concurrency cfg \<Longrightarrow>
   try_acquire cfg now inner =
     (Inr \<lparr>pt_epoch = bi_epoch inner, pt_phase = PP_HalfOpen\<rparr>,
      inner\<lparr>bi_state := MS_HalfOpen (fl + 1) cs d\<rparr>, None)"
  by (simp add: try_acquire_def acquire_loop.simps)

lemma complete_stale [breaker_simps]:
  "pt_epoch tok \<noteq> bi_epoch inner \<Longrightarrow> complete cfg now inner tok out = (inner, None)"
  by (simp add: complete_def Let_def)

section \<open>A breaker with its outstanding permits\<close>

text \<open>
  The clients of one breaker: a permit is acquired, held for a while, and consumed by exactly one
  finish (\<^verbatim>\<open>succeed\<close>, \<^verbatim>\<open>fail\<close>, \<^verbatim>\<open>release_unattempted\<close> or the drop).  Any number of permits may be
  outstanding, across any number of state changes of the breaker.
\<close>

datatype breaker_op = Op_Acquire instant | Op_Finish instant nat PermitOutcome

record breaker_system =
  bs_inner :: BreakerInner
  bs_permits :: "BreakerPermit list"

fun system_step :: "BreakerConfig \<Rightarrow> breaker_system \<Rightarrow> breaker_op \<Rightarrow> breaker_system" where
  "system_step cfg s (Op_Acquire now) =
     (case try_acquire cfg now (bs_inner s) of
        (Inr tok, inner, _) \<Rightarrow> \<lparr>bs_inner = inner, bs_permits = bs_permits s @ [Some tok]\<rparr>
      | (Inl _, inner, _) \<Rightarrow> s\<lparr>bs_inner := inner\<rparr>)"
| "system_step cfg s (Op_Finish now i out) =
     (if i < length (bs_permits s)
      then \<lparr>bs_inner = fst (finish cfg now (bs_inner s) (bs_permits s ! i) out),
            bs_permits = take i (bs_permits s) @ drop (Suc i) (bs_permits s)\<rparr>
      else s)"

fun system_run :: "BreakerConfig \<Rightarrow> breaker_system \<Rightarrow> breaker_op list \<Rightarrow> breaker_system" where
  "system_run cfg s [] = s"
| "system_run cfg s (x # xs) = system_run cfg (system_step cfg s x) xs"

lemma system_run_append: "system_run cfg s (xs @ ys) = system_run cfg (system_run cfg s xs) ys"
  by (induction xs arbitrary: s) auto

definition system_initial :: "BreakerConfig \<Rightarrow> instant \<Rightarrow> breaker_system" where
  "system_initial cfg t0 = \<lparr>bs_inner = breaker_initial cfg t0, bs_permits = []\<rparr>"

definition in_epoch :: "nat \<Rightarrow> BreakerPermit \<Rightarrow> bool" where
  "in_epoch e p = (case p of None \<Rightarrow> False | Some t \<Rightarrow> pt_epoch t = e)"

definition permits_wf :: "nat \<Rightarrow> BreakerPermit list \<Rightarrow> bool" where
  "permits_wf e ps \<longleftrightarrow> (\<forall>p \<in> set ps. \<exists>t. p = Some t \<and> pt_epoch t \<le> e)"

definition phases_are :: "PermitPhase \<Rightarrow> nat \<Rightarrow> BreakerPermit list \<Rightarrow> bool" where
  "phases_are ph e ps \<longleftrightarrow> (\<forall>t. Some t \<in> set ps \<longrightarrow> pt_epoch t = e \<longrightarrow> pt_phase t = ph)"

definition epoch_count :: "nat \<Rightarrow> BreakerPermit list \<Rightarrow> nat" where
  "epoch_count e ps = length (filter (in_epoch e) ps)"

fun state_inv :: "BreakerConfig \<Rightarrow> nat \<Rightarrow> BreakerPermit list \<Rightarrow> MachineState \<Rightarrow> bool" where
  "state_inv cfg e ps (MS_Closed w) = phases_are PP_Closed e ps"
| "state_inv cfg e ps (MS_Open u d) = (epoch_count e ps = 0)"
| "state_inv cfg e ps (MS_HalfOpen fl cs d) =
     (phases_are PP_HalfOpen e ps \<and> fl = epoch_count e ps
      \<and> fl \<le> bc_half_open_concurrency cfg \<and> cs < bc_close_successes cfg)"

definition system_inv :: "BreakerConfig \<Rightarrow> nat \<Rightarrow> breaker_system \<Rightarrow> bool" where
  "system_inv cfg n s \<longleftrightarrow>
     bi_epoch (bs_inner s) \<le> n
     \<and> permits_wf (bi_epoch (bs_inner s)) (bs_permits s)
     \<and> state_inv cfg (bi_epoch (bs_inner s)) (bs_permits s) (bi_state (bs_inner s))"

lemma epoch_count_simps [simp]:
  "epoch_count e [] = 0"
  "epoch_count e (ps @ [Some t]) = epoch_count e ps + (if pt_epoch t = e then 1 else 0)"
  by (simp_all add: epoch_count_def in_epoch_def)

lemma fresh_epoch_unused:
  assumes "permits_wf e ps" and "e < e'"
  shows "epoch_count e' ps = 0" "phases_are ph e' ps" "permits_wf e' ps"
proof -
  have "\<not> in_epoch e' p" if "p \<in> set ps" for p
    using assms that by (fastforce simp: permits_wf_def in_epoch_def)
  then show "epoch_count e' ps = 0" by (simp add: epoch_count_def filter_empty_conv)
  show "phases_are ph e' ps" "permits_wf e' ps"
    using assms by (fastforce simp: permits_wf_def phases_are_def)+
qed

lemma epoch_next_Suc: "e < U64_MAX \<Longrightarrow> epoch_next e = Suc e"
  by (simp add: epoch_next_def wrapping_add_exact)

lemma removed_permits:
  assumes "i < length ps"
  shows "permits_wf e ps \<Longrightarrow> permits_wf e (take i ps @ drop (Suc i) ps)"
    "phases_are ph e ps \<Longrightarrow> phases_are ph e (take i ps @ drop (Suc i) ps)"
    "epoch_count e ps
     = epoch_count e (take i ps @ drop (Suc i) ps) + (if in_epoch e (ps ! i) then 1 else 0)"
proof -
  have sub: "set (take i ps @ drop (Suc i) ps) \<subseteq> set ps"
    by (auto dest: in_set_takeD in_set_dropD)
  then show "permits_wf e ps \<Longrightarrow> permits_wf e (take i ps @ drop (Suc i) ps)"
    "phases_are ph e ps \<Longrightarrow> phases_are ph e (take i ps @ drop (Suc i) ps)"
    unfolding permits_wf_def phases_are_def by blast+
  show "epoch_count e ps
     = epoch_count e (take i ps @ drop (Suc i) ps) + (if in_epoch e (ps ! i) then 1 else 0)"
    unfolding epoch_count_def by (rule length_filter_remove_nth [OF assms])
qed

lemma system_inv_initial: "system_inv cfg n (system_initial cfg t0)"
  by (simp add: system_inv_def system_initial_def breaker_initial_def permits_wf_def phases_are_def)

lemma system_inv_mono: "system_inv cfg n s \<Longrightarrow> n \<le> m \<Longrightarrow> system_inv cfg m s"
  by (simp add: system_inv_def)

lemma system_inv_acquire:
  assumes inv: "system_inv cfg n s" and n: "n < U64_MAX" and ok: "config_ok cfg"
  shows "system_inv cfg (Suc n) (system_step cfg s (Op_Acquire now))"
proof -
  let ?e = "bi_epoch (bs_inner s)"
  have e: "?e \<le> n" "permits_wf ?e (bs_permits s)"
    "state_inv cfg ?e (bs_permits s) (bi_state (bs_inner s))"
    using inv by (auto simp: system_inv_def)
  have conc: "0 < bc_half_open_concurrency cfg" "0 < bc_close_successes cfg"
    using ok by (auto simp: config_ok_def)
  show ?thesis
  proof (cases "bi_state (bs_inner s)")
    case (MS_Closed w)
    with e show ?thesis
      by (auto simp: try_acquire_closed system_inv_def permits_wf_def phases_are_def)
  next
    case (MS_Open u d)
    show ?thesis
    proof (cases "now < u")
      case True
      with MS_Open e show ?thesis by (simp add: try_acquire_open_early system_inv_def)
    next
      case False
      from e(1) n have nxt: "epoch_next ?e = Suc ?e" by (simp add: epoch_next_Suc)
      show ?thesis
        using False MS_Open conc e nxt fresh_epoch_unused [OF e(2), of "Suc ?e"]
        by (auto simp: try_acquire_open_expired system_inv_def permits_wf_def phases_are_def)
    qed
  next
    case (MS_HalfOpen fl cs d)
    show ?thesis
    proof (cases "fl < bc_half_open_concurrency cfg")
      case True
      with MS_HalfOpen e show ?thesis
        by (auto simp: try_acquire_half_open system_inv_def permits_wf_def phases_are_def)
    next
      case False
      with MS_HalfOpen e show ?thesis
        by (simp add: try_acquire_half_open_saturated system_inv_def)
    qed
  qed
qed

text \<open>What a completion in the current epoch does to the epoch and the state.\<close>

lemma complete_closed_cases:
  assumes "bi_state inner = MS_Closed w"
  shows "(\<exists>w'. fst (complete_closed cfg inner now imp) = inner\<lparr>bi_state := MS_Closed w'\<rparr>)
    \<or> (\<exists>u d. fst (complete_closed cfg inner now imp)
         = inner\<lparr>bi_epoch := epoch_next (bi_epoch inner), bi_state := MS_Open u d\<rparr>)"
  using assms by (cases imp) (auto simp: complete_closed_def Let_def)

lemma complete_half_open_cases:
  assumes "bi_state inner = MS_HalfOpen fl cs d" and "cs < bc_close_successes cfg"
  shows "(\<exists>cs'. fst (complete_half_open cfg inner now imp)
           = inner\<lparr>bi_state := MS_HalfOpen (fl - 1) cs' d\<rparr> \<and> cs' < bc_close_successes cfg)
    \<or> (\<exists>w. fst (complete_half_open cfg inner now imp)
         = inner\<lparr>bi_epoch := epoch_next (bi_epoch inner), bi_state := MS_Closed w\<rparr>)
    \<or> (\<exists>u d'. fst (complete_half_open cfg inner now imp)
         = inner\<lparr>bi_epoch := epoch_next (bi_epoch inner), bi_state := MS_Open u d'\<rparr>)"
  using assms by (cases imp) (auto simp: complete_half_open_def Let_def)

lemma finish_Some: "fst (finish cfg now inner (Some t) out) = fst (complete cfg now inner t out)"
  by (simp add: finish_def split: prod.splits)

lemma finish_None: "fst (finish cfg now inner None out) = inner"
  by (simp add: finish_def)

lemma system_inv_finish:
  assumes inv: "system_inv cfg n s" and n: "n < U64_MAX"
  shows "system_inv cfg (Suc n) (system_step cfg s (Op_Finish now i out))"
proof (cases "i < length (bs_permits s)")
  case False
  with inv show ?thesis by (simp add: system_inv_def)
next
  case i: True
  let ?e = "bi_epoch (bs_inner s)" and ?ps = "bs_permits s" and ?inner = "bs_inner s"
  let ?ps' = "take i ?ps @ drop (Suc i) ?ps"
  have e: "?e \<le> n" "permits_wf ?e ?ps" "state_inv cfg ?e ?ps (bi_state ?inner)"
    using inv by (auto simp: system_inv_def)
  from e(2) i obtain t where t: "?ps ! i = Some t" "Some t \<in> set ?ps"
    unfolding permits_wf_def by (metis nth_mem)
  note rem = removed_permits [OF i]
  from e(1) n have nxt: "epoch_next ?e = Suc ?e" by (simp add: epoch_next_Suc)
  note fresh = fresh_epoch_unused [OF rem(1) [OF e(2)], of "Suc ?e"]
  have step: "system_step cfg s (Op_Finish now i out)
      = \<lparr>bs_inner = fst (complete cfg now ?inner t out), bs_permits = ?ps'\<rparr>"
    using i t by (simp add: finish_Some)
  show ?thesis
  proof (cases "pt_epoch t = ?e")
    case False
    then have "state_inv cfg ?e ?ps' (bi_state ?inner)"
      using e(3) rem t by (cases "bi_state ?inner") (auto simp: in_epoch_def)
    with e rem(1) [OF e(2)] show ?thesis
      unfolding step complete_stale [OF False] by (simp add: system_inv_def)
  next
    case cur: True
    show ?thesis
    proof (cases "bi_state ?inner")
      case (MS_Closed w)
      with e(3) t(2) cur have "pt_phase t = PP_Closed" by (simp add: phases_are_def)
      with cur have eq: "fst (complete cfg now ?inner t out)
          = fst (complete_closed cfg ?inner now (outcome_impact out))"
        by (simp add: complete_def Let_def)
      show ?thesis
        unfolding step eq
        using complete_closed_cases [OF MS_Closed, of cfg now "outcome_impact out"]
          e rem MS_Closed fresh nxt by (auto simp: system_inv_def)
    next
      case (MS_Open u d)
      with e(3) t(2) cur have False
        by (auto simp: epoch_count_def filter_empty_conv in_epoch_def)
      then show ?thesis ..
    next
      case (MS_HalfOpen fl cs d)
      with e(3) t(2) cur have ph: "pt_phase t = PP_HalfOpen" by (simp add: phases_are_def)
      with cur have eq: "fst (complete cfg now ?inner t out)
          = fst (complete_half_open cfg ?inner now (outcome_impact out))"
        by (simp add: complete_def Let_def)
      have cs: "cs < bc_close_successes cfg" using e(3) MS_HalfOpen by simp
      have fl: "fl - 1 = epoch_count ?e ?ps'" "fl - 1 \<le> bc_half_open_concurrency cfg"
        using e(3) MS_HalfOpen rem(3) [of ?e] t(1) cur by (auto simp: in_epoch_def)
      show ?thesis
        unfolding step eq
        using complete_half_open_cases [OF MS_HalfOpen cs, of now "outcome_impact out"]
          e rem MS_HalfOpen fl fresh nxt by (auto simp: system_inv_def)
    qed
  qed
qed

lemma system_inv_step:
  "system_inv cfg n s \<Longrightarrow> n < U64_MAX \<Longrightarrow> config_ok cfg \<Longrightarrow>
   system_inv cfg (Suc n) (system_step cfg s op)"
  by (cases op) (simp_all only: system_inv_acquire system_inv_finish)

lemma system_inv_run:
  "system_inv cfg n s \<Longrightarrow> n + length ops \<le> U64_MAX \<Longrightarrow> config_ok cfg \<Longrightarrow>
   system_inv cfg (n + length ops) (system_run cfg s ops)"
proof (induction ops arbitrary: s n)
  case Nil
  then show ?case by simp
next
  case (Cons op ops)
  have "system_inv cfg (Suc n) (system_step cfg s op)"
    using Cons.prems by (intro system_inv_step) auto
  from Cons.IH [OF this] Cons.prems show ?case by simp
qed

lemmas reachable_inv = system_inv_run [OF system_inv_initial, of 0, simplified]


section \<open>When a closed breaker trips\<close>

text \<open>
  The completions of the permits of one closed epoch, in order.  An acquisition only advances the
  window, as a completion that is ignored does, so \<^const>\<open>PO_Abandoned\<close> stands for it as well.
\<close>

definition closed_token :: PermitToken where
  "closed_token = \<lparr>pt_epoch = 0, pt_phase = PP_Closed\<rparr>"

fun completions ::
  "BreakerConfig \<Rightarrow> BreakerInner \<Rightarrow> (instant \<times> PermitOutcome) list \<Rightarrow> BreakerInner" where
  "completions cfg inner [] = inner"
| "completions cfg inner ((t, out) # os) =
     completions cfg (fst (complete cfg t inner closed_token out)) os"

fun log_of :: "(instant \<times> PermitOutcome) list \<Rightarrow> event_log" where
  "log_of [] = []"
| "log_of ((t, out) # os) =
     (case outcome_impact out of
        BI_Success \<Rightarrow> [(t, False)]
      | BI_Failure \<Rightarrow> [(t, True)]
      | _ \<Rightarrow> []) @ log_of os"

fun outcomes_ordered :: "instant \<Rightarrow> (instant \<times> PermitOutcome) list \<Rightarrow> instant \<Rightarrow> bool" where
  "outcomes_ordered t0 [] now = (t0 \<le> now)"
| "outcomes_ordered t0 ((t, out) # os) now = (t0 \<le> t \<and> outcomes_ordered t os now)"

lemma length_log_of: "length (log_of os) \<le> length os"
  by (induction os rule: log_of.induct) (auto split: BreakerImpact.split)

lemma completions_stale: "bi_epoch inner \<noteq> 0 \<Longrightarrow> completions cfg inner os = inner"
  by (induction os arbitrary: inner) (auto simp: complete_stale closed_token_def)

definition closed_with :: "BreakerConfig \<Rightarrow> instant \<Rightarrow> event_log \<Rightarrow> BreakerInner \<Rightarrow> bool" where
  "closed_with cfg now es inner \<longleftrightarrow>
     bi_epoch inner = 0
     \<and> (\<exists>w. bi_state inner = MS_Closed w \<and> window_inv w es \<and> rw_current_start w \<le> now
          \<and> length (rw_buckets w) = bc_buckets cfg
          \<and> rw_bucket_width w = max (bc_window cfg div bc_buckets cfg) 1)"

lemma closed_with_initial: "0 < bc_buckets cfg \<Longrightarrow> closed_with cfg t0 [] (breaker_initial cfg t0)"
  using window_inv_new [of cfg t0]
  by (simp add: closed_with_def breaker_initial_def RollingWindow_new_def)

text \<open>
  One completion at an instant \<open>t\<close>: the breaker stays closed and its window represents the longer
  log, unless the completion is a failure that exceeds the threshold over the window.
\<close>

lemma complete_closed_with:
  fixes t :: instant and out :: PermitOutcome
  assumes closed: "closed_with cfg t0 es inner" and t: "t0 \<le> t" and len: "length es < U32_MAX"
  defines "inner' \<equiv> fst (complete cfg t inner closed_token out)"
  defines "es' \<equiv> es @ log_of [(t, out)]"
  shows "\<exists>lo. (\<forall>u. t < u + (bc_buckets cfg - 1) * max (bc_window cfg div bc_buckets cfg) 1 \<longrightarrow> lo \<le> u)
      \<and> (\<forall>u. lo \<le> u \<longrightarrow> t < u + bc_buckets cfg * max (bc_window cfg div bc_buckets cfg) 1)
      \<and> (if outcome_impact out = BI_Failure
            \<and> threshold_exceeded cfg \<lparr>wc_successes = count_since False lo es',
                                      wc_failures = count_since True lo es'\<rparr>
         then bi_epoch inner' = epoch_next 0
            \<and> bi_state inner' = MS_Open (t + initial_open_duration cfg) (initial_open_duration cfg)
         else closed_with cfg t es' inner')"
proof -
  from closed obtain w where w: "bi_epoch inner = 0" "bi_state inner = MS_Closed w"
    "window_inv w es" "rw_current_start w \<le> t0" "length (rw_buckets w) = bc_buckets cfg"
    "rw_bucket_width w = max (bc_window cfg div bc_buckets cfg) 1"
    by (auto simp: closed_with_def)
  let ?a = "advance w t"
  have le: "rw_current_start w \<le> t" using w(4) t by simp
  have pos: "0 < rw_bucket_width w" using w(3) by (simp add: window_inv_def)
  have a: "window_inv ?a es" "rw_current_start ?a \<le> t"
    "t < rw_current_start ?a + rw_bucket_width ?a"
    using window_inv_advance [OF w(3) le] advance_current [OF pos le] by auto
  have rec: "window_inv (record_event f ?a) (es @ [(t, f)])" for f
    by (rule window_inv_record_event [OF a len])
  let ?lo = "window_cutoff ?a"
  have cutoff: "window_cutoff (record_event f ?a) = ?lo" for f
    by (simp add: window_cutoff_def)
  have inner': "inner' = fst (complete_closed cfg inner t (outcome_impact out))"
    using w(1) by (simp add: inner'_def complete_def closed_token_def Let_def)
  have bounds: "\<forall>u. t < u + (bc_buckets cfg - 1) * max (bc_window cfg div bc_buckets cfg) 1 \<longrightarrow> ?lo \<le> u"
    "\<forall>u. ?lo \<le> u \<longrightarrow> t < u + bc_buckets cfg * max (bc_window cfg div bc_buckets cfg) 1"
    using window_cutoff_bounds [OF a] w(5,6) by simp_all
  have counts: "window_counts (record_failure ?a)
      = \<lparr>wc_successes = count_since False ?lo (es @ [(t, True)]),
         wc_failures = count_since True ?lo (es @ [(t, True)])\<rparr>"
    using window_counts_since [OF rec [of True]] cutoff [of True]
    by (simp add: record_event_def)
  have keep: "closed_with cfg t (es @ [(t, f)]) (inner\<lparr>bi_state := MS_Closed (record_event f ?a)\<rparr>)" for f
    using w a rec [of f] by (simp add: closed_with_def)
  have ignore: "closed_with cfg t es (inner\<lparr>bi_state := MS_Closed ?a\<rparr>)"
    using w a by (simp add: closed_with_def)
  have concl: "if outcome_impact out = BI_Failure
            \<and> threshold_exceeded cfg \<lparr>wc_successes = count_since False ?lo es',
                                      wc_failures = count_since True ?lo es'\<rparr>
         then bi_epoch inner' = epoch_next 0
            \<and> bi_state inner' = MS_Open (t + initial_open_duration cfg) (initial_open_duration cfg)
         else closed_with cfg t es' inner'"
    using w(1,2) counts keep [of True] keep [of False] ignore
    by (cases "outcome_impact out")
       (auto simp: inner' es'_def complete_closed_def Let_def record_event_def)
  show ?thesis
    by (rule exI [of _ ?lo]) (use bounds concl in blast)
qed

lemma U32_MAX_pos: "0 < U32_MAX"
  by (simp add: U32_MAX_def)

lemma epoch_next_0: "epoch_next 0 = 1"
  by (simp add: epoch_next_def wrapping_add_def U64_MAX_def)

lemma log_of_single_append: "log_of ((t, out) # os) = log_of [(t, out)] @ log_of os"
  by simp

lemma completions_closed:
  assumes "closed_with cfg t0 es inner" and "outcomes_ordered t0 os now"
    and "length es + length os \<le> U32_MAX"
    and "bi_state (completions cfg inner os) = MS_Closed w"
  shows "closed_with cfg now (es @ log_of os) (completions cfg inner os)"
  using assms
proof (induction os arbitrary: inner es t0)
  case Nil
  then show ?case by (auto simp: closed_with_def)
next
  case (Cons o1 os)
  obtain t out where o1: "o1 = (t, out)" by (cases o1)
  let ?inner = "fst (complete cfg t inner closed_token out)"
  from Cons.prems o1 have t: "t0 \<le> t" and ord: "outcomes_ordered t os now"
    and len: "length es < U32_MAX" by auto
  have "closed_with cfg t (es @ log_of [(t, out)]) ?inner
      \<or> (bi_epoch ?inner = 1 \<and> is_open (bi_state ?inner))"
    using complete_closed_with [OF Cons.prems(1) t len, of out] by (auto simp: epoch_next_0 split: if_splits)
  moreover have "\<not> (bi_epoch ?inner = 1 \<and> is_open (bi_state ?inner))"
    using Cons.prems(4) completions_stale [of ?inner cfg os] by (auto simp: o1)
  ultimately have c: "closed_with cfg t (es @ log_of [(t, out)]) ?inner" by blast
  have "closed_with cfg now ((es @ log_of [(t, out)]) @ log_of os) (completions cfg ?inner os)"
    by (rule Cons.IH [OF c ord])
       (use Cons.prems(3,4) length_log_of [of "[(t, out)]"] in \<open>auto simp: o1 split: BreakerImpact.splits\<close>)
  then show ?case by (simp add: o1)
qed


end
