(* ===== verification/Breaker_Properties.thy ===== *)
theory Breaker_Properties
  imports Breaker_Machine
begin

text \<open>
  The promises of the circuit breaker to the invocation layer, with the inputs that show each of
  them applies: the accounting of probes, progress after an outage, the bounds on the open
  interval, and what its observer is told.
\<close>

section \<open>Witness configuration\<close>

text \<open>Two samples at a failure ratio of one half over four buckets of 10 ns, one probe at a time.\<close>

definition demo_config :: BreakerConfig where
  "demo_config = BreakerConfig_new 40 4 2 \<lparr>mant = 1, expo = 1\<rparr> 100 300 1 2"

lemma demo_config_simps [simp]:
  "bc_window demo_config = 40" "bc_buckets demo_config = 4"
  "bc_minimum_samples demo_config = 2" "bc_failure_ratio demo_config = \<lparr>mant = 1, expo = 1\<rparr>"
  "bc_open_duration demo_config = 100" "bc_max_open_duration demo_config = 300"
  "bc_half_open_concurrency demo_config = 1" "bc_close_successes demo_config = 2"
  by (simp_all add: demo_config_def BreakerConfig_new_def HARD_MAX_OPEN_DURATION_def
      from_secs_def NANOS_PER_SEC_def)

lemma demo_config_ok: "config_ok demo_config"
  by (simp add: config_ok_def f64_le_def f64_one_def HARD_MAX_OPEN_DURATION_def
      from_secs_def NANOS_PER_SEC_def)

text \<open>One failure leaves the demonstration breaker closed.\<close>

lemma replicate_4: "replicate 4 x = [x, x, x, x]"
  by (simp add: eval_nat_numeral)

lemma demo_closed:
  "bi_state (completions demo_config (breaker_initial demo_config 0) [(5, PO_Failure FC_Connect)])
   = MS_Closed (record_failure (RollingWindow_new demo_config 0))"
  by (simp add: complete_def complete_closed_def closed_token_def breaker_initial_def
      RollingWindow_new_def advance_def saturating_duration_since_def record_failure_def
      window_counts_def threshold_exceeded_def samples_def Bucket_default_def
      saturating_add_def U32_MAX_def Let_def replicate_4)

section \<open>Tripping\<close>

lemma count_since_le: "count_since b lo es \<le> length (filter (\<lambda>(t, f). f = b) es)"
  unfolding count_since_def
  by (induction es) (auto split: prod.splits)

lemma count_since_sum_le: "count_since False lo es + count_since True lo es \<le> length es"
  unfolding count_since_def by (induction es) auto

lemma few_completions_stay_closed:
  assumes "closed_with cfg t0 es inner" and "outcomes_ordered t0 os now"
    and "length es + length os \<le> U32_MAX"
    and "length es + length (log_of os) < bc_minimum_samples cfg"
  shows "closed_with cfg now (es @ log_of os) (completions cfg inner os)"
  using assms
proof (induction os arbitrary: inner es t0)
  case Nil
  then show ?case by (auto simp: closed_with_def)
next
  case (Cons o1 os)
  obtain t out where o1: "o1 = (t, out)" by (cases o1)
  let ?inner = "fst (complete cfg t inner closed_token out)" and ?es = "es @ log_of [(t, out)]"
  from Cons.prems o1 have t: "t0 \<le> t" and ord: "outcomes_ordered t os now"
    and len: "length es < U32_MAX" by auto
  have few: "length ?es + length (log_of os) < bc_minimum_samples cfg"
    using Cons.prems(4) by (simp add: o1)
  have "\<not> threshold_exceeded cfg \<lparr>wc_successes = count_since False lo ?es,
                                  wc_failures = count_since True lo ?es\<rparr>" for lo
    using count_since_sum_le [of lo ?es] few by (simp add: threshold_exceeded_def samples_def)
  then have c: "closed_with cfg t ?es ?inner"
    using complete_closed_with [OF Cons.prems(1) t len, of out] by auto
  have "closed_with cfg now (?es @ log_of os) (completions cfg ?inner os)"
    by (rule Cons.IH [OF c ord _ few])
       (use Cons.prems(3) length_log_of [of "[(t, out)]"] in \<open>auto simp: o1 split: BreakerImpact.splits\<close>)
  then show ?case by (simp add: o1)
qed

text \<open>
  No false alarms: a fresh breaker that has recorded fewer than \<open>minimum_samples\<close> successes
  and failures is closed, whatever the failure ratio, the order and the instants of the
  completions, and however many of them were ignored.
\<close>
theorem breaker_closed_below_minimum:
  assumes "0 < bc_buckets cfg" and "outcomes_ordered t0 os now" and "length os \<le> U32_MAX"
    and "length (log_of os) < bc_minimum_samples cfg"
  shows "\<exists>w. bi_state (completions cfg (breaker_initial cfg t0) os) = MS_Closed w
           \<and> bi_epoch (completions cfg (breaker_initial cfg t0) os) = 0"
  using few_completions_stay_closed [OF closed_with_initial [OF assms(1)] assms(2)] assms(3,4)
  by (auto simp: closed_with_def)

theorem breaker_closed_below_minimum_witness:
  "bi_epoch (completions demo_config (breaker_initial demo_config 0)
     [(3, PO_Failure FC_Cancelled), (5, PO_Failure FC_Connect), (9, PO_Abandoned)]) = 0"
  using breaker_closed_below_minimum
    [of demo_config 0 "[(3, PO_Failure FC_Cancelled), (5, PO_Failure FC_Connect), (9, PO_Abandoned)]" 9]
  by (auto simp: U32_MAX_def)

lemma completions_append:
  "completions cfg inner (xs @ ys) = completions cfg (completions cfg inner xs) ys"
  by (induction xs arbitrary: inner) auto

lemma log_of_failures:
  assumes "\<forall>(t, out) \<in> set os. outcome_impact out = BI_Failure"
  shows "log_of os = map (\<lambda>(t, _). (t, True)) os"
  using assms by (induction os rule: log_of.induct) auto

lemma outcomes_ordered_bounds:
  "outcomes_ordered t0 os now \<Longrightarrow> t0 \<le> now \<and> (\<forall>(t, out) \<in> set os. t0 \<le> t \<and> t \<le> now)"
  by (induction t0 os now rule: outcomes_ordered.induct) force+

text \<open>
   An outage is detected at once: when every recorded completion of a fresh breaker failed,
  the failure that makes the sample count reach the minimum opens it, provided all of them fall
  within one bucket less than the window.  The open state lasts the initial open duration.
\<close>
theorem breaker_opens_on_outage:
  assumes ok: "config_ok cfg" and ord: "outcomes_ordered t0 os now"
    and fails: "\<forall>(t, out) \<in> set os. outcome_impact out = BI_Failure"
    and f: "breaker_impact f = BI_Failure"
    and n: "length os + 1 = bc_minimum_samples cfg" "bc_minimum_samples cfg \<le> U32_MAX"
    and recent: "now < t0 + (bc_buckets cfg - 1) * max (bc_window cfg div bc_buckets cfg) 1"
  shows "bi_state (completions cfg (breaker_initial cfg t0) (os @ [(now, PO_Failure f)]))
       = MS_Open (now + initial_open_duration cfg) (initial_open_duration cfg)"
proof -
  let ?inner = "completions cfg (breaker_initial cfg t0) os"
  have pos: "0 < bc_buckets cfg" using ok by (simp add: config_ok_def)
  have log: "log_of os = map (\<lambda>(t, _). (t, True)) os" by (rule log_of_failures [OF fails])
  have c: "closed_with cfg now (log_of os) ?inner"
    using few_completions_stay_closed [OF closed_with_initial [OF pos] ord] n by (simp add: log)
  obtain lo where lo: "\<forall>u. now < u + (bc_buckets cfg - 1) * max (bc_window cfg div bc_buckets cfg) 1 \<longrightarrow> lo \<le> u"
    and step: "if threshold_exceeded cfg
                   \<lparr>wc_successes = count_since False lo (log_of os @ [(now, True)]),
                    wc_failures = count_since True lo (log_of os @ [(now, True)])\<rparr>
      then bi_state (fst (complete cfg now ?inner closed_token (PO_Failure f)))
           = MS_Open (now + initial_open_duration cfg) (initial_open_duration cfg)
      else closed_with cfg now (log_of os @ [(now, True)])
             (fst (complete cfg now ?inner closed_token (PO_Failure f)))"
    using complete_closed_with [OF c order_refl, of "PO_Failure f"] f n
    by (auto simp: log split: if_splits)
  have since: "lo \<le> t" if "t0 \<le> t" for t
    using lo recent that by (meson add_le_mono1 order_less_le_trans)
  have "lo \<le> now" using since outcomes_ordered_bounds [OF ord] by simp
  moreover have "\<forall>(t, out) \<in> set os. lo \<le> t"
    using since outcomes_ordered_bounds [OF ord] by fastforce
  ultimately have cnt: "count_since True lo (log_of os @ [(now, True)]) = bc_minimum_samples cfg"
    "count_since False lo (log_of os @ [(now, True)]) = 0"
    using n(1) by (auto simp: count_since_def log filter_map o_def case_prod_unfold
        filter_id_conv simp flip: n(1))
  have "0 < bc_minimum_samples cfg" "f64_le (bc_failure_ratio cfg) f64_one"
    using ok by (auto simp: config_ok_def)
  then have "threshold_exceeded cfg
                   \<lparr>wc_successes = count_since False lo (log_of os @ [(now, True)]),
                    wc_failures = count_since True lo (log_of os @ [(now, True)])\<rparr>"
    by (simp add: threshold_exceeded_def samples_def cnt f64_div_self)
  with step show ?thesis by (simp add: completions_append)
qed

theorem breaker_opens_on_outage_witness:
  "bi_state (completions demo_config (breaker_initial demo_config 0)
     [(5, PO_Failure FC_Connect), (8, PO_Failure FC_Timeout)]) = MS_Open 108 100"
proof -
  have "bi_state (completions demo_config (breaker_initial demo_config 0)
          ([(5, PO_Failure FC_Connect)] @ [(8, PO_Failure FC_Timeout)]))
      = MS_Open (8 + initial_open_duration demo_config) (initial_open_duration demo_config)"
    by (rule breaker_opens_on_outage) (simp_all add: demo_config_ok U32_MAX_def)
  then show ?thesis by (simp add: initial_open_duration_def)
qed



section \<open>Probes\<close>

text \<open>
  C4.  Probe accounting.  In every state a breaker and its clients can reach (any interleaving of
  acquisitions, completions, drops of abandoned permits and releases of unattempted ones, with
  fewer than \<open>2 ^ 64\<close> operations so that the epoch does not wrap): while the breaker is half open,
  \<open>in_flight\<close> is exactly the number of live permits of the current epoch, it never exceeds
  \<open>half_open_concurrency\<close>, and the successes counted so far are below \<open>close_successes\<close>.  No permit
  of an earlier epoch is counted, none is leaked.
\<close>
theorem half_open_probe_accounting:
  assumes "config_ok cfg" and "length ops \<le> U64_MAX"
    and "system_run cfg (system_initial cfg t0) ops = s"
    and "bi_state (bs_inner s) = MS_HalfOpen fl cs prev"
  shows "fl = length (filter (in_epoch (bi_epoch (bs_inner s))) (bs_permits s))
       \<and> fl \<le> bc_half_open_concurrency cfg \<and> cs < bc_close_successes cfg"
  using reachable_inv [of ops cfg t0] assms
  by (simp add: system_inv_def epoch_count_def)

text \<open>The demonstration run: two failures open the breaker, a probe is admitted after 100 ns.\<close>

definition demo_ops :: "breaker_op list" where
  "demo_ops = [Op_Acquire 5, Op_Acquire 5, Op_Finish 5 0 (PO_Failure FC_Connect),
               Op_Acquire 6, Op_Finish 8 0 (PO_Failure FC_Timeout), Op_Acquire 50, Op_Acquire 120]"

lemma demo_reopen:
  "f64_le \<lparr>mant = Suc 0, expo = Suc 0\<rparr> (f64_div (Suc (Suc 0)) (Suc (Suc 0)))"
  by (simp add: f64_div_self) (simp add: f64_le_def f64_one_def)

definition demo_window :: "nat \<Rightarrow> RollingWindow" where
  "demo_window n =
     \<lparr>rw_buckets = [\<lparr>bk_successes = 0, bk_failures = n\<rparr>, Bucket_default, Bucket_default, Bucket_default],
      rw_current = 0, rw_current_start = 0, rw_bucket_width = 10\<rparr>"

definition demo_closed_state :: "nat \<Rightarrow> BreakerInner" where
  "demo_closed_state n = \<lparr>bi_epoch = 0, bi_state = MS_Closed (demo_window n)\<rparr>"

lemma demo_initial: "breaker_initial demo_config 0 = demo_closed_state 0"
  by (simp add: breaker_initial_def demo_closed_state_def demo_window_def RollingWindow_new_def
      Bucket_default_def replicate_4)

lemma demo_advance: "t < 10 \<Longrightarrow> advance (demo_window n) t = demo_window n"
  by (simp add: advance_def demo_window_def saturating_duration_since_def)

lemma demo_acquire:
  "t < 10 \<Longrightarrow> try_acquire demo_config t (demo_closed_state n)
     = (Inr closed_token, demo_closed_state n, None)"
  by (simp add: demo_closed_state_def try_acquire_closed demo_advance closed_token_def)

lemma demo_counts: "window_counts (demo_window n) = \<lparr>wc_successes = 0, wc_failures = n\<rparr>"
  by (simp add: window_counts_def demo_window_def Bucket_default_def)

lemma demo_record: "n < 5 \<Longrightarrow> record_failure (demo_window n) = demo_window (Suc n)"
  by (simp add: record_failure_def demo_window_def saturating_add_def U32_MAX_def)

lemma demo_fail_1:
  "fst (complete demo_config 5 (demo_closed_state 0) closed_token (PO_Failure FC_Connect))
   = demo_closed_state 1"
  by (simp add: complete_def closed_token_def demo_closed_state_def complete_closed_def
      demo_advance demo_record demo_counts threshold_exceeded_def samples_def Let_def)

lemma demo_fail_2:
  "fst (complete demo_config 8 (demo_closed_state 1) closed_token (PO_Failure FC_Timeout))
   = \<lparr>bi_epoch = 1, bi_state = MS_Open 108 100\<rparr>"
  by (simp add: complete_def closed_token_def demo_closed_state_def complete_closed_def
      demo_advance demo_record demo_counts threshold_exceeded_def samples_def Let_def
      demo_reopen initial_open_duration_def epoch_next_0)

lemma demo_open:
  "system_run demo_config (system_initial demo_config 0) (take 5 demo_ops)
   = \<lparr>bs_inner = \<lparr>bi_epoch = 1, bi_state = MS_Open 108 100\<rparr>, bs_permits = [Some closed_token]\<rparr>"
  using demo_fail_1 demo_fail_2
  by (simp add: demo_ops_def system_initial_def demo_initial demo_acquire finish_Some)

lemma demo_half_open:
  "system_run demo_config (system_initial demo_config 0) demo_ops
   = \<lparr>bs_inner = \<lparr>bi_epoch = 2, bi_state = MS_HalfOpen 1 0 100\<rparr>,
      bs_permits = [Some closed_token, Some (\<lparr>pt_epoch = 2, pt_phase = PP_HalfOpen\<rparr>)]\<rparr>"
proof -
  have "demo_ops = take 5 demo_ops @ [Op_Acquire 50, Op_Acquire 120]"
    by (simp add: demo_ops_def)
  then have "system_run demo_config (system_initial demo_config 0) demo_ops
    = system_run demo_config \<lparr>bs_inner = \<lparr>bi_epoch = 1, bi_state = MS_Open 108 100\<rparr>,
        bs_permits = [Some closed_token]\<rparr> [Op_Acquire 50, Op_Acquire 120]"
    by (metis system_run_append demo_open)
  then show ?thesis
    by (simp add: try_acquire_open_early try_acquire_open_expired epoch_next_def wrapping_add_def
        U64_MAX_def)
qed

lemma demo_ops_state:
  "bi_state (bs_inner (system_run demo_config (system_initial demo_config 0) demo_ops))
   = MS_HalfOpen 1 0 100"
  by (simp add: demo_half_open)

lemma demo_ops_length:
  "length demo_ops \<le> U64_MAX"
  "length (demo_ops @ [Op_Finish 121 0 PO_Success, Op_Finish 125 0 PO_Abandoned]) \<le> U64_MAX"
  by (simp_all add: demo_ops_def U64_MAX_def)

theorem half_open_probe_accounting_witness:
  "length (filter (in_epoch (bi_epoch (bs_inner
       (system_run demo_config (system_initial demo_config 0) demo_ops))))
     (bs_permits (system_run demo_config (system_initial demo_config 0) demo_ops))) = 1"
  using half_open_probe_accounting [OF demo_config_ok demo_ops_length(1) refl demo_ops_state] by simp

text \<open>
  The breaker never gets stuck: in every reachable state with no live permit, an acquisition
  at \<open>now\<close> is refused only by an open breaker whose interval has not ended.  A half-open breaker
  whose probes were all finished, abandoned or released admits the next probe.
\<close>
theorem idle_breaker_admits:
  assumes "config_ok cfg" and "length ops \<le> U64_MAX"
    and "system_run cfg (system_initial cfg t0) ops = s" and "bs_permits s = []"
  shows "(\<exists>tok. fst (try_acquire cfg now (bs_inner s)) = Inr tok)
       \<or> (\<exists>until d. bi_state (bs_inner s) = MS_Open until d \<and> now < until)"
proof -
  have inv: "system_inv cfg (length ops) s"
    using reachable_inv [of ops cfg t0] assms by simp
  have conc: "0 < bc_half_open_concurrency cfg" using assms(1) by (simp add: config_ok_def)
  show ?thesis
  proof (cases "bi_state (bs_inner s)")
    case (MS_Closed w)
    then show ?thesis by (simp add: try_acquire_closed)
  next
    case (MS_Open u d)
    with conc show ?thesis by (cases "now < u") (simp_all add: try_acquire_open_expired)
  next
    case (MS_HalfOpen fl cs d)
    with inv assms(4) conc show ?thesis
      by (simp add: system_inv_def try_acquire_half_open)
  qed
qed

theorem idle_breaker_admits_witness:
  "\<exists>tok. fst (try_acquire demo_config 130
     (bs_inner (system_run demo_config (system_initial demo_config 0)
        (demo_ops @ [Op_Finish 121 0 PO_Success, Op_Finish 125 0 PO_Abandoned])))) = Inr tok"
proof -
  let ?s = "system_run demo_config (system_initial demo_config 0)
        (demo_ops @ [Op_Finish 121 0 PO_Success, Op_Finish 125 0 PO_Abandoned])"
  have st: "bi_state (bs_inner ?s) = MS_HalfOpen 0 0 100" "bs_permits ?s = []"
    by (simp_all add: system_run_append demo_half_open finish_Some complete_def closed_token_def
        complete_half_open_def Let_def)
  show ?thesis
    using idle_breaker_admits [OF demo_config_ok demo_ops_length(2) refl st(2), of 130] st(1)
    by auto
qed

section \<open>Recovery and back-off\<close>

definition half_open_token :: "nat \<Rightarrow> PermitToken" where
  "half_open_token e = \<lparr>pt_epoch = e, pt_phase = PP_HalfOpen\<rparr>"

fun probe_results ::
  "BreakerConfig \<Rightarrow> nat \<Rightarrow> BreakerInner \<Rightarrow> (instant \<times> PermitOutcome) list \<Rightarrow> BreakerInner" where
  "probe_results cfg e inner [] = inner"
| "probe_results cfg e inner ((t, out) # os) =
     probe_results cfg e (fst (complete cfg t inner (half_open_token e) out)) os"

lemma complete_half_open_token:
  "bi_epoch inner = e \<Longrightarrow>
   fst (complete cfg t inner (half_open_token e) out)
   = fst (complete_half_open cfg inner t (outcome_impact out))"
  by (simp add: complete_def half_open_token_def Let_def)

lemma probes_below_close:
  assumes "bi_epoch inner = e" and "bi_state inner = MS_HalfOpen fl cs prev"
    and "\<forall>(t, out) \<in> set os. outcome_impact out = BI_Success"
    and "cs + length os < bc_close_successes cfg" and "bc_close_successes cfg \<le> U32_MAX"
  shows "probe_results cfg e inner os
       = inner\<lparr>bi_state := MS_HalfOpen (fl - length os) (cs + length os) prev\<rparr>"
  using assms
proof (induction os arbitrary: inner fl cs)
  case Nil
  then show ?case by (cases inner) simp
next
  case (Cons o1 os)
  obtain t out where o1: "o1 = (t, out)" by (cases o1)
  have "fst (complete cfg t inner (half_open_token e) out)
      = inner\<lparr>bi_state := MS_HalfOpen (fl - 1) (cs + 1) prev\<rparr>"
    using Cons.prems
    by (auto simp: o1 complete_half_open_token complete_half_open_def saturating_add_exact Let_def)
  then show ?case
    using Cons.IH [of "inner\<lparr>bi_state := MS_HalfOpen (fl - 1) (cs + 1) prev\<rparr>" "fl - 1" "cs + 1"]
      Cons.prems by (simp add: o1)
qed

lemma probe_results_append:
  "probe_results cfg e inner (xs @ ys) = probe_results cfg e (probe_results cfg e inner xs) ys"
  by (induction xs arbitrary: inner) auto

text \<open>
  Recovery: from the half-open state entered after an open interval, the
  \<open>close_successes\<close>-th successful probe closes the breaker with an empty window starting at that
  instant and a new epoch (so probes still in flight are ignored), not one probe earlier; and a
  failed probe at any point before reopens it for twice the previous interval, at most
  \<open>max_open_duration\<close>.
\<close>
theorem half_open_recovers_or_reopens:
  assumes st: "bi_state inner = MS_HalfOpen fl 0 prev" and e: "bi_epoch inner = e"
    and succ: "\<forall>(t, out) \<in> set os. outcome_impact out = BI_Success"
    and n: "length os + 1 \<le> bc_close_successes cfg" "bc_close_successes cfg \<le> U32_MAX"
    and prev: "prev \<le> bc_max_open_duration cfg" "bc_max_open_duration cfg \<le> HARD_MAX_OPEN_DURATION"
    and f: "breaker_impact f = BI_Failure"
  shows "bi_state (probe_results cfg e inner (os @ [(now, PO_Success)]))
       = (if length os + 1 = bc_close_successes cfg
          then MS_Closed (RollingWindow_new cfg now)
          else MS_HalfOpen (fl - (length os + 1)) (length os + 1) prev)
     \<and> bi_state (probe_results cfg e inner (os @ [(now, PO_Failure f)]))
       = (let d = min (2 * prev) (bc_max_open_duration cfg) in MS_Open (now + d) d)"
proof
  have mid: "probe_results cfg e inner os
      = inner\<lparr>bi_state := MS_HalfOpen (fl - length os) (length os) prev\<rparr>"
    using probes_below_close [OF e st succ] n by simp
  show "bi_state (probe_results cfg e inner (os @ [(now, PO_Success)]))
       = (if length os + 1 = bc_close_successes cfg
          then MS_Closed (RollingWindow_new cfg now)
          else MS_HalfOpen (fl - (length os + 1)) (length os + 1) prev)"
    using n e by (auto simp: probe_results_append mid complete_half_open_token
        complete_half_open_def saturating_add_exact Let_def)
  have "2 * prev < DURATION_LIMIT"
    using prev by (simp add: HARD_MAX_OPEN_DURATION_def from_secs_def DURATION_LIMIT_def
        NANOS_PER_SEC_def)
  then have "next_open_duration cfg prev = min (2 * prev) (bc_max_open_duration cfg)"
    by (simp add: next_open_duration_def checked_mul_duration_def mult.commute)
  then show "bi_state (probe_results cfg e inner (os @ [(now, PO_Failure f)]))
       = (let d = min (2 * prev) (bc_max_open_duration cfg) in MS_Open (now + d) d)"
    using e f by (simp add: probe_results_append mid complete_half_open_token
        complete_half_open_def Let_def)
qed

theorem half_open_recovers_or_reopens_witness:
  "bi_state (probe_results demo_config 2 \<lparr>bi_epoch = 2, bi_state = MS_HalfOpen 2 0 100\<rparr>
      [(130, PO_Success), (140, PO_Success)]) = MS_Closed (RollingWindow_new demo_config 140)
   \<and> bi_state (probe_results demo_config 2 \<lparr>bi_epoch = 2, bi_state = MS_HalfOpen 2 0 100\<rparr>
      [(130, PO_Success), (140, PO_Failure FC_Protocol)]) = MS_Open 340 200"
  using half_open_recovers_or_reopens
    [of "\<lparr>bi_epoch = 2, bi_state = MS_HalfOpen 2 0 100\<rparr>" 2 100 2 "[(130, PO_Success)]" demo_config
        FC_Protocol 140]
  by (simp add: U32_MAX_def HARD_MAX_OPEN_DURATION_def from_secs_def NANOS_PER_SEC_def)

text \<open>The durations of every reachable open interval, and the interval the half-open state recalls.\<close>

fun duration_ok :: "BreakerConfig \<Rightarrow> MachineState \<Rightarrow> bool" where
  "duration_ok cfg (MS_Closed w) = True"
| "duration_ok cfg (MS_Open u d) =
     (0 < d \<and> d \<le> bc_max_open_duration cfg \<and> initial_open_duration cfg \<le> d \<and> d \<le> u)"
| "duration_ok cfg (MS_HalfOpen fl cs d) =
     (0 < d \<and> d \<le> bc_max_open_duration cfg \<and> initial_open_duration cfg \<le> d)"

lemma next_open_duration_ok:
  assumes "0 < d" and "d \<le> bc_max_open_duration cfg" and "initial_open_duration cfg \<le> d"
  shows "0 < next_open_duration cfg d" "next_open_duration cfg d \<le> bc_max_open_duration cfg"
    "initial_open_duration cfg \<le> next_open_duration cfg d"
  using assms by (auto simp: next_open_duration_def checked_mul_duration_def initial_open_duration_def)

lemma duration_ok_acquire:
  assumes "config_ok cfg" and "duration_ok cfg (bi_state inner)"
  shows "duration_ok cfg (bi_state (fst (snd (try_acquire cfg now inner))))"
proof (cases "bi_state inner")
  case (MS_Open u d)
  with assms show ?thesis
    by (cases "now < u") (auto simp: try_acquire_open_early try_acquire_open_expired config_ok_def)
next
  case (MS_HalfOpen fl cs d)
  with assms show ?thesis
    by (cases "fl < bc_half_open_concurrency cfg")
       (auto simp: try_acquire_half_open try_acquire_half_open_saturated)
qed (simp add: try_acquire_closed)

lemma duration_ok_complete:
  assumes ok: "config_ok cfg" and d: "duration_ok cfg (bi_state inner)"
  shows "duration_ok cfg (bi_state (fst (complete cfg now inner tok out)))"
proof -
  have init: "0 < initial_open_duration cfg" "initial_open_duration cfg \<le> bc_max_open_duration cfg"
    using ok by (auto simp: config_ok_def initial_open_duration_def)
  have "duration_ok cfg (bi_state (fst (complete_closed cfg inner now imp)))" for imp
    using d init by (cases imp; cases "bi_state inner") (auto simp: complete_closed_def Let_def)
  moreover have "duration_ok cfg (bi_state (fst (complete_half_open cfg inner now imp)))" for imp
    using d by (cases imp; cases "bi_state inner")
      (auto simp: complete_half_open_def Let_def intro: next_open_duration_ok)
  ultimately show ?thesis
    using d by (auto simp: complete_def Let_def split: PermitPhase.split)
qed

lemma duration_ok_step:
  assumes "config_ok cfg" and "duration_ok cfg (bi_state (bs_inner s))"
  shows "duration_ok cfg (bi_state (bs_inner (system_step cfg s op)))"
proof (cases op)
  case (Op_Acquire now)
  with duration_ok_acquire [OF assms, of now] show ?thesis
    by (auto split: prod.splits sum.splits)
next
  case (Op_Finish now i out)
  have "duration_ok cfg (bi_state (fst (finish cfg now (bs_inner s) p out)))" for p
    using assms duration_ok_complete by (cases p) (simp_all add: finish_Some finish_None)
  with Op_Finish assms(2) show ?thesis by simp
qed

lemma duration_ok_run:
  "config_ok cfg \<Longrightarrow> duration_ok cfg (bi_state (bs_inner s)) \<Longrightarrow>
   duration_ok cfg (bi_state (bs_inner (system_run cfg s ops)))"
  by (induction ops arbitrary: s) (auto intro: duration_ok_step)

text \<open>
  An open interval is always positive, at least the initial open duration, at most
  \<open>max_open_duration\<close> and never longer than the hard limit of 120 seconds, however many failed
  probes doubled it; so the retry-after hint of a refusal never exceeds 120 seconds when the clock
  has reached the instant the breaker opened.
\<close>
theorem open_interval_bounded:
  assumes "config_ok cfg" and "system_run cfg (system_initial cfg t0) ops = s"
    and "bi_state (bs_inner s) = MS_Open until d"
  shows "0 < d \<and> initial_open_duration cfg \<le> d \<and> d \<le> from_secs 120
       \<and> (until - d \<le> now \<longrightarrow> now < until \<longrightarrow>
            (\<exists>r. fst (try_acquire cfg now (bs_inner s)) = Inl (BR_Open r) \<and> r \<le> d))"
proof -
  have "duration_ok cfg (bi_state (bs_inner (system_initial cfg t0)))"
    by (simp add: system_initial_def breaker_initial_def)
  then have "duration_ok cfg (MS_Open until d)"
    using duration_ok_run [OF assms(1), of "system_initial cfg t0" ops] assms(2,3) by simp
  with assms(1) have "0 < d" "initial_open_duration cfg \<le> d" "d \<le> from_secs 120"
    by (auto simp: config_ok_def HARD_MAX_OPEN_DURATION_def)
  with assms(3) show ?thesis by (auto simp: try_acquire_open_early)
qed

theorem open_interval_bounded_witness:
  "\<exists>r. fst (try_acquire demo_config 50 (bs_inner (system_run demo_config
        (system_initial demo_config 0) (take 5 demo_ops)))) = Inl (BR_Open r) \<and> r \<le> 100"
proof -
  have st: "bi_state (bs_inner (system_run demo_config (system_initial demo_config 0) (take 5 demo_ops)))
      = MS_Open 108 100"
    by (simp add: demo_open)
  show ?thesis
    using open_interval_bounded [OF demo_config_ok refl st, of 50] by simp
qed

section \<open>The observer\<close>

fun phase_of :: "MachineState \<Rightarrow> BreakerPhase" where
  "phase_of (MS_Closed w) = BP_Closed"
| "phase_of (MS_Open u d) = BP_Open"
| "phase_of (MS_HalfOpen fl cs d) = BP_HalfOpen"

definition reported :: "BreakerInner \<Rightarrow> BreakerInner \<Rightarrow> BreakerPhase option \<Rightarrow> bool" where
  "reported before after phase \<longleftrightarrow>
     (case phase of
        None \<Rightarrow> phase_of (bi_state after) = phase_of (bi_state before) \<and> bi_epoch after = bi_epoch before
      | Some p \<Rightarrow> phase_of (bi_state after) = p \<and> phase_of (bi_state before) \<noteq> p
                  \<and> bi_epoch after = epoch_next (bi_epoch before))"

lemma reported_same: "reported inner inner None"
  by (simp add: reported_def)

text \<open>
   The transition observer sees the life of the breaker exactly: an operation reports a phase
  if and only if it changed the phase, the reported phase is the one the breaker is in afterwards,
  and the epoch advances by one exactly on those operations (which is what makes the permits of
  the phase before it stale).
\<close>
theorem transitions_reported:
  assumes "config_ok cfg"
  shows "reported inner (fst (snd (try_acquire cfg now inner))) (snd (snd (try_acquire cfg now inner)))
       \<and> reported inner (fst (complete cfg now inner tok out)) (snd (complete cfg now inner tok out))"
proof
  have conc: "0 < bc_half_open_concurrency cfg" using assms by (simp add: config_ok_def)
  show "reported inner (fst (snd (try_acquire cfg now inner))) (snd (snd (try_acquire cfg now inner)))"
  proof (cases "bi_state inner")
    case (MS_Open u d)
    with conc show ?thesis
      by (cases "now < u") (auto simp: try_acquire_open_early try_acquire_open_expired reported_def)
  next
    case (MS_HalfOpen fl cs d)
    then show ?thesis
      by (cases "fl < bc_half_open_concurrency cfg")
         (auto simp: try_acquire_half_open try_acquire_half_open_saturated reported_def)
  qed (simp add: try_acquire_closed reported_def)
  have "reported inner (fst (complete_closed cfg inner now imp)) (snd (complete_closed cfg inner now imp))" for imp
    by (cases imp; cases "bi_state inner") (auto simp: complete_closed_def reported_def Let_def)
  moreover have "reported inner (fst (complete_half_open cfg inner now imp))
      (snd (complete_half_open cfg inner now imp))" for imp
    by (cases imp; cases "bi_state inner") (auto simp: complete_half_open_def reported_def Let_def)
  ultimately show "reported inner (fst (complete cfg now inner tok out)) (snd (complete cfg now inner tok out))"
    by (cases "pt_phase tok") (simp_all add: complete_def reported_same Let_def)
qed

theorem transitions_reported_witness:
  "snd (snd (try_acquire demo_config 120 \<lparr>bi_epoch = 1, bi_state = MS_Open 108 100\<rparr>)) = Some BP_HalfOpen
   \<and> reported \<lparr>bi_epoch = 1, bi_state = MS_Open 108 100\<rparr>
       (fst (snd (try_acquire demo_config 120 \<lparr>bi_epoch = 1, bi_state = MS_Open 108 100\<rparr>))) (Some BP_HalfOpen)"
  using transitions_reported [OF demo_config_ok, of "\<lparr>bi_epoch = 1, bi_state = MS_Open 108 100\<rparr>" 120]
  by (simp add: try_acquire_open_expired)

end
