(* ===== verification/Utf8.thy ===== *)
theory Utf8
  imports Prelude
begin

text \<open>
  The part of Rust's text model the sources rely on: decoding UTF-8 (\<^verbatim>\<open>String::from_utf8\<close>,
  \<^verbatim>\<open>str::chars\<close>), and the Unicode predicates \<^verbatim>\<open>char::is_whitespace\<close> and \<^verbatim>\<open>char::is_control\<close>.
\<close>

definition byte :: "char \<Rightarrow> nat" where "byte c = of_char c"

definition is_continuation :: "char \<Rightarrow> bool" where
  "is_continuation c = (128 \<le> byte c \<and> byte c < 192)"

text \<open>
  The well-formed byte sequences of the Unicode standard: overlong forms, surrogates and code
  points above 10FFFF are rejected.
\<close>

fun utf8_decode :: "char list \<Rightarrow> nat list option" where
  "utf8_decode [] = Some []"
| "utf8_decode (a # xs) =
     (let x = byte a
      in if x < 128 then map_option ((#) x) (utf8_decode xs)
         else if x < 224
         then (case xs of
                 b # ys \<Rightarrow>
                   if 194 \<le> x \<and> is_continuation b
                   then map_option ((#) ((x - 192) * 64 + (byte b - 128))) (utf8_decode ys)
                   else None
               | _ \<Rightarrow> None)
         else if x < 240
         then (case xs of
                 b # c # ys \<Rightarrow>
                   let v = (x - 224) * 4096 + (byte b - 128) * 64 + (byte c - 128)
                   in if is_continuation b \<and> is_continuation c \<and> 2048 \<le> v
                         \<and> \<not> (55296 \<le> v \<and> v < 57344)
                      then map_option ((#) v) (utf8_decode ys)
                      else None
               | _ \<Rightarrow> None)
         else if x < 248
         then (case xs of
                 b # c # d # ys \<Rightarrow>
                   let v = (x - 240) * 262144 + (byte b - 128) * 4096
                           + (byte c - 128) * 64 + (byte d - 128)
                   in if is_continuation b \<and> is_continuation c \<and> is_continuation d
                         \<and> 65536 \<le> v \<and> v < 1114112
                      then map_option ((#) v) (utf8_decode ys)
                      else None
               | _ \<Rightarrow> None)
         else None)"

text \<open>\<^verbatim>\<open>str::chars\<close>: a Rust string is valid UTF-8, so the second branch is never taken on one.\<close>

definition chars :: "string \<Rightarrow> nat list" where
  "chars s = (case utf8_decode s of Some cs \<Rightarrow> cs | None \<Rightarrow> [])"

definition char_is_whitespace :: "nat \<Rightarrow> bool" where
  "char_is_whitespace c =
     ((9 \<le> c \<and> c \<le> 13) \<or> c = 32 \<or> c = 133 \<or> c = 160 \<or> c = 5760
      \<or> (8192 \<le> c \<and> c \<le> 8202) \<or> c = 8232 \<or> c = 8233 \<or> c = 8239 \<or> c = 8287 \<or> c = 12288)"

definition char_is_control :: "nat \<Rightarrow> bool" where
  "char_is_control c = (c < 32 \<or> (127 \<le> c \<and> c < 160))"

definition trim_chars :: "nat list \<Rightarrow> nat list" where
  "trim_chars cs = rev (dropWhile char_is_whitespace (rev (dropWhile char_is_whitespace cs)))"

lemma utf8_decode_ascii:
  "\<forall>c \<in> set s. byte c < 128 \<Longrightarrow> utf8_decode s = Some (map byte s)"
  by (induction s rule: utf8_decode.induct) (auto simp: Let_def)

section \<open>ASCII text\<close>

text \<open>
  \<^verbatim>\<open>to_ascii_lowercase\<close>, and \<^verbatim>\<open>str::trim\<close> on the ASCII text of a header value: the ASCII code
  points among \<open>char_is_whitespace\<close>.
\<close>

definition to_ascii_lowercase :: "char \<Rightarrow> char" where
  "to_ascii_lowercase c = (if is_ascii_uppercase c then char_of (byte c + 32) else c)"

definition ascii_lowercase :: "string \<Rightarrow> string" where
  "ascii_lowercase s = map to_ascii_lowercase s"

definition eq_ignore_ascii_case :: "string \<Rightarrow> string \<Rightarrow> bool" where
  "eq_ignore_ascii_case a b = (ascii_lowercase a = ascii_lowercase b)"

definition trim_ascii :: "string \<Rightarrow> string" where
  "trim_ascii s =
     rev (dropWhile (\<lambda>c. char_is_whitespace (byte c))
           (rev (dropWhile (\<lambda>c. char_is_whitespace (byte c)) s)))"

end
