(* ===== verification/Contract.thy ===== *)
theory Contract
  imports Utf8 Float_Ratio
begin

text \<open>
  The pure service values of \<open>fusen-contract/src/service.rs\<close>: identifiers and metadata, the
  selector with its canonical identity, endpoints and weights, the HTTP operation with its route
  template, and the service descriptor.

  The text of an \<^verbatim>\<open>InvalidMethod\<close> error is modelled by its reason; the parts of the message that
  quote the offending path or value are left out.  The MIME parser and the URL parser are third
  party: the first is the argument \<open>mime_canon\<close> (parse, then print), a parsed URL is the record of
  the observations \<^verbatim>\<open>ServiceEndpoint::new\<close> makes of it.
\<close>

section \<open>Errors\<close>

datatype http_version = HTTP_09 | HTTP_10 | HTTP_11 | HTTP_2 | HTTP_3

datatype ContractError =
  InvalidIdentifier string
| InvalidSensitivityKind string
| InvalidInstanceId
| InvalidMetadataKey string
| InvalidEndpoint string
| InvalidWeight
| InvalidHttpBinding
| EmptyHttpVersionSet
| UnsupportedHttpVersion http_version
| EmptyHttpBindings
| EmptyMethods
| InvalidMethod string

section \<open>Identifiers and metadata\<close>

definition MAX_IDENTITY_BYTES :: nat where "MAX_IDENTITY_BYTES = 128"

definition identity_byte :: "char \<Rightarrow> bool" where
  "identity_byte c = (is_ascii_alphanumeric c \<or> c = CHR ''.'' \<or> c = CHR ''_'' \<or> c = CHR ''-'')"

definition is_identity_component :: "string \<Rightarrow> bool" where
  "is_identity_component v =
     (v \<noteq> [] \<and> length v \<le> MAX_IDENTITY_BYTES \<and> list_all identity_byte v)"

definition is_instance_id :: "string \<Rightarrow> bool" where
  "is_instance_id v =
     (v \<noteq> [] \<and> length v \<le> MAX_IDENTITY_BYTES
      \<and> list_all (\<lambda>c. identity_byte c \<or> c = CHR '':'') v)"

definition InstanceId_new :: "string \<Rightarrow> ContractError + string" where
  "InstanceId_new v = (if is_instance_id v then Inr v else Inl InvalidInstanceId)"

definition validate_identifier :: "string \<Rightarrow> string \<Rightarrow> ContractError + string" where
  "validate_identifier v field =
     (if is_identity_component v then Inr v else Inl (InvalidIdentifier field))"

definition validate_optional_identifier ::
  "string option \<Rightarrow> string \<Rightarrow> ContractError + string option" where
  "validate_optional_identifier v field =
     (case v of
        None \<Rightarrow> Inr None
      | Some v \<Rightarrow> bind_result (validate_identifier v field) (\<lambda>v. Inr (Some v)))"

definition service_identity :: "string \<Rightarrow> string option \<Rightarrow> string option \<Rightarrow> string" where
  "service_identity service_id grp version =
     service_id
     @ (case grp of Some g \<Rightarrow> CHR ''/'' # g | None \<Rightarrow> [])
     @ (case version of Some v \<Rightarrow> CHR ''@'' # v | None \<Rightarrow> [])"

text \<open>\<^verbatim>\<open>Metadata\<close> is a \<^verbatim>\<open>BTreeMap\<close>: its entries in key order.\<close>

type_synonym metadata = "(string \<times> string) list"

definition bad_metadata_key :: "string \<Rightarrow> bool" where
  "bad_metadata_key k =
     (k = [] \<or> trim_chars (chars k) \<noteq> chars k \<or> list_ex is_ascii_control k)"

definition validate_metadata_keys :: "metadata \<Rightarrow> ContractError + unit" where
  "validate_metadata_keys m =
     (case find bad_metadata_key (map fst m) of
        Some k \<Rightarrow> Inl (InvalidMetadataKey k)
      | None \<Rightarrow> Inr ())"

definition validate_user_metadata :: "metadata \<Rightarrow> ContractError + unit" where
  "validate_user_metadata m =
     bind_result (validate_metadata_keys m)
       (\<lambda>_. case find (starts_with ''fusen.'') (map fst m) of
              Some k \<Rightarrow> Inl (InvalidMetadataKey k)
            | None \<Rightarrow> Inr ())"

section \<open>Selectors, endpoints, weights\<close>

record ServiceSelector =
  ss_service_id :: string
  ss_group :: "string option"
  ss_version :: "string option"
  ss_metadata :: metadata
  ss_identity :: string

definition ServiceSelector_new ::
  "string \<Rightarrow> string option \<Rightarrow> string option \<Rightarrow> ContractError + ServiceSelector" where
  "ServiceSelector_new service_id grp version =
     bind_result (validate_identifier service_id ''service id'') (\<lambda>service_id.
     bind_result (validate_optional_identifier grp ''service group'') (\<lambda>grp.
     bind_result (validate_optional_identifier version ''service version'') (\<lambda>version.
       Inr \<lparr>ss_service_id = service_id, ss_group = grp, ss_version = version,
            ss_metadata = [], ss_identity = service_identity service_id grp version\<rparr>)))"

definition with_metadata :: "ServiceSelector \<Rightarrow> metadata \<Rightarrow> ContractError + ServiceSelector" where
  "with_metadata s m =
     bind_result (validate_user_metadata m) (\<lambda>_. Inr (s\<lparr>ss_metadata := m\<rparr>))"

record url =
  u_scheme :: string
  u_cannot_be_a_base :: bool
  u_host_str :: "string option"
  u_port_or_known_default :: "nat option"
  u_username :: string
  u_password :: "string option"
  u_query :: "string option"
  u_fragment :: "string option"
  u_as_str :: string

definition ServiceEndpoint_new :: "url \<Rightarrow> ContractError + url" where
  "ServiceEndpoint_new u =
     (if (u_scheme u = ''http'' \<or> u_scheme u = ''https'')
         \<and> \<not> u_cannot_be_a_base u
         \<and> u_host_str u \<noteq> None
         \<and> (case u_port_or_known_default u of Some p \<Rightarrow> p \<noteq> 0 | None \<Rightarrow> False)
         \<and> u_username u = []
         \<and> u_password u = None
         \<and> u_query u = None
         \<and> u_fragment u = None
      then Inr u
      else Inl (InvalidEndpoint
        ''expected an absolute HTTP or HTTPS URL without userinfo, a zero port, query, or fragment''))"

text \<open>Any \<open>f64\<close>: NaN, an infinity with its sign, or a finite number with its sign.\<close>

datatype float64 = F_NaN | F_Infinite bool | F_Finite bool f64

fun ServiceWeight_new :: "float64 \<Rightarrow> ContractError + f64" where
  "ServiceWeight_new (F_Finite False x) = (if 0 < mant x then Inr x else Inl InvalidWeight)"
| "ServiceWeight_new _ = Inl InvalidWeight"

section \<open>HTTP operations\<close>

datatype HttpParameterSource =
  PS_Path | PS_Query | PS_Header | PS_Cookie | PS_BodyField | PS_Body | PS_QueryMap | PS_HeaderMap

datatype HttpParameterCardinality = PC_Scalar | PC_Repeated

record HttpParameter =
  hp_name :: string
  hp_source :: HttpParameterSource
  hp_cardinality :: HttpParameterCardinality

definition HttpParameter_new ::
  "string \<Rightarrow> HttpParameterSource \<Rightarrow> HttpParameterCardinality \<Rightarrow> ContractError + HttpParameter" where
  "HttpParameter_new name source cardinality =
     bind_result (validate_identifier name ''HTTP parameter name'') (\<lambda>name.
       Inr \<lparr>hp_name = name, hp_source = source, hp_cardinality = cardinality\<rparr>)"

datatype http_method =
  M_GET | M_POST | M_PUT | M_PATCH | M_DELETE | M_HEAD | M_OPTIONS | M_CONNECT | M_TRACE
| M_Extension string

fun method_as_str :: "http_method \<Rightarrow> string" where
  "method_as_str M_GET = ''GET''"
| "method_as_str M_POST = ''POST''"
| "method_as_str M_PUT = ''PUT''"
| "method_as_str M_PATCH = ''PATCH''"
| "method_as_str M_DELETE = ''DELETE''"
| "method_as_str M_HEAD = ''HEAD''"
| "method_as_str M_OPTIONS = ''OPTIONS''"
| "method_as_str M_CONNECT = ''CONNECT''"
| "method_as_str M_TRACE = ''TRACE''"
| "method_as_str (M_Extension m) = m"

definition supported_method :: "http_method \<Rightarrow> bool" where
  "supported_method m =
     (m \<in> {M_GET, M_POST, M_PUT, M_PATCH, M_DELETE, M_HEAD, M_OPTIONS})"

fun uppercase_hex_value :: "char \<Rightarrow> nat option" where
  "uppercase_hex_value c =
     (if 48 \<le> byte c \<and> byte c \<le> 57 then Some (byte c - 48)
      else if 65 \<le> byte c \<and> byte c \<le> 70 then Some (byte c - 65 + 10)
      else None)"

definition is_route_pchar :: "char \<Rightarrow> bool" where
  "is_route_pchar c = (is_ascii_alphanumeric c \<or> c \<in> set ''-._~!$&''  \<or> c = CHR 0x27
      \<or> c \<in> set ''()*+,;=:@'')"

text \<open>The decoding loop of \<^verbatim>\<open>decode_route_literal\<close>, then its checks on the decoded text.\<close>

fun decode_literal_bytes :: "string \<Rightarrow> string + string" where
  "decode_literal_bytes [] = Inr []"
| "decode_literal_bytes (b # bs) =
     (if b = CHR ''%''
      then (case bs of
              h # l # rest \<Rightarrow>
                (case (uppercase_hex_value h, uppercase_hex_value l) of
                   (Some high, Some low) \<Rightarrow>
                     (let v = high * 16 + low
                      in if v < 128 then Inl ''ASCII route characters must not be percent encoded''
                         else bind_result (decode_literal_bytes rest)
                                (\<lambda>ds. Inr (char_of v # ds)))
                 | _ \<Rightarrow> Inl ''percent escapes must contain two uppercase hexadecimal digits'')
            | _ \<Rightarrow> Inl ''percent escapes must contain two uppercase hexadecimal digits'')
      else if \<not> is_route_pchar b
      then Inl ''literal segments must use ASCII RFC3986 path characters''
      else bind_result (decode_literal_bytes bs) (\<lambda>ds. Inr (b # ds)))"

definition decode_route_literal :: "string \<Rightarrow> string + string" where
  "decode_route_literal segment =
     bind_result (decode_literal_bytes segment) (\<lambda>decoded.
       case utf8_decode decoded of
         None \<Rightarrow> Inl ''percent-encoded route text must be valid UTF-8''
       | Some cs \<Rightarrow>
           if decoded = ''.'' \<or> decoded = ''..'' then Inl ''dot path segments are not allowed''
           else if list_ex char_is_whitespace cs \<or> list_ex char_is_control cs
           then Inl ''route literals must not contain whitespace or control characters''
           else Inr decoded)"

text \<open>\<^verbatim>\<open>path.contains("//")\<close>, \<^verbatim>\<open>ends_with('/')\<close>, and the non-empty segments of a path.\<close>

fun has_double_slash :: "string \<Rightarrow> bool" where
  "has_double_slash (a # b # cs) = ((a = CHR ''/'' \<and> b = CHR ''/'') \<or> has_double_slash (b # cs))"
| "has_double_slash _ = False"

definition path_segments :: "string \<Rightarrow> string list" where
  "path_segments path =
     filter (\<lambda>s. s \<noteq> []) (split_on (\<lambda>c. c = CHR ''/'') (trim_matches (CHR ''/'') path))"

text \<open>\<^verbatim>\<open>segment.strip_prefix('{').and_then(|v| v.strip_suffix('}'))\<close>\<close>

definition placeholder_name :: "string \<Rightarrow> string option" where
  "placeholder_name segment = Option.bind (strip_prefix ''{'' segment) (strip_suffix ''}'')"

fun scan_segments :: "string list \<Rightarrow> string list \<Rightarrow> ContractError + string list" where
  "scan_segments [] placeholders = Inr placeholders"
| "scan_segments (segment # rest) placeholders =
     (case placeholder_name segment of
        Some name \<Rightarrow>
          if \<not> is_identity_component name \<or> name \<in> set placeholders
          then Inl (InvalidMethod ''path parameters must be unique full ASCII token segments'')
          else scan_segments rest (name # placeholders)
      | None \<Rightarrow>
          if CHR ''{'' \<in> set segment \<or> CHR ''}'' \<in> set segment
          then Inl (InvalidMethod ''path parameters must occupy complete segments'')
          else (case decode_route_literal segment of
                  Inl reason \<Rightarrow> Inl (InvalidMethod reason)
                | Inr _ \<Rightarrow> scan_segments rest placeholders))"

definition validate_http_route :: "string \<Rightarrow> ContractError + string list" where
  "validate_http_route path =
     (if \<not> starts_with ''/'' path then Inl (InvalidMethod ''routes must be absolute'')
      else if CHR ''?'' \<in> set path \<or> CHR ''#'' \<in> set path
      then Inl (InvalidMethod ''query strings and fragments are not allowed'')
      else if has_double_slash path
      then Inl (InvalidMethod ''empty path segments are not canonical'')
      else if 1 < length path \<and> last path = CHR ''/''
      then Inl (InvalidMethod ''a trailing slash is not canonical'')
      else scan_segments (path_segments path) [])"

record parameter_scan =
  sc_names :: "string list"
  sc_path :: "string list"
  sc_body :: nat
  sc_body_field :: nat
  sc_query_map :: nat
  sc_header_map :: nat

definition count_source :: "HttpParameter \<Rightarrow> parameter_scan \<Rightarrow> parameter_scan" where
  "count_source p sc =
     (case hp_source p of
        PS_Path \<Rightarrow> sc\<lparr>sc_path := hp_name p # sc_path sc\<rparr>
      | PS_Body \<Rightarrow> sc\<lparr>sc_body := sc_body sc + 1\<rparr>
      | PS_BodyField \<Rightarrow> sc\<lparr>sc_body_field := sc_body_field sc + 1\<rparr>
      | PS_QueryMap \<Rightarrow> sc\<lparr>sc_query_map := sc_query_map sc + 1\<rparr>
      | PS_HeaderMap \<Rightarrow> sc\<lparr>sc_header_map := sc_header_map sc + 1\<rparr>
      | _ \<Rightarrow> sc)"

fun scan_parameters :: "HttpParameter list \<Rightarrow> parameter_scan \<Rightarrow> ContractError + parameter_scan" where
  "scan_parameters [] sc = Inr sc"
| "scan_parameters (p # ps) sc =
     (if hp_name p \<in> set (sc_names sc)
      then Inl (InvalidMethod ''duplicate HTTP parameter'')
      else if hp_cardinality p = PC_Repeated \<and> hp_source p \<noteq> PS_Query
      then Inl (InvalidMethod ''repeated parameters may use only the Query source'')
      else scan_parameters ps (count_source p (sc\<lparr>sc_names := hp_name p # sc_names sc\<rparr>)))"

definition empty_scan :: parameter_scan where
  "empty_scan = \<lparr>sc_names = [], sc_path = [], sc_body = 0, sc_body_field = 0, sc_query_map = 0,
                 sc_header_map = 0\<rparr>"

definition validate_http_operation ::
  "http_method \<Rightarrow> string \<Rightarrow> HttpParameter list \<Rightarrow> ContractError + unit" where
  "validate_http_operation method path parameters =
     (if \<not> supported_method method then Inl (InvalidMethod ''unsupported HTTP method'')
      else bind_result (validate_http_route path) (\<lambda>placeholders.
           bind_result (scan_parameters parameters empty_scan) (\<lambda>sc.
             if 1 < sc_body sc
             then Inl (InvalidMethod ''an HTTP operation permits at most one body parameter'')
             else if sc_body sc = 1 \<and> sc_body_field sc \<noteq> 0
             then Inl (InvalidMethod ''a complete JSON body cannot be combined with synthesized body fields'')
             else if 1 < sc_query_map sc
             then Inl (InvalidMethod ''an HTTP operation permits at most one QueryMap parameter'')
             else if 1 < sc_header_map sc
             then Inl (InvalidMethod ''an HTTP operation permits at most one HeaderMap parameter'')
             else if method \<in> {M_GET, M_HEAD, M_OPTIONS} \<and> sc_body sc + sc_body_field sc \<noteq> 0
             then Inl (InvalidMethod ''method does not accept a JSON request body'')
             else if set placeholders \<noteq> set (sc_path sc)
             then Inl (InvalidMethod ''HTTP route placeholders do not match Path parameters'')
             else Inr ())))"

record HttpOperation =
  ho_method :: http_method
  ho_path :: string
  ho_parameters :: "HttpParameter list"
  ho_consumes :: string
  ho_produces :: string

definition canonical_media_type ::
  "(string \<Rightarrow> string option) \<Rightarrow> string \<Rightarrow> ContractError + string" where
  "canonical_media_type mime_canon v =
     (case mime_canon v of
        Some m \<Rightarrow> Inr m
      | None \<Rightarrow> Inl (InvalidMethod ''expected a MIME media type''))"

definition HttpOperation_new ::
  "(string \<Rightarrow> string option) \<Rightarrow> http_method \<Rightarrow> string \<Rightarrow> HttpParameter list \<Rightarrow> string \<Rightarrow> string \<Rightarrow>
   ContractError + HttpOperation" where
  "HttpOperation_new mime_canon method path parameters consumes produces =
     bind_result (canonical_media_type mime_canon consumes) (\<lambda>consumes.
     bind_result (canonical_media_type mime_canon produces) (\<lambda>produces.
     bind_result (validate_http_operation method path parameters) (\<lambda>_.
       Inr \<lparr>ho_method = method, ho_path = path, ho_parameters = parameters,
            ho_consumes = consumes, ho_produces = produces\<rparr>)))"

section \<open>Descriptors\<close>

record MethodDescriptor =
  md_id :: nat
  md_invocation_name :: string
  md_http :: HttpOperation

definition MethodDescriptor_new ::
  "nat \<Rightarrow> string \<Rightarrow> HttpOperation \<Rightarrow> ContractError + MethodDescriptor" where
  "MethodDescriptor_new mid name http =
     bind_result (validate_identifier name ''invocation method name'') (\<lambda>name.
       Inr \<lparr>md_id = mid, md_invocation_name = name, md_http = http\<rparr>)"

definition allows_retries :: "MethodDescriptor \<Rightarrow> bool" where
  "allows_retries m = (ho_method (md_http m) \<in> {M_GET, M_HEAD, M_OPTIONS, M_PUT, M_DELETE})"

text \<open>The shape of a route: every placeholder segment becomes \<open>{}\<close>.\<close>

definition shape_segment :: "string \<Rightarrow> string" where
  "shape_segment s = (if starts_with ''{'' s then ''{}'' else s)"

definition http_route_shape :: "string \<Rightarrow> string" where
  "http_route_shape path =
     tl (concat (map (\<lambda>s. CHR ''/'' # shape_segment s) (split_on (\<lambda>c. c = CHR ''/'') path)))"

fun check_methods ::
  "nat \<Rightarrow> MethodDescriptor list \<Rightarrow> string list \<Rightarrow> (string \<times> string) list \<Rightarrow> ContractError + unit" where
  "check_methods index [] names routes = Inr ()"
| "check_methods index (m # ms) names routes =
     (if md_id m \<noteq> index then Inl (InvalidMethod ''method has non-contiguous local id'')
      else if md_invocation_name m \<in> set names
      then Inl (InvalidMethod ''duplicate invocation method name'')
      else let route = (method_as_str (ho_method (md_http m)), http_route_shape (ho_path (md_http m)))
           in if route \<in> set routes then Inl (InvalidMethod ''duplicate HTTP route'')
              else check_methods (Suc index) ms (md_invocation_name m # names) (route # routes))"

definition validate_methods :: "MethodDescriptor list \<Rightarrow> ContractError + unit" where
  "validate_methods ms = (if ms = [] then Inl EmptyMethods else check_methods 0 ms [] [])"

record ServiceDescriptor =
  sd_selector :: ServiceSelector
  sd_methods :: "MethodDescriptor list"

definition ServiceDescriptor_new ::
  "ServiceSelector \<Rightarrow> MethodDescriptor list \<Rightarrow> ContractError + ServiceDescriptor" where
  "ServiceDescriptor_new selector methods =
     bind_result (validate_methods methods) (\<lambda>_.
       Inr \<lparr>sd_selector = selector, sd_methods = methods\<rparr>)"

definition descriptor_method :: "ServiceDescriptor \<Rightarrow> nat \<Rightarrow> MethodDescriptor option" where
  "descriptor_method d i =
     (if i < length (sd_methods d)
      then (if md_id (sd_methods d ! i) = i then Some (sd_methods d ! i) else None)
      else None)"

end
