(* ===== verification/Ordered_Map.thy ===== *)
theory Ordered_Map
  imports Prelude "HOL-Library.Char_ord" "HOL-Library.List_Lexorder" "HOL-Library.AList"
begin

text \<open>
  Rust's maps as the sources use them.  A \<^verbatim>\<open>BTreeMap\<close> (and the \<^verbatim>\<open>serde_json::Map\<close> built on it) is
  the list of its entries in key order; a \<^verbatim>\<open>HashMap\<close> is an association list whose order the
  operations never depend on.  Both provide the interface \<open>dictionary\<close>, which the components that
  collect entries into a map rest on.  \<^verbatim>\<open><[T]>::binary_search\<close> is here too.
\<close>

section \<open>The interface of a map\<close>

locale dictionary =
  fixes empty :: "'m"
    and insert :: "'k \<Rightarrow> 'v \<Rightarrow> 'm \<Rightarrow> 'm"
    and lookup :: "'m \<Rightarrow> 'k \<Rightarrow> 'v option"
    and ok :: "'m \<Rightarrow> bool"
  assumes ok_empty: "ok empty"
    and ok_insert: "ok m \<Longrightarrow> ok (insert k v m)"
    and lookup_empty: "lookup empty k = None"
    and lookup_insert: "ok m \<Longrightarrow> lookup (insert k v m) k' = (if k' = k then Some v else lookup m k')"
begin

lemma ok_collect: "ok m \<Longrightarrow> ok (fold (\<lambda>(k, v). insert k v) kvs m)"
  by (induction kvs arbitrary: m) (auto simp: ok_insert)

text \<open>The last value collected under a key wins.\<close>

lemma lookup_collect:
  "ok m \<Longrightarrow> lookup (fold (\<lambda>(k, v). insert k v) kvs m) k =
     (case map_of (rev kvs) k of Some v \<Rightarrow> Some v | None \<Rightarrow> lookup m k)"
  by (induction kvs arbitrary: m)
    (auto simp: ok_insert lookup_insert map_add_def split: option.splits)

lemma lookup_collect_empty:
  "lookup (fold (\<lambda>(k, v). insert k v) kvs empty) k = map_of (rev kvs) k"
  by (simp add: lookup_collect ok_empty lookup_empty split: option.splits)

lemma lookup_collect_distinct:
  assumes "distinct (map fst kvs)"
  shows "lookup (fold (\<lambda>(k, v). insert k v) kvs empty) k = map_of kvs k"
proof -
  have "map_of (rev kvs) = map_of kvs"
    using assms by (simp add: map_of_inject_set rev_map [symmetric])
  then show ?thesis by (simp add: lookup_collect_empty)
qed

end

section \<open>Maps in key order\<close>

fun bt_insert :: "'k::linorder \<Rightarrow> 'v \<Rightarrow> ('k \<times> 'v) list \<Rightarrow> ('k \<times> 'v) list" where
  "bt_insert k v [] = [(k, v)]"
| "bt_insert k v ((k', v') # m) =
     (if k < k' then (k, v) # (k', v') # m
      else if k = k' then (k, v) # m
      else (k', v') # bt_insert k v m)"

definition bt_ok :: "('k::linorder \<times> 'v) list \<Rightarrow> bool" where
  "bt_ok m = (sorted (map fst m) \<and> distinct (map fst m))"

lemma bt_insert_keys: "fst ` set (bt_insert k v m) = Set.insert k (fst ` set m)"
  by (induction k v m rule: bt_insert.induct) auto

lemma bt_ok_insert: "bt_ok m \<Longrightarrow> bt_ok (bt_insert k v m)"
proof (induction k v m rule: bt_insert.induct)
  case (2 k v k' v' m)
  have "fst ` set (bt_insert k v m) = Set.insert k (fst ` set m)" by (rule bt_insert_keys)
  with 2 show ?case by (auto simp: bt_ok_def)
qed (simp add: bt_ok_def)

lemma map_of_bt_insert: "bt_ok m \<Longrightarrow> map_of (bt_insert k v m) k' = (if k' = k then Some v else map_of m k')"
proof (induction k v m rule: bt_insert.induct)
  case (2 k v k'' v' m)
  then show ?case by (auto simp: bt_ok_def)
qed simp

interpretation bt: dictionary "[]" bt_insert map_of bt_ok
  by unfold_locales (auto simp: bt_ok_insert map_of_bt_insert, simp add: bt_ok_def)

interpretation hm: dictionary "[]" AList.update map_of "\<lambda>m. distinct (map fst m)"
  by unfold_locales (auto simp: distinct_update update_conv')

text \<open>\<^verbatim>\<open>collect()\<close> into a \<^verbatim>\<open>BTreeMap\<close> and into a \<^verbatim>\<open>BTreeSet\<close>.\<close>

definition bt_collect :: "('k::linorder \<times> 'v) list \<Rightarrow> ('k \<times> 'v) list" where
  "bt_collect kvs = fold (\<lambda>(k, v). bt_insert k v) kvs []"

definition bt_collect_set :: "'k::linorder list \<Rightarrow> 'k list" where
  "bt_collect_set ks = map fst (bt_collect (map (\<lambda>k. (k, ())) ks))"

lemma bt_ok_collect [simp]: "bt_ok (bt_collect kvs)"
  unfolding bt_collect_def by (intro bt.ok_collect bt.ok_empty)

lemma fold_bt_insert_keys:
  "fst ` set (fold (\<lambda>(k, v). bt_insert k v) kvs m) = fst ` set kvs \<union> fst ` set m"
proof (induction kvs arbitrary: m)
  case (Cons kv kvs)
  then show ?case using bt_insert_keys[of "fst kv" "snd kv" m] by (simp add: case_prod_beta)
qed simp

lemma set_bt_collect_set [simp]: "set (bt_collect_set ks) = set ks"
  using fold_bt_insert_keys[of "map (\<lambda>k. (k, ())) ks" "[]"]
  by (simp add: bt_collect_set_def bt_collect_def image_image)

lemma sorted_bt_collect_set [simp]: "sorted (bt_collect_set ks)" "distinct (bt_collect_set ks)"
  using bt_ok_collect[of "map (\<lambda>k. (k, ())) ks"] by (simp_all add: bt_collect_set_def bt_ok_def)

section \<open>Binary search\<close>

text \<open>
  \<^verbatim>\<open>binary_search(x).is_ok()\<close> on the slice between \<open>l\<close> and \<open>r\<close>: halve the interval until it is
  empty or the middle element is \<open>x\<close>.
\<close>

function binary_search :: "'k::linorder list \<Rightarrow> 'k \<Rightarrow> nat \<Rightarrow> nat \<Rightarrow> bool" where
  "binary_search xs x l r =
     (if r \<le> l then False
      else (let m = (l + r) div 2
            in if xs ! m = x then True
               else if xs ! m < x then binary_search xs x (Suc m) r
               else binary_search xs x l m))"
  by pat_completeness auto
termination by (relation "measure (\<lambda>(xs, x, l, r). r - l)") auto

declare binary_search.simps [simp del]

lemma binary_search_right:
  assumes "\<not> r \<le> l" "m = (l + r) div 2" "xs ! m < x"
  shows "binary_search xs x l r = binary_search xs x (Suc m) r"
proof -
  have "xs ! m \<noteq> x" using assms(3) by (rule less_imp_neq)
  then show ?thesis
    by (subst binary_search.simps) (simp only: assms(1,3) assms(2)[symmetric] Let_def if_False if_True)
qed

lemma binary_search_left:
  assumes "\<not> r \<le> l" "m = (l + r) div 2" "x < xs ! m"
  shows "binary_search xs x l r = binary_search xs x l m"
proof -
  have "xs ! m \<noteq> x" "\<not> xs ! m < x" using assms(3) by auto
  then show ?thesis
    by (subst binary_search.simps) (simp only: assms(1) assms(2)[symmetric] Let_def if_False if_True)
qed

lemma binary_search_iff:
  "sorted xs \<Longrightarrow> r \<le> length xs \<Longrightarrow> binary_search xs x l r \<longleftrightarrow> (\<exists>i. l \<le> i \<and> i < r \<and> xs ! i = x)"
proof (induction xs x l r rule: binary_search.induct)
  case (1 xs x l r)
  define m where "m = (l + r) div 2"
  show ?case
  proof (cases "r \<le> l")
    case False
    then have m: "l \<le> m" "m < r" by (auto simp: m_def)
    consider "xs ! m = x" | "xs ! m < x" | "x < xs ! m" by fastforce
    then show ?thesis
    proof cases
      case 2
      have "xs ! i \<noteq> x" if "i \<le> m" for i
        using sorted_nth_mono[OF 1(3), of i m] that m 1(4) 2 by fastforce
      then have "l \<le> i \<and> i < r \<and> xs ! i = x \<longleftrightarrow> Suc m \<le> i \<and> i < r \<and> xs ! i = x" for i
        using m by (cases "i \<le> m") auto
      then have "(\<exists>i. l \<le> i \<and> i < r \<and> xs ! i = x) \<longleftrightarrow> (\<exists>i. Suc m \<le> i \<and> i < r \<and> xs ! i = x)"
        by (rule ex_cong1)
      moreover have "binary_search xs x l r = binary_search xs x (Suc m) r"
        by (rule binary_search_right[OF False m_def 2])
      moreover have "binary_search xs x (Suc m) r = (\<exists>i. Suc m \<le> i \<and> i < r \<and> xs ! i = x)"
        using 2 by (intro 1(1)[OF False m_def _ _ 1(3,4)]) auto
      ultimately show ?thesis by simp
    next
      case 3
      have "xs ! i \<noteq> x" if "m \<le> i" "i < r" for i
        using sorted_nth_mono[OF 1(3), of m i] that 1(4) 3 by fastforce
      then have "l \<le> i \<and> i < r \<and> xs ! i = x \<longleftrightarrow> l \<le> i \<and> i < m \<and> xs ! i = x" for i
        using m by (cases "m \<le> i") auto
      then have "(\<exists>i. l \<le> i \<and> i < r \<and> xs ! i = x) \<longleftrightarrow> (\<exists>i. l \<le> i \<and> i < m \<and> xs ! i = x)"
        by (rule ex_cong1)
      moreover have "binary_search xs x l r = binary_search xs x l m"
        by (rule binary_search_left[OF False m_def 3])
      moreover have "binary_search xs x l m = (\<exists>i. l \<le> i \<and> i < m \<and> xs ! i = x)"
        using 3 m 1(4) by (intro 1(2)[OF False m_def _ _ 1(3)]) auto
      ultimately show ?thesis by simp
    next
      case 1
      have "binary_search xs x l r"
        by (subst binary_search.simps) (simp only: False 1 m_def[symmetric] Let_def if_False if_True refl)
      then show ?thesis using m 1 by blast
    qed
  next
    case True
    then have "\<not> binary_search xs x l r" by (subst binary_search.simps) simp
    then show ?thesis using True by auto
  qed
qed

lemma binary_search_sorted: "sorted xs \<Longrightarrow> binary_search xs x 0 (length xs) \<longleftrightarrow> x \<in> set xs"
  by (auto simp: binary_search_iff in_set_conv_nth)

end
