(* ===== verification/Breaker_Store.thy ===== *)
theory Breaker_Store
  imports Breaker Contract Ordered_Map
begin

text \<open>
  The bounded cache of endpoint breakers (\<^verbatim>\<open>EndpointBreakerStore\<close> of
  \<open>fusen/src/resilience/breaker.rs\<close>) and the discovery membership index above it
  (\<open>fusen/src/client/endpoint_breakers.rs\<close>).

  An \<^verbatim>\<open>Arc<CircuitBreaker>\<close> is shared and mutable: it is an index into the heap of breakers, which
  only grows.  A \<^verbatim>\<open>HashMap\<close> is an association list, its order the iteration order; every operation
  runs under the locks, so it is one step.
\<close>

section \<open>The store\<close>

type_synonym breaker_ref = nat
type_synonym breaker_heap = "BreakerInner list"

record EndpointEntry =
  ee_breaker :: breaker_ref
  ee_last_used :: instant

record 'k EndpointBreakerStore =
  es_config :: BreakerConfig
  es_max_entries :: nat
  es_idle_eviction :: duration
  es_entries :: "('k \<times> EndpointEntry) list"

definition EndpointBreakerStore_new ::
  "BreakerConfig \<Rightarrow> nat \<Rightarrow> duration \<Rightarrow> 'k EndpointBreakerStore" where
  "EndpointBreakerStore_new config max_entries idle_eviction =
     \<lparr>es_config = config, es_max_entries = max_entries, es_idle_eviction = idle_eviction,
      es_entries = []\<rparr>"

text \<open>\<^verbatim>\<open>CircuitBreaker::with_observer\<close>: a new closed breaker, and its reference.\<close>

definition new_breaker :: "BreakerConfig \<Rightarrow> instant \<Rightarrow> breaker_heap \<Rightarrow> breaker_ref \<times> breaker_heap" where
  "new_breaker config now heap = (length heap, heap @ [breaker_initial config now])"

definition evict_idle_locked ::
  "('k \<times> EndpointEntry) list \<Rightarrow> instant \<Rightarrow> duration \<Rightarrow> ('k \<times> EndpointEntry) list" where
  "evict_idle_locked entries now idle_eviction =
     filter (\<lambda>(_, e). saturating_duration_since now (ee_last_used e) < idle_eviction) entries"

text \<open>\<^verbatim>\<open>min_by_key\<close>: the first entry in iteration order with the least time.\<close>

fun min_by_last_used :: "('k \<times> EndpointEntry) list \<Rightarrow> 'k option" where
  "min_by_last_used [] = None"
| "min_by_last_used [(k, e)] = Some k"
| "min_by_last_used ((k, e) # (k', e') # rest) =
     (if ee_last_used e' < ee_last_used e then min_by_last_used ((k', e') # rest)
      else min_by_last_used ((k, e) # rest))"

definition get_or_insert ::
  "'k \<Rightarrow> instant \<Rightarrow> 'k EndpointBreakerStore \<Rightarrow> breaker_heap \<Rightarrow>
   breaker_ref \<times> 'k EndpointBreakerStore \<times> breaker_heap" where
  "get_or_insert key now s heap =
     (let entries = evict_idle_locked (es_entries s) now (es_idle_eviction s)
      in case map_of entries key of
           Some entry \<Rightarrow>
             (ee_breaker entry,
              s\<lparr>es_entries := AList.update key (entry\<lparr>ee_last_used := now\<rparr>) entries\<rparr>, heap)
         | None \<Rightarrow>
             (let entries =
                    (if es_max_entries s \<le> length entries
                     then (case min_by_last_used entries of
                             Some oldest \<Rightarrow> AList.delete oldest entries
                           | None \<Rightarrow> entries)
                     else entries);
                  (b, heap) = new_breaker (es_config s) now heap
              in (b, s\<lparr>es_entries := AList.update key \<lparr>ee_breaker = b, ee_last_used = now\<rparr> entries\<rparr>, heap)))"

definition store_retain :: "('k \<Rightarrow> bool) \<Rightarrow> 'k EndpointBreakerStore \<Rightarrow> 'k EndpointBreakerStore" where
  "store_retain keep s = s\<lparr>es_entries := filter (\<lambda>(k, _). keep k) (es_entries s)\<rparr>"

definition untracked ::
  "instant \<Rightarrow> 'k EndpointBreakerStore \<Rightarrow> breaker_heap \<Rightarrow> breaker_ref \<times> breaker_heap" where
  "untracked now s heap = new_breaker (es_config s) now heap"

section \<open>Discovery membership\<close>

datatype EndpointBreakerSource = BS_Direct | BS_Discovery

record EndpointBreakerKey =
  bk_service :: string
  bk_binding_id :: string
  bk_source :: EndpointBreakerSource
  bk_endpoint :: string

record DiscoveryEndpoint =
  de_service :: string
  de_endpoint :: string

record DiscoveryMemberships =
  dm_owners :: "(ServiceSelector \<times> DiscoveryEndpoint list) list"
  dm_references :: "(DiscoveryEndpoint \<times> nat) list"

fun increment_references ::
  "(DiscoveryEndpoint \<times> nat) list \<Rightarrow> DiscoveryEndpoint list \<Rightarrow> (DiscoveryEndpoint \<times> nat) list" where
  "increment_references refs [] = refs"
| "increment_references refs (e # es) =
     increment_references
       (AList.update e (saturating_add USIZE_MAX (case map_of refs e of Some c \<Rightarrow> c | None \<Rightarrow> 0) 1) refs) es"

fun decrement_references ::
  "(DiscoveryEndpoint \<times> nat) list \<Rightarrow> DiscoveryEndpoint list \<Rightarrow>
   (DiscoveryEndpoint \<times> nat) list \<times> DiscoveryEndpoint list" where
  "decrement_references refs [] = (refs, [])"
| "decrement_references refs (e # es) =
     (case map_of refs e of
        None \<Rightarrow> decrement_references refs es
      | Some c \<Rightarrow>
          if 1 < c then decrement_references (AList.update e (c - 1) refs) es
          else (let (refs, evicted) = decrement_references (AList.delete e refs) es
                in (refs, e # evicted)))"

text \<open>\<^verbatim>\<open>HashSet::difference\<close>; a \<^verbatim>\<open>HashSet\<close> is a list without duplicates.\<close>

definition set_difference :: "'a list \<Rightarrow> 'a list \<Rightarrow> 'a list" where
  "set_difference xs ys = filter (\<lambda>x. x \<notin> set ys) xs"

definition discovery_endpoints :: "ServiceSelector \<Rightarrow> string list \<Rightarrow> DiscoveryEndpoint list" where
  "discovery_endpoints selector endpoints =
     remdups (map (\<lambda>e. \<lparr>de_service = ss_identity selector, de_endpoint = e\<rparr>) endpoints)"

definition owner_endpoints :: "ServiceSelector \<Rightarrow> DiscoveryMemberships \<Rightarrow> DiscoveryEndpoint list" where
  "owner_endpoints selector m = (case map_of (dm_owners m) selector of Some es \<Rightarrow> es | None \<Rightarrow> [])"

text \<open>What \<open>replace_discovery\<close> and \<open>remove_discovery\<close> do under the membership lock.\<close>

definition replace_owner ::
  "ServiceSelector \<Rightarrow> DiscoveryEndpoint list \<Rightarrow> DiscoveryMemberships \<Rightarrow>
   DiscoveryMemberships \<times> DiscoveryEndpoint list" where
  "replace_owner selector current m =
     (let previous = owner_endpoints selector m;
          owners = AList.delete selector (dm_owners m);
          (refs, evicted) = decrement_references (dm_references m) (set_difference previous current);
          refs = increment_references refs (set_difference current previous)
      in (\<lparr>dm_owners = AList.update selector current owners, dm_references = refs\<rparr>, evicted))"

definition remove_owner ::
  "ServiceSelector \<Rightarrow> DiscoveryMemberships \<Rightarrow> DiscoveryMemberships \<times> DiscoveryEndpoint list" where
  "remove_owner selector m =
     (let removed = owner_endpoints selector m;
          (refs, evicted) = decrement_references (dm_references m) removed
      in (\<lparr>dm_owners = AList.delete selector (dm_owners m), dm_references = refs\<rparr>, evicted))"

section \<open>Endpoint breakers\<close>

record EndpointBreakers =
  eb_store :: "EndpointBreakerKey EndpointBreakerStore"
  eb_memberships :: DiscoveryMemberships
  eb_heap :: breaker_heap

definition EndpointBreakers_new :: "BreakerConfig \<Rightarrow> nat \<Rightarrow> duration \<Rightarrow> EndpointBreakers" where
  "EndpointBreakers_new config max_entries idle_eviction =
     \<lparr>eb_store = EndpointBreakerStore_new config max_entries idle_eviction,
      eb_memberships = \<lparr>dm_owners = [], dm_references = []\<rparr>, eb_heap = []\<rparr>"

definition get_or_insert_observed ::
  "string \<Rightarrow> string \<Rightarrow> EndpointBreakerSource \<Rightarrow> string \<Rightarrow> instant \<Rightarrow> EndpointBreakers \<Rightarrow>
   breaker_ref \<times> EndpointBreakers" where
  "get_or_insert_observed service binding_id source endpoint now eb =
     (let key = \<lparr>bk_service = service, bk_binding_id = binding_id, bk_source = source, bk_endpoint = endpoint\<rparr>
      in if source = BS_Direct
            \<or> map_of (dm_references (eb_memberships eb))
                \<lparr>de_service = service, de_endpoint = endpoint\<rparr> \<noteq> None
         then (let (b, s, heap) = get_or_insert key now (eb_store eb) (eb_heap eb)
               in (b, eb\<lparr>eb_store := s, eb_heap := heap\<rparr>))
         else (let (b, heap) = untracked now (eb_store eb) (eb_heap eb)
               in (b, eb\<lparr>eb_heap := heap\<rparr>)))"

definition remove_cached :: "DiscoveryEndpoint list \<Rightarrow> EndpointBreakers \<Rightarrow> EndpointBreakers" where
  "remove_cached endpoints eb =
     eb\<lparr>eb_store := store_retain
          (\<lambda>key. bk_source key \<noteq> BS_Discovery
             \<or> \<lparr>de_service = bk_service key, de_endpoint = bk_endpoint key\<rparr> \<notin> set endpoints) (eb_store eb)\<rparr>"

definition replace_discovery ::
  "ServiceSelector \<Rightarrow> string list \<Rightarrow> EndpointBreakers \<Rightarrow> EndpointBreakers" where
  "replace_discovery selector endpoints eb =
     (let (m, evicted) = replace_owner selector (discovery_endpoints selector endpoints) (eb_memberships eb)
      in remove_cached evicted (eb\<lparr>eb_memberships := m\<rparr>))"

definition remove_discovery :: "ServiceSelector \<Rightarrow> EndpointBreakers \<Rightarrow> EndpointBreakers" where
  "remove_discovery selector eb =
     (let (m, evicted) = remove_owner selector (eb_memberships eb)
      in remove_cached evicted (eb\<lparr>eb_memberships := m\<rparr>))"

end
