(* ===== verification/Breaker_Store_Theorems.thy ===== *)
theory Breaker_Store_Theorems
  imports Breaker_Store
begin

text \<open>
  The endpoint breaker cache: its size is bounded, a live entry keeps its breaker, the reference
  counts of the discovery index are the numbers of owners, and no cached discovery breaker survives
  its endpoint.
\<close>

section \<open>Reference counts\<close>

lemma set_alist_delete_subset: "set (AList.delete k xs) \<subseteq> set xs"
  by (induction xs) auto

lemma key_alist_delete: "k \<notin> fst ` set (AList.delete k xs)"
  by (induction xs) auto

lemma set_alist_update_subset: "set (AList.update k v xs) \<subseteq> insert (k, v) (set xs)"
  by (induction xs) auto

lemma length_alist_update_new: "k \<notin> fst ` set xs \<Longrightarrow> length (AList.update k v xs) = Suc (length xs)"
  by (induction xs) auto

definition owner_count :: "(ServiceSelector \<times> DiscoveryEndpoint list) list \<Rightarrow> DiscoveryEndpoint \<Rightarrow> nat" where
  "owner_count owners e = length (filter (\<lambda>(_, es). e \<in> set es) owners)"

definition counted :: "nat \<Rightarrow> nat option" where "counted n = (if n = 0 then None else Some n)"

definition memberships_ok :: "nat \<Rightarrow> DiscoveryMemberships \<Rightarrow> bool" where
  "memberships_ok n m =
     (distinct (map fst (dm_owners m)) \<and> length (dm_owners m) \<le> n
      \<and> (\<forall>(o1, es) \<in> set (dm_owners m). distinct es)
      \<and> (\<forall>e. map_of (dm_references m) e = counted (owner_count (dm_owners m) e)))"

lemma owner_count_le: "owner_count owners e \<le> length owners"
  by (simp add: owner_count_def)

lemma owner_count_delete:
  assumes "distinct (map fst owners)"
  shows "owner_count owners e = owner_count (AList.delete s owners) e
    + (case map_of owners s of Some es \<Rightarrow> (if e \<in> set es then 1 else 0) | None \<Rightarrow> 0)"
  using assms
proof (induction owners)
  case (Cons ow owners)
  then show ?case
  proof (cases "fst ow = s")
    case True
    then have "AList.delete s owners = owners" using Cons.prems by (auto simp: delete_idem)
    then show ?thesis using True by (cases ow) (simp add: owner_count_def)
  qed (cases ow, auto simp: owner_count_def split: option.splits)
qed (simp add: owner_count_def)

lemma owner_count_update_new:
  assumes "s \<notin> fst ` set owners"
  shows "owner_count (AList.update s es owners) e = owner_count owners e + (if e \<in> set es then 1 else 0)"
  using assms by (induction owners) (auto simp: owner_count_def)

lemma increment_references_spec:
  "\<lbrakk>distinct es; \<forall>e \<in> set es. (case map_of refs e of Some c \<Rightarrow> c | None \<Rightarrow> 0) < USIZE_MAX\<rbrakk> \<Longrightarrow>
   map_of (increment_references refs es) e =
     (if e \<in> set es then Some (Suc (case map_of refs e of Some c \<Rightarrow> c | None \<Rightarrow> 0)) else map_of refs e)"
proof (induction refs es rule: increment_references.induct)
  case (2 refs a es)
  have sat: "saturating_add USIZE_MAX (case map_of refs a of Some c \<Rightarrow> c | None \<Rightarrow> 0) 1 =
      Suc (case map_of refs a of Some c \<Rightarrow> c | None \<Rightarrow> 0)"
    using 2(3) by (simp add: saturating_add_def)
  have ne: "x \<noteq> a" if "x \<in> set es" for x using 2(2) that by auto
  show ?case
    using 2 ne by (auto simp: sat update_conv' simp del: One_nat_def)
qed simp

lemma decrement_references_spec:
  "\<lbrakk>distinct es; \<forall>e \<in> set es. \<exists>c. map_of refs e = Some (Suc c)\<rbrakk> \<Longrightarrow>
   (map_of (fst (decrement_references refs es)) e =
      (if e \<in> set es then counted (the (map_of refs e) - 1) else map_of refs e))
   \<and> (e \<in> set (snd (decrement_references refs es)) \<longleftrightarrow> e \<in> set es \<and> map_of refs e = Some 1)"
proof (induction refs es rule: decrement_references.induct)
  case (2 refs a es)
  then obtain c where c: "map_of refs a = Some (Suc c)" by auto
  have ne: "x \<noteq> a" if "x \<in> set es" for x using "2.prems"(1) that by auto
  show ?case
  proof (cases "1 < Suc c")
    case True
    have "\<forall>e \<in> set es. \<exists>c'. map_of (AList.update a (Suc c - 1) refs) e = Some (Suc c')"
      using "2.prems"(2) ne by (auto simp: update_conv')
    from "2.IH"(2)[OF c True _ this] "2.prems"(1) True c ne show ?thesis
      by (auto simp: update_conv' counted_def)
  next
    case False
    have "\<forall>e \<in> set es. \<exists>c'. map_of (AList.delete a refs) e = Some (Suc c')"
      using "2.prems"(2) ne by (auto simp: delete_conv')
    from "2.IH"(3)[OF c False _ this] "2.prems"(1) False c ne show ?thesis
      by (auto simp: delete_conv' counted_def case_prod_beta Let_def)
  qed
qed simp

lemma owner_endpoints_counted:
  assumes "memberships_ok n m" "e \<in> set (owner_endpoints s m)"
  shows "\<exists>c. map_of (dm_references m) e = Some (Suc c)"
proof -
  from assms(2) obtain es where "map_of (dm_owners m) s = Some es" "e \<in> set es"
    by (cases "map_of (dm_owners m) s") (auto simp: owner_endpoints_def)
  then have "owner_count (dm_owners m) e \<noteq> 0"
    using owner_count_delete[of "dm_owners m" e s] assms(1) by (simp add: memberships_ok_def)
  then show ?thesis using assms(1) by (auto simp: memberships_ok_def counted_def gr0_conv_Suc)
qed

lemma distinct_owner_endpoints: "memberships_ok n m \<Longrightarrow> distinct (owner_endpoints s m)"
  by (auto simp: memberships_ok_def owner_endpoints_def dest: map_of_SomeD split: option.splits)

lemma count_without:
  assumes "memberships_ok n m"
  shows "owner_count (dm_owners m) e =
    owner_count (AList.delete s (dm_owners m)) e + (if e \<in> set (owner_endpoints s m) then 1 else 0)"
  using owner_count_delete[of "dm_owners m" e s] assms
  by (cases "map_of (dm_owners m) s") (simp_all add: memberships_ok_def owner_endpoints_def)

lemma distinct_without: "memberships_ok n m \<Longrightarrow> distinct (map fst (AList.delete s (dm_owners m)))"
  by (simp add: memberships_ok_def distinct_delete)

lemma remove_owner_spec:
  assumes ok: "memberships_ok n m"
  shows "memberships_ok n (fst (remove_owner s m))
    \<and> (\<forall>e. map_of (dm_references m) e \<noteq> None \<longrightarrow> map_of (dm_references (fst (remove_owner s m))) e = None \<longrightarrow>
          e \<in> set (snd (remove_owner s m)))"
proof -
  note dec = decrement_references_spec[OF distinct_owner_endpoints[OF ok, of s], of "dm_references m"]
  have pre: "\<forall>e \<in> set (owner_endpoints s m). \<exists>c. map_of (dm_references m) e = Some (Suc c)"
    using owner_endpoints_counted[OF ok] by blast
  have refs: "map_of (dm_references m) e = counted (owner_count (dm_owners m) e)" for e
    using ok by (simp add: memberships_ok_def)
  have "map_of (fst (decrement_references (dm_references m) (owner_endpoints s m))) e =
      counted (owner_count (AList.delete s (dm_owners m)) e)" for e
    using dec[OF pre, of e] count_without[OF ok, of e s] refs[of e] pre
    by (auto simp: counted_def split: if_splits)
  moreover have "length (AList.delete s (dm_owners m)) \<le> n"
    using ok length_delete_le[of s "dm_owners m"] by (simp add: memberships_ok_def)
  moreover have "set (AList.delete s (dm_owners m)) \<subseteq> set (dm_owners m)" by (rule set_alist_delete_subset)
  ultimately have "memberships_ok n (fst (remove_owner s m))"
    using ok distinct_without[OF ok, of s]
    by (auto simp: memberships_ok_def remove_owner_def Let_def case_prod_beta)
  moreover have "e \<in> set (snd (remove_owner s m))"
    if "map_of (dm_references m) e \<noteq> None" "map_of (dm_references (fst (remove_owner s m))) e = None" for e
    using that dec[OF pre, of e] pre
    by (auto simp: remove_owner_def Let_def case_prod_beta counted_def split: if_splits)
  ultimately show ?thesis by blast
qed

lemma replace_owner_spec:
  assumes ok: "memberships_ok n m" and n: "n < USIZE_MAX" and es: "distinct es"
  shows "memberships_ok (Suc n) (fst (replace_owner s es m))
    \<and> (\<forall>e. map_of (dm_references m) e \<noteq> None \<longrightarrow> map_of (dm_references (fst (replace_owner s es m))) e = None \<longrightarrow>
          e \<in> set (snd (replace_owner s es m)))"
proof -
  define prev where "prev = owner_endpoints s m"
  define gone where "gone = set_difference prev es"
  define fresh where "fresh = set_difference es prev"
  define refs where "refs = fst (decrement_references (dm_references m) gone)"
  define base where "base = AList.delete s (dm_owners m)"
  have d: "distinct gone" "distinct fresh"
    using distinct_owner_endpoints[OF ok, of s] es by (auto simp: gone_def fresh_def prev_def set_difference_def)
  have pre: "\<forall>e \<in> set gone. \<exists>c. map_of (dm_references m) e = Some (Suc c)"
    using owner_endpoints_counted[OF ok] by (auto simp: gone_def prev_def set_difference_def)
  note dec = decrement_references_spec[OF d(1) pre]
  have rm: "map_of (dm_references m) e = counted (owner_count base e + (if e \<in> set prev then 1 else 0))" for e
    using ok count_without[OF ok, of e s] by (simp add: memberships_ok_def base_def prev_def)
  have sets: "set gone = set prev - set es" "set fresh = set es - set prev"
    by (auto simp: gone_def fresh_def set_difference_def)
  have r1: "map_of refs e = counted (owner_count base e + (if e \<in> set prev \<and> e \<in> set es then 1 else 0))" for e
    using dec[of e] rm[of e] pre by (auto simp: refs_def sets counted_def split: if_splits)
  have cnt: "owner_count base e \<le> n" for e
    using owner_count_le[of base e] length_delete_le[of s "dm_owners m"] ok
    by (simp add: memberships_ok_def base_def)
  have bound: "\<forall>e \<in> set fresh. (case map_of refs e of Some c \<Rightarrow> c | None \<Rightarrow> 0) < USIZE_MAX"
  proof
    fix e assume e: "e \<in> set fresh"
    have "owner_count base e < USIZE_MAX" using cnt[of e] n by linarith
    then show "(case map_of refs e of Some c \<Rightarrow> c | None \<Rightarrow> 0) < USIZE_MAX"
      using e n r1[of e] by (simp add: sets counted_def)
  qed
  have r2: "map_of (increment_references refs fresh) e =
      counted (owner_count base e + (if e \<in> set es then 1 else 0))" for e
    unfolding increment_references_spec[OF d(2) bound] r1 by (auto simp: sets counted_def)
  have nb: "s \<notin> fst ` set base" unfolding base_def by (rule key_alist_delete)
  have cu: "owner_count (AList.update s es base) e = owner_count base e + (if e \<in> set es then 1 else 0)" for e
    by (rule owner_count_update_new[OF nb])
  have res: "replace_owner s es m = (\<lparr>dm_owners = AList.update s es base,
      dm_references = increment_references refs fresh\<rparr>, snd (decrement_references (dm_references m) gone))"
    by (simp add: replace_owner_def Let_def case_prod_beta prev_def gone_def fresh_def refs_def base_def)
  have "length (AList.update s es base) \<le> Suc n"
  proof -
    have "length (AList.update s es base) = Suc (length base)"
      using nb by (rule length_alist_update_new)
    then show ?thesis using length_delete_le[of s "dm_owners m"] ok by (simp add: memberships_ok_def base_def)
  qed
  moreover have "\<forall>(o1, xs) \<in> set (AList.update s es base). distinct xs"
  proof -
    have "set (AList.update s es base) \<subseteq> insert (s, es) (set (dm_owners m))"
      using set_alist_update_subset[of s es base] set_alist_delete_subset[of s "dm_owners m"]
      by (auto simp: base_def)
    then show ?thesis using ok es by (auto simp: memberships_ok_def)
  qed
  ultimately have "memberships_ok (Suc n) (fst (replace_owner s es m))"
    using distinct_without[OF ok, of s] unfolding base_def [symmetric]
    by (simp add: memberships_ok_def res r2 cu distinct_update)
  moreover have "e \<in> set gone \<and> map_of (dm_references m) e = Some 1"
    if "map_of (dm_references m) e \<noteq> None" "map_of (increment_references refs fresh) e = None" for e
    using that rm[of e] r2[of e] by (auto simp: sets counted_def split: if_splits)
  ultimately show ?thesis using dec by (auto simp: res)
qed

section \<open>The interface of the membership index\<close>

text \<open>
  What the cache relies on: whatever endpoint an update deactivates is among the ones it reports as
  evicted.
\<close>

locale membership_index =
  fixes replace :: "'o \<Rightarrow> 'e list \<Rightarrow> 'm \<Rightarrow> 'm \<times> 'e list"
    and remove :: "'o \<Rightarrow> 'm \<Rightarrow> 'm \<times> 'e list"
    and active :: "'m \<Rightarrow> 'e \<Rightarrow> bool"
    and ok :: "nat \<Rightarrow> 'm \<Rightarrow> bool"
  assumes ok_replace: "\<lbrakk>ok n m; n < USIZE_MAX; distinct es\<rbrakk> \<Longrightarrow> ok (Suc n) (fst (replace w es m))"
    and ok_remove: "ok n m \<Longrightarrow> ok n (fst (remove w m))"
    and replace_evicts: "\<lbrakk>ok n m; n < USIZE_MAX; distinct es; active m e\<rbrakk> \<Longrightarrow>
      active (fst (replace w es m)) e \<or> e \<in> set (snd (replace w es m))"
    and remove_evicts: "\<lbrakk>ok n m; active m e\<rbrakk> \<Longrightarrow>
      active (fst (remove w m)) e \<or> e \<in> set (snd (remove w m))"
begin

lemma covered_replace:
  "\<lbrakk>ok n m; n < USIZE_MAX; distinct es; \<forall>k \<in> cached. active m (f k)\<rbrakk> \<Longrightarrow>
   \<forall>k \<in> {k \<in> cached. f k \<notin> set (snd (replace w es m))}. active (fst (replace w es m)) (f k)"
  using replace_evicts by blast

lemma covered_remove:
  "\<lbrakk>ok n m; \<forall>k \<in> cached. active m (f k)\<rbrakk> \<Longrightarrow>
   \<forall>k \<in> {k \<in> cached. f k \<notin> set (snd (remove w m))}. active (fst (remove w m)) (f k)"
  using remove_evicts by blast

end

definition membership_active :: "DiscoveryMemberships \<Rightarrow> DiscoveryEndpoint \<Rightarrow> bool" where
  "membership_active m e = (map_of (dm_references m) e \<noteq> None)"

interpretation members: membership_index replace_owner remove_owner membership_active memberships_ok
proof
  fix n m es w e
  show "\<lbrakk>memberships_ok n m; n < USIZE_MAX; distinct es\<rbrakk> \<Longrightarrow> memberships_ok (Suc n) (fst (replace_owner w es m))"
    using replace_owner_spec by blast
  show "memberships_ok n m \<Longrightarrow> memberships_ok n (fst (remove_owner w m))"
    using remove_owner_spec by blast
  show "\<lbrakk>memberships_ok n m; n < USIZE_MAX; distinct es; membership_active m e\<rbrakk> \<Longrightarrow>
      membership_active (fst (replace_owner w es m)) e \<or> e \<in> set (snd (replace_owner w es m))"
    using replace_owner_spec unfolding membership_active_def by blast
  show "\<lbrakk>memberships_ok n m; membership_active m e\<rbrakk> \<Longrightarrow>
      membership_active (fst (remove_owner w m)) e \<or> e \<in> set (snd (remove_owner w m))"
    using remove_owner_spec unfolding membership_active_def by blast
qed

lemma membership_active_owner:
  assumes "memberships_ok n m" "membership_active m e"
  shows "\<exists>(s, es) \<in> set (dm_owners m). e \<in> set es"
proof -
  have "owner_count (dm_owners m) e \<noteq> 0"
    using assms by (simp add: memberships_ok_def membership_active_def counted_def split: if_splits)
  then show ?thesis by (auto simp: owner_count_def filter_empty_conv)
qed

section \<open>The store\<close>

definition store_ok :: "'k EndpointBreakerStore \<Rightarrow> bool" where
  "store_ok s =
     (distinct (map fst (es_entries s)) \<and> length (es_entries s) \<le> es_max_entries s \<and> 0 < es_max_entries s)"

definition store_keys :: "'k EndpointBreakerStore \<Rightarrow> 'k set" where
  "store_keys s = fst ` set (es_entries s)"

lemma min_by_last_used_spec:
  "es \<noteq> [] \<Longrightarrow> \<exists>k e. min_by_last_used es = Some k \<and> (k, e) \<in> set es
     \<and> (\<forall>(k', e') \<in> set es. ee_last_used e \<le> ee_last_used e')"
proof (induction es rule: min_by_last_used.induct)
  case (3 k e k' e' rest)
  show ?case
  proof (cases "ee_last_used e' < ee_last_used e")
    case True
    then obtain x v where x: "min_by_last_used ((k', e') # rest) = Some x" "(x, v) \<in> set ((k', e') # rest)"
      "\<forall>(y, w) \<in> set ((k', e') # rest). ee_last_used v \<le> ee_last_used w"
      using 3(1) by auto
    then have "ee_last_used v \<le> ee_last_used e'" by simp
    then have "\<forall>(y, w) \<in> set ((k, e) # (k', e') # rest). ee_last_used v \<le> ee_last_used w"
      using x(3) True by simp
    then show ?thesis using x(1,2) True by (intro exI[of _ x] exI[of _ v]) simp
  next
    case False
    then obtain x v where x: "min_by_last_used ((k, e) # rest) = Some x" "(x, v) \<in> set ((k, e) # rest)"
      "\<forall>(y, w) \<in> set ((k, e) # rest). ee_last_used v \<le> ee_last_used w"
      using 3(2) by auto
    then have "ee_last_used v \<le> ee_last_used e" by simp
    then have "\<forall>(y, w) \<in> set ((k, e) # (k', e') # rest). ee_last_used v \<le> ee_last_used w"
      using x(3) False by simp
    then show ?thesis using x(1,2) False by (intro exI[of _ x] exI[of _ v]) auto
  qed
qed simp_all

lemma length_alist_delete_key:
  assumes "k \<in> fst ` set xs"
  shows "length (AList.delete k xs) < length xs"
  using assms
proof (induction xs)
  case (Cons x xs)
  then show ?case using length_delete_le[of k xs] by auto
qed simp

lemma distinct_filter_fst: "distinct (map fst xs) \<Longrightarrow> distinct (map fst (filter P xs))"
  by (rule distinct_map_filter)

lemma length_alist_update_old: "k \<in> fst ` set xs \<Longrightarrow> length (AList.update k v xs) = length xs"
  by (induction xs) auto

text \<open>The entries a lookup keeps before it inserts: live ones, less the oldest when the store is full.\<close>

definition room_for :: "nat \<Rightarrow> ('k \<times> EndpointEntry) list \<Rightarrow> ('k \<times> EndpointEntry) list" where
  "room_for mx es =
     (if mx \<le> length es
      then (case min_by_last_used es of Some oldest \<Rightarrow> AList.delete oldest es | None \<Rightarrow> es)
      else es)"

lemma get_or_insert_cases:
  "get_or_insert key now s heap =
     (let es = evict_idle_locked (es_entries s) now (es_idle_eviction s)
      in case map_of es key of
           Some e \<Rightarrow> (ee_breaker e, s\<lparr>es_entries := AList.update key (e\<lparr>ee_last_used := now\<rparr>) es\<rparr>, heap)
         | None \<Rightarrow> (length heap,
             s\<lparr>es_entries := AList.update key \<lparr>ee_breaker = length heap, ee_last_used = now\<rparr>
                 (room_for (es_max_entries s) es)\<rparr>,
             heap @ [breaker_initial (es_config s) now]))"
  by (simp add: get_or_insert_def Let_def room_for_def new_breaker_def split: option.splits)

lemma room_for_shorter:
  assumes "0 < mx" "length es \<le> mx"
  shows "length (room_for mx es) < mx"
proof (cases "mx \<le> length es")
  case True
  then have "es \<noteq> []" using assms by auto
  then obtain k e where k: "min_by_last_used es = Some k" "(k, e) \<in> set es"
    using min_by_last_used_spec by blast
  then have "length (AList.delete k es) < length es"
    by (intro length_alist_delete_key) force
  then show ?thesis using True assms k(1) by (simp add: room_for_def)
qed (simp add: room_for_def)

lemma room_for_subset: "set (room_for mx es) \<subseteq> set es"
  using set_alist_delete_subset[of _ es] by (auto simp: room_for_def split: option.splits)

lemma room_for_distinct: "distinct (map fst es) \<Longrightarrow> distinct (map fst (room_for mx es))"
  by (auto simp: room_for_def distinct_delete split: option.splits)

lemma evict_idle_facts:
  "set (evict_idle_locked es now idle) \<subseteq> set es"
  "length (evict_idle_locked es now idle) \<le> length es"
  "distinct (map fst es) \<Longrightarrow> distinct (map fst (evict_idle_locked es now idle))"
  by (auto simp: evict_idle_locked_def distinct_filter_fst)

lemma get_or_insert_ok:
  assumes "store_ok s" "get_or_insert key now s heap = (b, s', heap')"
  shows "store_ok s' \<and> store_keys s' \<subseteq> insert key (store_keys s)
    \<and> es_max_entries s' = es_max_entries s \<and> es_idle_eviction s' = es_idle_eviction s"
proof -
  define es where "es = evict_idle_locked (es_entries s) now (es_idle_eviction s)"
  have es: "set es \<subseteq> set (es_entries s)" "length es \<le> es_max_entries s" "distinct (map fst es)"
    using evict_idle_facts[of "es_entries s" now "es_idle_eviction s"] assms(1)
    by (simp_all add: es_def store_ok_def)
  show ?thesis
  proof (cases "map_of es key")
    case (Some e)
    then have s': "s' = s\<lparr>es_entries := AList.update key (e\<lparr>ee_last_used := now\<rparr>) es\<rparr>"
      using assms(2) by (simp add: get_or_insert_cases es_def [symmetric] Let_def)
    have "key \<in> fst ` set es" using Some by (force dest: map_of_SomeD)
    then have "length (AList.update key (e\<lparr>ee_last_used := now\<rparr>) es) = length es"
      by (rule length_alist_update_old)
    then show ?thesis using es assms(1)
      by (auto simp: s' store_ok_def store_keys_def distinct_update dom_update)
  next
    case None
    then have s': "s' = s\<lparr>es_entries := AList.update key \<lparr>ee_breaker = length heap, ee_last_used = now\<rparr>
        (room_for (es_max_entries s) es)\<rparr>"
      using assms(2) by (auto simp: get_or_insert_cases es_def [symmetric] Let_def)
    have "key \<notin> fst ` set es" using None by (auto simp: map_of_eq_None_iff)
    then have nk: "key \<notin> fst ` set (room_for (es_max_entries s) es)" using room_for_subset by force
    have "length (room_for (es_max_entries s) es) < es_max_entries s"
      using es(2) assms(1) by (intro room_for_shorter) (simp_all add: store_ok_def)
    then show ?thesis using es assms(1) room_for_subset[of "es_max_entries s" es] nk
      by (auto simp: s' store_ok_def store_keys_def distinct_update dom_update length_alist_update_new
          room_for_distinct)
  qed
qed

section \<open>Runs of the endpoint breakers\<close>

datatype eb_op =
  EB_Lookup string string EndpointBreakerSource string instant
| EB_Replace ServiceSelector "string list"
| EB_Remove ServiceSelector

fun eb_step :: "eb_op \<Rightarrow> EndpointBreakers \<Rightarrow> EndpointBreakers" where
  "eb_step (EB_Lookup service binding source endpoint now) eb =
     snd (get_or_insert_observed service binding source endpoint now eb)"
| "eb_step (EB_Replace selector endpoints) eb = replace_discovery selector endpoints eb"
| "eb_step (EB_Remove selector) eb = remove_discovery selector eb"

definition eb_run :: "eb_op list \<Rightarrow> EndpointBreakers \<Rightarrow> EndpointBreakers" where
  "eb_run ops eb = fold eb_step ops eb"

definition key_endpoint :: "EndpointBreakerKey \<Rightarrow> DiscoveryEndpoint" where
  "key_endpoint k = \<lparr>de_service = bk_service k, de_endpoint = bk_endpoint k\<rparr>"

definition discovery_keys :: "EndpointBreakers \<Rightarrow> EndpointBreakerKey set" where
  "discovery_keys eb = {k \<in> store_keys (eb_store eb). bk_source k = BS_Discovery}"

definition eb_inv :: "nat \<Rightarrow> nat \<Rightarrow> EndpointBreakers \<Rightarrow> bool" where
  "eb_inv n mx eb =
     (store_ok (eb_store eb) \<and> es_max_entries (eb_store eb) = mx \<and> memberships_ok n (eb_memberships eb)
      \<and> (\<forall>k \<in> discovery_keys eb. membership_active (eb_memberships eb) (key_endpoint k)))"

lemma remove_cached_keys:
  "discovery_keys (remove_cached gone eb) = {k \<in> discovery_keys eb. key_endpoint k \<notin> set gone}"
  by (auto simp: discovery_keys_def remove_cached_def store_retain_def store_keys_def key_endpoint_def image_iff)
    force+

lemma remove_cached_ok:
  "store_ok (eb_store eb) \<Longrightarrow> store_ok (eb_store (remove_cached gone eb))
     \<and> es_max_entries (eb_store (remove_cached gone eb)) = es_max_entries (eb_store eb)"
  by (auto simp: remove_cached_def store_retain_def store_ok_def distinct_filter_fst
      intro: le_trans[OF length_filter_le])

lemma eb_step_inv:
  assumes inv: "eb_inv n mx eb" and n: "n < USIZE_MAX"
  shows "eb_inv (Suc n) mx (eb_step op eb)"
proof -
  have ok: "memberships_ok n (eb_memberships eb)" "store_ok (eb_store eb)" "es_max_entries (eb_store eb) = mx"
    and cov: "\<forall>k \<in> discovery_keys eb. membership_active (eb_memberships eb) (key_endpoint k)"
    using inv by (auto simp: eb_inv_def)
  have mono: "memberships_ok (Suc n) m" if "memberships_ok n m" for m
    using that by (simp add: memberships_ok_def)
  show ?thesis
  proof (cases op)
    case (EB_Replace w es)
    define d where "d = discovery_endpoints w es"
    have d: "distinct d" by (simp add: d_def discovery_endpoints_def)
    obtain m gone where r: "replace_owner w d (eb_memberships eb) = (m, gone)" by fastforce
    have "eb_step op eb = remove_cached gone (eb\<lparr>eb_memberships := m\<rparr>)"
      by (simp add: EB_Replace replace_discovery_def r d_def [symmetric])
    moreover have "memberships_ok (Suc n) m" using members.ok_replace[OF ok(1) n d, of w] r by simp
    moreover have "\<forall>k \<in> {k \<in> discovery_keys eb. key_endpoint k \<notin> set gone}. membership_active m (key_endpoint k)"
      using members.covered_replace[OF ok(1) n d cov, of w] r by simp
    ultimately show ?thesis
      using ok(2,3) remove_cached_ok[of "eb\<lparr>eb_memberships := m\<rparr>" gone]
      by (auto simp: eb_inv_def remove_cached_keys) (auto simp: remove_cached_def discovery_keys_def)
  next
    case (EB_Remove w)
    obtain m gone where r: "remove_owner w (eb_memberships eb) = (m, gone)" by fastforce
    have "eb_step op eb = remove_cached gone (eb\<lparr>eb_memberships := m\<rparr>)"
      by (simp add: EB_Remove remove_discovery_def r)
    moreover have "memberships_ok (Suc n) m" using members.ok_remove[OF ok(1), of w] r mono by simp
    moreover have "\<forall>k \<in> {k \<in> discovery_keys eb. key_endpoint k \<notin> set gone}. membership_active m (key_endpoint k)"
      using members.covered_remove[OF ok(1) cov, of w] r by simp
    ultimately show ?thesis
      using ok(2,3) remove_cached_ok[of "eb\<lparr>eb_memberships := m\<rparr>" gone]
      by (auto simp: eb_inv_def remove_cached_keys) (auto simp: remove_cached_def discovery_keys_def)
  next
    case (EB_Lookup service binding source endpoint now)
    define key where "key = \<lparr>bk_service = service, bk_binding_id = binding, bk_source = source, bk_endpoint = endpoint\<rparr>"
    show ?thesis
    proof (cases "source = BS_Direct \<or> map_of (dm_references (eb_memberships eb))
                \<lparr>de_service = service, de_endpoint = endpoint\<rparr> \<noteq> None")
      case False
      then have "eb_step op eb = eb\<lparr>eb_heap := snd (untracked now (eb_store eb) (eb_heap eb))\<rparr>"
        by (simp add: EB_Lookup get_or_insert_observed_def Let_def case_prod_beta)
      then show ?thesis using ok cov mono by (simp add: eb_inv_def discovery_keys_def)
    next
      case True
      obtain b s' heap' where g: "get_or_insert key now (eb_store eb) (eb_heap eb) = (b, s', heap')"
        using prod_cases3 by blast
      have step: "eb_step op eb = eb\<lparr>eb_store := s', eb_heap := heap'\<rparr>"
        using True g by (simp add: EB_Lookup get_or_insert_observed_def Let_def key_def)
      have "membership_active (eb_memberships eb) (key_endpoint key)" if "bk_source key = BS_Discovery"
        using True that by (simp add: key_def membership_active_def key_endpoint_def)
      then show ?thesis
        using get_or_insert_ok[OF ok(2) g] ok(1,3) cov mono
        by (auto simp: eb_inv_def step discovery_keys_def)
    qed
  qed
qed

lemma eb_run_inv:
  "\<lbrakk>eb_inv n mx eb; n + length ops \<le> USIZE_MAX\<rbrakk> \<Longrightarrow> eb_inv (n + length ops) mx (eb_run ops eb)"
proof (induction ops arbitrary: n eb)
  case (Cons op ops)
  then show ?case using eb_step_inv[of n mx eb op] Cons.IH[of "Suc n" "eb_step op eb"]
    by (simp add: eb_run_def)
qed (simp add: eb_run_def)

lemma eb_inv_new: "0 < mx \<Longrightarrow> eb_inv 0 mx (EndpointBreakers_new config mx idle)"
  by (simp add: eb_inv_def EndpointBreakers_new_def EndpointBreakerStore_new_def store_ok_def memberships_ok_def
      discovery_keys_def store_keys_def counted_def owner_count_def)

text \<open>
   After any sequence of lookups, discovery updates and removals, the cache holds at most the
  configured number of breakers.
\<close>

theorem endpoint_breaker_cache_bounded:
  "\<lbrakk>0 < mx; length ops \<le> USIZE_MAX\<rbrakk> \<Longrightarrow>
   length (es_entries (eb_store (eb_run ops (EndpointBreakers_new config mx idle)))) \<le> mx"
  using eb_run_inv[OF eb_inv_new, of mx ops config idle] by (simp add: eb_inv_def store_ok_def)

text \<open>
  C18.  No cached discovery breaker outlives its endpoint: after any sequence of operations, the
  endpoint of every cached discovery key is in the current instances of some selector.
\<close>

theorem discovery_breakers_follow_membership:
  assumes "0 < mx" "length ops \<le> USIZE_MAX"
    and "eb = eb_run ops (EndpointBreakers_new config mx idle)"
    and "key \<in> fst ` set (es_entries (eb_store eb))" "bk_source key = BS_Discovery"
  shows "\<exists>(selector, endpoints) \<in> set (dm_owners (eb_memberships eb)).
    \<lparr>de_service = bk_service key, de_endpoint = bk_endpoint key\<rparr> \<in> set endpoints"
proof -
  have inv: "eb_inv (length ops) mx eb"
    using eb_run_inv[OF eb_inv_new[OF assms(1)], of ops] assms(2,3) by simp
  have "key \<in> discovery_keys eb" using assms(4,5) by (simp add: discovery_keys_def store_keys_def)
  then have "membership_active (eb_memberships eb) (key_endpoint key)" using inv by (simp add: eb_inv_def)
  then show ?thesis
    using membership_active_owner inv unfolding eb_inv_def key_endpoint_def by blast
qed

section \<open>Least recently used\<close>

definition store_lookups ::
  "('k \<times> instant) list \<Rightarrow> 'k EndpointBreakerStore \<times> breaker_heap \<Rightarrow> 'k EndpointBreakerStore \<times> breaker_heap" where
  "store_lookups ls sh = fold (\<lambda>(k, t) (s, h). snd (get_or_insert k t s h)) ls sh"

text \<open>Key \<open>k\<close> has breaker \<open>b\<close>; entries of keys outside \<open>K\<close> were last used before time \<open>t\<close>.\<close>

definition hot :: "'k \<Rightarrow> breaker_ref \<Rightarrow> instant \<Rightarrow> 'k set \<Rightarrow> 'k EndpointBreakerStore \<Rightarrow> bool" where
  "hot k b t K s =
     (store_ok s \<and> map_of (es_entries s) k = Some \<lparr>ee_breaker = b, ee_last_used = t\<rparr>
      \<and> (\<forall>(k', e) \<in> set (es_entries s). k' \<noteq> k \<and> k' \<notin> K \<longrightarrow> ee_last_used e < t))"

lemma map_of_evict_idle:
  "distinct (map fst es) \<Longrightarrow> map_of (evict_idle_locked es now idle) k =
     (case map_of es k of Some e \<Rightarrow> if saturating_duration_since now (ee_last_used e) < idle then Some e else None
      | None \<Rightarrow> None)"
  unfolding evict_idle_locked_def
  by (induction es) (auto simp: map_of_eq_None_iff split: option.splits dest: map_of_SomeD)

lemma room_for_keeps_hot:
  assumes d: "distinct (map fst es)" and at: "map_of es k = Some \<lparr>ee_breaker = b, ee_last_used = t\<rparr>"
    and old: "\<forall>(k', e) \<in> set es. k' \<noteq> k \<and> k' \<notin> K \<longrightarrow> ee_last_used e < t"
    and K: "finite K" "card K < mx" "k \<notin> K" "x \<in> K" "x \<notin> fst ` set es"
  shows "map_of (room_for mx es) k = map_of es k"
proof (cases "mx \<le> length es")
  case True
  have "\<not> fst ` set es \<subseteq> insert k (K - {x})"
  proof
    assume "fst ` set es \<subseteq> insert k (K - {x})"
    then have "card (fst ` set es) \<le> card (insert k (K - {x}))" using K(1) by (intro card_mono) auto
    also have "\<dots> \<le> card K" using K by (simp add: card_insert_if Suc_diff_1)  (metis Suc_pred card_gt_0_iff empty_iff le_refl)
    finally show False using True K(2) d distinct_card[of "map fst es"] by simp
  qed
  then obtain k' e' where e': "(k', e') \<in> set es" "k' \<noteq> k" "k' \<notin> K" using K(5) by fastforce
  then have lt: "ee_last_used e' < t" using old by auto
  obtain m e where m: "min_by_last_used es = Some m" "(m, e) \<in> set es"
    "\<forall>(k', e') \<in> set es. ee_last_used e \<le> ee_last_used e'"
    using min_by_last_used_spec[of es] e'(1) by fastforce
  have "ee_last_used e < t" using m(3) e'(1) lt by fastforce
  moreover have "map_of es m = Some e" using m(2) d by (simp add: map_of_is_SomeI)
  ultimately have "m \<noteq> k" using at by auto
  then show ?thesis using True m(1) by (simp add: room_for_def delete_conv')
qed (simp add: room_for_def)

lemma hot_lookup:
  assumes h: "hot k b t K s" and K: "finite K" "card K < es_max_entries s" "k \<notin> K" "x \<in> K"
    and now: "t \<le> now" "now < t + es_idle_eviction s" and g: "get_or_insert x now s heap = (b', s', heap')"
  shows "hot k b t K s'"
proof -
  define es where "es = evict_idle_locked (es_entries s) now (es_idle_eviction s)"
  have ok: "store_ok s" using h by (simp add: hot_def)
  have es: "distinct (map fst es)" "set es \<subseteq> set (es_entries s)"
    using ok evict_idle_facts[of "es_entries s"] by (auto simp: es_def store_ok_def)
  have at: "map_of es k = Some \<lparr>ee_breaker = b, ee_last_used = t\<rparr>"
    using h ok now by (simp add: es_def hot_def store_ok_def map_of_evict_idle saturating_duration_since_def
        less_diff_conv2)
  have old: "\<forall>(k', e) \<in> set es. k' \<noteq> k \<and> k' \<notin> K \<longrightarrow> ee_last_used e < t"
    using h es(2) by (auto simp: hot_def)
  have kx: "k \<noteq> x" using K by auto
  have keep: "map_of (AList.update x v base) k = Some \<lparr>ee_breaker = b, ee_last_used = t\<rparr>
      \<and> (\<forall>(k', e) \<in> set (AList.update x v base). k' \<noteq> k \<and> k' \<notin> K \<longrightarrow> ee_last_used e < t)"
    if "map_of base k = map_of es k" "set base \<subseteq> set es" for v base
    using that at old kx K(4) set_alist_update_subset[of x v base] by (auto simp: update_conv')
  have ok': "store_ok s'" using get_or_insert_ok[OF ok g] by simp
  show ?thesis
  proof (cases "map_of es x")
    case (Some e)
    then have "es_entries s' = AList.update x (e\<lparr>ee_last_used := now\<rparr>) es"
      using g by (simp add: get_or_insert_cases es_def [symmetric] Let_def) auto
    then show ?thesis using ok' keep[of es] by (simp add: hot_def)
  next
    case None
    then have "es_entries s' = AList.update x \<lparr>ee_breaker = length heap, ee_last_used = now\<rparr>
        (room_for (es_max_entries s) es)"
      using g by (simp add: get_or_insert_cases es_def [symmetric] Let_def) auto
    moreover have "map_of (room_for (es_max_entries s) es) k = map_of es k"
      using None by (intro room_for_keeps_hot[OF es(1) at old K]) (auto simp: map_of_eq_None_iff)
    ultimately show ?thesis
      using ok' keep[of "room_for (es_max_entries s) es"] room_for_subset[of "es_max_entries s" es]
      by (simp add: hot_def)
  qed
qed

lemma hot_lookups:
  "\<lbrakk>hot k b t K s; finite K; card K < es_max_entries s; k \<notin> K;
    \<forall>(x, now) \<in> set ls. x \<in> K \<and> t \<le> now \<and> now < t + es_idle_eviction s\<rbrakk> \<Longrightarrow>
   hot k b t K (fst (store_lookups ls (s, heap)))
   \<and> es_idle_eviction (fst (store_lookups ls (s, heap))) = es_idle_eviction s"
proof (induction ls arbitrary: s heap)
  case (Cons l ls)
  obtain x now where l: "l = (x, now)" by fastforce
  obtain b' s' heap' where g: "get_or_insert x now s heap = (b', s', heap')" using prod_cases3 by blast
  have h: "hot k b t K s'"
    using Cons.prems by (intro hot_lookup[OF Cons.prems(1-4) _ _ _ g]) (auto simp: l)
  have same: "es_max_entries s' = es_max_entries s" "es_idle_eviction s' = es_idle_eviction s"
    using get_or_insert_ok[OF _ g] Cons.prems(1) by (auto simp: hot_def)
  show ?case
    using Cons.IH[OF h, of heap'] Cons.prems same by (simp add: l store_lookups_def g)
qed (simp add: store_lookups_def)

lemma hot_hit:
  assumes "hot k b t K s" "t \<le> now" "now < t + es_idle_eviction s"
  shows "fst (get_or_insert k now s heap) = b"
proof -
  have "map_of (evict_idle_locked (es_entries s) now (es_idle_eviction s)) k =
      Some \<lparr>ee_breaker = b, ee_last_used = t\<rparr>"
    using assms by (simp add: hot_def store_ok_def map_of_evict_idle saturating_duration_since_def less_diff_conv2)
  then show ?thesis by (simp add: get_or_insert_cases Let_def)
qed

text \<open>
  The cache is least-recently-used: a breaker looked up at time \<open>t\<close>, after every other entry of the
  store, is found again within the idle period, whatever lookups of fewer than \<open>max_entries\<close> other
  keys come between.
\<close>

theorem recently_used_breaker_kept:
  assumes "store_ok s" "\<forall>(k', e) \<in> set (es_entries s). ee_last_used e < t"
    and "get_or_insert k t s heap = (b, s1, heap1)"
    and "card (fst ` set ls) < es_max_entries s" "k \<notin> fst ` set ls"
    and "\<forall>(x, now) \<in> set ls. t \<le> now \<and> now < t + es_idle_eviction s"
    and "store_lookups ls (s1, heap1) = (s2, heap2)" "t \<le> now" "now < t + es_idle_eviction s"
  shows "fst (get_or_insert k now s2 heap2) = b"
proof -
  define es where "es = evict_idle_locked (es_entries s) t (es_idle_eviction s)"
  have ok1: "store_ok s1" "es_max_entries s1 = es_max_entries s" "es_idle_eviction s1 = es_idle_eviction s"
    using get_or_insert_ok[OF assms(1,3)] by auto
  have sub: "set es \<subseteq> set (es_entries s)" using evict_idle_facts(1) by (auto simp: es_def)
  have "\<exists>base. es_entries s1 = AList.update k \<lparr>ee_breaker = b, ee_last_used = t\<rparr> base \<and> set base \<subseteq> set es"
    using assms(3) room_for_subset[of "es_max_entries s" es]
  proof (cases "map_of es k")
    case (Some e)
    then have "es_entries s1 = AList.update k (e\<lparr>ee_last_used := t\<rparr>) es" "b = ee_breaker e"
      using assms(3) by (auto simp: get_or_insert_cases es_def [symmetric] Let_def)
    moreover have "e\<lparr>ee_last_used := t\<rparr> = \<lparr>ee_breaker = ee_breaker e, ee_last_used = t\<rparr>" by (cases e) simp
    ultimately show ?thesis by auto
  qed (use assms(3) room_for_subset[of "es_max_entries s" es] in
      \<open>auto simp: get_or_insert_cases es_def [symmetric] Let_def\<close>)
  then obtain base where base: "es_entries s1 = AList.update k \<lparr>ee_breaker = b, ee_last_used = t\<rparr> base"
      "set base \<subseteq> set es" by blast
  have "\<forall>(k', e) \<in> set (es_entries s1). k' \<noteq> k \<longrightarrow> ee_last_used e < t"
    using base set_alist_update_subset[of k _ base] sub assms(2) by fastforce
  then have h1: "hot k b t (fst ` set ls) s1"
    using ok1(1) base(1) by (auto simp: hot_def update_conv')
  have "\<forall>(x, now) \<in> set ls. x \<in> fst ` set ls \<and> t \<le> now \<and> now < t + es_idle_eviction s1"
    using assms(6) ok1 by force
  then have "hot k b t (fst ` set ls) s2 \<and> es_idle_eviction s2 = es_idle_eviction s"
    using hot_lookups[OF h1 _ _ assms(5), of ls heap1] assms(4,7) ok1 by simp
  then show ?thesis using hot_hit assms(8,9) by metis
qed

section \<open>The hypotheses hold\<close>

definition store_demo_config :: BreakerConfig where
  "store_demo_config = BreakerConfig_new 40 4 2 \<lparr>mant = 1, expo = 1\<rparr> 100 300 1 2"

definition demo_selector :: ServiceSelector where
  "demo_selector = \<lparr>ss_service_id = ''orders'', ss_group = None, ss_version = None, ss_metadata = [], ss_identity = ''orders''\<rparr>"

definition eb_demo_ops :: "eb_op list" where
  "eb_demo_ops = [EB_Replace demo_selector [''http://a''],
    EB_Lookup ''orders'' ''json'' BS_Discovery ''http://a'' 5,
    EB_Lookup ''orders'' ''json'' BS_Discovery ''http://b'' 6]"

theorem endpoint_breaker_cache_bounded_witness:
  "length (es_entries (eb_store (eb_run eb_demo_ops (EndpointBreakers_new store_demo_config 1 10)))) \<le> 1"
  by (rule endpoint_breaker_cache_bounded) (simp_all add: eb_demo_ops_def USIZE_MAX_def)

definition demo_key :: EndpointBreakerKey where
  "demo_key = \<lparr>bk_service = ''orders'', bk_binding_id = ''json'', bk_source = BS_Discovery, bk_endpoint = ''http://a''\<rparr>"

lemma demo_key_cached:
  "demo_key \<in> fst ` set (es_entries (eb_store (eb_run eb_demo_ops (EndpointBreakers_new store_demo_config 1 10))))"
  by (simp add: eb_demo_ops_def eb_run_def EndpointBreakers_new_def EndpointBreakerStore_new_def
      replace_discovery_def replace_owner_def discovery_endpoints_def owner_endpoints_def set_difference_def
      remove_cached_def store_retain_def get_or_insert_observed_def get_or_insert_def evict_idle_locked_def
      new_breaker_def untracked_def Let_def saturating_add_def demo_selector_def demo_key_def)

theorem discovery_breakers_follow_membership_witness:
  "\<exists>(selector, endpoints) \<in> set (dm_owners (eb_memberships
       (eb_run eb_demo_ops (EndpointBreakers_new store_demo_config 1 10)))).
     \<lparr>de_service = ''orders'', de_endpoint = ''http://a''\<rparr> \<in> set endpoints"
proof -
  have "length eb_demo_ops \<le> USIZE_MAX" by (simp add: eb_demo_ops_def USIZE_MAX_def)
  from discovery_breakers_follow_membership[OF _ this refl demo_key_cached] show ?thesis
    by (simp add: demo_key_def)
qed

theorem recently_used_breaker_kept_witness:
  "\<exists>s1 heap1 s2 heap2.
     get_or_insert (1::nat) 5 (EndpointBreakerStore_new store_demo_config 2 10) [] = (0, s1, heap1)
     \<and> store_lookups [(2, 6), (2, 7)] (s1, heap1) = (s2, heap2)
     \<and> fst (get_or_insert 1 8 s2 heap2) = 0"
proof -
  define s :: "nat EndpointBreakerStore" where "s = EndpointBreakerStore_new store_demo_config 2 10"
  obtain s1 heap1 where g: "get_or_insert 1 5 s [] = (0, s1, heap1)"
    by (simp add: s_def get_or_insert_def EndpointBreakerStore_new_def evict_idle_locked_def new_breaker_def Let_def)
  obtain s2 heap2 where l: "store_lookups [(2, 6), (2, 7)] (s1, heap1) = (s2, heap2)" by fastforce
  have "fst (get_or_insert 1 8 s2 heap2) = 0"
    by (rule recently_used_breaker_kept[OF _ _ g _ _ _ l])
      (simp_all add: s_def EndpointBreakerStore_new_def store_ok_def)
  then show ?thesis using g l unfolding s_def by blast
qed

end
