(* ===== verification/Retry.thy ===== *)
theory Retry
  imports Classify
begin

text \<open>
  Retry decisions of \<open>fusen/src/resilience/retry.rs\<close>: the token bucket that bounds retries per
  service, the guards around the retry policy, and the full-jitter backoff.

  Time is a parameter of every operation that reads the clock.  The retry policy (a trait of the
  library's user) and the random draw of the \<^verbatim>\<open>rand\<close> crate are arguments.
\<close>

section \<open>The token bucket\<close>

definition TOKEN_SCALE :: nat where "TOKEN_SCALE = 10 ^ 9"

definition HARD_MAX_ATTEMPTS :: nat where "HARD_MAX_ATTEMPTS = 3"

record BudgetState =
  scaled_tokens :: nat
  last_refill :: instant

record RetryBudget =
  rb_capacity :: nat
  rb_refill_per_second :: nat
  rb_state :: BudgetState

definition RetryBudget_new :: "nat \<Rightarrow> nat \<Rightarrow> instant \<Rightarrow> RetryBudget" where
  "RetryBudget_new capacity refill_per_second now =
     \<lparr>rb_capacity = capacity, rb_refill_per_second = refill_per_second,
      rb_state = \<lparr>scaled_tokens = capacity * TOKEN_SCALE, last_refill = now\<rparr>\<rparr>"

definition refill :: "RetryBudget \<Rightarrow> BudgetState \<Rightarrow> instant \<Rightarrow> BudgetState" where
  "refill b state now =
     (let elapsed = saturating_duration_since now (last_refill state);
          replenished = saturating_mul U128_MAX elapsed (rb_refill_per_second b);
          maximum = rb_capacity b * TOKEN_SCALE
      in \<lparr>scaled_tokens = min (saturating_add U128_MAX (scaled_tokens state) replenished) maximum,
          last_refill = now\<rparr>)"

definition budget_try_acquire :: "RetryBudget \<Rightarrow> instant \<Rightarrow> bool \<times> RetryBudget" where
  "budget_try_acquire b now =
     (let state = refill b (rb_state b) now
      in if scaled_tokens state < TOKEN_SCALE
         then (False, b\<lparr>rb_state := state\<rparr>)
         else (True, b\<lparr>rb_state := state\<lparr>scaled_tokens := scaled_tokens state - TOKEN_SCALE\<rparr>\<rparr>))"

section \<open>Decisions\<close>

datatype RetryDecision = RD_Retry | RD_Stop

record RetryDecisionContext =
  rc_completed_attempts :: nat
  rc_max_attempts :: nat
  rc_method_allows_retries :: bool
  rc_failure :: FailureClass
  rc_remaining :: duration

definition hard_attempt_limit :: "nat \<Rightarrow> nat" where
  "hard_attempt_limit configured =
     (if configured = 0 then 1
      else if HARD_MAX_ATTEMPTS < configured then HARD_MAX_ATTEMPTS
      else configured)"

definition has_next_attempt :: "nat \<Rightarrow> nat \<Rightarrow> bool" where
  "has_next_attempt completed_attempts configured = (completed_attempts < hard_attempt_limit configured)"

definition RetryDecisionContext_new ::
  "nat \<Rightarrow> nat \<Rightarrow> bool \<Rightarrow> FailureClass \<Rightarrow> duration \<Rightarrow> RetryDecisionContext" where
  "RetryDecisionContext_new completed_attempts configured_max_attempts method_allows failure remaining =
     \<lparr>rc_completed_attempts = max completed_attempts 1,
      rc_max_attempts = hard_attempt_limit configured_max_attempts,
      rc_method_allows_retries = method_allows, rc_failure = failure, rc_remaining = remaining\<rparr>"

type_synonym RetryPolicy = "RetryDecisionContext \<Rightarrow> RetryDecision"

definition StandardRetryPolicy_decide :: RetryPolicy where
  "StandardRetryPolicy_decide context =
     (if rc_method_allows_retries context \<and> is_retryable (rc_failure context) then RD_Retry else RD_Stop)"

text \<open>The guards in the order of the source: the budget is asked only when every other one passed.\<close>

definition decide_with_guards ::
  "RetryPolicy \<Rightarrow> RetryDecisionContext \<Rightarrow> RetryBudget \<Rightarrow> instant \<Rightarrow> RetryDecision \<times> RetryBudget" where
  "decide_with_guards policy context budget now =
     (if rc_remaining context = 0
         \<or> \<not> has_next_attempt (rc_completed_attempts context) (rc_max_attempts context)
         \<or> \<not> rc_method_allows_retries context
         \<or> \<not> is_retryable (rc_failure context)
         \<or> policy context \<noteq> RD_Retry
      then (RD_Stop, budget)
      else (let (acquired, budget) = budget_try_acquire budget now
            in (if acquired then RD_Retry else RD_Stop, budget)))"

section \<open>Backoff\<close>

definition exponential_ceiling :: "duration \<Rightarrow> duration \<Rightarrow> nat \<Rightarrow> duration" where
  "exponential_ceiling base cap retry_ordinal =
     (let shift = min (retry_ordinal - 1) 31
      in min (case checked_mul_duration base (2 ^ shift) of Some d \<Rightarrow> d | None \<Rightarrow> cap) cap)"

definition duration_from_nanos :: "nat \<Rightarrow> duration" where
  "duration_from_nanos nanos =
     (nanos div NANOS_PER_SEC) mod 2 ^ 64 * NANOS_PER_SEC + nanos mod NANOS_PER_SEC"

definition full_jitter_backoff :: "duration \<Rightarrow> duration \<Rightarrow> nat \<Rightarrow> (nat \<Rightarrow> nat) \<Rightarrow> duration" where
  "full_jitter_backoff base cap retry_ordinal draw =
     duration_from_nanos (draw (exponential_ceiling base cap retry_ordinal))"

end
