(* ===== verification/Retry_Theorems.thy ===== *)
theory Retry_Theorems
  imports Retry
begin

text \<open>
  The retry budget as a meter: whatever the calls, an interval of time is granted at most the
  capacity plus what the interval replenishes; an empty bucket grants again once one token's time
  has passed.  The backoff is the drawn value below the capped exponential, without truncation.
\<close>

section \<open>The interface of a meter\<close>

fun metered_run :: "('b \<Rightarrow> instant \<Rightarrow> bool \<times> 'b) \<Rightarrow> 'b \<Rightarrow> instant list \<Rightarrow> bool list \<times> 'b" where
  "metered_run acquire b [] = ([], b)"
| "metered_run acquire b (t # ts) =
     (let (ok, b) = acquire b t; (oks, b) = metered_run acquire b ts in (ok # oks, b))"

definition granted :: "bool list \<Rightarrow> nat" where "granted oks = length (filter (\<lambda>ok. ok) oks)"

locale meter =
  fixes acquire :: "'b \<Rightarrow> instant \<Rightarrow> bool \<times> 'b"
    and level :: "'b \<Rightarrow> nat"
    and clock :: "'b \<Rightarrow> instant"
    and full :: nat and rate :: nat and cost :: nat
    and ok :: "'b \<Rightarrow> bool"
  assumes ok_acquire: "ok b \<Longrightarrow> ok (snd (acquire b t))"
    and clock_acquire: "clock (snd (acquire b t)) = t"
    and level_acquire: "ok b \<Longrightarrow>
      (if fst (acquire b t) then cost else 0) + level (snd (acquire b t)) \<le> level b + rate * (t - clock b)"
    and level_full: "ok b \<Longrightarrow> (if fst (acquire b t) then cost else 0) + level (snd (acquire b t)) \<le> full"
begin

lemma run_level:
  "\<lbrakk>ok b; sorted (clock b # ts)\<rbrakk> \<Longrightarrow>
   cost * granted (fst (metered_run acquire b ts)) + level (snd (metered_run acquire b ts))
     \<le> level b + rate * (last (clock b # ts) - clock b)"
proof (induction ts arbitrary: b)
  case (Cons t ts)
  obtain g b' where a: "acquire b t = (g, b')" by fastforce
  obtain gs b'' where r: "metered_run acquire b' ts = (gs, b'')" by fastforce
  have b': "ok b'" "clock b' = t" using ok_acquire[OF Cons.prems(1), of t] clock_acquire[of b t] a by auto
  have step: "(if g then cost else 0) + level b' \<le> level b + rate * (t - clock b)"
    using level_acquire[OF Cons.prems(1), of t] a by simp
  have rest: "cost * granted gs + level b'' \<le> level b' + rate * (last (t # ts) - t)"
    using Cons.IH[OF b'(1)] Cons.prems(2) b'(2) r by simp
  have "clock b \<le> t" "t \<le> last (t # ts)" using Cons.prems(2) by auto
  then have "last (t # ts) - clock b = (t - clock b) + (last (t # ts) - t)" by linarith
  then have "rate * (last (t # ts) - clock b) = rate * (t - clock b) + rate * (last (t # ts) - t)"
    by (simp only: distrib_left)
  then show ?case using step rest a r by (auto simp: granted_def)
qed (simp add: granted_def)

lemma run_ok: "ok b \<Longrightarrow> ok (snd (metered_run acquire b ts))"
proof (induction ts arbitrary: b)
  case (Cons t ts)
  then show ?case using ok_acquire[of b t] by (auto simp: case_prod_beta Let_def)
qed simp

lemma run_bound:
  assumes "ok b" "sorted (t # ts)"
  shows "cost * granted (fst (metered_run acquire b (t # ts))) \<le> full + rate * (last (t # ts) - t)"
proof -
  obtain g b' where a: "acquire b t = (g, b')" by fastforce
  obtain gs b'' where r: "metered_run acquire b' ts = (gs, b'')" by fastforce
  have b': "ok b'" "clock b' = t" using ok_acquire[OF assms(1), of t] clock_acquire[of b t] a by auto
  have "(if g then cost else 0) + level b' \<le> full" using level_full[OF assms(1), of t] a by simp
  moreover have "cost * granted gs + level b'' \<le> level b' + rate * (last (t # ts) - t)"
    using run_level[OF b'(1), of ts] assms(2) b'(2) r by simp
  ultimately show ?thesis using a r by (auto simp: granted_def)
qed

end

section \<open>The retry budget\<close>

definition budget_of :: "nat \<Rightarrow> nat \<Rightarrow> RetryBudget \<Rightarrow> bool" where
  "budget_of capacity rate b = (rb_capacity b = capacity \<and> rb_refill_per_second b = rate)"

lemma saturating_add_le_sum: "saturating_add m a b \<le> a + b"
  by (simp add: saturating_add_def)

lemma saturating_mul_le_prod: "saturating_mul m a b \<le> a * b"
  by (simp add: saturating_mul_def)

lemma refill_level:
  "scaled_tokens (refill b s t) \<le> scaled_tokens s + rb_refill_per_second b * (t - last_refill s)"
  "scaled_tokens (refill b s t) \<le> rb_capacity b * TOKEN_SCALE"
proof -
  have "saturating_add U128_MAX (scaled_tokens s) (saturating_mul U128_MAX (t - last_refill s) (rb_refill_per_second b))
      \<le> scaled_tokens s + (t - last_refill s) * rb_refill_per_second b"
    using saturating_add_le_sum saturating_mul_le_prod by (meson add_left_mono order_trans)
  then show "scaled_tokens (refill b s t) \<le> scaled_tokens s + rb_refill_per_second b * (t - last_refill s)"
    by (simp add: refill_def Let_def saturating_duration_since_def mult.commute min.coboundedI1)
qed (simp add: refill_def Let_def)

lemma budget_try_acquire_cases:
  "budget_try_acquire b t =
     (let s = refill b (rb_state b) t; ok = TOKEN_SCALE \<le> scaled_tokens s
      in (ok, b\<lparr>rb_state := s\<lparr>scaled_tokens := scaled_tokens s - (if ok then TOKEN_SCALE else 0)\<rparr>\<rparr>))"
  by (simp add: budget_try_acquire_def Let_def not_less)

interpretation retry: meter budget_try_acquire "\<lambda>b. scaled_tokens (rb_state b)" "\<lambda>b. last_refill (rb_state b)"
    "capacity * TOKEN_SCALE" rate TOKEN_SCALE "budget_of capacity rate" for capacity rate
proof
  fix b t
  show "budget_of capacity rate b \<Longrightarrow> budget_of capacity rate (snd (budget_try_acquire b t))"
    by (simp add: budget_try_acquire_def budget_of_def Let_def)
  show "last_refill (rb_state (snd (budget_try_acquire b t))) = t"
    by (simp add: budget_try_acquire_def Let_def refill_def)
  assume b: "budget_of capacity rate b"
  have "(if fst (budget_try_acquire b t) then TOKEN_SCALE else 0)
      + scaled_tokens (rb_state (snd (budget_try_acquire b t))) = scaled_tokens (refill b (rb_state b) t)"
    by (simp add: budget_try_acquire_cases Let_def)
  then show "(if fst (budget_try_acquire b t) then TOKEN_SCALE else 0)
      + scaled_tokens (rb_state (snd (budget_try_acquire b t)))
      \<le> scaled_tokens (rb_state b) + rate * (t - last_refill (rb_state b))"
    and "(if fst (budget_try_acquire b t) then TOKEN_SCALE else 0)
      + scaled_tokens (rb_state (snd (budget_try_acquire b t))) \<le> capacity * TOKEN_SCALE"
    using refill_level[of b "rb_state b" t] b by (simp_all add: budget_of_def)
qed

text \<open>
  C13.  Over any run of the retry budget at non-decreasing times, the retries granted by the calls of
  an interval (here the calls after \<open>xs\<close>, from \<open>t\<close> on) never exceed the capacity plus the tokens
  that the interval replenishes, saturation included.
\<close>

theorem retry_budget_bounds_amplification:
  assumes "sorted (t # ts)"
    and "b = snd (metered_run budget_try_acquire (RetryBudget_new capacity rate t0) xs)"
  shows "TOKEN_SCALE * granted (fst (metered_run budget_try_acquire b (t # ts)))
    \<le> capacity * TOKEN_SCALE + rate * (last (t # ts) - t)"
proof (rule retry.run_bound[OF _ assms(1)])
  show "budget_of capacity rate b"
    unfolding assms(2) by (rule retry.run_ok) (simp add: budget_of_def RetryBudget_new_def)
qed

theorem retry_budget_bounds_amplification_witness:
  "\<exists>b. b = snd (metered_run budget_try_acquire (RetryBudget_new 2 1 0) [0, 0, 0])
     \<and> TOKEN_SCALE * granted (fst (metered_run budget_try_acquire b [5, 1000000005, 1000000005]))
         \<le> 2 * TOKEN_SCALE + 1 * (1000000005 - 5)"
  using retry_budget_bounds_amplification[of 5 "[1000000005, 1000000005]", OF _ refl, of 2 1 0 "[0, 0, 0]"]
  by (auto intro!: exI)

text \<open>
   A budget whose configuration is valid is never stuck: once the time of one token has passed
  since the last call, the next retry is granted.
\<close>

theorem retry_budget_replenishes:
  "\<lbrakk>0 < rb_capacity b; TOKEN_SCALE \<le> (now - last_refill (rb_state b)) * rb_refill_per_second b\<rbrakk> \<Longrightarrow>
   fst (budget_try_acquire b now)"
proof -
  assume cap: "0 < rb_capacity b" and time: "TOKEN_SCALE \<le> (now - last_refill (rb_state b)) * rb_refill_per_second b"
  have s: "TOKEN_SCALE \<le> U128_MAX" by (simp add: TOKEN_SCALE_def U128_MAX_def)
  have "TOKEN_SCALE \<le> saturating_mul U128_MAX (now - last_refill (rb_state b)) (rb_refill_per_second b)"
    using time s by (simp add: saturating_mul_def)
  then have "TOKEN_SCALE \<le> saturating_add U128_MAX (scaled_tokens (rb_state b))
      (saturating_mul U128_MAX (now - last_refill (rb_state b)) (rb_refill_per_second b))"
    using s by (simp add: saturating_add_def)
  moreover have "TOKEN_SCALE \<le> rb_capacity b * TOKEN_SCALE" using cap by simp
  ultimately show ?thesis
    by (simp add: budget_try_acquire_cases Let_def refill_def saturating_duration_since_def)
qed

theorem retry_budget_replenishes_witness:
  "fst (budget_try_acquire \<lparr>rb_capacity = 1, rb_refill_per_second = 2,
     rb_state = \<lparr>scaled_tokens = 0, last_refill = 7\<rparr>\<rparr> 500000007)"
  by (rule retry_budget_replenishes) (simp_all add: TOKEN_SCALE_def)

text \<open>
  The backoff before retry \<open>n\<close> is the drawn number of nanoseconds, drawn below the smaller of the
  cap and \<open>base * 2 ^ (n - 1)\<close> (the exponent capped at 31): neither the multiplication nor the
  conversion loses anything for representable durations.
\<close>

theorem backoff_exact:
  "\<lbrakk>cap < DURATION_LIMIT; draw (min (base * 2 ^ min (n - 1) 31) cap) \<le> min (base * 2 ^ min (n - 1) 31) cap\<rbrakk> \<Longrightarrow>
   full_jitter_backoff base cap n draw = draw (min (base * 2 ^ min (n - 1) 31) cap)"
proof -
  assume cap: "cap < DURATION_LIMIT"
    and draw: "draw (min (base * 2 ^ min (n - 1) 31) cap) \<le> min (base * 2 ^ min (n - 1) 31) cap"
  have c: "exponential_ceiling base cap n = min (base * 2 ^ min (n - 1) 31) cap"
    using cap by (auto simp: exponential_ceiling_def Let_def checked_mul_duration_def)
  have "duration_from_nanos d = d" if "d < DURATION_LIMIT" for d
  proof -
    have "d div NANOS_PER_SEC < 2 ^ 64"
      using that by (simp add: DURATION_LIMIT_def NANOS_PER_SEC_def less_mult_imp_div_less)
    then show ?thesis by (simp add: duration_from_nanos_def)
  qed
  then show ?thesis using cap draw by (simp add: full_jitter_backoff_def c)
qed

theorem backoff_exact_witness:
  "full_jitter_backoff 50000000 1000000000 3 (\<lambda>c. c div 2) = 100000000"
  using backoff_exact[of 1000000000 "\<lambda>c. c div 2" 50000000 3]
  by (simp add: DURATION_LIMIT_def NANOS_PER_SEC_def)

end
