(* ===== verification/Template.thy ===== *)
theory Template
  imports Contract_Properties
begin

text \<open>
  Route templates as lists of segments, the \<^verbatim>\<open>Segment\<close> of \<open>fusen/src/server/routes.rs\<close>, and what the
  route validator of the contract crate accepts: exactly the renderings of well-formed segment
  lists, and no two lists have the same rendering.
\<close>

datatype Segment = Literal string | Parameter string

fun render_segment :: "Segment \<Rightarrow> string" where
  "render_segment (Literal d) = encode_route_literal d"
| "render_segment (Parameter n) = CHR ''{'' # n @ ''}''"

definition render_template :: "Segment list \<Rightarrow> string" where
  "render_template segs =
     (if segs = [] then ''/'' else concat (map ((#) (CHR ''/'')) (map render_segment segs)))"

definition literal_ok :: "string \<Rightarrow> bool" where
  "literal_ok d =
     (d \<noteq> [] \<and> list_all route_byte d \<and> d \<noteq> ''.'' \<and> d \<noteq> ''..''
      \<and> (case utf8_decode d of
           None \<Rightarrow> False
         | Some cs \<Rightarrow> \<not> list_ex char_is_whitespace cs \<and> \<not> list_ex char_is_control cs))"

fun segment_ok :: "Segment \<Rightarrow> bool" where
  "segment_ok (Literal d) = literal_ok d"
| "segment_ok (Parameter n) = is_identity_component n"

fun parameter_names :: "Segment list \<Rightarrow> string list" where
  "parameter_names [] = []"
| "parameter_names (Literal d # segs) = parameter_names segs"
| "parameter_names (Parameter n # segs) = n # parameter_names segs"

definition template_ok :: "Segment list \<Rightarrow> bool" where
  "template_ok segs = (list_all segment_ok segs \<and> distinct (parameter_names segs))"

section \<open>Segments and their text\<close>

lemma decode_literal_bytes_iff:
  "decode_literal_bytes s = Inr d \<longleftrightarrow> list_all route_byte d \<and> s = encode_route_literal d"
  by (metis decode_literal_bytes_Inr decode_literal_bytes_encode)

lemma decode_route_literal_checks:
  "decode_route_literal s = Inr d \<longleftrightarrow>
     decode_literal_bytes s = Inr d \<and> d \<noteq> ''.'' \<and> d \<noteq> ''..''
     \<and> (case utf8_decode d of
           None \<Rightarrow> False
         | Some cs \<Rightarrow> \<not> list_ex char_is_whitespace cs \<and> \<not> list_ex char_is_control cs)"
proof (cases "decode_literal_bytes s")
  case (Inr x)
  show ?thesis
    by (cases "utf8_decode x") (auto simp: decode_route_literal_def Inr)
qed (simp add: decode_route_literal_def)

lemma encode_route_literal_Nil [simp]: "encode_route_literal d = [] \<longleftrightarrow> d = []"
  by (cases d) (auto simp: encode_route_byte_def)

lemma decode_route_literal_Inr:
  "s \<noteq> [] \<Longrightarrow> decode_route_literal s = Inr d \<longleftrightarrow> literal_ok d \<and> s = encode_route_literal d"
  unfolding decode_route_literal_checks decode_literal_bytes_iff literal_ok_def by auto

lemma uppercase_hex_digit_plain:
  "n < 16 \<Longrightarrow> uppercase_hex_digit n \<notin> {CHR ''/'', CHR ''{'', CHR ''}'', CHR ''?'', CHR ''#''}"
proof -
  assume "n < 16"
  then have "byte (uppercase_hex_digit n) = (if n < 10 then 48 + n else 55 + n)"
    by (simp add: uppercase_hex_digit_def byte_char_of)
  moreover have "byte (CHR ''/'') = 47" "byte (CHR ''{'') = 123" "byte (CHR ''}'') = 125"
    "byte (CHR ''?'') = 63" "byte (CHR ''#'') = 35"
    by (simp_all add: byte_def)
  ultimately show ?thesis using \<open>n < 16\<close>
    by (auto simp flip: byte_eq_iff split: if_splits)
qed

lemma encode_route_byte_plain:
  assumes "route_byte c" "x \<in> {CHR ''/'', CHR ''{'', CHR ''}'', CHR ''?'', CHR ''#''}"
  shows "x \<notin> set (encode_route_byte c)"
proof (cases "byte c < 128")
  case True
  then have "is_route_pchar c" using assms(1) by (simp add: route_byte_def)
  then show ?thesis using True assms(2)
    by (auto simp: encode_route_byte_def is_route_pchar_def ascii_defs)
next
  case False
  have "byte c div 16 < 16" "byte c mod 16 < 16"
    using byte_less_256[of c] by (simp_all add: less_mult_imp_div_less)
  from uppercase_hex_digit_plain[OF this(1)] uppercase_hex_digit_plain[OF this(2)]
  show ?thesis using False assms(2) by (auto simp: encode_route_byte_def)
qed

lemma encode_route_literal_plain:
  "list_all route_byte d \<Longrightarrow> x \<in> {CHR ''/'', CHR ''{'', CHR ''}'', CHR ''?'', CHR ''#''} \<Longrightarrow>
   x \<notin> set (encode_route_literal d)"
  using encode_route_byte_plain by (auto simp: encode_route_literal_def list_all_iff)

lemma identity_byte_plain:
  "identity_byte c \<Longrightarrow> c \<notin> {CHR ''/'', CHR ''{'', CHR ''}'', CHR ''?'', CHR ''#''}"
  by (auto simp: identity_byte_def ascii_defs)

lemma render_segment_not_Nil: "segment_ok seg \<Longrightarrow> render_segment seg \<noteq> []"
  by (cases seg) (auto simp: literal_ok_def)

lemma render_segment_plain:
  "segment_ok seg \<Longrightarrow> x \<in> {CHR ''/'', CHR ''?'', CHR ''#''} \<Longrightarrow> x \<notin> set (render_segment seg)"
  using identity_byte_plain encode_route_literal_plain[of _ x]
  by (cases seg) (auto simp: literal_ok_def is_identity_component_def list_all_iff)

lemma placeholder_name_Some: "placeholder_name s = Some n \<longleftrightarrow> s = CHR ''{'' # n @ ''}''"
  by (auto simp: placeholder_name_def bind_eq_Some_conv strip_prefix_Some_iff strip_suffix_Some_iff)

lemma placeholder_name_render:
  "segment_ok seg \<Longrightarrow> placeholder_name (render_segment seg) =
     (case seg of Parameter n \<Rightarrow> Some n | Literal d \<Rightarrow> None)"
proof (cases seg)
  case (Literal d)
  assume "segment_ok seg"
  then have "CHR ''{'' \<notin> set (encode_route_literal d)"
    using Literal encode_route_literal_plain by (simp add: literal_ok_def)
  then have "placeholder_name (encode_route_literal d) \<noteq> Some n" for n
    unfolding placeholder_name_Some by (metis list.set_intros(1))
  then show ?thesis using Literal by (cases "placeholder_name (encode_route_literal d)") auto
qed (simp add: placeholder_name_Some)

lemma render_segment_inj:
  assumes "segment_ok a" "segment_ok b" "render_segment a = render_segment b"
  shows "a = b"
proof -
  have p: "placeholder_name (render_segment a) = placeholder_name (render_segment b)"
    using assms(3) by simp
  show ?thesis
  proof (cases a)
    case (Parameter n)
    then show ?thesis using p assms(1,2)
      by (cases b) (simp_all add: placeholder_name_render del: render_segment.simps)
  next
    case (Literal d)
    then obtain e where b: "b = Literal e" using p assms(1,2)
      by (cases b) (simp_all add: placeholder_name_render del: render_segment.simps)
    have "decode_literal_bytes (encode_route_literal d) = decode_literal_bytes (encode_route_literal e)"
      using assms(3) Literal b by simp
    then show ?thesis using assms(1,2) Literal b
      by (simp add: decode_literal_bytes_encode literal_ok_def)
  qed
qed

section \<open>Paths and their segments\<close>

lemma path_segments_shape:
  "[] \<notin> set (tl (split_on (\<lambda>c. c = CHR ''/'') r)) \<longleftrightarrow>
     \<not> has_double_slash r \<and> (r = [] \<or> last r \<noteq> CHR ''/'')"
proof (induction r)
  case (Cons c r)
  obtain s ss where sp: "split_on (\<lambda>c. c = CHR ''/'') r = s # ss"
    by (cases "split_on (\<lambda>c. c = CHR ''/'') r") auto
  have s: "s = [] \<longleftrightarrow> r = [] \<or> hd r = CHR ''/''"
    using sp by (cases r) (auto split: if_splits list.splits)
  show ?case
  proof (cases r)
    case Nil
    then show ?thesis by simp
  next
    case (Cons d t)
    then show ?thesis using Cons.IH sp s by (auto split: list.splits)
  qed
qed simp

text \<open>The checks of the validator on the whole path: it is \<open>/\<close> or \<open>/s1/s2/...\<close>.\<close>

definition canonical_path :: "string \<Rightarrow> bool" where
  "canonical_path path =
     (starts_with ''/'' path \<and> \<not> has_double_slash path \<and> \<not> (1 < length path \<and> last path = CHR ''/''))"

definition join_path :: "string list \<Rightarrow> string" where
  "join_path ss = (if ss = [] then ''/'' else concat (map ((#) (CHR ''/'')) ss))"

lemma trim_matches_id:
  "r \<noteq> [] \<Longrightarrow> hd r \<noteq> d \<Longrightarrow> last r \<noteq> d \<Longrightarrow> trim_matches d (d # r) = r"
proof -
  assume a: "r \<noteq> []" "hd r \<noteq> d" "last r \<noteq> d"
  have "dropWhile (\<lambda>x. x = d) r = r" using a by (cases r) auto
  moreover have "dropWhile (\<lambda>x. x = d) (rev r) = rev r"
    using a by (simp add: dropWhile_eq_self_iff hd_rev)
  ultimately show ?thesis by (simp add: trim_matches_def)
qed

lemma canonical_path_segments:
  assumes "canonical_path path"
  shows "path = join_path (path_segments path)"
proof -
  from assms obtain r where p: "path = CHR ''/'' # r"
    by (auto simp: canonical_path_def starts_with_iff)
  show ?thesis
  proof (cases "r = []")
    case True
    then show ?thesis by (simp add: p path_segments_def trim_matches_def join_path_def)
  next
    case False
    then obtain c t where r: "r = c # t" by (cases r) auto
    have last: "last r \<noteq> CHR ''/''" and nd: "\<not> has_double_slash path"
      using assms False by (auto simp: canonical_path_def p)
    then have c: "hd r \<noteq> CHR ''/''" by (simp add: p r)
    have "[] \<notin> set (tl (split_on (\<lambda>c. c = CHR ''/'') path))"
      using path_segments_shape[of path] nd last False p by simp
    then have "\<forall>s \<in> set (split_on (\<lambda>c. c = CHR ''/'') r). s \<noteq> []" by (auto simp: p)
    then have "path_segments path = split_on (\<lambda>c. c = CHR ''/'') r"
      by (simp add: path_segments_def p trim_matches_id False c last filter_id_conv)
    then show ?thesis by (simp add: join_path_def p concat_Cons_split_on)
  qed
qed

lemma join_path_segments:
  assumes "\<forall>s \<in> set ss. s \<noteq> [] \<and> CHR ''/'' \<notin> set s"
  shows "canonical_path (join_path ss) \<and> path_segments (join_path ss) = ss"
proof (cases ss)
  case Nil
  then show ?thesis
    by (simp add: join_path_def canonical_path_def starts_with_iff path_segments_def trim_matches_def)
next
  case (Cons s t)
  then obtain r where r: "join_path ss = CHR ''/'' # r" by (simp add: join_path_def)
  have sp: "split_on (\<lambda>c. c = CHR ''/'') (join_path ss) = [] # ss"
    using split_on_concat_Cons[of ss "CHR ''/''"] assms Cons by (simp add: join_path_def)
  then have spr: "split_on (\<lambda>c. c = CHR ''/'') r = ss" by (simp add: r)
  have shape: "\<not> has_double_slash (join_path ss) \<and> last (join_path ss) \<noteq> CHR ''/''"
    using path_segments_shape[of "join_path ss"] sp assms r by auto
  have rne: "r \<noteq> []" using r shape by auto
  then have "hd r \<noteq> CHR ''/''" "last r \<noteq> CHR ''/''" using shape r by (cases r; auto)+
  then have "path_segments (join_path ss) = ss"
    using assms by (simp add: path_segments_def r trim_matches_id rne spr filter_id_conv)
  then show ?thesis using shape r by (simp add: canonical_path_def starts_with_iff)
qed

section \<open>The route validator\<close>

lemma scan_segments_render:
  "\<lbrakk>list_all segment_ok segs; distinct (parameter_names segs);
    set (parameter_names segs) \<inter> set ps = {}\<rbrakk> \<Longrightarrow>
   scan_segments (map render_segment segs) ps = Inr (rev (parameter_names segs) @ ps)"
proof (induction segs arbitrary: ps)
  case (Cons seg segs)
  have ok: "segment_ok seg" using Cons.prems by simp
  show ?case
  proof (cases seg)
    case (Parameter n)
    then show ?thesis using Cons placeholder_name_render[OF ok] by simp
  next
    case (Literal d)
    have d: "literal_ok d" using ok Literal by simp
    then have "decode_route_literal (encode_route_literal d) = Inr d"
      by (simp add: decode_route_literal_Inr literal_ok_def)
    moreover have "CHR ''{'' \<notin> set (encode_route_literal d)" "CHR ''}'' \<notin> set (encode_route_literal d)"
      using d by (simp_all add: literal_ok_def encode_route_literal_plain)
    ultimately show ?thesis using Cons placeholder_name_render[OF ok] Literal by simp
  qed
qed simp

lemma scan_segments_Inr:
  "\<lbrakk>scan_segments ss ps = Inr ns; [] \<notin> set ss\<rbrakk> \<Longrightarrow>
   \<exists>segs. ss = map render_segment segs \<and> list_all segment_ok segs
     \<and> distinct (parameter_names segs) \<and> set (parameter_names segs) \<inter> set ps = {}
     \<and> ns = rev (parameter_names segs) @ ps"
proof (induction ss ps rule: scan_segments.induct)
  case (1 ps)
  then show ?case by (intro exI[of _ "[]"]) simp
next
  case (2 s ss ps)
  show ?case
  proof (cases "placeholder_name s")
    case None
    then obtain d where d: "decode_route_literal s = Inr d" "scan_segments ss ps = Inr ns"
      and nb: "\<not> (CHR ''{'' \<in> set s \<or> CHR ''}'' \<in> set s)"
      using "2.prems" by (auto split: if_splits sum.splits)
    from "2.IH"(1)[OF None nb d(1,2)] "2.prems"(2) obtain segs where
      "ss = map render_segment segs" "list_all segment_ok segs" "distinct (parameter_names segs)"
      "set (parameter_names segs) \<inter> set ps = {}" "ns = rev (parameter_names segs) @ ps"
      by auto
    moreover have "literal_ok d \<and> s = encode_route_literal d"
      using d(1) "2.prems"(2) decode_route_literal_Inr[of s d] by auto
    ultimately show ?thesis by (intro exI[of _ "Literal d # segs"]) simp
  next
    case (Some n)
    then have n: "\<not> (\<not> is_identity_component n \<or> n \<in> set ps)" "scan_segments ss (n # ps) = Inr ns"
      using "2.prems" by (auto split: if_splits)
    from "2.IH"(2)[OF Some n] "2.prems"(2) obtain segs where
      "ss = map render_segment segs" "list_all segment_ok segs" "distinct (parameter_names segs)"
      "set (parameter_names segs) \<inter> set (n # ps) = {}" "ns = rev (parameter_names segs) @ n # ps"
      by auto
    then show ?thesis using n Some
      by (intro exI[of _ "Parameter n # segs"]) (simp add: placeholder_name_Some)
  qed
qed

lemma render_template_join: "render_template segs = join_path (map render_segment segs)"
  by (simp add: render_template_def join_path_def)

lemma render_template_segments:
  "list_all segment_ok segs \<Longrightarrow>
   canonical_path (render_template segs) \<and> path_segments (render_template segs) = map render_segment segs"
  unfolding render_template_join using render_segment_not_Nil render_segment_plain
  by (intro join_path_segments) (auto simp: list_all_iff)

lemma render_template_plain:
  "list_all segment_ok segs \<Longrightarrow> x \<in> {CHR ''?'', CHR ''#''} \<Longrightarrow> x \<notin> set (render_template segs)"
  using render_segment_plain[of _ x] by (auto simp: render_template_def list_all_iff)

lemma render_template_inj:
  assumes "list_all segment_ok a" "list_all segment_ok b" "render_template a = render_template b"
  shows "a = b"
proof -
  have "map render_segment a = map render_segment b"
    using render_template_segments assms by metis
  then show ?thesis
    using assms(1,2) by (induction a b rule: list_induct2') (auto simp: render_segment_inj)
qed

lemma validate_http_route_Inr:
  "validate_http_route path = Inr names \<longleftrightarrow>
     (\<exists>segs. template_ok segs \<and> path = render_template segs \<and> names = rev (parameter_names segs))"
proof
  assume v: "validate_http_route path = Inr names"
  then have "canonical_path path" and sc: "scan_segments (path_segments path) [] = Inr names"
    by (auto simp: validate_http_route_def canonical_path_def split: if_splits)
  from scan_segments_Inr[OF sc] obtain segs where segs: "path_segments path = map render_segment segs"
    "list_all segment_ok segs" "distinct (parameter_names segs)" "names = rev (parameter_names segs)"
    by (auto simp: path_segments_def)
  moreover have "path = render_template segs"
    using canonical_path_segments[OF \<open>canonical_path path\<close>] segs(1) by (simp add: render_template_join)
  ultimately show "\<exists>segs. template_ok segs \<and> path = render_template segs \<and> names = rev (parameter_names segs)"
    by (auto simp: template_ok_def)
next
  assume "\<exists>segs. template_ok segs \<and> path = render_template segs \<and> names = rev (parameter_names segs)"
  then obtain segs where s: "template_ok segs" "path = render_template segs" "names = rev (parameter_names segs)"
    by blast
  then have ok: "list_all segment_ok segs" by (simp add: template_ok_def)
  then show "validate_http_route path = Inr names"
    using render_template_segments[OF ok] s scan_segments_render[of segs "[]"] render_template_plain[OF ok]
    by (auto simp: validate_http_route_def canonical_path_def template_ok_def)
qed

section \<open>The operation validator\<close>

definition of_source :: "HttpParameterSource \<Rightarrow> HttpParameter list \<Rightarrow> HttpParameter list" where
  "of_source src ps = filter (\<lambda>p. hp_source p = src) ps"

lemma scan_parameters_Inr:
  "scan_parameters ps sc = Inr sc' \<longleftrightarrow>
     distinct (map hp_name ps) \<and> set (map hp_name ps) \<inter> set (sc_names sc) = {}
     \<and> (\<forall>p \<in> set ps. hp_cardinality p = PC_Repeated \<longrightarrow> hp_source p = PS_Query)
     \<and> sc' = \<lparr>sc_names = rev (map hp_name ps) @ sc_names sc,
              sc_path = rev (map hp_name (of_source PS_Path ps)) @ sc_path sc,
              sc_body = sc_body sc + length (of_source PS_Body ps),
              sc_body_field = sc_body_field sc + length (of_source PS_BodyField ps),
              sc_query_map = sc_query_map sc + length (of_source PS_QueryMap ps),
              sc_header_map = sc_header_map sc + length (of_source PS_HeaderMap ps)\<rparr>"
proof (induction ps arbitrary: sc)
  case Nil
  then show ?case by (auto simp: of_source_def)
next
  case (Cons p ps)
  have "sc_names (count_source p x) = sc_names x" for x
    by (simp add: count_source_def split: HttpParameterSource.splits)
  then show ?case
    by (cases "hp_source p") (auto simp: Cons.IH of_source_def count_source_def)
qed

definition operation_ok :: "http_method \<Rightarrow> Segment list \<Rightarrow> HttpParameter list \<Rightarrow> bool" where
  "operation_ok method segs ps =
     (supported_method method \<and> template_ok segs
      \<and> distinct (map hp_name ps)
      \<and> (\<forall>p \<in> set ps. hp_cardinality p = PC_Repeated \<longrightarrow> hp_source p = PS_Query)
      \<and> length (of_source PS_Body ps) \<le> 1
      \<and> (of_source PS_Body ps = [] \<or> of_source PS_BodyField ps = [])
      \<and> length (of_source PS_QueryMap ps) \<le> 1 \<and> length (of_source PS_HeaderMap ps) \<le> 1
      \<and> (method \<in> {M_GET, M_HEAD, M_OPTIONS} \<longrightarrow>
            of_source PS_Body ps = [] \<and> of_source PS_BodyField ps = [])
      \<and> set (parameter_names segs) = hp_name ` set (of_source PS_Path ps))"

lemma validate_http_operation_iff:
  "validate_http_operation method path ps = Inr () \<longleftrightarrow>
     (\<exists>segs. path = render_template segs \<and> operation_ok method segs ps)"
proof (cases "validate_http_route path")
  case (Inl e)
  then have "\<not> (\<exists>segs. template_ok segs \<and> path = render_template segs)"
    using validate_http_route_Inr[of path] by (metis Inl_Inr_False)
  then show ?thesis using Inl by (auto simp: validate_http_operation_def operation_ok_def)
next
  case (Inr names)
  then obtain segs where segs: "template_ok segs" "path = render_template segs"
    "names = rev (parameter_names segs)"
    using validate_http_route_Inr by blast
  have uniq: "x = segs" if "template_ok x" "render_template segs = render_template x" for x
    using that segs(1) render_template_inj by (auto simp: template_ok_def)
  have "(\<exists>segs. path = render_template segs \<and> operation_ok method segs ps) \<longleftrightarrow> operation_ok method segs ps"
    using uniq segs(2) by (auto simp: operation_ok_def)
  also have "\<dots> \<longleftrightarrow> validate_http_operation method path ps = Inr ()"
  proof (cases "scan_parameters ps empty_scan")
    case (Inl e)
    have "\<not> (distinct (map hp_name ps)
            \<and> (\<forall>p \<in> set ps. hp_cardinality p = PC_Repeated \<longrightarrow> hp_source p = PS_Query))"
      using Inl scan_parameters_Inr[of ps empty_scan] by (auto simp: empty_scan_def)
    then show ?thesis using Inl Inr by (auto simp: validate_http_operation_def operation_ok_def)
  next
    case sc: (Inr sc)
    have f: "distinct (map hp_name ps)"
      "\<forall>p \<in> set ps. hp_cardinality p = PC_Repeated \<longrightarrow> hp_source p = PS_Query"
      "set (sc_path sc) = hp_name ` set (of_source PS_Path ps)"
      "sc_body sc = length (of_source PS_Body ps)"
      "sc_body_field sc = length (of_source PS_BodyField ps)"
      "sc_query_map sc = length (of_source PS_QueryMap ps)"
      "sc_header_map sc = length (of_source PS_HeaderMap ps)"
      using sc[unfolded scan_parameters_Inr] by (simp_all add: empty_scan_def)
    have z: "xs = [] \<longleftrightarrow> length xs = 0" for xs :: "HttpParameter list" by simp
    have nil: "\<not> Suc 0 < length xs \<Longrightarrow> length xs \<noteq> Suc 0 \<Longrightarrow> xs = []"
      for xs :: "HttpParameter list" by (cases xs) auto
    show ?thesis
      using segs(1) f(1,2)
      unfolding validate_http_operation_def operation_ok_def Inr sc bind_result_simps f segs(3) z
      by (cases "supported_method method") (auto simp del: length_0_conv length_greater_0_conv
          simp flip: z dest: nil)
  qed
  finally show ?thesis by simp
qed

end
