(* ===== verification/Capabilities.thy ===== *)
theory Capabilities
  imports Contract Ordered_Map "HOL-Library.Word"
begin

unbundle bit_operations_syntax

text \<open>
  The HTTP capability values of \<open>fusen-contract/src/http.rs\<close>: binding identifiers, the bit set of
  HTTP versions, the version policy and the capabilities of an endpoint.
\<close>

section \<open>Binding identifiers\<close>

definition HTTP_JSON_V1 :: string where "HTTP_JSON_V1 = ''http-json-v1''"

definition valid_binding_id :: "string \<Rightarrow> bool" where
  "valid_binding_id v =
     (v \<noteq> [] \<and> length v \<le> 64
      \<and> list_all (\<lambda>segment. segment \<noteq> []
            \<and> list_all (\<lambda>b. is_ascii_lowercase b \<or> is_ascii_digit b) segment)
          (split_on (\<lambda>c. c = CHR ''-'' \<or> c = CHR ''.'') v))"

definition HttpBindingId_new :: "string \<Rightarrow> ContractError + string" where
  "HttpBindingId_new v = (if valid_binding_id v then Inr v else Inl InvalidHttpBinding)"

section \<open>Version sets\<close>

type_synonym HttpVersionSet = "8 word"

definition HTTP_1_1_BIT :: "8 word" where "HTTP_1_1_BIT = push_bit 0 1"
definition HTTP_2_BIT :: "8 word" where "HTTP_2_BIT = push_bit 1 1"

definition VS_HTTP_1_1 :: HttpVersionSet where "VS_HTTP_1_1 = HTTP_1_1_BIT"
definition VS_HTTP_2 :: HttpVersionSet where "VS_HTTP_2 = HTTP_2_BIT"
definition VS_ALL :: HttpVersionSet where "VS_ALL = HTTP_1_1_BIT OR HTTP_2_BIT"

definition version_bit :: "http_version \<Rightarrow> ContractError + 8 word" where
  "version_bit v =
     (if v = HTTP_11 then Inr HTTP_1_1_BIT
      else if v = HTTP_2 then Inr HTTP_2_BIT
      else Inl (UnsupportedHttpVersion v))"

fun collect_version_bits :: "http_version list \<Rightarrow> 8 word \<Rightarrow> ContractError + 8 word" where
  "collect_version_bits [] bits = Inr bits"
| "collect_version_bits (v # vs) bits =
     bind_result (version_bit v) (\<lambda>b. collect_version_bits vs (bits OR b))"

definition HttpVersionSet_new :: "http_version list \<Rightarrow> ContractError + HttpVersionSet" where
  "HttpVersionSet_new versions =
     bind_result (collect_version_bits versions 0)
       (\<lambda>bits. if bits = 0 then Inl EmptyHttpVersionSet else Inr bits)"

definition vs_contains :: "HttpVersionSet \<Rightarrow> http_version \<Rightarrow> bool" where
  "vs_contains s v =
     (let b = (if v = HTTP_11 then HTTP_1_1_BIT else if v = HTTP_2 then HTTP_2_BIT else 0)
      in s AND b \<noteq> 0)"

definition vs_iter :: "HttpVersionSet \<Rightarrow> http_version list" where
  "vs_iter s = filter (vs_contains s) [HTTP_11, HTTP_2]"

section \<open>Endpoint capabilities\<close>

datatype HttpVersionPolicy = VP_Auto | VP_Http1 | VP_Http2 | VP_H2c

record EndpointCapabilities =
  ec_http_versions :: HttpVersionSet
  ec_bindings :: "string list"
  ec_invocation_controls :: bool

definition EndpointCapabilities_new ::
  "HttpVersionSet \<Rightarrow> string list \<Rightarrow> bool \<Rightarrow> ContractError + EndpointCapabilities" where
  "EndpointCapabilities_new versions bindings controls =
     (let bindings = bt_collect_set bindings
      in if bindings = [] then Inl EmptyHttpBindings
         else Inr \<lparr>ec_http_versions = versions, ec_bindings = bindings,
                   ec_invocation_controls = controls\<rparr>)"

definition supports_binding :: "EndpointCapabilities \<Rightarrow> string \<Rightarrow> bool" where
  "supports_binding c b = binary_search (ec_bindings c) b 0 (length (ec_bindings c))"

definition EndpointCapabilities_default :: EndpointCapabilities where
  "EndpointCapabilities_default =
     \<lparr>ec_http_versions = VS_HTTP_1_1, ec_bindings = [HTTP_JSON_V1], ec_invocation_controls = False\<rparr>"

section \<open>Facts\<close>

lemma bits_disjoint:
  "HTTP_1_1_BIT \<noteq> 0" "HTTP_2_BIT \<noteq> 0" "HTTP_1_1_BIT AND HTTP_2_BIT = 0" "HTTP_2_BIT AND HTTP_1_1_BIT = 0"
  by (simp_all add: HTTP_1_1_BIT_def HTTP_2_BIT_def)

lemma vs_contains_0 [simp]: "\<not> vs_contains 0 v"
  by (simp add: vs_contains_def)

lemma vs_contains_or:
  "vs_contains (s OR t) v \<longleftrightarrow> vs_contains s v \<or> vs_contains t v"
  by (simp add: vs_contains_def Let_def bit.conj_disj_distrib2 or_eq_0_iff)

lemma vs_contains_bit:
  "version_bit v = Inr b \<Longrightarrow> vs_contains b w \<longleftrightarrow> w = v"
  by (cases w; auto simp: version_bit_def vs_contains_def bits_disjoint split: if_splits)

lemma collect_version_bits_Inr:
  "collect_version_bits vs bits = Inr r \<Longrightarrow>
   set vs \<subseteq> {HTTP_11, HTTP_2} \<and> (\<forall>v. vs_contains r v \<longleftrightarrow> v \<in> set vs \<or> vs_contains bits v)"
proof (induction vs arbitrary: bits)
  case (Cons v vs)
  then obtain b where b: "version_bit v = Inr b" "collect_version_bits vs (bits OR b) = Inr r"
    by (auto simp: bind_result_Inr_iff)
  from Cons.IH[OF b(2)] vs_contains_bit[OF b(1)] b(1) show ?case
    by (auto simp: vs_contains_or version_bit_def split: if_splits)
qed simp

lemma collect_version_bits_total:
  "set vs \<subseteq> {HTTP_11, HTTP_2} \<Longrightarrow> \<exists>r. collect_version_bits vs bits = Inr r"
  by (induction vs arbitrary: bits) (auto simp: version_bit_def)

lemma HttpVersionSet_new_contains:
  assumes "HttpVersionSet_new vs = Inr s"
  shows "vs \<noteq> [] \<and> set vs \<subseteq> {HTTP_11, HTTP_2} \<and> (\<forall>v. vs_contains s v \<longleftrightarrow> v \<in> set vs)"
proof -
  from assms have "collect_version_bits vs 0 = Inr s" "s \<noteq> 0"
    by (auto simp: HttpVersionSet_new_def bind_result_Inr_iff split: if_splits)
  with collect_version_bits_Inr[OF this(1)] show ?thesis by auto
qed

lemma HttpVersionSet_new_total:
  assumes "vs \<noteq> []" "set vs \<subseteq> {HTTP_11, HTTP_2}"
  shows "\<exists>s. HttpVersionSet_new vs = Inr s"
proof -
  obtain r where r: "collect_version_bits vs 0 = Inr r"
    using collect_version_bits_total assms(2) by blast
  obtain v where "v \<in> set vs" using assms(1) by (cases vs) auto
  then have "vs_contains r v" using collect_version_bits_Inr[OF r] by blast
  then have "r \<noteq> 0" by auto
  with r show ?thesis by (simp add: HttpVersionSet_new_def)
qed

lemma vs_iter_set: "set (vs_iter s) = {v. vs_contains s v}"
  by (auto simp: vs_iter_def) (auto simp: vs_contains_def Let_def split: if_splits)

end
