(* ===== verification/Contract_Theorems.thy ===== *)
theory Contract_Theorems
  imports Template Capabilities
begin

text \<open>
  The properties of the contract crate: identities, HTTP operations, descriptors, version sets and
  endpoint capabilities.
\<close>

section \<open>Descriptors\<close>

definition route_key :: "MethodDescriptor \<Rightarrow> string \<times> string" where
  "route_key m = (method_as_str (ho_method (md_http m)), http_route_shape (ho_path (md_http m)))"

lemma check_methods_iff:
  "check_methods n ms names routes = Inr () \<longleftrightarrow>
     map md_id ms = [n..<n + length ms]
     \<and> distinct (map md_invocation_name ms) \<and> set (map md_invocation_name ms) \<inter> set names = {}
     \<and> distinct (map route_key ms) \<and> set (map route_key ms) \<inter> set routes = {}"
proof (induction ms arbitrary: n names routes)
  case (Cons m ms)
  have "[n..<n + length (m # ms)] = n # [Suc n..<Suc n + length ms]"
    by (subst upt_conv_Cons) auto
  then show ?case
    by (auto simp: Cons.IH Let_def route_key_def [symmetric] simp del: upt_Suc)
qed simp

text \<open>
  C23.  A service descriptor is built exactly from a non-empty list of methods whose local ids are
  their positions and whose invocation names and routes (HTTP method and path shape, the placeholder
  names ignored) are pairwise distinct.
\<close>

theorem descriptor_accepted_iff:
  "ServiceDescriptor_new selector ms = Inr d \<longleftrightarrow>
     ms \<noteq> [] \<and> map md_id ms = [0..<length ms] \<and> distinct (map md_invocation_name ms)
     \<and> distinct (map (\<lambda>m. (method_as_str (ho_method (md_http m)), http_route_shape (ho_path (md_http m)))) ms)
     \<and> d = \<lparr>sd_selector = selector, sd_methods = ms\<rparr>"
  using check_methods_iff[of 0 ms "[]" "[]"]
  by (cases "check_methods 0 ms [] []")
    (auto simp: ServiceDescriptor_new_def validate_methods_def bind_result_Inr_iff route_key_def [abs_def])

section \<open>Identities\<close>

text \<open>
   The canonical identity of a service is unambiguous: two selectors the constructor accepts
  have the same identity only when their service id, group and version are the same.
\<close>

theorem service_identity_unambiguous:
  "\<lbrakk>ServiceSelector_new s g v = Inr a; ServiceSelector_new s' g' v' = Inr b\<rbrakk> \<Longrightarrow>
   ss_identity a = ss_identity b \<longleftrightarrow> s = s' \<and> g = g' \<and> v = v'"
proof -
  assume a: "ServiceSelector_new s g v = Inr a" and b: "ServiceSelector_new s' g' v' = Inr b"
  have "identity_parts (ss_identity a) = (s, g, v)" "ss_identity a = service_identity s g v"
    using a identity_parts_service_identity by (simp_all add: ServiceSelector_new_Inr)
  moreover have "identity_parts (ss_identity b) = (s', g', v')" "ss_identity b = service_identity s' g' v'"
    using b identity_parts_service_identity by (simp_all add: ServiceSelector_new_Inr)
  ultimately show ?thesis by (metis prod.inject)
qed

theorem service_identity_unambiguous_witness:
  "\<exists>a b. ServiceSelector_new ''orders'' (Some ''eu'') (Some ''v1'') = Inr a
     \<and> ServiceSelector_new ''orders'' None (Some ''v1'') = Inr b
     \<and> ss_identity a = ''orders/eu@v1'' \<and> ss_identity a \<noteq> ss_identity b"
proof -
  have ids: "is_identity_component ''orders''" "is_identity_component ''eu''" "is_identity_component ''v1''"
    by (simp_all add: is_identity_component_def MAX_IDENTITY_BYTES_def identity_byte_def ascii_defs)
  define a where "a = \<lparr>ss_service_id = ''orders'', ss_group = Some ''eu'', ss_version = Some ''v1'',
    ss_metadata = [], ss_identity = service_identity ''orders'' (Some ''eu'') (Some ''v1'')\<rparr>"
  define b where "b = \<lparr>ss_service_id = ''orders'', ss_group = None, ss_version = Some ''v1'',
    ss_metadata = [], ss_identity = service_identity ''orders'' None (Some ''v1'')\<rparr>"
  have a: "ServiceSelector_new ''orders'' (Some ''eu'') (Some ''v1'') = Inr a"
    and b: "ServiceSelector_new ''orders'' None (Some ''v1'') = Inr b"
    using ids by (simp_all add: ServiceSelector_new_Inr a_def b_def)
  have "ss_identity a = ''orders/eu@v1''" by (simp add: a_def service_identity_def)
  moreover have "ss_identity a \<noteq> ss_identity b"
    using service_identity_unambiguous[OF a b] by simp
  ultimately show ?thesis by (intro exI[of _ a] exI[of _ b] conjI a b)
qed

section \<open>HTTP operations\<close>

text \<open>
  C22.  An HTTP operation is accepted exactly when its path is the canonical text of a well-formed
  template (unique placeholders over identity names, literals without dot segments, white space or
  control characters), its parameters are well formed (\<open>operation_ok\<close>: distinct names, repetition in
  the query only, one body at most and none where the method takes none, exactly the template's
  placeholders as path parameters) and both media types parse; it then holds the canonical media
  types.
\<close>

theorem http_operation_accepted_iff:
  "HttpOperation_new mime_canon method path ps consumes produces = Inr op \<longleftrightarrow>
     (\<exists>segs c p. path = render_template segs \<and> operation_ok method segs ps
        \<and> mime_canon consumes = Some c \<and> mime_canon produces = Some p
        \<and> op = \<lparr>ho_method = method, ho_path = path, ho_parameters = ps, ho_consumes = c, ho_produces = p\<rparr>)"
proof -
  have media: "canonical_media_type mime_canon t = Inr u \<longleftrightarrow> mime_canon t = Some u" for t u
    by (simp add: canonical_media_type_def split: option.splits)
  show ?thesis
    unfolding HttpOperation_new_def bind_result_Inr_iff media
    using validate_http_operation_iff[of "method" "path" ps] by auto
qed

text \<open>
   Route literals have one spelling: two accepted path segments that decode to the same text are
  the same segment, so routes that match the same paths are textually equal up to placeholder names.
\<close>

theorem route_literal_spelling_unique:
  "\<lbrakk>decode_route_literal s = Inr d; decode_route_literal t = Inr d\<rbrakk> \<Longrightarrow> s = t"
  by (metis decode_literal_bytes_Inr decode_route_literal_checks)

theorem route_literal_spelling_unique_witness:
  "{t. decode_route_literal t = Inr (''caf'' @ [CHR 0xC3, CHR 0xA9])} = {''caf%C3%A9''}"
proof -
  have *: "decode_route_literal ''caf%C3%A9'' = Inr (''caf'' @ [CHR 0xC3, CHR 0xA9])"
    by (simp add: decode_route_literal_def is_route_pchar_def ascii_defs byte_def char_of_def bit_iff_odd
        is_continuation_def char_is_whitespace_def char_is_control_def Let_def)
  show ?thesis using * route_literal_spelling_unique[OF _ *] by blast
qed

section \<open>Versions and capabilities\<close>

text \<open>
   A version set is built exactly from a non-empty collection of HTTP/1.1 and HTTP/2, and the
  bits then contain exactly the versions of the collection.
\<close>

theorem http_version_set_exact:
  "(\<exists>s. HttpVersionSet_new vs = Inr s \<and> (\<forall>v. vs_contains s v \<longleftrightarrow> v \<in> set vs)) \<longleftrightarrow>
     vs \<noteq> [] \<and> set vs \<subseteq> {HTTP_11, HTTP_2}"
  using HttpVersionSet_new_contains HttpVersionSet_new_total by blast

text \<open>
   The binary search over the sorted, duplicate-free bindings of an endpoint finds exactly the
  bindings the endpoint was created with.
\<close>

theorem supports_binding_exact:
  "EndpointCapabilities_new vs bs controls = Inr c \<Longrightarrow> supports_binding c b \<longleftrightarrow> b \<in> set bs"
  by (auto simp: EndpointCapabilities_new_def Let_def supports_binding_def binary_search_sorted
      split: if_splits)

theorem supports_binding_exact_witness:
  "\<exists>c. EndpointCapabilities_new VS_HTTP_1_1 [''z'', ''http-json-v1''] True = Inr c
     \<and> supports_binding c ''z'' \<and> \<not> supports_binding c ''grpc''"
proof -
  have ne: "bt_collect_set [''z'', ''http-json-v1''] \<noteq> []"
    using set_bt_collect_set[of "[''z'', ''http-json-v1'']"] by (metis empty_iff list.set(1) list.set_intros(1))
  then obtain c where c: "EndpointCapabilities_new VS_HTTP_1_1 [''z'', ''http-json-v1''] True = Inr c"
    by (simp add: EndpointCapabilities_new_def Let_def)
  with supports_binding_exact[OF c] show ?thesis by auto
qed

end
