(* ===== verification/Routes.thy ===== *)
theory Routes
  imports Template Ordered_Map Errors
begin

text \<open>
  The server's routing of \<open>fusen/src/server/routes.rs\<close>: a trie of route segments per HTTP method,
  matched with backtracking from literals to placeholders, and the extraction of a request's
  arguments from its path, query, headers, cookies and body.

  The percent decoder, the query parser and the text test of a header value belong to third-party
  crates: they are the arguments \<open>url_decode\<close>, \<open>form_parse\<close> and \<open>to_str\<close>.
\<close>

section \<open>Data\<close>

record 'd Route =
  rt_service :: ServiceDescriptor
  rt_method :: MethodDescriptor
  rt_dispatch :: 'd

record 'r HttpRouteLeaf =
  leaf_route :: 'r
  leaf_names :: "string list"

datatype 'r HttpRouteTrie =
  Trie (trie_literals: "(string \<times> 'r HttpRouteTrie) list")
       (trie_parameter: "'r HttpRouteTrie option")
       (trie_leaf: "'r HttpRouteLeaf option")

definition trie_default :: "'r HttpRouteTrie" where "trie_default = Trie [] None None"

record 'r MatchedRoute =
  mr_route :: 'r
  mr_path_arguments :: "(string \<times> string) list"

datatype RouteBuildError = InvalidTemplateEncoding | DuplicateRoute http_method string

definition not_found :: error where
  "not_found = framework EC_NotFound ''route_not_found'' ''service invocation route was not found''"

section \<open>Templates and request paths\<close>

definition parse_template_segment ::
  "(string \<Rightarrow> string option) \<Rightarrow> string \<Rightarrow> RouteBuildError + Segment" where
  "parse_template_segment url_decode segment =
     (case placeholder_name segment of
        None \<Rightarrow> (case url_decode segment of
                  Some v \<Rightarrow> Inr (Literal v)
                | None \<Rightarrow> Inl InvalidTemplateEncoding)
      | Some name \<Rightarrow> Inr (Parameter name))"

definition parse_template ::
  "(string \<Rightarrow> string option) \<Rightarrow> string \<Rightarrow> RouteBuildError + Segment list" where
  "parse_template url_decode path =
     collect_results (map (parse_template_segment url_decode) (path_segments path))"

definition split_path :: "(string \<Rightarrow> string option) \<Rightarrow> string \<Rightarrow> error + string list" where
  "split_path url_decode path =
     (if path \<noteq> ''/'' \<and> ((path \<noteq> [] \<and> last path = CHR ''/'') \<or> has_double_slash path)
      then Inl not_found
      else collect_results
        (map (\<lambda>segment. case url_decode segment of
                Some v \<Rightarrow> Inr v
              | None \<Rightarrow> Inl (framework EC_InvalidArgument ''invalid_path_encoding''
                          ''request path contains invalid percent encoding''))
           (path_segments path)))"

section \<open>The trie\<close>

text \<open>
  \<open>insert\<close> walks down, creating nodes, and sets the leaf of the last one unless it is taken; the
  loop is the recursion, \<open>names\<close> its vector of placeholder names.
\<close>

fun trie_insert_at ::
  "Segment list \<Rightarrow> string list \<Rightarrow> 'r \<Rightarrow> 'r HttpRouteTrie \<Rightarrow> 'r HttpRouteTrie \<times> bool" where
  "trie_insert_at [] names route (Trie literals parameter leaf) =
     (case leaf of
        Some l \<Rightarrow> (Trie literals parameter (Some l), False)
      | None \<Rightarrow> (Trie literals parameter (Some \<lparr>leaf_route = route, leaf_names = names\<rparr>), True))"
| "trie_insert_at (Literal value # segments) names route (Trie literals parameter leaf) =
     (let node = (case map_of literals value of Some t \<Rightarrow> t | None \<Rightarrow> trie_default);
          (node', ok) = trie_insert_at segments names route node
      in (Trie (AList.update value node' literals) parameter leaf, ok))"
| "trie_insert_at (Parameter name # segments) names route (Trie literals parameter leaf) =
     (let node = (case parameter of Some t \<Rightarrow> t | None \<Rightarrow> trie_default);
          (node', ok) = trie_insert_at segments (names @ [name]) route node
      in (Trie literals (Some node') leaf, ok))"

definition trie_insert ::
  "Segment list \<Rightarrow> 'r \<Rightarrow> 'r HttpRouteTrie \<Rightarrow> 'r HttpRouteTrie \<times> bool" where
  "trie_insert segments route t = trie_insert_at segments [] route t"

text \<open>The vector of placeholder values is pushed on the way down and popped on backtracking.\<close>

fun match_segments ::
  "'r HttpRouteTrie \<Rightarrow> string list \<Rightarrow> string list \<Rightarrow> 'r HttpRouteLeaf option \<times> string list" where
  "match_segments (Trie literals parameter leaf) [] values = (leaf, values)"
| "match_segments (Trie literals parameter leaf) (segment # remaining) values =
     (case (case map_of literals segment of
              Some node \<Rightarrow> match_segments node remaining values
            | None \<Rightarrow> (None, values)) of
        (Some matched, values) \<Rightarrow> (Some matched, values)
      | (None, values) \<Rightarrow>
          (case parameter of
             None \<Rightarrow> (None, values)
           | Some node \<Rightarrow>
               (case match_segments node remaining (values @ [segment]) of
                  (Some matched, values) \<Rightarrow> (Some matched, values)
                | (None, values) \<Rightarrow> (None, butlast values))))"

section \<open>The route table\<close>

type_synonym 'r RouteTable = "(http_method \<times> 'r HttpRouteTrie) list"

fun build_from ::
  "(string \<Rightarrow> string option) \<Rightarrow> 'd Route list \<Rightarrow> 'd Route RouteTable \<Rightarrow>
   RouteBuildError + 'd Route RouteTable" where
  "build_from url_decode [] http = Inr http"
| "build_from url_decode (route # routes) http =
     (let mapping = md_http (rt_method route)
      in bind_result (parse_template url_decode (ho_path mapping)) (\<lambda>segments.
           let node = (case map_of http (ho_method mapping) of Some t \<Rightarrow> t | None \<Rightarrow> trie_default);
               (node', ok) = trie_insert segments route node
           in if \<not> ok then Inl (DuplicateRoute (ho_method mapping) (ho_path mapping))
              else build_from url_decode routes (AList.update (ho_method mapping) node' http)))"

definition RouteTable_build ::
  "(string \<Rightarrow> string option) \<Rightarrow> 'd Route list \<Rightarrow> RouteBuildError + 'd Route RouteTable" where
  "RouteTable_build url_decode routes = build_from url_decode routes []"

definition hm_collect :: "('k \<times> 'v) list \<Rightarrow> ('k \<times> 'v) list" where
  "hm_collect kvs = fold (\<lambda>(k, v). AList.update k v) kvs []"

definition match_http ::
  "(string \<Rightarrow> string option) \<Rightarrow> 'r RouteTable \<Rightarrow> http_method \<Rightarrow> string \<Rightarrow> error + 'r MatchedRoute" where
  "match_http url_decode http method path =
     bind_result (split_path url_decode path) (\<lambda>request_segments.
       case map_of http method of
         None \<Rightarrow> Inl not_found
       | Some trie \<Rightarrow>
           (case match_segments trie request_segments [] of
              (None, _) \<Rightarrow> Inl not_found
            | (Some leaf, values) \<Rightarrow>
                Inr \<lparr>mr_route = leaf_route leaf,
                     mr_path_arguments = hm_collect (zip (leaf_names leaf) values)\<rparr>))"

section \<open>Arguments\<close>

definition invalid_argument :: "string \<Rightarrow> string \<Rightarrow> error" where
  "invalid_argument code message = framework EC_InvalidArgument code message"

fun collect_query ::
  "nat \<Rightarrow> nat \<Rightarrow> (string \<times> string) list \<Rightarrow> (string \<times> string list) list \<Rightarrow>
   error + (string \<times> string list) list" where
  "collect_query max_query_pairs index [] values = Inr values"
| "collect_query max_query_pairs index ((name, v) # pairs) values =
     (if max_query_pairs \<le> index
      then Inl (invalid_argument ''too_many_query_pairs'' ''request query contains too many pairs'')
      else collect_query max_query_pairs (Suc index) pairs
             (AList.update name ((case map_of values name of Some vs \<Rightarrow> vs | None \<Rightarrow> []) @ [v]) values))"

definition header_value ::
  "(string \<Rightarrow> string option) \<Rightarrow> header_map \<Rightarrow> string \<Rightarrow> error + json" where
  "header_value to_str headers name =
     bind_result
       (collect_results (map (\<lambda>v. case to_str v of
            Some t \<Rightarrow> Inr t
          | None \<Rightarrow> Inl (invalid_argument ''invalid_header_parameter''
                       (''HTTP header parameter '' @ name @ '' is not valid text'')))
          (get_all headers (ascii_lowercase name))))
       (\<lambda>values. case values of
           [] \<Rightarrow> Inr JNull
         | [v] \<Rightarrow> Inr (JString v)
         | _ \<Rightarrow> Inl (invalid_argument ''duplicate_header_parameter''
                 (''scalar HTTP header parameter '' @ name @ '' must appear at most once'')))"

fun insert_cookies ::
  "string list \<Rightarrow> (string \<times> string) list \<Rightarrow> error + (string \<times> string) list" where
  "insert_cookies [] cookies = Inr cookies"
| "insert_cookies (pair # pairs) cookies =
     (case split_once (CHR ''='') (trim_ascii pair) of
        None \<Rightarrow> Inl (invalid_argument ''invalid_cookie_header'' ''Cookie header contains an invalid pair'')
      | Some (name, v) \<Rightarrow>
          if map_of cookies name \<noteq> None
          then Inl (invalid_argument ''duplicate_cookie_parameter''
                 (''cookie '' @ name @ '' must appear at most once''))
          else insert_cookies pairs (AList.update name v cookies))"

fun parse_cookie_headers ::
  "(string \<Rightarrow> string option) \<Rightarrow> string list \<Rightarrow> (string \<times> string) list \<Rightarrow>
   error + (string \<times> string) list" where
  "parse_cookie_headers to_str [] cookies = Inr cookies"
| "parse_cookie_headers to_str (header # rest) cookies =
     (case to_str header of
        None \<Rightarrow> Inl (invalid_argument ''invalid_cookie_header'' ''Cookie header is not valid text'')
      | Some v \<Rightarrow>
          bind_result (insert_cookies (split_on (\<lambda>c. c = CHR '';'') v) cookies)
            (parse_cookie_headers to_str rest))"

definition parse_cookies ::
  "(string \<Rightarrow> string option) \<Rightarrow> header_map \<Rightarrow> error + (string \<times> string) list" where
  "parse_cookies to_str headers = parse_cookie_headers to_str (get_all headers ''cookie'') []"

definition strings_value :: "string list \<Rightarrow> json" where
  "strings_value values = (case values of [v] \<Rightarrow> JString v | _ \<Rightarrow> JArray (map JString values))"

definition query_map ::
  "(string \<times> string list) list \<Rightarrow> string list \<Rightarrow> (string \<times> json) list" where
  "query_map values explicit =
     bt_collect (map (\<lambda>(name, vs). (name, strings_value vs))
       (filter (\<lambda>(name, _). name \<notin> set explicit) values))"

fun collect_header_values ::
  "(string \<Rightarrow> string option) \<Rightarrow> string list \<Rightarrow> header_map \<Rightarrow> (string \<times> string list) list \<Rightarrow>
   error + (string \<times> string list) list" where
  "collect_header_values to_str explicit [] values = Inr values"
| "collect_header_values to_str explicit ((name, v) # headers) values =
     (if name \<in> set explicit \<or> name = ''cookie''
      then collect_header_values to_str explicit headers values
      else (case to_str v of
              None \<Rightarrow> Inl (invalid_argument ''invalid_header_map''
                        ''header_map contains a non-text header value'')
            | Some t \<Rightarrow> collect_header_values to_str explicit headers
                (AList.update name ((case map_of values name of Some vs \<Rightarrow> vs | None \<Rightarrow> []) @ [t]) values)))"

definition header_map_value ::
  "(string \<Rightarrow> string option) \<Rightarrow> header_map \<Rightarrow> string list \<Rightarrow> error + (string \<times> json) list" where
  "header_map_value to_str headers explicit =
     bind_result (collect_header_values to_str explicit headers [])
       (\<lambda>values. Inr (bt_collect (map (\<lambda>(name, vs). (name, strings_value vs)) values)))"

record argument_sources =
  as_path :: "(string \<times> string) list"
  as_headers :: header_map
  as_cookies :: "(string \<times> string) list"
  as_body :: "json option"
  as_explicit_query :: "string list"
  as_explicit_headers :: "string list"

definition optional_string :: "string option \<Rightarrow> json" where
  "optional_string v = (case v of Some v \<Rightarrow> JString v | None \<Rightarrow> JNull)"

text \<open>
  One round of the loop over the parameters: its value, and the query values that remain (a
  \<^verbatim>\<open>Query\<close> parameter removes its own).
\<close>

definition parameter_argument ::
  "(string \<Rightarrow> string option) \<Rightarrow> argument_sources \<Rightarrow> (string \<times> string list) list \<Rightarrow> HttpParameter \<Rightarrow>
   error + json \<times> (string \<times> string list) list" where
  "parameter_argument to_str src query p =
     (case hp_source p of
        PS_Path \<Rightarrow> Inr (optional_string (map_of (as_path src) (hp_name p)), query)
      | PS_Query \<Rightarrow>
          (let values = (case map_of query (hp_name p) of Some vs \<Rightarrow> vs | None \<Rightarrow> []);
               query = AList.delete (hp_name p) query
           in case hp_cardinality p of
                PC_Scalar \<Rightarrow>
                  (case values of
                     [] \<Rightarrow> Inr (JNull, query)
                   | [v] \<Rightarrow> Inr (JString v, query)
                   | _ \<Rightarrow> Inl (invalid_argument ''duplicate_query_parameter''
                           (''scalar query parameter '' @ hp_name p @ '' must appear at most once'')))
              | PC_Repeated \<Rightarrow> Inr (JArray (map JString values), query))
      | PS_Header \<Rightarrow>
          bind_result (header_value to_str (as_headers src) (hp_name p)) (\<lambda>v. Inr (v, query))
      | PS_Cookie \<Rightarrow> Inr (optional_string (map_of (as_cookies src) (hp_name p)), query)
      | PS_BodyField \<Rightarrow>
          (case as_body src of
             Some (JObject entries) \<Rightarrow>
               Inr (case map_of entries (hp_name p) of Some v \<Rightarrow> v | None \<Rightarrow> JNull, query)
           | Some _ \<Rightarrow> Inl (invalid_argument ''invalid_json_body'' ''request body must be a JSON object'')
           | None \<Rightarrow> Inr (JNull, query))
      | PS_Body \<Rightarrow> Inr (case as_body src of Some b \<Rightarrow> b | None \<Rightarrow> JNull, query)
      | PS_QueryMap \<Rightarrow> Inr (JObject (query_map query (as_explicit_query src)), query)
      | PS_HeaderMap \<Rightarrow>
          bind_result (header_map_value to_str (as_headers src) (as_explicit_headers src))
            (\<lambda>m. Inr (JObject m, query)))"

fun collect_arguments ::
  "(string \<Rightarrow> string option) \<Rightarrow> argument_sources \<Rightarrow> HttpParameter list \<Rightarrow>
   (string \<times> string list) list \<Rightarrow> (string \<times> json) list \<Rightarrow> error + (string \<times> json) list" where
  "collect_arguments to_str src [] query arguments = Inr arguments"
| "collect_arguments to_str src (p # ps) query arguments =
     bind_result (parameter_argument to_str src query p) (\<lambda>(v, query).
       collect_arguments to_str src ps query (bt_insert (hp_name p) v arguments))"

definition http_arguments ::
  "(string \<Rightarrow> (string \<times> string) list) \<Rightarrow> (string \<Rightarrow> string option) \<Rightarrow> 'd Route MatchedRoute \<Rightarrow>
   string option \<Rightarrow> header_map \<Rightarrow> json option \<Rightarrow> nat \<Rightarrow> error + (string \<times> json) list" where
  "http_arguments form_parse to_str matched query headers body max_query_pairs =
     (let parameters = ho_parameters (md_http (rt_method (mr_route matched)))
      in bind_result (collect_query max_query_pairs 0
             (form_parse (case query of Some q \<Rightarrow> q | None \<Rightarrow> [])) []) (\<lambda>query_values.
         bind_result (parse_cookies to_str headers) (\<lambda>cookies.
           collect_arguments to_str
             \<lparr>as_path = mr_path_arguments matched, as_headers = headers, as_cookies = cookies,
              as_body = body,
              as_explicit_query = map hp_name (of_source PS_Query parameters),
              as_explicit_headers =
                map (\<lambda>p. ascii_lowercase (hp_name p)) (of_source PS_Header parameters)\<rparr>
             parameters query_values [])))"

definition has_body :: "'d Route MatchedRoute \<Rightarrow> bool" where
  "has_body matched =
     list_ex (\<lambda>p. hp_source p = PS_Body \<or> hp_source p = PS_BodyField)
       (ho_parameters (md_http (rt_method (mr_route matched))))"

definition validate_query_pairs ::
  "(string \<Rightarrow> (string \<times> string) list) \<Rightarrow> string option \<Rightarrow> nat \<Rightarrow> error + unit" where
  "validate_query_pairs form_parse query max_query_pairs =
     (if max_query_pairs < length (take (saturating_add USIZE_MAX max_query_pairs 1)
            (form_parse (case query of Some q \<Rightarrow> q | None \<Rightarrow> [])))
      then Inl (invalid_argument ''too_many_query_pairs'' ''request query contains too many pairs'')
      else Inr ())"

end
