(* ===== verification/Routes_Theorems.thy ===== *)
theory Routes_Theorems
  imports Routes Contract_Theorems
begin

text \<open>
  The route table against its specification.  A template is compared with a path by its shape: a
  literal matches itself, a placeholder any segment.  The trie is an index from shapes to leaves
  (locale \<open>route_index\<close>), the match finds the most specific shape, literals before placeholders from
  the left, and building fails exactly on two routes of one method and shape.
\<close>

section \<open>Shapes\<close>

fun shape_of_segment :: "Segment \<Rightarrow> string option" where
  "shape_of_segment (Literal d) = Some d"
| "shape_of_segment (Parameter n) = None"

definition shape_of :: "Segment list \<Rightarrow> string option list" where
  "shape_of segs = map shape_of_segment segs"

definition shape_matches :: "string option list \<Rightarrow> string list \<Rightarrow> bool" where
  "shape_matches sh ss = list_all2 (\<lambda>p s. p = None \<or> p = Some s) sh ss"

fun captures :: "string option list \<Rightarrow> string list \<Rightarrow> string list" where
  "captures (None # sh) (s # ss) = s # captures sh ss"
| "captures (Some d # sh) (s # ss) = captures sh ss"
| "captures sh ss = []"

fun more_specific :: "string option list \<Rightarrow> string option list \<Rightarrow> bool" where
  "more_specific (Some a # sh) (None # sh') = True"
| "more_specific (p # sh) (q # sh') = (p = q \<and> more_specific sh sh')"
| "more_specific sh sh' = (sh = sh')"

lemma shape_matches_simps [simp]:
  "shape_matches [] ss \<longleftrightarrow> ss = []"
  "shape_matches sh [] \<longleftrightarrow> sh = []"
  "shape_matches (p # sh) (s # ss) \<longleftrightarrow> (p = None \<or> p = Some s) \<and> shape_matches sh ss"
  by (auto simp: shape_matches_def)

lemma shape_matches_Cons:
  "shape_matches sh (s # ss) \<longleftrightarrow>
     (\<exists>sh'. shape_matches sh' ss \<and> (sh = Some s # sh' \<or> sh = None # sh'))"
  by (cases sh) auto

lemma more_specific_refl: "more_specific sh sh"
proof (induction sh)
  case (Cons p sh)
  then show ?case by (cases p) auto
qed simp

lemma more_specific_antisym:
  "more_specific a b \<Longrightarrow> more_specific b a \<Longrightarrow> a = b"
  by (induction a b rule: more_specific.induct) auto

section \<open>The trie as an index\<close>

fun trie_at :: "'r HttpRouteTrie \<Rightarrow> string option list \<Rightarrow> 'r HttpRouteLeaf option" where
  "trie_at (Trie literals parameter leaf) [] = leaf"
| "trie_at (Trie literals parameter leaf) (Some d # sh) =
     (case map_of literals d of Some t \<Rightarrow> trie_at t sh | None \<Rightarrow> None)"
| "trie_at (Trie literals parameter leaf) (None # sh) =
     (case parameter of Some t \<Rightarrow> trie_at t sh | None \<Rightarrow> None)"

definition route_leaf :: "Segment list \<Rightarrow> 'r \<Rightarrow> 'r HttpRouteLeaf" where
  "route_leaf segs r = \<lparr>leaf_route = r, leaf_names = parameter_names segs\<rparr>"

text \<open>The index holds exactly the given entries, no two of one shape.\<close>

definition indexes ::
  "('t \<Rightarrow> string option list \<Rightarrow> 'r HttpRouteLeaf option) \<Rightarrow> 't \<Rightarrow> (Segment list \<times> 'r) list \<Rightarrow> bool" where
  "indexes look t es =
     (distinct (map (shape_of \<circ> fst) es)
      \<and> (\<forall>sh l. look t sh = Some l \<longleftrightarrow> (\<exists>segs r. (segs, r) \<in> set es \<and> shape_of segs = sh \<and> l = route_leaf segs r)))"

locale route_index =
  fixes empty :: "'t"
    and insert :: "Segment list \<Rightarrow> 'r \<Rightarrow> 't \<Rightarrow> 't \<times> bool"
    and look :: "'t \<Rightarrow> string option list \<Rightarrow> 'r HttpRouteLeaf option"
  assumes look_empty: "look empty sh = None"
    and insert_reports: "snd (insert segs r t) \<longleftrightarrow> look t (shape_of segs) = None"
    and look_insert: "snd (insert segs r t) \<Longrightarrow>
      look (fst (insert segs r t)) sh = (if sh = shape_of segs then Some (route_leaf segs r) else look t sh)"
begin

lemma indexes_empty: "indexes look empty []"
  by (simp add: indexes_def look_empty)

lemma insert_iff_new:
  "indexes look t es \<Longrightarrow> snd (insert segs r t) \<longleftrightarrow> shape_of segs \<notin> set (map (shape_of \<circ> fst) es)"
proof -
  assume ix: "indexes look t es"
  then have iff: "look t sh = Some l \<longleftrightarrow> (\<exists>segs r. (segs, r) \<in> set es \<and> shape_of segs = sh \<and> l = route_leaf segs r)" for sh l
    by (simp add: indexes_def)
  show ?thesis
  proof (cases "look t (shape_of segs)")
    case None
    then have "\<not> (\<exists>s q. (s, q) \<in> set es \<and> shape_of s = shape_of segs)"
      using iff[of "shape_of segs"] by auto
    then show ?thesis using None by (auto simp: insert_reports image_iff)
  next
    case (Some l)
    then obtain s q where "(s, q) \<in> set es" "shape_of s = shape_of segs" using iff by blast
    then show ?thesis using Some by (force simp: insert_reports image_iff)
  qed
qed

lemma indexes_insert:
  assumes "indexes look t es" "snd (insert segs r t)"
  shows "indexes look (fst (insert segs r t)) (es @ [(segs, r)])"
proof -
  have new: "shape_of segs \<notin> set (map (shape_of \<circ> fst) es)"
    using insert_iff_new[OF assms(1)] assms(2) by blast
  have iff: "look t sh = Some l \<longleftrightarrow> (\<exists>segs r. (segs, r) \<in> set es \<and> shape_of segs = sh \<and> l = route_leaf segs r)" for sh l
    using assms(1) by (simp add: indexes_def)
  have "look (fst (insert segs r t)) sh = Some l \<longleftrightarrow>
      (\<exists>s q. (s, q) \<in> set (es @ [(segs, r)]) \<and> shape_of s = sh \<and> l = route_leaf s q)" for sh l
  proof (cases "sh = shape_of segs")
    case True
    then have "\<not> (\<exists>s q. (s, q) \<in> set es \<and> shape_of s = sh)" using new by force
    then show ?thesis using True look_insert[OF assms(2)] by auto
  next
    case False
    then show ?thesis using look_insert[OF assms(2), of sh] iff[of sh l] by auto
  qed
  then show ?thesis using assms(1) new by (simp add: indexes_def)
qed

end

lemma trie_at_default [simp]: "trie_at trie_default sh = None"
  by (cases sh; cases "hd sh") (auto simp: trie_default_def)

lemma trie_at_literals:
  "trie_at (Trie (AList.update v node literals) parameter leaf) sh =
     (if sh \<noteq> [] \<and> hd sh = Some v then trie_at node (tl sh) else trie_at (Trie literals parameter leaf) sh)"
  by (cases "(Trie literals parameter leaf, sh)" rule: trie_at.cases) (auto simp: update_conv')

lemma trie_at_parameter:
  "trie_at (Trie literals (Some node) leaf) sh =
     (if sh \<noteq> [] \<and> hd sh = None then trie_at node (tl sh) else trie_at (Trie literals parameter leaf) sh)"
  by (cases "(Trie literals parameter leaf, sh)" rule: trie_at.cases) auto

lemma trie_at_step:
  assumes "\<And>sh. trie_at t' sh = (if sh \<noteq> [] \<and> hd sh = x then trie_at node' (tl sh) else trie_at t sh)"
    "\<And>sh. trie_at t (x # sh) = trie_at node sh"
    "\<And>sh. trie_at node' sh = (if sh = s then l else trie_at node sh)"
  shows "trie_at t' sh = (if sh = x # s then l else trie_at t sh)"
  by (cases sh) (auto simp: assms)

lemma trie_insert_at_spec:
  "snd (trie_insert_at segs names r t) = (trie_at t (shape_of segs) = None)
   \<and> (snd (trie_insert_at segs names r t) \<longrightarrow>
        (\<forall>sh. trie_at (fst (trie_insert_at segs names r t)) sh =
          (if sh = shape_of segs then Some \<lparr>leaf_route = r, leaf_names = names @ parameter_names segs\<rparr>
           else trie_at t sh)))"
proof (induction segs names r t rule: trie_insert_at.induct)
  case (1 names route literals parameter leaf)
  show ?case
  proof (cases leaf)
    case None
    have "trie_at (Trie literals parameter (Some l)) sh = (if sh = [] then Some l else trie_at (Trie literals parameter None) sh)"
      for l sh by (cases "(Trie literals parameter (Some l), sh)" rule: trie_at.cases) simp_all
    then show ?thesis using None by (simp add: shape_of_def)
  qed (simp add: shape_of_def)
next
  case (2 v segs names route literals parameter leaf)
  define node where "node = (case map_of literals v of Some t \<Rightarrow> t | None \<Rightarrow> trie_default)"
  obtain node' ok where n: "trie_insert_at segs names route node = (node', ok)" by fastforce
  have at: "trie_at (Trie literals parameter leaf) (Some v # sh) = trie_at node sh" for sh
    by (simp add: node_def split: option.splits)
  have IH: "ok = (trie_at node (shape_of segs) = None)"
    "ok \<Longrightarrow> trie_at node' sh = (if sh = shape_of segs
       then Some \<lparr>leaf_route = route, leaf_names = names @ parameter_names segs\<rparr> else trie_at node sh)" for sh
    using 2[OF node_def] n by auto
  have shape: "shape_of (Literal v # segs) = Some v # shape_of segs" by (simp add: shape_of_def)
  have res: "trie_insert_at (Literal v # segs) names route (Trie literals parameter leaf) = (Trie (AList.update v node' literals) parameter leaf, ok)"
    using n by (simp add: node_def [symmetric])
  show ?case unfolding res fst_conv snd_conv shape
  proof (intro conjI impI allI)
    show "ok = (trie_at (Trie literals parameter leaf) (Some v # shape_of segs) = None)"
      by (simp only: at IH(1))
    show "trie_at (Trie (AList.update v node' literals) parameter leaf) sh = (if sh = Some v # shape_of segs
        then Some \<lparr>leaf_route = route, leaf_names = names @ parameter_names (Literal v # segs)\<rparr>
        else trie_at (Trie literals parameter leaf) sh)" if ok for sh
      using that IH(2) by (intro trie_at_step[OF trie_at_literals at]) simp
  qed
next
  case (3 name segs names route literals parameter leaf)
  define node where "node = (case parameter of Some t \<Rightarrow> t | None \<Rightarrow> trie_default)"
  obtain node' ok where n: "trie_insert_at segs (names @ [name]) route node = (node', ok)" by fastforce
  have at: "trie_at (Trie literals parameter leaf) (None # sh) = trie_at node sh" for sh
    by (simp add: node_def split: option.splits)
  have IH: "ok = (trie_at node (shape_of segs) = None)"
    "ok \<Longrightarrow> trie_at node' sh = (if sh = shape_of segs
       then Some \<lparr>leaf_route = route, leaf_names = names @ name # parameter_names segs\<rparr> else trie_at node sh)" for sh
    using 3[OF node_def] n by auto
  have shape: "shape_of (Parameter name # segs) = None # shape_of segs" by (simp add: shape_of_def)
  have res: "trie_insert_at (Parameter name # segs) names route (Trie literals parameter leaf) = (Trie literals (Some node') leaf, ok)"
    using n by (simp add: node_def [symmetric])
  show ?case unfolding res fst_conv snd_conv shape
  proof (intro conjI impI allI)
    show "ok = (trie_at (Trie literals parameter leaf) (None # shape_of segs) = None)"
      by (simp only: at IH(1))
    show "trie_at (Trie literals (Some node') leaf) sh = (if sh = None # shape_of segs
        then Some \<lparr>leaf_route = route, leaf_names = names @ parameter_names (Parameter name # segs)\<rparr>
        else trie_at (Trie literals parameter leaf) sh)" if ok for sh
      using that IH(2) by (intro trie_at_step[OF trie_at_parameter at]) simp
  qed
qed

interpretation trie: route_index trie_default trie_insert trie_at
proof
  show "trie_at trie_default sh = None" for sh by simp
  show "snd (trie_insert segs r t) \<longleftrightarrow> trie_at t (shape_of segs) = None" for segs t and r :: 'a
    using trie_insert_at_spec[of segs "[]" r t] by (simp add: trie_insert_def)
  show "snd (trie_insert segs r t) \<Longrightarrow>
      trie_at (fst (trie_insert segs r t)) sh = (if sh = shape_of segs then Some (route_leaf segs r) else trie_at t sh)"
    for segs t sh and r :: 'a
    using trie_insert_at_spec[of segs "[]" r t] by (simp add: trie_insert_def route_leaf_def)
qed

section \<open>Matching\<close>

text \<open>
  What \<open>match_segments\<close> returns: no shape of the trie matches and the vector is as before, or the
  leaf of the most specific matching shape, with the placeholder values pushed.
\<close>

definition match_result ::
  "'r HttpRouteTrie \<Rightarrow> string list \<Rightarrow> string list \<Rightarrow> 'r HttpRouteLeaf option \<times> string list \<Rightarrow> bool" where
  "match_result t ss vs res =
     (case res of
        (None, vs') \<Rightarrow> vs' = vs \<and> (\<forall>sh. shape_matches sh ss \<longrightarrow> trie_at t sh = None)
      | (Some l, vs') \<Rightarrow>
          (\<exists>sh. shape_matches sh ss \<and> trie_at t sh = Some l \<and> vs' = vs @ captures sh ss
             \<and> (\<forall>sh'. shape_matches sh' ss \<and> trie_at t sh' \<noteq> None \<longrightarrow> more_specific sh sh')))"

lemma match_segments_result: "match_result t ss vs (match_segments t ss vs)"
proof (induction t ss vs rule: match_segments.induct)
  case (1 literals parameter leaf vs)
  then show ?case by (cases leaf) (auto simp: match_result_def)
next
  case (2 literals parameter leaf s ss vs)
  define t where "t = Trie literals parameter leaf"
  define lit where "lit = (case map_of literals s of
      Some node \<Rightarrow> match_segments node ss vs | None \<Rightarrow> (None, vs))"
  have unf: "match_segments t (s # ss) vs =
      (case lit of (Some l, vs') \<Rightarrow> (Some l, vs')
       | (None, vs') \<Rightarrow> (case parameter of None \<Rightarrow> (None, vs')
           | Some node \<Rightarrow> (case match_segments node ss (vs' @ [s]) of
               (Some l, v) \<Rightarrow> (Some l, v) | (None, v) \<Rightarrow> (None, butlast v))))"
    by (simp add: t_def lit_def)
  have some: "trie_at t (Some s # sh) = (case map_of literals s of Some n \<Rightarrow> trie_at n sh | None \<Rightarrow> None)"
    and none: "trie_at t (None # sh) = (case parameter of Some n \<Rightarrow> trie_at n sh | None \<Rightarrow> None)" for sh
    by (simp_all add: t_def)
  have litr: "case lit of
      (None, vs') \<Rightarrow> vs' = vs \<and> (\<forall>sh. shape_matches sh ss \<longrightarrow> trie_at t (Some s # sh) = None)
    | (Some l, vs') \<Rightarrow> (\<exists>sh. shape_matches sh ss \<and> trie_at t (Some s # sh) = Some l
         \<and> vs' = vs @ captures sh ss
         \<and> (\<forall>sh'. shape_matches sh' ss \<and> trie_at t (Some s # sh') \<noteq> None \<longrightarrow> more_specific sh sh'))"
    using 2(1) by (auto simp: lit_def some match_result_def split: option.splits prod.splits)
  show ?case unfolding t_def [symmetric]
  proof (cases "fst lit")
    case (Some l)
    then obtain sh where sh: "shape_matches sh ss" "trie_at t (Some s # sh) = Some l"
        "snd lit = vs @ captures sh ss"
        "\<forall>sh'. shape_matches sh' ss \<and> trie_at t (Some s # sh') \<noteq> None \<longrightarrow> more_specific sh sh'"
      using litr by (cases lit) auto
    have "match_segments t (s # ss) vs = (Some l, vs @ captures (Some s # sh) (s # ss))"
      using Some sh(3) by (cases lit) (simp add: unf)
    moreover have "more_specific (Some s # sh) sh'"
      if "shape_matches sh' (s # ss)" "trie_at t sh' \<noteq> None" for sh'
      using that sh(4) by (auto simp: shape_matches_Cons)
    ultimately show "match_result t (s # ss) vs (match_segments t (s # ss) vs)"
      using sh(1,2) by (auto simp: match_result_def intro!: exI[of _ "Some s # sh"])
  next
    case None
    then have l: "lit = (None, vs)"
      and nolit: "\<forall>sh. shape_matches sh ss \<longrightarrow> trie_at t (Some s # sh) = None"
      using litr by (cases lit; auto)+
    show "match_result t (s # ss) vs (match_segments t (s # ss) vs)"
    proof (cases parameter)
      case None
      then show ?thesis using l nolit
        by (auto simp: match_result_def unf none shape_matches_Cons)
    next
      case (Some node)
      have IH: "match_result node ss (vs @ [s]) (match_segments node ss (vs @ [s]))"
        using 2(2)[of None vs node] l Some by (simp add: lit_def)
      show ?thesis
      proof (cases "fst (match_segments node ss (vs @ [s]))")
        case None
        then have "match_segments node ss (vs @ [s]) = (None, vs @ [s])"
          "\<forall>sh. shape_matches sh ss \<longrightarrow> trie_at node sh = None"
          using IH by (cases "match_segments node ss (vs @ [s])"; auto simp: match_result_def)+
        then show ?thesis using l nolit Some
          by (auto simp: match_result_def unf none shape_matches_Cons)
      next
        case (Some l')
        then obtain sh where sh: "shape_matches sh ss" "trie_at node sh = Some l'"
            "snd (match_segments node ss (vs @ [s])) = vs @ s # captures sh ss"
            "\<forall>sh'. shape_matches sh' ss \<and> trie_at node sh' \<noteq> None \<longrightarrow> more_specific sh sh'"
          using IH by (cases "match_segments node ss (vs @ [s])") (auto simp: match_result_def)
        have "match_segments t (s # ss) vs = (Some l', vs @ captures (None # sh) (s # ss))"
          using Some sh(3) l \<open>parameter = Some node\<close>
          by (cases "match_segments node ss (vs @ [s])") (simp add: unf)
        moreover have "more_specific (None # sh) sh'"
          if "shape_matches sh' (s # ss)" "trie_at t sh' \<noteq> None" for sh'
          using that sh(4) nolit \<open>parameter = Some node\<close> by (auto simp: shape_matches_Cons none)
        ultimately show ?thesis
          using sh(1,2) \<open>parameter = Some node\<close>
          by (auto simp: match_result_def none intro!: exI[of _ "None # sh"])
      qed
    qed
  qed
qed

section \<open>Building\<close>

definition method_of :: "'d Route \<Rightarrow> http_method" where
  "method_of r = ho_method (md_http (rt_method r))"

definition template_of :: "(string \<Rightarrow> string option) \<Rightarrow> 'd Route \<Rightarrow> Segment list" where
  "template_of url_decode r =
     (case parse_template url_decode (ho_path (md_http (rt_method r))) of Inr segs \<Rightarrow> segs | Inl _ \<Rightarrow> [])"

definition parses :: "(string \<Rightarrow> string option) \<Rightarrow> 'd Route \<Rightarrow> bool" where
  "parses url_decode r = (case parse_template url_decode (ho_path (md_http (rt_method r))) of Inr _ \<Rightarrow> True | Inl _ \<Rightarrow> False)"

definition table_key :: "(string \<Rightarrow> string option) \<Rightarrow> 'd Route \<Rightarrow> http_method \<times> string option list" where
  "table_key url_decode r = (method_of r, shape_of (template_of url_decode r))"

definition entries_of ::
  "(string \<Rightarrow> string option) \<Rightarrow> http_method \<Rightarrow> 'd Route list \<Rightarrow> (Segment list \<times> 'd Route) list" where
  "entries_of url_decode m rs = map (\<lambda>r. (template_of url_decode r, r)) (filter (\<lambda>r. method_of r = m) rs)"

definition trie_of :: "'r RouteTable \<Rightarrow> http_method \<Rightarrow> 'r HttpRouteTrie" where
  "trie_of http m = (case map_of http m of Some t \<Rightarrow> t | None \<Rightarrow> trie_default)"

definition table_holds ::
  "(string \<Rightarrow> string option) \<Rightarrow> 'd Route RouteTable \<Rightarrow> 'd Route list \<Rightarrow> bool" where
  "table_holds url_decode http rs = (\<forall>m. indexes trie_at (trie_of http m) (entries_of url_decode m rs))"

lemma distinct_keys:
  "(\<forall>m. distinct (map (shape_of \<circ> fst) (entries_of url_decode m rs))) \<longleftrightarrow>
     distinct (map (table_key url_decode) rs)"
proof (induction rs)
  case Nil
  then show ?case by (simp add: entries_of_def)
next
  case (Cons r rs)
  have shapes: "set (map (shape_of \<circ> fst) (entries_of url_decode m rs)) =
      {sh. (m, sh) \<in> table_key url_decode ` set rs}" for m
    by (auto simp: entries_of_def table_key_def image_iff)
  have cons: "entries_of url_decode m (r # rs) = (if method_of r = m then [(template_of url_decode r, r)] else [])
      @ entries_of url_decode m rs" for m
    by (simp add: entries_of_def)
  have "(\<forall>m. distinct (map (shape_of \<circ> fst) (entries_of url_decode m (r # rs)))) \<longleftrightarrow>
      (\<forall>m. distinct (map (shape_of \<circ> fst) (entries_of url_decode m rs)))
      \<and> shape_of (template_of url_decode r) \<notin> set (map (shape_of \<circ> fst) (entries_of url_decode (method_of r) rs))"
    unfolding cons by auto
  then show ?case by (simp only: Cons.IH shapes) (auto simp: table_key_def)
qed

lemma trie_of_update: "trie_of (AList.update m' t http) m = (if m = m' then t else trie_of http m)"
  by (simp add: trie_of_def update_conv')

lemma build_from_spec:
  assumes "table_holds url_decode http rs0"
  shows "case build_from url_decode rs http of
      Inr tbl \<Rightarrow> list_all (parses url_decode) rs \<and> table_holds url_decode tbl (rs0 @ rs)
    | Inl e \<Rightarrow> \<not> (list_all (parses url_decode) rs \<and> distinct (map (table_key url_decode) (rs0 @ rs)))"
  using assms
proof (induction rs arbitrary: http rs0)
  case (Cons r rs)
  define segs where "segs = template_of url_decode r"
  define m where "m = method_of r"
  show ?case
  proof (cases "parse_template url_decode (ho_path (md_http (rt_method r)))")
    case (Inl e)
    then show ?thesis by (simp add: parses_def)
  next
    case (Inr x)
    then have x: "x = segs" and p: "parses url_decode r" by (simp_all add: segs_def template_of_def parses_def)
    obtain t' ok where t': "trie_insert segs r (trie_of http m) = (t', ok)" by fastforce
    have ix: "indexes trie_at (trie_of http m) (entries_of url_decode m rs0)"
      using Cons.prems by (simp add: table_holds_def)
    have ok: "ok \<longleftrightarrow> (m, shape_of segs) \<notin> table_key url_decode ` set rs0"
      using trie.insert_iff_new[OF ix, of segs r] t'
      by (auto simp: entries_of_def table_key_def image_iff segs_def m_def)
    have unf: "build_from url_decode (r # rs) http =
        (if \<not> ok then Inl (DuplicateRoute m (ho_path (md_http (rt_method r))))
         else build_from url_decode rs (AList.update m t' http))"
      using t' Inr x by (simp add: trie_of_def m_def method_of_def Let_def)
    show ?thesis
    proof (cases ok)
      case False
      then have "(m, shape_of segs) \<in> table_key url_decode ` set rs0" using ok by simp
      then have "\<not> distinct (map (table_key url_decode) (rs0 @ r # rs))"
        by (auto simp: table_key_def [of _ r] segs_def m_def)
      then show ?thesis using False unf by simp
    next
      case True
      have "table_holds url_decode (AList.update m t' http) (rs0 @ [r])"
        unfolding table_holds_def
      proof
        fix m'
        show "indexes trie_at (trie_of (AList.update m t' http) m') (entries_of url_decode m' (rs0 @ [r]))"
          using trie.indexes_insert[OF ix, of segs r] t' True Cons.prems
          by (cases "m' = m") (auto simp: trie_of_update entries_of_def segs_def m_def table_holds_def)
      qed
      from Cons.IH[OF this] show ?thesis
        using True unf p by (auto split: sum.splits)
    qed
  qed
qed simp

lemma table_holds_empty: "table_holds url_decode [] []"
  by (simp add: table_holds_def trie_of_def entries_of_def trie.indexes_empty)

lemma table_holds_distinct: "table_holds url_decode tbl rs \<Longrightarrow> distinct (map (table_key url_decode) rs)"
  unfolding distinct_keys [symmetric] by (simp add: table_holds_def indexes_def)

lemma build_Inr:
  "RouteTable_build url_decode rs = Inr tbl \<Longrightarrow>
   list_all (parses url_decode) rs \<and> table_holds url_decode tbl rs"
  using build_from_spec[OF table_holds_empty, of url_decode rs] by (simp add: RouteTable_build_def)

lemma build_succeeds_iff:
  "(\<exists>tbl. RouteTable_build url_decode rs = Inr tbl) \<longleftrightarrow>
     list_all (parses url_decode) rs \<and> distinct (map (table_key url_decode) rs)"
proof (cases "RouteTable_build url_decode rs")
  case (Inl e)
  then show ?thesis
    using build_from_spec[OF table_holds_empty, of url_decode rs] by (simp add: RouteTable_build_def)
next
  case (Inr tbl)
  then show ?thesis using build_Inr[OF Inr] table_holds_distinct by auto
qed

text \<open>A matching entry is the one \<open>match_http\<close> returns when no other is more specific.\<close>

definition best_match ::
  "(string \<Rightarrow> string option) \<Rightarrow> 'd Route list \<Rightarrow> http_method \<Rightarrow> string list \<Rightarrow> 'd Route \<Rightarrow> bool" where
  "best_match url_decode rs m ss r =
     (r \<in> set rs \<and> method_of r = m \<and> shape_matches (shape_of (template_of url_decode r)) ss
      \<and> (\<forall>r' \<in> set rs. method_of r' = m \<and> shape_matches (shape_of (template_of url_decode r')) ss \<longrightarrow>
           more_specific (shape_of (template_of url_decode r)) (shape_of (template_of url_decode r'))))"

definition matched_as ::
  "(string \<Rightarrow> string option) \<Rightarrow> string list \<Rightarrow> 'd Route \<Rightarrow> 'd Route MatchedRoute" where
  "matched_as url_decode ss r =
     \<lparr>mr_route = r, mr_path_arguments =
        hm_collect (zip (parameter_names (template_of url_decode r))
          (captures (shape_of (template_of url_decode r)) ss))\<rparr>"

lemma match_segments_entries:
  assumes "indexes trie_at t (entries_of url_decode m rs)"
  shows "case match_segments t ss [] of
      (None, _) \<Rightarrow> \<not> (\<exists>r \<in> set rs. method_of r = m \<and> shape_matches (shape_of (template_of url_decode r)) ss)
    | (Some l, vs) \<Rightarrow> (\<exists>r. best_match url_decode rs m ss r \<and> l = route_leaf (template_of url_decode r) r
         \<and> vs = captures (shape_of (template_of url_decode r)) ss)"
proof -
  have at: "trie_at t sh = Some l \<longleftrightarrow>
      (\<exists>r \<in> set rs. method_of r = m \<and> shape_of (template_of url_decode r) = sh
         \<and> l = route_leaf (template_of url_decode r) r)" for sh l
    using assms by (auto simp: indexes_def entries_of_def)
  then have at': "(trie_at t sh \<noteq> None) \<longleftrightarrow>
      (\<exists>r \<in> set rs. method_of r = m \<and> shape_of (template_of url_decode r) = sh)" for sh
    by (metis not_Some_eq)
  show ?thesis
  proof (cases "fst (match_segments t ss [])")
    case None
    then have "\<forall>sh. shape_matches sh ss \<longrightarrow> trie_at t sh = None"
      using match_segments_result[of t ss "[]"]
      by (cases "match_segments t ss []") (auto simp: match_result_def)
    then have "\<not> (\<exists>r \<in> set rs. method_of r = m \<and> shape_matches (shape_of (template_of url_decode r)) ss)"
      using at' by metis
    then show ?thesis using None by (cases "match_segments t ss []") simp
  next
    case (Some l)
    then obtain sh where sh: "shape_matches sh ss" "trie_at t sh = Some l"
        "snd (match_segments t ss []) = captures sh ss"
        "\<forall>sh'. shape_matches sh' ss \<and> trie_at t sh' \<noteq> None \<longrightarrow> more_specific sh sh'"
      using match_segments_result[of t ss "[]"]
      by (cases "match_segments t ss []") (auto simp: match_result_def)
    from sh(2) obtain r where r: "r \<in> set rs" "method_of r = m" "shape_of (template_of url_decode r) = sh"
      "l = route_leaf (template_of url_decode r) r" unfolding at by blast
    then have "best_match url_decode rs m ss r"
      using sh(1,4) at' by (auto simp: best_match_def)
    then show ?thesis using Some sh(3) r by (cases "match_segments t ss []") auto
  qed
qed

lemma best_match_unique:
  assumes "distinct (map (table_key url_decode) rs)" "best_match url_decode rs m ss r" "best_match url_decode rs m ss r'"
  shows "r = r'"
proof -
  have "shape_of (template_of url_decode r) = shape_of (template_of url_decode r')"
    using assms(2,3) more_specific_antisym unfolding best_match_def by blast
  then have "table_key url_decode r = table_key url_decode r'"
    using assms(2,3) by (simp add: table_key_def best_match_def)
  then show ?thesis
    using assms by (auto simp: best_match_def distinct_map dest: inj_onD)
qed

lemma match_http_best:
  assumes "RouteTable_build url_decode rs = Inr tbl" "split_path url_decode path = Inr ss"
  shows "match_http url_decode tbl m path = Inr mr \<longleftrightarrow>
     (\<exists>r. best_match url_decode rs m ss r \<and> mr = matched_as url_decode ss r)"
proof -
  have h: "table_holds url_decode tbl rs" using build_Inr[OF assms(1)] by simp
  then have ix: "indexes trie_at (trie_of tbl m) (entries_of url_decode m rs)" by (simp add: table_holds_def)
  have eq: "match_http url_decode tbl m path =
      (case match_segments (trie_of tbl m) ss [] of
         (None, _) \<Rightarrow> Inl not_found
       | (Some leaf, values) \<Rightarrow> Inr \<lparr>mr_route = leaf_route leaf,
           mr_path_arguments = hm_collect (zip (leaf_names leaf) values)\<rparr>)"
  proof -
    have "match_segments (trie_default :: 'a Route HttpRouteTrie) ss [] = (None, [])"
      by (cases ss) (simp_all add: trie_default_def)
    then show ?thesis
      by (cases "map_of tbl m") (simp_all add: match_http_def assms(2) trie_of_def)
  qed
  note m = match_segments_entries[OF ix, of ss]
  show ?thesis
  proof (cases "fst (match_segments (trie_of tbl m) ss [])")
    case None
    then show ?thesis using m
      by (cases "match_segments (trie_of tbl m) ss []") (auto simp: eq best_match_def)
  next
    case (Some l)
    then obtain r where r: "best_match url_decode rs m ss r" "l = route_leaf (template_of url_decode r) r"
        "snd (match_segments (trie_of tbl m) ss []) = captures (shape_of (template_of url_decode r)) ss"
      using m by (cases "match_segments (trie_of tbl m) ss []") auto
    then have "match_http url_decode tbl m path = Inr (matched_as url_decode ss r)"
      using Some
      by (cases "match_segments (trie_of tbl m) ss []") (simp add: eq route_leaf_def matched_as_def)
    then show ?thesis
      using r(1) best_match_unique[OF table_holds_distinct[OF h]] by auto
  qed
qed

end
