(* ===== verification/Routes_Claims.thy ===== *)
theory Routes_Claims
  imports Routes_Theorems
begin

text \<open>
  The properties of the route table: what building accepts, what matching returns, and that every
  validated service descriptor can be routed.
\<close>

section \<open>Validated templates\<close>

lemma parse_template_render:
  assumes "list_all segment_ok segs"
    and "\<forall>d. literal_ok d \<longrightarrow> url_decode (encode_route_literal d) = Some d"
  shows "parse_template url_decode (render_template segs) = Inr segs"
proof -
  have "parse_template_segment url_decode (render_segment seg) = Inr seg" if "seg \<in> set segs" for seg
  proof -
    have ok: "segment_ok seg" using that assms(1) by (simp add: list_all_iff)
    then show ?thesis using assms(2) placeholder_name_render[OF ok]
      by (cases seg) (simp_all add: parse_template_segment_def)
  qed
  then have "map (parse_template_segment url_decode) (map render_segment segs) = map (\<lambda>s. Inr s) segs"
    by simp
  then have "collect_results (map (parse_template_segment url_decode) (map render_segment segs)) = Inr (map (\<lambda>s. s) segs)"
    by (simp only: collect_results_map_Inr)
  then show ?thesis
    using render_template_segments[OF assms(1)] by (simp add: parse_template_def del: map_map)
qed

fun shape_text :: "Segment \<Rightarrow> string" where
  "shape_text (Literal d) = encode_route_literal d"
| "shape_text (Parameter n) = ''{}''"

lemma starts_with_singleton: "starts_with [c] s \<longleftrightarrow> s \<noteq> [] \<and> hd s = c"
  by (cases s) (auto simp: starts_with_iff)

lemma shape_segment_render: "segment_ok seg \<Longrightarrow> shape_segment (render_segment seg) = shape_text seg"
proof (cases seg)
  case (Literal d)
  assume "segment_ok seg"
  then have "CHR ''{'' \<notin> set (encode_route_literal d)"
    using Literal encode_route_literal_plain by (simp add: literal_ok_def)
  then have "\<not> starts_with ''{'' (encode_route_literal d)"
    by (cases "encode_route_literal d") (auto simp: starts_with_singleton)
  then show ?thesis using Literal by (simp add: shape_segment_def)
qed (simp add: shape_segment_def starts_with_singleton)

lemma http_route_shape_render:
  assumes "list_all segment_ok segs"
  shows "http_route_shape (render_template segs) = join_path (map shape_text segs)"
proof (cases "segs = []")
  case True
  then show ?thesis by (simp add: http_route_shape_def render_template_def join_path_def shape_segment_def starts_with_singleton)
next
  case False
  have "\<forall>s \<in> set (map render_segment segs). CHR ''/'' \<notin> set s"
    using assms render_segment_plain by (auto simp: list_all_iff)
  then have "split_on (\<lambda>c. c = CHR ''/'') (render_template segs) = [] # map render_segment segs"
    using False by (simp add: render_template_def split_on_concat_Cons del: map_map)
  moreover have "map (\<lambda>s. CHR ''/'' # shape_segment s) (map render_segment segs) = map ((#) (CHR ''/'')) (map shape_text segs)"
    using assms by (simp add: shape_segment_render list_all_iff)
  moreover have "shape_segment [] = []" by (simp add: shape_segment_def starts_with_singleton)
  ultimately show ?thesis using False
    by (simp add: http_route_shape_def join_path_def del: map_map)
qed

lemma shape_text_plain: "segment_ok seg \<Longrightarrow> shape_text seg \<noteq> [] \<and> CHR ''/'' \<notin> set (shape_text seg)"
  by (cases seg) (auto simp: literal_ok_def encode_route_literal_plain)

lemma shape_text_eq:
  assumes "segment_ok a" "segment_ok b" "shape_text a = shape_text b"
  shows "shape_of_segment a = shape_of_segment b"
proof -
  have brace: "encode_route_literal d \<noteq> ''{}''" if "literal_ok d" for d
    using that encode_route_literal_plain[of d "CHR ''{''"] by (auto simp: literal_ok_def)
  show ?thesis
  proof (cases a)
    case (Literal x)
    then show ?thesis using assms brace render_segment_inj[of a b] by (cases b) auto
  next
    case (Parameter n)
    then show ?thesis using assms brace by (cases b) auto
  qed
qed

lemma shape_text_conv:
  "shape_text seg = (case shape_of_segment seg of Some d \<Rightarrow> encode_route_literal d | None \<Rightarrow> ''{}'')"
  by (cases seg) simp_all

lemma map_shape_text:
  "map shape_text segs =
     map (\<lambda>p. case p of Some d \<Rightarrow> encode_route_literal d | None \<Rightarrow> ''{}'') (shape_of segs)"
  by (simp add: shape_of_def shape_text_conv)

lemma http_route_shape_eq:
  assumes "list_all segment_ok a" "list_all segment_ok b"
    "http_route_shape (render_template a) = http_route_shape (render_template b)"
  shows "shape_of a = shape_of b"
proof -
  have seg: "path_segments (join_path (map shape_text x)) = map shape_text x" if "list_all segment_ok x" for x
  proof -
    have "\<forall>s \<in> set (map shape_text x). s \<noteq> [] \<and> CHR ''/'' \<notin> set s"
      using that shape_text_plain by (auto simp: list_all_iff)
    then show ?thesis by (rule join_path_segments[THEN conjunct2])
  qed
  have "join_path (map shape_text a) = join_path (map shape_text b)"
    using assms(3) unfolding http_route_shape_render[OF assms(1)] http_route_shape_render[OF assms(2)] .
  then have "map shape_text a = map shape_text b"
    using seg[OF assms(1)] seg[OF assms(2)] by metis
  then show ?thesis using assms(1,2) unfolding shape_of_def
  proof (induction a b rule: list_induct2')
    case (4 x xs y ys)
    then have "shape_of_segment x = shape_of_segment y" by (intro shape_text_eq) auto
    then show ?case using 4 by simp
  qed simp_all
qed

lemma supported_method_inj:
  "supported_method m \<Longrightarrow> supported_method m' \<Longrightarrow> method_as_str m = method_as_str m' \<longleftrightarrow> m = m'"
  by (auto simp: supported_method_def)

section \<open>Properties\<close>

text \<open>
   The table is built exactly when every template decodes and no two routes of one HTTP method
  have the same shape (the same literals and placeholders in the same positions).
\<close>

theorem route_table_builds_iff:
  "(\<exists>tbl. RouteTable_build url_decode rs = Inr tbl) \<longleftrightarrow>
     list_all (parses url_decode) rs
     \<and> distinct (map (\<lambda>r. (method_of r, shape_of (template_of url_decode r))) rs)"
  using build_succeeds_iff[of url_decode rs] by (simp add: table_key_def [abs_def])

text \<open>
  C5.  Matching returns exactly the route of the request's method whose template matches the decoded
  segments and is more specific than every other matching one (a literal before a placeholder, from
  the left), with the segments at its placeholders as arguments; when there is none it is an error.
\<close>

theorem match_http_most_specific:
  "\<lbrakk>RouteTable_build url_decode rs = Inr tbl; split_path url_decode path = Inr ss\<rbrakk> \<Longrightarrow>
   match_http url_decode tbl m path = Inr mr \<longleftrightarrow>
     (\<exists>r. best_match url_decode rs m ss r \<and> mr = matched_as url_decode ss r)"
  by (rule match_http_best)

lemma validated_descriptor_table:
  assumes d: "ServiceDescriptor_new selector ms = Inr d"
    and ops: "\<forall>m \<in> set ms. \<exists>mime method path ps c p. HttpOperation_new mime method path ps c p = Inr (md_http m)"
    and dec: "\<forall>t. literal_ok t \<longrightarrow> url_decode (encode_route_literal t) = Some t"
  shows "\<exists>tbl. RouteTable_build url_decode
      (map (\<lambda>m. \<lparr>rt_service = d, rt_method = m, rt_dispatch = dispatch\<rparr>) ms) = Inr tbl"
proof -
  define route where "route m = \<lparr>rt_service = d, rt_method = m, rt_dispatch = dispatch\<rparr>" for m
  have "\<exists>segs. list_all segment_ok segs \<and> ho_path (md_http m) = render_template segs
      \<and> supported_method (ho_method (md_http m))" if mem: "m \<in> set ms" for m
  proof -
    obtain mime meth pth ps c p where "HttpOperation_new mime meth pth ps c p = Inr (md_http m)"
      using bspec[OF ops mem] by (elim exE)
    then have "validate_http_operation meth pth ps = Inr ()"
        "ho_path (md_http m) = pth" "ho_method (md_http m) = meth"
      by (auto simp: HttpOperation_new_def bind_result_Inr_iff dest!: sym[of _ "md_http m"])
    then show ?thesis
      by (auto simp: validate_http_operation_iff operation_ok_def template_ok_def)
  qed
  then obtain segs where segs: "\<And>m. m \<in> set ms \<Longrightarrow> list_all segment_ok (segs m)
      \<and> ho_path (md_http m) = render_template (segs m) \<and> supported_method (ho_method (md_http m))"
    by metis
  have parse: "parse_template url_decode (ho_path (md_http m)) = Inr (segs m)" if "m \<in> set ms" for m
    using segs[OF that] parse_template_render dec by simp
  have "distinct (map (table_key url_decode) (map route ms))"
  proof -
    have "inj_on (\<lambda>m. table_key url_decode (route m)) (set ms) \<and> distinct ms"
    proof
      have keys: "distinct (map route_key ms)"
        using d check_methods_iff[of 0 ms "[]" "[]"]
        by (auto simp: ServiceDescriptor_new_def validate_methods_def bind_result_Inr_iff split: if_splits)
      then show "distinct ms" by (simp add: distinct_map)
      show "inj_on (\<lambda>m. table_key url_decode (route m)) (set ms)"
      proof (rule inj_onI)
        fix a b assume ab: "a \<in> set ms" "b \<in> set ms"
          and eq: "table_key url_decode (route a) = table_key url_decode (route b)"
        then have "shape_of (segs a) = shape_of (segs b)" "ho_method (md_http a) = ho_method (md_http b)"
          by (simp_all add: table_key_def method_of_def template_of_def route_def parse)
        then have "map shape_text (segs a) = map shape_text (segs b)"
          by (simp only: map_shape_text)
        then have "http_route_shape (ho_path (md_http a)) = http_route_shape (ho_path (md_http b))"
          using segs ab by (simp add: http_route_shape_render)
        then have "route_key a = route_key b"
          using \<open>ho_method (md_http a) = _\<close> by (simp add: route_key_def)
        then show "a = b" using keys ab by (auto simp: distinct_map dest: inj_onD)
      qed
    qed
    then show ?thesis by (simp add: distinct_map comp_def)
  qed
  moreover have "list_all (parses url_decode) (map route ms)"
    by (auto simp: list_all_iff parses_def route_def parse)
  ultimately show ?thesis
    using build_succeeds_iff[of url_decode "map route ms"] by (simp add: route_def [abs_def])
qed

text \<open>
  C20.  A service descriptor the contract crate accepts, whose methods hold accepted HTTP operations,
  always yields a route table: the validator's comparison of route shapes is as strong as the trie's.
  The percent decoder is assumed to decode the canonical literals.
\<close>

theorem validated_descriptor_routes:
  assumes d: "ServiceDescriptor_new selector ms = Inr d"
    and ops: "\<forall>m \<in> set ms. \<exists>mime method path ps c p. HttpOperation_new mime method path ps c p = Inr (md_http m)"
    and dec: "\<forall>t. literal_ok t \<longrightarrow> url_decode (encode_route_literal t) = Some t"
  shows "\<exists>tbl. RouteTable_build url_decode
      (map (\<lambda>m. \<lparr>rt_service = d, rt_method = m, rt_dispatch = dispatch\<rparr>) ms) = Inr tbl"
  by (rule validated_descriptor_table [OF d ops dec])

section \<open>The hypotheses hold\<close>

text \<open>A decoder of canonical literals, and two routes of one method that match the same path.\<close>

definition canonical_decode :: "string \<Rightarrow> string option" where
  "canonical_decode s = (case decode_literal_bytes s of Inr d \<Rightarrow> Some d | Inl _ \<Rightarrow> None)"

lemma canonical_decode_encode: "\<forall>t. literal_ok t \<longrightarrow> canonical_decode (encode_route_literal t) = Some t"
  by (simp add: canonical_decode_def literal_ok_def decode_literal_bytes_encode)

definition demo_template :: "nat \<Rightarrow> Segment list" where
  "demo_template i = [Literal ''orders'', if i = 0 then Parameter ''id'' else Literal ''new'']"

definition demo_parameters :: "nat \<Rightarrow> HttpParameter list" where
  "demo_parameters i =
     (if i = 0 then [\<lparr>hp_name = ''id'', hp_source = PS_Path, hp_cardinality = PC_Scalar\<rparr>] else [])"

definition demo_operation :: "nat \<Rightarrow> HttpOperation" where
  "demo_operation i =
     \<lparr>ho_method = M_GET, ho_path = render_template (demo_template i), ho_parameters = demo_parameters i,
      ho_consumes = ''application/json'', ho_produces = ''application/json''\<rparr>"

definition demo_method :: "nat \<Rightarrow> MethodDescriptor" where
  "demo_method i = \<lparr>md_id = i, md_invocation_name = (if i = 0 then ''get'' else ''blank''), md_http = demo_operation i\<rparr>"

lemma demo_literals: "literal_ok ''orders''" "literal_ok ''new''" "is_identity_component ''id''"
  by (simp_all add: literal_ok_def route_byte_def is_route_pchar_def ascii_defs byte_def Let_def
      char_is_whitespace_def char_is_control_def is_identity_component_def MAX_IDENTITY_BYTES_def
      identity_byte_def)

lemma demo_template_ok: "list_all segment_ok (demo_template i)" "template_ok (demo_template i)"
proof -
  show ok: "list_all segment_ok (demo_template i)" by (simp add: demo_template_def demo_literals)
  show "template_ok (demo_template i)" using ok unfolding template_ok_def by (simp add: demo_template_def)
qed

lemma demo_operation_new:
  "HttpOperation_new (\<lambda>t. Some t) M_GET (render_template (demo_template i)) (demo_parameters i)
     ''application/json'' ''application/json'' = Inr (demo_operation i)"
proof -
  have "operation_ok M_GET (demo_template i) (demo_parameters i)"
    using demo_template_ok(2)[of i] unfolding operation_ok_def
    by (simp add: supported_method_def demo_parameters_def of_source_def) (simp add: demo_template_def)
  then have "validate_http_operation M_GET (render_template (demo_template i)) (demo_parameters i) = Inr ()"
    unfolding validate_http_operation_iff by blast
  then show ?thesis by (simp add: HttpOperation_new_def canonical_media_type_def demo_operation_def)
qed

definition demo_methods :: "MethodDescriptor list" where "demo_methods = [demo_method 0, demo_method 1]"

lemma demo_shapes:
  "http_route_shape (render_template (demo_template 0)) \<noteq> http_route_shape (render_template (demo_template 1))"
  using http_route_shape_eq[OF demo_template_ok(1) demo_template_ok(1), of 0 1]
  by (auto simp: demo_template_def shape_of_def)

lemma demo_descriptor:
  "ServiceDescriptor_new selector demo_methods = Inr \<lparr>sd_selector = selector, sd_methods = demo_methods\<rparr>"
  using demo_shapes
  by (simp add: ServiceDescriptor_new_def validate_methods_def demo_methods_def demo_method_def
      demo_operation_def Let_def)

lemma demo_methods_operations:
  "\<forall>m \<in> set demo_methods. \<exists>mime method path ps c p. HttpOperation_new mime method path ps c p = Inr (md_http m)"
proof
  fix m assume "m \<in> set demo_methods"
  then obtain i where "md_http m = demo_operation i" by (auto simp: demo_methods_def demo_method_def)
  then show "\<exists>mime method path ps c p. HttpOperation_new mime method path ps c p = Inr (md_http m)"
    using demo_operation_new[of i] by metis
qed

theorem validated_descriptor_routes_witness:
  "\<exists>tbl. RouteTable_build canonical_decode
     (map (\<lambda>m. \<lparr>rt_service = \<lparr>sd_selector =
          \<lparr>ss_service_id = ''orders'', ss_group = None, ss_version = None, ss_metadata = [], ss_identity = ''orders''\<rparr>,
        sd_methods = demo_methods\<rparr>, rt_method = m, rt_dispatch = ()\<rparr>) demo_methods) = Inr tbl"
  by (rule validated_descriptor_routes[OF demo_descriptor demo_methods_operations canonical_decode_encode])

definition demo_route :: "nat \<Rightarrow> unit Route" where
  "demo_route i = \<lparr>rt_service = \<lparr>sd_selector =
          \<lparr>ss_service_id = ''orders'', ss_group = None, ss_version = None, ss_metadata = [], ss_identity = ''orders''\<rparr>,
        sd_methods = demo_methods\<rparr>, rt_method = demo_method i, rt_dispatch = ()\<rparr>"

lemma demo_route_template: "template_of canonical_decode (demo_route i) = demo_template i"
  using parse_template_render[OF demo_template_ok(1) canonical_decode_encode, of i]
  by (simp add: template_of_def demo_route_def demo_method_def demo_operation_def)

lemma demo_table: "\<exists>tbl. RouteTable_build canonical_decode [demo_route 0, demo_route 1] = Inr tbl"
proof -
  have "parses canonical_decode (demo_route i)" for i
    using parse_template_render[OF demo_template_ok(1) canonical_decode_encode, of i]
    by (simp add: parses_def demo_route_def demo_method_def demo_operation_def)
  moreover have "shape_of (demo_template 0) \<noteq> shape_of (demo_template 1)"
    by (simp add: demo_template_def shape_of_def)
  ultimately show ?thesis
    unfolding build_succeeds_iff by (simp add: table_key_def demo_route_template)
qed

lemma demo_split: "split_path canonical_decode ''/orders/new'' = Inr [''orders'', ''new'']"
  by (simp add: split_path_def path_segments_def trim_matches_def canonical_decode_def
      is_route_pchar_def ascii_defs)

text \<open>The literal route wins over the placeholder route, with no arguments.\<close>

theorem match_http_most_specific_witness:
  "\<exists>tbl. RouteTable_build canonical_decode [demo_route 0, demo_route 1] = Inr tbl
     \<and> match_http canonical_decode tbl M_GET ''/orders/new'' =
         Inr \<lparr>mr_route = demo_route 1, mr_path_arguments = []\<rparr>"
proof -
  obtain tbl where tbl: "RouteTable_build canonical_decode [demo_route 0, demo_route 1] = Inr tbl"
    using demo_table by blast
  have m: "method_of (demo_route i) = M_GET" for i
    by (simp add: method_of_def demo_route_def demo_method_def demo_operation_def)
  have best: "best_match canonical_decode [demo_route 0, demo_route 1] M_GET [''orders'', ''new''] (demo_route 1)"
    unfolding best_match_def demo_route_template m
    by (simp add: demo_template_def demo_route_template m shape_of_def)
  have "matched_as canonical_decode [''orders'', ''new''] (demo_route 1) = \<lparr>mr_route = demo_route 1, mr_path_arguments = []\<rparr>"
    by (simp add: matched_as_def demo_route_template demo_template_def shape_of_def hm_collect_def)
  then have "match_http canonical_decode tbl M_GET ''/orders/new'' =
      Inr \<lparr>mr_route = demo_route 1, mr_path_arguments = []\<rparr>"
    unfolding match_http_most_specific[OF tbl demo_split] using best by metis
  then show ?thesis using tbl by blast
qed

end
