(* ===== verification/Routes_Arguments.thy ===== *)
theory Routes_Arguments
  imports Routes
begin

text \<open>
  What \<open>http_arguments\<close> extracts, without the order in which it does it: every parameter of the
  operation gets the value its source prescribes for the request, and nothing else is an argument.
\<close>

definition values_of :: "string \<Rightarrow> (string \<times> 'v) list \<Rightarrow> 'v list" where
  "values_of n pairs = map snd (filter (\<lambda>(k, _). k = n) pairs)"

definition nonempty :: "'v list \<Rightarrow> 'v list option" where
  "nonempty vs = (if vs = [] then None else Some vs)"

lemma values_of_simps [simp]:
  "values_of n [] = []"
  "values_of n ((k, v) # ps) = (if k = n then [v] else []) @ values_of n ps"
  by (simp_all add: values_of_def)

text \<open>The prescription: \<open>argument_for\<close> holds of the value parameter \<open>p\<close> must have.\<close>

definition argument_for ::
  "(string \<Rightarrow> string option) \<Rightarrow> argument_sources \<Rightarrow> (string \<times> string) list \<Rightarrow> HttpParameter \<Rightarrow> json \<Rightarrow> bool" where
  "argument_for to_str src pairs p v =
     (case hp_source p of
        PS_Path \<Rightarrow> v = optional_string (map_of (as_path src) (hp_name p))
      | PS_Query \<Rightarrow>
          (case hp_cardinality p of
             PC_Scalar \<Rightarrow>
               (case values_of (hp_name p) pairs of
                  [] \<Rightarrow> v = JNull | [x] \<Rightarrow> v = JString x | _ \<Rightarrow> False)
           | PC_Repeated \<Rightarrow> v = JArray (map JString (values_of (hp_name p) pairs)))
      | PS_Header \<Rightarrow> Inr v = header_value to_str (as_headers src) (hp_name p)
      | PS_Cookie \<Rightarrow> v = optional_string (map_of (as_cookies src) (hp_name p))
      | PS_BodyField \<Rightarrow>
          (case as_body src of
             Some (JObject entries) \<Rightarrow> v = (case map_of entries (hp_name p) of Some x \<Rightarrow> x | None \<Rightarrow> JNull)
           | Some _ \<Rightarrow> False
           | None \<Rightarrow> v = JNull)
      | PS_Body \<Rightarrow> v = (case as_body src of Some b \<Rightarrow> b | None \<Rightarrow> JNull)
      | PS_QueryMap \<Rightarrow>
          (\<exists>entries. v = JObject entries \<and> bt_ok entries \<and>
             (\<forall>n. map_of entries n =
                (if n \<in> set (as_explicit_query src) then None
                 else map_option strings_value (nonempty (values_of n pairs)))))
      | PS_HeaderMap \<Rightarrow>
          (\<exists>entries. Inr entries = header_map_value to_str (as_headers src) (as_explicit_headers src)
             \<and> v = JObject entries))"

section \<open>Grouping the query\<close>

definition groups :: "(string \<times> string list) list \<Rightarrow> (string \<times> string) list \<Rightarrow> bool" where
  "groups q pairs = (distinct (map fst q) \<and> (\<forall>n. map_of q n = nonempty (values_of n pairs)))"

lemma collect_query_groups:
  "\<lbrakk>collect_query mx i ps q = Inr q'; groups q ps0\<rbrakk> \<Longrightarrow> groups q' (ps0 @ ps)"
proof (induction mx i ps q arbitrary: ps0 rule: collect_query.induct)
  case (2 mx i n v ps q)
  define vs where "vs = (case map_of q n of Some vs \<Rightarrow> vs | None \<Rightarrow> [])"
  have vs: "vs = values_of n ps0"
    using "2.prems"(2) by (auto simp: vs_def groups_def nonempty_def split: option.splits if_splits)
  have app: "values_of m (ps0 @ [(n, v)]) = values_of m ps0 @ (if m = n then [v] else [])" for m
    by (auto simp: values_of_def)
  have "groups (AList.update n (vs @ [v]) q) (ps0 @ [(n, v)])"
    using "2.prems"(2) vs by (auto simp: groups_def distinct_update update_conv' app nonempty_def)
  then show ?case
    using "2.IH"[of "ps0 @ [(n, v)]"] "2.prems"(1)
    by (simp add: vs_def split: if_splits)
qed simp

lemma groups_empty: "groups [] []"
  by (simp add: groups_def nonempty_def)

lemma collect_query_bound:
  "collect_query mx i ps q = Inr q' \<Longrightarrow> ps = [] \<or> i + length ps \<le> mx"
  by (induction mx i ps q rule: collect_query.induct) (auto split: if_splits)

text \<open>The query values left after some explicit parameters took theirs.\<close>

definition groups_except ::
  "string set \<Rightarrow> (string \<times> string list) list \<Rightarrow> (string \<times> string) list \<Rightarrow> bool" where
  "groups_except taken q pairs =
     (distinct (map fst q)
      \<and> (\<forall>n. map_of q n = (if n \<in> taken then None else nonempty (values_of n pairs))))"

lemma groups_except_delete:
  "groups_except taken q pairs \<Longrightarrow> groups_except (insert n taken) (AList.delete n q) pairs"
  by (auto simp: groups_except_def distinct_delete delete_conv')

lemma query_map_entries:
  assumes "groups_except taken q pairs" "taken \<subseteq> set explicit"
  shows "map_of (query_map q explicit) n =
    (if n \<in> set explicit then None else map_option strings_value (nonempty (values_of n pairs)))"
proof -
  define kept where "kept = map (\<lambda>(n, vs). (n, strings_value vs)) (filter (\<lambda>(n, _). n \<notin> set explicit) q)"
  have "distinct (map fst q)" using assms(1) by (simp add: groups_except_def)
  then have "distinct (map fst kept)"
    unfolding kept_def map_map
    by (simp add: comp_def case_prod_beta distinct_map_filter)
  then have "map_of (query_map q explicit) n = map_of kept n"
    unfolding query_map_def bt_collect_def kept_def by (rule bt.lookup_collect_distinct)
  also have "map_of kept n = (if n \<in> set explicit then None else map_option strings_value (map_of q n))"
    unfolding kept_def by (induction q) auto
  finally show ?thesis using assms by (auto simp: groups_except_def)
qed

section \<open>The loop over the parameters\<close>

lemma parameter_argument_for:
  assumes "parameter_argument to_str src q p = Inr (v, q')"
    and "groups_except taken q pairs" "taken \<subseteq> set (as_explicit_query src)"
    and "hp_name p \<notin> taken" "hp_source p = PS_Query \<Longrightarrow> hp_name p \<in> set (as_explicit_query src)"
  shows "argument_for to_str src pairs p v \<and>
    groups_except (if hp_source p = PS_Query then insert (hp_name p) taken else taken) q' pairs"
proof -
  have qv: "(case map_of q (hp_name p) of Some vs \<Rightarrow> vs | None \<Rightarrow> []) = values_of (hp_name p) pairs"
    using assms(2,4) by (simp add: groups_except_def nonempty_def)
  show ?thesis
  proof (cases "hp_source p")
    case PS_Query
    then show ?thesis
      using assms(1) groups_except_delete[OF assms(2)]
      by (auto simp: parameter_argument_def argument_for_def qv Let_def
          split: HttpParameterCardinality.splits list.splits)
  next
    case PS_QueryMap
    then show ?thesis
      using assms(1,2) query_map_entries[OF assms(2,3)]
      by (auto simp: parameter_argument_def argument_for_def query_map_def)
  qed (use assms(1,2) in \<open>auto simp: parameter_argument_def argument_for_def bind_result_Inr_iff
      split: option.splits json.splits\<close>)
qed

lemma collect_arguments_for:
  "\<lbrakk>collect_arguments to_str src ps q args0 = Inr args; groups_except taken q pairs;
    taken \<subseteq> set (as_explicit_query src); distinct (map hp_name ps);
    taken \<inter> set (map hp_name ps) = {};
    \<forall>p \<in> set ps. hp_source p = PS_Query \<longrightarrow> hp_name p \<in> set (as_explicit_query src);
    bt_ok args0\<rbrakk> \<Longrightarrow>
   bt_ok args
   \<and> (\<forall>p \<in> set ps. \<exists>v. map_of args (hp_name p) = Some v \<and> argument_for to_str src pairs p v)
   \<and> (\<forall>n. n \<notin> hp_name ` set ps \<longrightarrow> map_of args n = map_of args0 n)"
proof (induction ps arbitrary: q args0 taken)
  case (Cons p ps)
  from Cons.prems(1) obtain v q' where v: "parameter_argument to_str src q p = Inr (v, q')"
    and rest: "collect_arguments to_str src ps q' (bt_insert (hp_name p) v args0) = Inr args"
    by (auto simp: bind_result_Inr_iff)
  define taken' where "taken' = (if hp_source p = PS_Query then insert (hp_name p) taken else taken)"
  have a: "argument_for to_str src pairs p v" and g: "groups_except taken' q' pairs"
    using parameter_argument_for[OF v Cons.prems(2,3)] Cons.prems(5,6) by (auto simp: taken'_def)
  have "bt_ok args
     \<and> (\<forall>p \<in> set ps. \<exists>v. map_of args (hp_name p) = Some v \<and> argument_for to_str src pairs p v)
     \<and> (\<forall>n. n \<notin> hp_name ` set ps \<longrightarrow> map_of args n = map_of (bt_insert (hp_name p) v args0) n)"
    using Cons.prems by (intro Cons.IH[OF rest g]) (auto simp: taken'_def bt_ok_insert)
  moreover have "hp_name p \<notin> hp_name ` set ps" using Cons.prems(4) by auto
  ultimately show ?case
    using a Cons.prems(7) by (auto simp: map_of_bt_insert)
qed simp

section \<open>Property\<close>

text \<open>
  C21.  When the arguments of a request are extracted for an operation with distinct parameter names,
  the argument names are exactly the parameter names, every argument is the value its parameter's
  source prescribes, and the query has at most the allowed number of pairs.
\<close>

theorem http_arguments_functional:
  assumes "http_arguments form_parse to_str matched query headers body mx = Inr args"
    and "distinct (map hp_name (ho_parameters (md_http (rt_method (mr_route matched)))))"
  shows "\<exists>cookies. parse_cookies to_str headers = Inr cookies
    \<and> length (form_parse (case query of Some q \<Rightarrow> q | None \<Rightarrow> [])) \<le> mx
    \<and> dom (map_of args) = hp_name ` set (ho_parameters (md_http (rt_method (mr_route matched))))
    \<and> (\<forall>p \<in> set (ho_parameters (md_http (rt_method (mr_route matched)))).
         \<exists>v. map_of args (hp_name p) = Some v
           \<and> argument_for to_str
               \<lparr>as_path = mr_path_arguments matched, as_headers = headers, as_cookies = cookies,
                as_body = body,
                as_explicit_query =
                  map hp_name (of_source PS_Query (ho_parameters (md_http (rt_method (mr_route matched))))),
                as_explicit_headers = map (\<lambda>p. ascii_lowercase (hp_name p))
                  (of_source PS_Header (ho_parameters (md_http (rt_method (mr_route matched)))))\<rparr>
               (form_parse (case query of Some q \<Rightarrow> q | None \<Rightarrow> [])) p v)"
proof -
  define ps where "ps = ho_parameters (md_http (rt_method (mr_route matched)))"
  define pairs where "pairs = form_parse (case query of Some q \<Rightarrow> q | None \<Rightarrow> [])"
  define src where "src cookies = \<lparr>as_path = mr_path_arguments matched, as_headers = headers,
      as_cookies = cookies, as_body = body, as_explicit_query = map hp_name (of_source PS_Query ps),
      as_explicit_headers = map (\<lambda>p. ascii_lowercase (hp_name p)) (of_source PS_Header ps)\<rparr>" for cookies
  from assms(1) obtain q cookies where q: "collect_query mx 0 pairs [] = Inr q"
    and c: "parse_cookies to_str headers = Inr cookies"
    and args: "collect_arguments to_str (src cookies) ps q [] = Inr args"
    by (auto simp: http_arguments_def Let_def bind_result_Inr_iff src_def ps_def pairs_def)
  have "groups_except {} q pairs"
    using collect_query_groups[OF q groups_empty] by (simp add: groups_def groups_except_def)
  moreover have "\<forall>p \<in> set ps. hp_source p = PS_Query \<longrightarrow> hp_name p \<in> set (as_explicit_query (src cookies))"
    by (auto simp: src_def of_source_def)
  ultimately have
    "bt_ok args
     \<and> (\<forall>p \<in> set ps. \<exists>v. map_of args (hp_name p) = Some v \<and> argument_for to_str (src cookies) pairs p v)
     \<and> (\<forall>n. n \<notin> hp_name ` set ps \<longrightarrow> map_of args n = map_of [] n)"
    using assms(2) by (intro collect_arguments_for[OF args]) (auto simp: ps_def bt_ok_def)
  moreover have "length pairs \<le> mx" using collect_query_bound[OF q] by auto
  ultimately show ?thesis
    using c by (intro exI[of _ cookies])
      (auto simp: src_def [symmetric] ps_def [symmetric] pairs_def [symmetric] dom_def)
qed

definition demo_matched :: "unit Route MatchedRoute" where
  "demo_matched =
     \<lparr>mr_route = \<lparr>rt_service = \<lparr>sd_selector = \<lparr>ss_service_id = ''orders'', ss_group = None,
          ss_version = None, ss_metadata = [], ss_identity = ''orders''\<rparr>, sd_methods = []\<rparr>,
        rt_method = \<lparr>md_id = 0, md_invocation_name = ''get'',
          md_http = \<lparr>ho_method = M_GET, ho_path = ''/orders/{id}'', ho_parameters =
             [\<lparr>hp_name = ''id'', hp_source = PS_Path, hp_cardinality = PC_Scalar\<rparr>,
              \<lparr>hp_name = ''tag'', hp_source = PS_Query, hp_cardinality = PC_Repeated\<rparr>,
              \<lparr>hp_name = ''rest'', hp_source = PS_QueryMap, hp_cardinality = PC_Scalar\<rparr>],
             ho_consumes = ''application/json'', ho_produces = ''application/json''\<rparr>\<rparr>,
        rt_dispatch = ()\<rparr>,
      mr_path_arguments = [(''id'', ''7'')]\<rparr>"

lemma demo_arguments:
  "http_arguments (\<lambda>_. [(''tag'', ''a''), (''k'', ''v''), (''tag'', ''b'')]) (\<lambda>t. Some t) demo_matched None [] None 4 =
     Inr [(''id'', JString ''7''), (''rest'', JObject [(''k'', JString ''v'')]),
          (''tag'', JArray [JString ''a'', JString ''b''])]"
  by (simp add: http_arguments_def demo_matched_def parse_cookies_def Let_def of_source_def
      parameter_argument_def query_map_def strings_value_def optional_string_def bt_collect_def)

theorem http_arguments_functional_witness:
  "\<exists>args. http_arguments (\<lambda>_. [(''tag'', ''a''), (''k'', ''v''), (''tag'', ''b'')]) (\<lambda>t. Some t) demo_matched
       None [] None 4 = Inr args
     \<and> map_of args ''id'' = Some (JString ''7'') \<and> dom (map_of args) = {''id'', ''tag'', ''rest''}"
proof -
  have "distinct (map hp_name (ho_parameters (md_http (rt_method (mr_route demo_matched)))))"
    by (simp add: demo_matched_def)
  from http_arguments_functional[OF demo_arguments this]
  have "dom (map_of [(''id'', JString ''7''), (''rest'', JObject [(''k'', JString ''v'')]),
          (''tag'', JArray [JString ''a'', JString ''b''])]) = {''id'', ''tag'', ''rest''}"
    by (elim exE conjE) (simp add: demo_matched_def insert_commute)
  moreover have "map_of [(''id'', JString ''7''), (''rest'', JObject [(''k'', JString ''v'')]),
          (''tag'', JArray [JString ''a'', JString ''b''])] ''id'' = Some (JString ''7'')" by simp
  ultimately show ?thesis using demo_arguments by blast
qed

end
