(* ===== verification/Wire_Headers.thy ===== *)
theory Wire_Headers
  imports Contract Errors
begin

text \<open>
  The headers of a service invocation (\<open>fusen/src/wire/mod.rs\<close>): the control headers and their
  parser, the header filters, content lengths and JSON media types.

  \<open>to_str\<close> is \<^verbatim>\<open>HeaderValue::to_str\<close> (text or nothing), \<open>mime_parse\<close> the MIME parser, \<open>fresh_id\<close> the
  generated UUID; all three belong to third-party crates.
\<close>

section \<open>Decimal numbers\<close>

text \<open>\<^verbatim>\<open>str::parse\<close> for an unsigned integer with the given maximum, and \<^verbatim>\<open>to_string\<close>.\<close>

definition digit_value :: "char \<Rightarrow> nat" where "digit_value c = byte c - 48"

definition parse_unsigned :: "nat \<Rightarrow> string \<Rightarrow> nat option" where
  "parse_unsigned maximum s =
     (let ds = (case s of c # rest \<Rightarrow> if c = CHR ''+'' then rest else s | [] \<Rightarrow> [])
      in if ds = [] \<or> \<not> list_all is_ascii_digit ds then None
         else (let v = foldl (\<lambda>a c. a * 10 + digit_value c) 0 ds
               in if v \<le> maximum then Some v else None))"

fun nat_to_string :: "nat \<Rightarrow> string" where
  "nat_to_string n =
     (if n < 10 then [char_of (48 + n)] else nat_to_string (n div 10) @ [char_of (48 + n mod 10)])"

declare nat_to_string.simps [simp del]

lemma digit_char: "n < 10 \<Longrightarrow> is_ascii_digit (char_of (48 + n)) \<and> digit_value (char_of (48 + n)) = n"
  by (simp add: is_ascii_digit_def digit_value_def byte_def)

lemma nat_to_string_digits:
  "nat_to_string n \<noteq> [] \<and> list_all is_ascii_digit (nat_to_string n)
   \<and> foldl (\<lambda>a c. a * 10 + digit_value c) 0 (nat_to_string n) = n"
proof (induction n rule: nat_to_string.induct)
  case (1 n)
  show ?case
  proof (cases "n < 10")
    case True
    then show ?thesis using digit_char[of n] by (simp add: nat_to_string.simps[of n])
  next
    case False
    have "n mod 10 < 10" by simp
    from digit_char[OF this] show ?thesis
      using False 1[OF False] by (simp add: nat_to_string.simps[of n])
  qed
qed

lemma digit_not_plus: "is_ascii_digit c \<Longrightarrow> c \<noteq> CHR ''+''"
  by (auto simp: is_ascii_digit_def)

lemma parse_unsigned_to_string: "n \<le> m \<Longrightarrow> parse_unsigned m (nat_to_string n) = Some n"
  using nat_to_string_digits[of n] digit_not_plus
  by (cases "nat_to_string n") (auto simp: parse_unsigned_def Let_def)

section \<open>Names\<close>

definition REQUEST_ID :: string where "REQUEST_ID = ''x-request-id''"
definition TIMEOUT_MS :: string where "TIMEOUT_MS = ''x-fusen-timeout-ms''"
definition ATTEMPT :: string where "ATTEMPT = ''x-fusen-attempt''"
definition SERVICE_GROUP :: string where "SERVICE_GROUP = ''x-fusen-service-group''"
definition SERVICE_VERSION :: string where "SERVICE_VERSION = ''x-fusen-service-version''"
definition PROBLEM_CONTENT_TYPE :: string where "PROBLEM_CONTENT_TYPE = ''application/problem+json''"
definition MAX_TIMEOUT_MS :: nat where "MAX_TIMEOUT_MS = 86400000"

definition ACCEPT :: string where "ACCEPT = ''accept''"
definition CONNECTION :: string where "CONNECTION = ''connection''"
definition CONTENT_LENGTH :: string where "CONTENT_LENGTH = ''content-length''"
definition CONTENT_TYPE :: string where "CONTENT_TYPE = ''content-type''"
definition COOKIE :: string where "COOKIE = ''cookie''"
definition HOST :: string where "HOST = ''host''"
definition TE :: string where "TE = ''te''"
definition TRAILER :: string where "TRAILER = ''trailer''"
definition TRANSFER_ENCODING :: string where "TRANSFER_ENCODING = ''transfer-encoding''"
definition UPGRADE :: string where "UPGRADE = ''upgrade''"
definition KEEP_ALIVE :: string where "KEEP_ALIVE = ''keep-alive''"

lemmas header_names = REQUEST_ID_def TIMEOUT_MS_def ATTEMPT_def SERVICE_GROUP_def SERVICE_VERSION_def
  ACCEPT_def CONNECTION_def CONTENT_LENGTH_def CONTENT_TYPE_def COOKIE_def HOST_def TE_def TRAILER_def
  TRANSFER_ENCODING_def UPGRADE_def KEEP_ALIVE_def

section \<open>Errors of this layer\<close>

definition remote_protocol_error :: "string \<Rightarrow> string \<Rightarrow> string \<Rightarrow> error" where
  "remote_protocol_error code message request_id =
     from_remote_parts
       \<lparr>rp_kind = EK_Framework, rp_category = EC_DataLoss, rp_code = code, rp_message = message,
        rp_status = 502, rp_request_id = request_id, rp_details = None, rp_retry_hint = RH_Never\<rparr>"

definition quoted :: "string \<Rightarrow> string" where "quoted s = [CHR 0x27] @ s @ [CHR 0x27]"

definition invalid_request_id :: error where
  "invalid_request_id = framework EC_InvalidArgument ''invalid_request_id''
     (''x-request-id must be 1-64 ASCII letters, digits, '' @ quoted ''.'' @ '', '' @ quoted ''_''
      @ '' or '' @ quoted ''-'')"

definition invalid_timeout :: error where
  "invalid_timeout = framework EC_InvalidArgument ''invalid_timeout''
     ''x-fusen-timeout-ms must be an integer from 0 through 86400000''"

definition invalid_attempt :: error where
  "invalid_attempt = framework EC_InvalidArgument ''invalid_attempt''
     ''x-fusen-attempt must start at one and retries require an HTTP method that permits replay''"

section \<open>Control headers\<close>

definition request_id_is_valid :: "string \<Rightarrow> bool" where
  "request_id_is_valid v = (v \<noteq> [] \<and> length v \<le> 64 \<and> list_all identity_byte v)"

definition validate_request_id :: "string \<Rightarrow> error + unit" where
  "validate_request_id v = (if request_id_is_valid v then Inr () else Inl invalid_request_id)"

definition one_header :: "header_map \<Rightarrow> string \<Rightarrow> error + string option" where
  "one_header headers name =
     (case get_all headers name of
        [] \<Rightarrow> Inr None
      | [v] \<Rightarrow> Inr (Some v)
      | _ \<Rightarrow> Inl (framework EC_InvalidArgument ''duplicate_control_header''
               (''control header '' @ name @ '' must appear at most once'')))"

definition validated_request_id_header ::
  "(string \<Rightarrow> string option) \<Rightarrow> header_map \<Rightarrow> string option" where
  "validated_request_id_header to_str headers =
     (case get_all headers REQUEST_ID of
        [v] \<Rightarrow> (case to_str v of
                  Some t \<Rightarrow> if request_id_is_valid t then Some t else None
                | None \<Rightarrow> None)
      | _ \<Rightarrow> None)"

record RequestControl =
  ctl_request_id :: string
  ctl_deadline :: instant
  ctl_attempt :: nat

definition parse_control_id ::
  "(string \<Rightarrow> string option) \<Rightarrow> string \<Rightarrow> header_map \<Rightarrow> error + string" where
  "parse_control_id to_str fresh_id headers =
     bind_result (one_header headers REQUEST_ID) (\<lambda>v.
       case v of
         None \<Rightarrow> Inr fresh_id
       | Some v \<Rightarrow>
           (case to_str v of
              None \<Rightarrow> Inl invalid_request_id
            | Some t \<Rightarrow> bind_result (validate_request_id t) (\<lambda>_. Inr t)))"

definition parse_control_timeout ::
  "(string \<Rightarrow> string option) \<Rightarrow> header_map \<Rightarrow> duration \<Rightarrow> error + duration" where
  "parse_control_timeout to_str headers local_timeout =
     bind_result (one_header headers TIMEOUT_MS) (\<lambda>v.
       case v of
         None \<Rightarrow> Inr local_timeout
       | Some v \<Rightarrow>
           (case to_str v of
              None \<Rightarrow> Inl invalid_timeout
            | Some t \<Rightarrow>
                (case parse_unsigned U64_MAX t of
                   None \<Rightarrow> Inl invalid_timeout
                 | Some millis \<Rightarrow>
                     if MAX_TIMEOUT_MS < millis then Inl invalid_timeout else Inr (from_millis millis))))"

definition parse_control_attempt ::
  "(string \<Rightarrow> string option) \<Rightarrow> header_map \<Rightarrow> error + nat" where
  "parse_control_attempt to_str headers =
     bind_result (one_header headers ATTEMPT) (\<lambda>v.
       case v of
         None \<Rightarrow> Inr 1
       | Some v \<Rightarrow>
           (case Option.bind (to_str v) (parse_unsigned 255) of
              Some n \<Rightarrow> if 0 < n then Inr n else Inl invalid_attempt
            | None \<Rightarrow> Inl invalid_attempt))"

definition parse_request_control ::
  "(string \<Rightarrow> string option) \<Rightarrow> string \<Rightarrow> instant \<Rightarrow> header_map \<Rightarrow> duration \<Rightarrow> error + RequestControl" where
  "parse_request_control to_str fresh_id now headers local_timeout =
     bind_result (parse_control_id to_str fresh_id headers) (\<lambda>request_id.
     bind_result (parse_control_timeout to_str headers local_timeout) (\<lambda>wire_timeout.
     bind_result (parse_control_attempt to_str headers) (\<lambda>attempt.
       Inr \<lparr>ctl_request_id = request_id, ctl_deadline = now + min local_timeout wire_timeout,
            ctl_attempt = attempt\<rparr>)))"

definition validate_attempt :: "nat \<Rightarrow> bool \<Rightarrow> error + unit" where
  "validate_attempt attempt method_allows_retries =
     (if 1 < attempt \<and> \<not> method_allows_retries then Inl invalid_attempt else Inr ())"

section \<open>Header filters\<close>

definition response_headers_without_hop :: "header_map \<Rightarrow> header_map" where
  "response_headers_without_hop headers =
     fold remove_header [CONNECTION, TE, TRAILER, TRANSFER_ENCODING, UPGRADE, KEEP_ALIVE] headers"

definition response_headers_for_decoder :: "header_map \<Rightarrow> header_map" where
  "response_headers_for_decoder headers =
     fold remove_header [REQUEST_ID, TIMEOUT_MS, ATTEMPT, SERVICE_GROUP, SERVICE_VERSION]
       (response_headers_without_hop headers)"

definition response_headers_without_control :: "header_map \<Rightarrow> header_map" where
  "response_headers_without_control headers =
     fold remove_header
       [CONNECTION, CONTENT_TYPE, CONTENT_LENGTH, TE, TRAILER, TRANSFER_ENCODING, UPGRADE, REQUEST_ID,
        TIMEOUT_MS, ATTEMPT, SERVICE_GROUP, SERVICE_VERSION, KEEP_ALIVE] headers"

section \<open>Lengths, versions and media types\<close>

definition invalid_response_content_length :: "string \<Rightarrow> header_map \<Rightarrow> error" where
  "invalid_response_content_length request_id headers =
     with_headers (remote_protocol_error ''invalid_content_length''
         ''response Content-Length must be exactly one non-negative integer'' request_id)
       (response_headers_without_control headers)"

definition parse_response_content_length ::
  "(string \<Rightarrow> string option) \<Rightarrow> header_map \<Rightarrow> string \<Rightarrow> error + nat option" where
  "parse_response_content_length to_str headers request_id =
     (case get_all headers CONTENT_LENGTH of
        [] \<Rightarrow> Inr None
      | [v] \<Rightarrow> (case Option.bind (to_str v) (parse_unsigned USIZE_MAX) of
                  Some n \<Rightarrow> Inr (Some n)
                | None \<Rightarrow> Inl (invalid_response_content_length request_id headers))
      | _ \<Rightarrow> Inl (invalid_response_content_length request_id headers))"

definition parse_content_length ::
  "(string \<Rightarrow> string option) \<Rightarrow> header_map \<Rightarrow> error + nat option" where
  "parse_content_length to_str headers =
     bind_result (one_header headers CONTENT_LENGTH) (\<lambda>v.
       case v of
         None \<Rightarrow> Inr None
       | Some v \<Rightarrow>
           (case Option.bind (to_str v) (parse_unsigned USIZE_MAX) of
              Some n \<Rightarrow> Inr (Some n)
            | None \<Rightarrow> Inl (framework EC_InvalidArgument ''invalid_content_length''
                        ''Content-Length must be a non-negative integer'')))"

definition validate_http_version :: "http_version \<Rightarrow> error + unit" where
  "validate_http_version v =
     (if v = HTTP_11 \<or> v = HTTP_2 then Inr ()
      else Inl (framework EC_InvalidArgument ''invalid_http_version''
             ''service invocation requires HTTP/1.1 or HTTP/2''))"

definition validate_response_http_version ::
  "http_version \<Rightarrow> string \<Rightarrow> header_map \<Rightarrow> error + unit" where
  "validate_response_http_version v request_id headers =
     (if v = HTTP_11 \<or> v = HTTP_2 then Inr ()
      else Inl (with_headers (remote_protocol_error ''invalid_http_version''
               ''remote response must use HTTP/1.1 or HTTP/2'' request_id)
             (response_headers_without_control headers)))"

record mime =
  mime_type :: string
  mime_subtype :: string
  mime_suffix :: "string option"

definition is_json_mime :: "mime \<Rightarrow> bool" where
  "is_json_mime v =
     (mime_type v = ''application'' \<and> mime_subtype v \<noteq> ''*''
      \<and> (case mime_suffix v of
           Some suffix \<Rightarrow> suffix = ''json''
         | None \<Rightarrow> mime_subtype v = ''json''))"

definition is_json_media_type :: "(string \<Rightarrow> mime option) \<Rightarrow> string \<Rightarrow> bool" where
  "is_json_media_type mime_parse v = (case mime_parse v of Some m \<Rightarrow> is_json_mime m | None \<Rightarrow> False)"

definition media_type_matches ::
  "(string \<Rightarrow> string option) \<Rightarrow> (string \<Rightarrow> mime option) \<Rightarrow> string \<Rightarrow> string \<Rightarrow> bool" where
  "media_type_matches to_str mime_parse v expected =
     (case mime_parse (case to_str v of Some t \<Rightarrow> t | None \<Rightarrow> []) of
        None \<Rightarrow> False
      | Some actual \<Rightarrow>
          (case mime_parse expected of
             None \<Rightarrow> False
           | Some expected \<Rightarrow> is_json_mime actual \<and> is_json_mime expected))"

definition validate_content_type ::
  "(string \<Rightarrow> string option) \<Rightarrow> (string \<Rightarrow> mime option) \<Rightarrow> header_map \<Rightarrow> string \<Rightarrow> bool \<Rightarrow> error + unit" where
  "validate_content_type to_str mime_parse headers expected body_required =
     bind_result (one_header headers CONTENT_TYPE) (\<lambda>v.
       if (case v of Some v \<Rightarrow> media_type_matches to_str mime_parse v expected
           | None \<Rightarrow> \<not> body_required)
       then Inr ()
       else Inl (framework EC_InvalidArgument ''invalid_content_type''
              (''request Content-Type must be a JSON application media type compatible with '' @ expected)))"

definition validate_json_response_content_type ::
  "(string \<Rightarrow> string option) \<Rightarrow> (string \<Rightarrow> mime option) \<Rightarrow> header_map \<Rightarrow> string \<Rightarrow> string \<Rightarrow> error + unit" where
  "validate_json_response_content_type to_str mime_parse headers expected request_id =
     (if (case get_all headers CONTENT_TYPE of
            [v] \<Rightarrow> media_type_matches to_str mime_parse v expected
          | _ \<Rightarrow> False)
      then Inr ()
      else Inl (with_headers (remote_protocol_error ''invalid_content_type''
               ''response Content-Type does not match the declared JSON media type'' request_id)
             (response_headers_without_control headers)))"

end
