(* ===== verification/Uri_Reference.thy ===== *)
theory Uri_Reference
  imports Utf8
begin

text \<open>
  The URI-reference validator of \<open>fusen/src/wire/problem.rs\<close>, with the parser of IPv6 addresses of
  Rust's standard library it uses for IP literals (\<^verbatim>\<open>str::parse::<Ipv6Addr>\<close>).
\<close>

section \<open>IPv6 addresses\<close>

definition digit_of :: "nat \<Rightarrow> char \<Rightarrow> nat option" where
  "digit_of radix c =
     (let v = (if is_ascii_digit c then byte c - 48
               else if is_ascii_lowercase c then byte c - 87
               else if is_ascii_uppercase c then byte c - 55
               else 99)
      in if v < radix then Some v else None)"

text \<open>
  \<^verbatim>\<open>read_number\<close>: the longest run of digits, refused when it is empty, longer than \<open>max_digits\<close>, has
  a leading zero where none is allowed, or exceeds the type; what remains is the result.
\<close>

definition read_number :: "nat \<Rightarrow> nat \<Rightarrow> bool \<Rightarrow> nat \<Rightarrow> string \<Rightarrow> string option" where
  "read_number radix max_digits allow_zero_prefix maximum s =
     (let ds = takeWhile (\<lambda>c. digit_of radix c \<noteq> None) s;
          v = foldl (\<lambda>a c. a * radix + the (digit_of radix c)) 0 ds
      in if ds = [] \<or> max_digits < length ds \<or> maximum < v
            \<or> (\<not> allow_zero_prefix \<and> hd ds = CHR ''0'' \<and> 1 < length ds)
         then None
         else Some (drop (length ds) s))"

definition read_given_char :: "char \<Rightarrow> string \<Rightarrow> string option" where
  "read_given_char c s = (case s of d # rest \<Rightarrow> if d = c then Some rest else None | [] \<Rightarrow> None)"

definition read_separator ::
  "char \<Rightarrow> nat \<Rightarrow> (string \<Rightarrow> string option) \<Rightarrow> string \<Rightarrow> string option" where
  "read_separator sep index inner s =
     (if 0 < index then Option.bind (read_given_char sep s) inner else inner s)"

fun read_ipv4_groups :: "nat \<Rightarrow> nat \<Rightarrow> string \<Rightarrow> string option" where
  "read_ipv4_groups 0 index s = Some s"
| "read_ipv4_groups (Suc n) index s =
     Option.bind (read_separator (CHR ''.'') index (read_number 10 3 False 255) s)
       (read_ipv4_groups n (Suc index))"

definition read_ipv4_addr :: "string \<Rightarrow> string option" where
  "read_ipv4_addr s = read_ipv4_groups 4 0 s"

text \<open>\<open>read_groups\<close>: the number of groups read, whether an IPv4 tail was, and what remains.\<close>

function read_groups :: "nat \<Rightarrow> nat \<Rightarrow> string \<Rightarrow> nat \<times> bool \<times> string" where
  "read_groups limit i s =
     (if limit \<le> i then (limit, False, s)
      else (case (if i < limit - 1 then read_separator (CHR '':'') i read_ipv4_addr s else None) of
              Some rest \<Rightarrow> (i + 2, True, rest)
            | None \<Rightarrow>
                (case read_separator (CHR '':'') i (read_number 16 4 True 65535) s of
                   Some rest \<Rightarrow> read_groups limit (Suc i) rest
                 | None \<Rightarrow> (i, False, s))))"
  by pat_completeness auto
termination by (relation "measure (\<lambda>(limit, i, s). limit - i)") auto

declare read_groups.simps [simp del]

definition read_ipv6_addr :: "string \<Rightarrow> string option" where
  "read_ipv6_addr s =
     (let (head_size, head_ipv4, s) = read_groups 8 0 s
      in if head_size = 8 then Some s
         else if head_ipv4 then None
         else Option.bind (read_given_char (CHR '':'') s) (\<lambda>s.
              Option.bind (read_given_char (CHR '':'') s) (\<lambda>s.
                let (_, _, s) = read_groups (8 - (head_size + 1)) 0 s in Some s)))"

definition ipv6_parses :: "string \<Rightarrow> bool" where
  "ipv6_parses s = (read_ipv6_addr s = Some [])"

section \<open>Characters\<close>

definition is_unreserved :: "char \<Rightarrow> bool" where
  "is_unreserved c = (is_ascii_alphanumeric c \<or> c \<in> set ''-._~'')"

definition is_sub_delim :: "char \<Rightarrow> bool" where
  "is_sub_delim c = (c \<in> set ''!$&'' \<or> c = CHR 0x27 \<or> c \<in> set ''()*+,;='')"

definition is_pchar :: "char \<Rightarrow> bool" where
  "is_pchar c = (is_unreserved c \<or> is_sub_delim c \<or> c = CHR '':'' \<or> c = CHR ''@'')"

definition is_query_char :: "char \<Rightarrow> bool" where
  "is_query_char c = (is_pchar c \<or> c = CHR ''/'' \<or> c = CHR ''?'')"

definition is_userinfo_char :: "char \<Rightarrow> bool" where
  "is_userinfo_char c = (is_unreserved c \<or> is_sub_delim c \<or> c = CHR '':'')"

definition is_reg_name_char :: "char \<Rightarrow> bool" where
  "is_reg_name_char c = (is_unreserved c \<or> is_sub_delim c)"

fun valid_uri_component :: "(char \<Rightarrow> bool) \<Rightarrow> string \<Rightarrow> bool" where
  "valid_uri_component allowed [] = True"
| "valid_uri_component allowed (c # cs) =
     (if c = CHR ''%''
      then (case cs of
              h # l # rest \<Rightarrow>
                is_ascii_hexdigit h \<and> is_ascii_hexdigit l \<and> valid_uri_component allowed rest
            | _ \<Rightarrow> False)
      else allowed c \<and> valid_uri_component allowed cs)"

section \<open>The grammar\<close>

definition slash_segments :: "string \<Rightarrow> string list" where
  "slash_segments s = split_on (\<lambda>c. c = CHR ''/'') s"

definition is_valid_scheme :: "string \<Rightarrow> bool" where
  "is_valid_scheme s =
     (case s of
        c # cs \<Rightarrow> is_ascii_alphabetic c
          \<and> list_all (\<lambda>b. is_ascii_alphanumeric b \<or> b = CHR ''+'' \<or> b = CHR ''-'' \<or> b = CHR ''.'') cs
      | [] \<Rightarrow> False)"

definition is_valid_ipv_future :: "string \<Rightarrow> bool" where
  "is_valid_ipv_future s =
     (case (case strip_prefix ''v'' s of Some r \<Rightarrow> Some r | None \<Rightarrow> strip_prefix ''V'' s) of
        None \<Rightarrow> False
      | Some rest \<Rightarrow>
          (case split_once (CHR ''.'') rest of
             None \<Rightarrow> False
           | Some (version, address) \<Rightarrow>
               version \<noteq> [] \<and> list_all is_ascii_hexdigit version \<and> address \<noteq> []
               \<and> list_all (\<lambda>b. is_unreserved b \<or> is_sub_delim b \<or> b = CHR '':'') address))"

definition is_valid_ip_literal :: "string \<Rightarrow> bool" where
  "is_valid_ip_literal s = (ipv6_parses s \<or> is_valid_ipv_future s)"

definition is_valid_host_and_port :: "string \<Rightarrow> bool" where
  "is_valid_host_and_port host_and_port =
     (case strip_prefix ''['' host_and_port of
        Some ip_literal \<Rightarrow>
          (case split_once (CHR '']'') ip_literal of
             None \<Rightarrow> False
           | Some (host, suffix) \<Rightarrow>
               is_valid_ip_literal host
               \<and> (suffix = []
                  \<or> (case strip_prefix '':'' suffix of
                       Some port \<Rightarrow> list_all is_ascii_digit port
                     | None \<Rightarrow> False)))
      | None \<Rightarrow>
          if CHR ''['' \<in> set host_and_port \<or> CHR '']'' \<in> set host_and_port then False
          else (case rsplit_once (CHR '':'') host_and_port of
                  Some (host, port) \<Rightarrow>
                    CHR '':'' \<notin> set host \<and> valid_uri_component is_reg_name_char host
                    \<and> list_all is_ascii_digit port
                | None \<Rightarrow> valid_uri_component is_reg_name_char host_and_port))"

definition is_valid_authority :: "string \<Rightarrow> bool" where
  "is_valid_authority s =
     (case rsplit_once (CHR ''@'') s of
        Some (userinfo, host_and_port) \<Rightarrow>
          if CHR ''@'' \<in> set userinfo \<or> \<not> valid_uri_component is_userinfo_char userinfo then False
          else is_valid_host_and_port host_and_port
      | None \<Rightarrow> is_valid_host_and_port s)"

definition is_valid_abempty_path :: "string \<Rightarrow> bool" where
  "is_valid_abempty_path s =
     ((s = [] \<or> starts_with ''/'' s)
      \<and> list_all (valid_uri_component is_pchar)
          (slash_segments (case strip_prefix ''/'' s of Some r \<Rightarrow> r | None \<Rightarrow> [])))"

definition is_valid_authority_and_path :: "string \<Rightarrow> bool" where
  "is_valid_authority_and_path s =
     (let authority = takeWhile (\<lambda>c. c \<noteq> CHR ''/'') s; path = dropWhile (\<lambda>c. c \<noteq> CHR ''/'') s
      in is_valid_authority authority \<and> is_valid_abempty_path path)"

definition is_valid_absolute_path :: "string \<Rightarrow> bool" where
  "is_valid_absolute_path s =
     (case strip_prefix ''/'' s of
        None \<Rightarrow> False
      | Some path \<Rightarrow>
          path = []
          \<or> (case slash_segments path of
               first # rest \<Rightarrow> first \<noteq> [] \<and> valid_uri_component is_pchar first
                 \<and> list_all (valid_uri_component is_pchar) rest
             | [] \<Rightarrow> False))"

definition is_valid_rootless_path :: "string \<Rightarrow> bool \<Rightarrow> bool" where
  "is_valid_rootless_path s first_segment_allows_colon =
     (case slash_segments s of
        first # rest \<Rightarrow>
          first \<noteq> []
          \<and> valid_uri_component (\<lambda>b. is_pchar b \<and> (first_segment_allows_colon \<or> b \<noteq> CHR '':'')) first
          \<and> list_all (valid_uri_component is_pchar) rest
      | [] \<Rightarrow> False)"

definition is_valid_part :: "bool \<Rightarrow> string \<Rightarrow> bool" where
  "is_valid_part first_segment_allows_colon s =
     (case strip_prefix ''//'' s of
        Some authority_and_path \<Rightarrow> is_valid_authority_and_path authority_and_path
      | None \<Rightarrow>
          if starts_with ''/'' s then is_valid_absolute_path s
          else s = [] \<or> is_valid_rootless_path s first_segment_allows_colon)"

definition is_valid_hier_part :: "string \<Rightarrow> bool" where
  "is_valid_hier_part s = is_valid_part True s"

definition is_valid_relative_part :: "string \<Rightarrow> bool" where
  "is_valid_relative_part s = is_valid_part False s"

text \<open>\<^verbatim>\<open>main.find(':')\<close> before the first slash: split the text before it.\<close>

definition is_valid_main :: "string \<Rightarrow> bool" where
  "is_valid_main main =
     (case split_once (CHR '':'') main of
        Some (scheme, hier) \<Rightarrow>
          if CHR ''/'' \<notin> set scheme \<and> is_valid_scheme scheme then is_valid_hier_part hier
          else is_valid_relative_part main
      | None \<Rightarrow> is_valid_relative_part main)"

definition is_valid_query_part :: "string \<Rightarrow> bool" where
  "is_valid_query_part without_fragment =
     (case split_once (CHR ''?'') without_fragment of
        Some (main, query) \<Rightarrow> valid_uri_component is_query_char query \<and> is_valid_main main
      | None \<Rightarrow> is_valid_main without_fragment)"

definition is_valid_uri_reference :: "string \<Rightarrow> bool" where
  "is_valid_uri_reference s =
     (case split_once (CHR ''#'') s of
        Some (head, fragment) \<Rightarrow>
          if CHR ''#'' \<in> set fragment then False
          else valid_uri_component is_query_char fragment \<and> is_valid_query_part head
      | None \<Rightarrow> is_valid_query_part s)"

end
