(* ===== verification/Wire_Problem.thy ===== *)
theory Wire_Problem
  imports Wire_Headers Classify Uri_Reference
begin

text \<open>
  Problem Details on the wire (\<open>fusen/src/wire/problem.rs\<close>): the document of an error, its bounded
  encoding, and the validation and decoding of a remote document.

  Arguments stand for third-party code: \<open>to_json\<close> and \<open>from_json\<close> for serde over the document,
  \<open>canonical_reason\<close> for the reason phrases of the \<^verbatim>\<open>http\<close> crate, \<open>parse_date\<close> for \<^verbatim>\<open>httpdate\<close>.
\<close>

record ProblemDetails =
  pd_type_uri :: string
  pd_title :: string
  pd_status :: nat
  pd_detail :: "string option"
  pd_instance :: "string option"
  pd_code :: "string option"
  pd_request_id :: "string option"
  pd_retryable :: bool
  pd_details :: "(string \<times> json) list option"

record ProblemSemantics =
  ps_kind :: ErrorKind
  ps_category :: ErrorCategory

definition EMERGENCY_PROBLEM_LIMIT :: nat where "EMERGENCY_PROBLEM_LIMIT = 4 * 1024"

definition RETRY_AFTER :: string where "RETRY_AFTER = ''retry-after''"

definition without_optional_fields :: "ProblemDetails \<Rightarrow> ProblemDetails" where
  "without_optional_fields p = p\<lparr>pd_detail := None, pd_instance := None, pd_details := None\<rparr>"

section \<open>Category names\<close>

fun framework_category_name :: "ErrorCategory \<Rightarrow> string option" where
  "framework_category_name EC_InvalidArgument = Some ''invalid-argument''"
| "framework_category_name EC_NotFound = Some ''not-found''"
| "framework_category_name EC_Conflict = Some ''conflict''"
| "framework_category_name EC_Unauthenticated = Some ''unauthenticated''"
| "framework_category_name EC_PermissionDenied = Some ''permission-denied''"
| "framework_category_name EC_PayloadTooLarge = Some ''payload-too-large''"
| "framework_category_name EC_ResourceExhausted = Some ''resource-exhausted''"
| "framework_category_name EC_Unavailable = Some ''unavailable''"
| "framework_category_name EC_DeadlineExceeded = Some ''deadline-exceeded''"
| "framework_category_name EC_Cancelled = Some ''cancelled''"
| "framework_category_name EC_Unimplemented = Some ''unimplemented''"
| "framework_category_name EC_Internal = Some ''internal''"
| "framework_category_name EC_DataLoss = Some ''data-loss''"
| "framework_category_name EC_Unknown = None"

definition framework_category_from_name :: "string \<Rightarrow> ErrorCategory option" where
  "framework_category_from_name n =
     (if n = ''invalid-argument'' then Some EC_InvalidArgument
      else if n = ''not-found'' then Some EC_NotFound
      else if n = ''conflict'' then Some EC_Conflict
      else if n = ''unauthenticated'' then Some EC_Unauthenticated
      else if n = ''permission-denied'' then Some EC_PermissionDenied
      else if n = ''payload-too-large'' then Some EC_PayloadTooLarge
      else if n = ''resource-exhausted'' then Some EC_ResourceExhausted
      else if n = ''unavailable'' then Some EC_Unavailable
      else if n = ''deadline-exceeded'' then Some EC_DeadlineExceeded
      else if n = ''cancelled'' then Some EC_Cancelled
      else if n = ''unimplemented'' then Some EC_Unimplemented
      else if n = ''internal'' then Some EC_Internal
      else if n = ''data-loss'' then Some EC_DataLoss
      else None)"

section \<open>Encoding\<close>

definition URN_PREFIX :: string where "URN_PREFIX = ''urn:fusen:error:''"

definition problem_class :: "error \<Rightarrow> ErrorKind \<times> string \<times> status_code" where
  "problem_class e =
     (if e_kind e = EK_Application then (EK_Application, ''application'', e_status e)
      else (case (framework_category_name (e_category e), canonical_status (e_category e)) of
              (Some category_name, Some status) \<Rightarrow> (EK_Framework, category_name, status)
            | _ \<Rightarrow> (EK_Framework, ''internal'', 500)))"

definition problem_from_error ::
  "(status_code \<Rightarrow> string option) \<Rightarrow> error \<Rightarrow> string \<Rightarrow> string option \<Rightarrow> ProblemDetails \<times> status_code" where
  "problem_from_error canonical_reason e request_id inst =
     (let (kind, category_name, status) = problem_class e;
          detail = (if kind = EK_Framework \<and> category_name = ''internal''
                    then ''Internal server error'' else e_message e);
          details = (if kind = EK_Application \<and> e_origin e = EO_Local then e_details e else None)
      in (\<lparr>pd_type_uri = URN_PREFIX @ category_name @ '':'' @ e_code e,
           pd_title = (case canonical_reason status of Some r \<Rightarrow> r | None \<Rightarrow> ''Service Invocation Error''),
           pd_status = status, pd_detail = Some detail, pd_instance = inst, pd_code = Some (e_code e),
           pd_request_id = Some request_id,
           pd_retryable = (kind = EK_Framework \<and> hint_is_retryable (e_retry_hint e)),
           pd_details = details\<rparr>, status))"

text \<open>
  \<open>bounded_problem\<close>: the document when it fits the limit, else its required fields; \<open>None\<close> is the
  panic of \<^verbatim>\<open>expect\<close> when even they do not fit.
\<close>

definition bounded_problem :: "(ProblemDetails \<Rightarrow> string) \<Rightarrow> ProblemDetails \<Rightarrow> string option" where
  "bounded_problem to_json p =
     (if length (to_json p) \<le> EMERGENCY_PROBLEM_LIMIT then Some (to_json p)
      else (let minimal = to_json (without_optional_fields p)
            in if length minimal \<le> EMERGENCY_PROBLEM_LIMIT then Some minimal else None))"

record problem_response =
  pr_status :: status_code
  pr_headers :: header_map
  pr_body :: string

definition retry_after_seconds :: "duration \<Rightarrow> nat" where
  "retry_after_seconds d =
     saturating_add U64_MAX (d div NANOS_PER_SEC) (if d mod NANOS_PER_SEC \<noteq> 0 then 1 else 0)"

definition problem_headers :: "error \<Rightarrow> string \<Rightarrow> bool \<Rightarrow> header_map" where
  "problem_headers e request_id invocation_controls =
     (let h = (if e_origin e = EO_Local then response_headers_without_control (e_headers e) else []);
          h = (case retry_after (e_retry_hint e) of
                 Some delay \<Rightarrow>
                   if e_kind e = EK_Framework \<and> e_origin e = EO_Local
                   then insert_header RETRY_AFTER (nat_to_string (retry_after_seconds delay)) h
                   else h
               | None \<Rightarrow> h);
          h = insert_header CONTENT_TYPE PROBLEM_CONTENT_TYPE h
      in if invocation_controls then insert_header REQUEST_ID request_id h else h)"

definition encode_problem ::
  "(ProblemDetails \<Rightarrow> string) \<Rightarrow> (status_code \<Rightarrow> string option) \<Rightarrow> error \<Rightarrow> string \<Rightarrow> string option \<Rightarrow>
   bool \<Rightarrow> problem_response option" where
  "encode_problem to_json canonical_reason e request_id inst invocation_controls =
     (let (p, status) = problem_from_error canonical_reason e request_id inst;
          p = (if invocation_controls then p else p\<lparr>pd_request_id := None\<rparr>)
      in map_option (\<lambda>body. \<lparr>pr_status = status,
             pr_headers = problem_headers e request_id invocation_controls, pr_body = body\<rparr>)
           (bounded_problem to_json p))"

section \<open>Retry hints\<close>

definition parse_retry_after ::
  "(string \<Rightarrow> string option) \<Rightarrow> (string \<Rightarrow> instant option) \<Rightarrow> header_map \<Rightarrow> instant \<Rightarrow> duration option" where
  "parse_retry_after to_str parse_date headers now =
     (case get_all headers RETRY_AFTER of
        [v] \<Rightarrow>
          (case to_str v of
             None \<Rightarrow> None
           | Some t \<Rightarrow>
               (case parse_unsigned U64_MAX t of
                  Some seconds \<Rightarrow> Some (from_secs seconds)
                | None \<Rightarrow> map_option (\<lambda>deadline. deadline - now) (parse_date t)))
      | _ \<Rightarrow> None)"

definition normalized_retry_hint ::
  "(string \<Rightarrow> string option) \<Rightarrow> (string \<Rightarrow> instant option) \<Rightarrow> ErrorKind \<Rightarrow> status_code \<Rightarrow> header_map \<Rightarrow>
   instant \<Rightarrow> RetryHint" where
  "normalized_retry_hint to_str parse_date kind status headers now =
     (if kind = EK_Application \<or> \<not> is_transient_status status then RH_Never
      else (case parse_retry_after to_str parse_date headers now of
              Some d \<Rightarrow> RH_After d
            | None \<Rightarrow> RH_Retryable))"

section \<open>Decoding\<close>

definition status_error ::
  "(string \<Rightarrow> string option) \<Rightarrow> (string \<Rightarrow> instant option) \<Rightarrow> (status_code \<Rightarrow> string option) \<Rightarrow> instant \<Rightarrow>
   status_code \<Rightarrow> string \<Rightarrow> header_map \<Rightarrow> error" where
  "status_error to_str parse_date canonical_reason now status request_id headers =
     (let kind = (if is_client_error status then EK_Application else EK_Framework)
      in with_headers (from_remote_parts
           \<lparr>rp_kind = kind, rp_category = category_from_status status, rp_code = ''remote_http_error'',
            rp_message = (case canonical_reason status of Some r \<Rightarrow> r | None \<Rightarrow> ''remote HTTP request failed''),
            rp_status = status, rp_request_id = request_id, rp_details = None,
            rp_retry_hint = normalized_retry_hint to_str parse_date kind status headers now\<rparr>) headers)"

definition invalid_problem_type :: "string \<Rightarrow> error" where
  "invalid_problem_type request_id =
     remote_protocol_error ''invalid_problem_type''
       ''Problem Details type, category and code are inconsistent'' request_id"

text \<open>\<^verbatim>\<open>str::get(..n)\<close>: nothing when the text is shorter or the cut is inside a character.\<close>

definition get_prefix :: "nat \<Rightarrow> string \<Rightarrow> string option" where
  "get_prefix n s =
     (if n \<le> length s \<and> (n = length s \<or> \<not> is_continuation (s ! n)) then Some (take n s) else None)"

definition parse_reserved_type :: "ProblemDetails \<Rightarrow> string \<Rightarrow> string \<Rightarrow> error + ProblemSemantics" where
  "parse_reserved_type p v request_id =
     (case split_once (CHR '':'') v of
        None \<Rightarrow> Inl (invalid_problem_type request_id)
      | Some (category, code) \<Rightarrow>
          if category = [] \<or> code = [] \<or> CHR '':'' \<in> set code \<or> pd_code p \<noteq> Some code
          then Inl (invalid_problem_type request_id)
          else if category = ''application''
          then Inr \<lparr>ps_kind = EK_Application, ps_category = category_from_status (pd_status p)\<rparr>
          else (case framework_category_from_name category of
                  None \<Rightarrow> Inl (invalid_problem_type request_id)
                | Some c \<Rightarrow> Inr \<lparr>ps_kind = EK_Framework, ps_category = c\<rparr>))"

definition parse_problem_type :: "ProblemDetails \<Rightarrow> string \<Rightarrow> error + ProblemSemantics" where
  "parse_problem_type p request_id =
     (if (case get_prefix (length URN_PREFIX) (pd_type_uri p) of
            Some prefix \<Rightarrow> eq_ignore_ascii_case prefix URN_PREFIX \<and> prefix \<noteq> URN_PREFIX
          | None \<Rightarrow> False)
      then Inl (invalid_problem_type request_id)
      else (case strip_prefix URN_PREFIX (pd_type_uri p) of
              Some v \<Rightarrow> parse_reserved_type p v request_id
            | None \<Rightarrow>
                if \<not> is_valid_uri_reference (pd_type_uri p) then Inl (invalid_problem_type request_id)
                else Inr \<lparr>ps_kind = (if pd_status p < 500 then EK_Application else EK_Framework),
                          ps_category = category_from_status (pd_status p)\<rparr>))"

definition validate_problem ::
  "(string \<Rightarrow> string option) \<Rightarrow> (string \<Rightarrow> instant option) \<Rightarrow> (status_code \<Rightarrow> string option) \<Rightarrow> instant \<Rightarrow>
   status_code \<Rightarrow> string \<Rightarrow> ProblemDetails \<Rightarrow> bool \<Rightarrow> error + ProblemSemantics" where
  "validate_problem to_str parse_date canonical_reason now status request_id p strict_controls =
     (let reserved = starts_with URN_PREFIX (pd_type_uri p)
      in if \<not> is_client_error status \<and> \<not> is_server_error status
         then Inl (remote_protocol_error ''invalid_problem_status''
                ''Problem Details requires an HTTP 4xx or 5xx status'' request_id)
         else if pd_status p \<noteq> status
         then (if reserved
               then Inl (remote_protocol_error ''invalid_problem_status''
                      ''reserved Problem Details status must match the HTTP status'' request_id)
               else Inl (status_error to_str parse_date canonical_reason now status request_id []))
         else if strict_controls
                 \<and> (case pd_request_id p of
                      None \<Rightarrow> True
                    | Some r \<Rightarrow> \<not> request_id_is_valid r \<or> r \<noteq> request_id)
         then Inl (remote_protocol_error ''invalid_problem_request_id''
                ''Problem Details request_id is invalid or does not match the logical invocation'' request_id)
         else bind_result (parse_problem_type p request_id) (\<lambda>semantics.
                if ps_kind semantics = EK_Framework \<and> starts_with URN_PREFIX (pd_type_uri p)
                   \<and> canonical_status (ps_category semantics) \<noteq> Some status
                then Inl (remote_protocol_error ''invalid_problem_status''
                       ''Problem Details category does not match its canonical HTTP status'' request_id)
                else Inr semantics))"

definition decode_problem ::
  "(string \<Rightarrow> string option) \<Rightarrow> (string \<Rightarrow> instant option) \<Rightarrow> (status_code \<Rightarrow> string option) \<Rightarrow>
   (string \<Rightarrow> ProblemDetails option) \<Rightarrow> instant \<Rightarrow> status_code \<Rightarrow> string \<Rightarrow> string \<Rightarrow> header_map \<Rightarrow> bool \<Rightarrow> error" where
  "decode_problem to_str parse_date canonical_reason from_json now status request_id body headers strict_controls =
     (case from_json body of
        None \<Rightarrow> status_error to_str parse_date canonical_reason now status request_id headers
      | Some p \<Rightarrow>
          (case validate_problem to_str parse_date canonical_reason now status request_id p strict_controls of
             Inl e \<Rightarrow> with_headers e headers
           | Inr semantics \<Rightarrow>
               with_headers (from_remote_parts
                 \<lparr>rp_kind = ps_kind semantics, rp_category = ps_category semantics,
                  rp_code = (case pd_code p of Some c \<Rightarrow> c | None \<Rightarrow> ''remote_http_error''),
                  rp_message = (case pd_detail p of
                                  Some d \<Rightarrow> d | None \<Rightarrow> ''remote service returned an error''),
                  rp_status = status,
                  rp_request_id = (case pd_request_id p of Some r \<Rightarrow> r | None \<Rightarrow> request_id),
                  rp_details = (if ps_kind semantics = EK_Application then pd_details p else None),
                  rp_retry_hint = normalized_retry_hint to_str parse_date (ps_kind semantics) status headers now\<rparr>)
                 headers))"

definition decode_head_error ::
  "(string \<Rightarrow> string option) \<Rightarrow> (string \<Rightarrow> instant option) \<Rightarrow> (status_code \<Rightarrow> string option) \<Rightarrow> instant \<Rightarrow>
   status_code \<Rightarrow> string \<Rightarrow> header_map \<Rightarrow> error" where
  "decode_head_error to_str parse_date canonical_reason now status request_id headers =
     with_headers (from_remote_parts
       \<lparr>rp_kind = EK_Framework, rp_category = category_from_status status, rp_code = ''remote_head_error'',
        rp_message = (case canonical_reason status of Some r \<Rightarrow> r | None \<Rightarrow> ''remote HEAD request failed''),
        rp_status = status, rp_request_id = request_id, rp_details = None,
        rp_retry_hint = normalized_retry_hint to_str parse_date EK_Framework status headers now\<rparr>) headers"

definition invalid_response_request_id :: "string \<Rightarrow> string \<Rightarrow> header_map \<Rightarrow> error" where
  "invalid_response_request_id message request_id headers =
     with_headers (remote_protocol_error ''invalid_response_request_id'' message request_id)
       (response_headers_without_control headers)"

definition validate_response_request_id ::
  "(string \<Rightarrow> string option) \<Rightarrow> bool \<Rightarrow> header_map \<Rightarrow> string \<Rightarrow> error + unit" where
  "validate_response_request_id to_str required headers request_id =
     (if \<not> required then Inr ()
      else (case get_all headers REQUEST_ID of
              [] \<Rightarrow> Inl (invalid_response_request_id ''response is missing negotiated x-request-id''
                       request_id headers)
            | [v] \<Rightarrow>
                (case to_str v of
                   Some t \<Rightarrow>
                     if request_id_is_valid t \<and> t = request_id then Inr ()
                     else Inl (invalid_response_request_id
                       ''response x-request-id is invalid or does not match the logical invocation''
                       request_id headers)
                 | None \<Rightarrow> Inl (invalid_response_request_id
                     ''response x-request-id is invalid or does not match the logical invocation''
                     request_id headers))
            | _ \<Rightarrow> Inl (invalid_response_request_id ''response x-request-id must appear at most once''
                     request_id headers)))"

end
