(* ===== verification/Wire_Problem_Theorems.thy ===== *)
theory Wire_Problem_Theorems
  imports Wire_Problem
begin

text \<open>
  What the problem document of an error carries across the wire: the round trip of encoding on one
  side and decoding on the other, its retry delay, and the errors a decoder can produce at all.
\<close>

section \<open>Category names\<close>

lemma category_name_from_name:
  assumes "framework_category_name c = Some n"
  shows "framework_category_from_name n = Some c"
proof -
  have "c \<noteq> EC_Unknown \<Longrightarrow> framework_category_from_name (the (framework_category_name c)) = Some c"
    by (cases c) (simp_all add: framework_category_from_name_def)
  with assms show ?thesis by (cases "c = EC_Unknown") auto
qed

lemma category_name_plain:
  "framework_category_name c = Some n \<Longrightarrow> n \<noteq> [] \<and> CHR '':'' \<notin> set n \<and> n \<noteq> ''application''"
  by (cases c) auto

lemma category_name_status:
  "framework_category_name c \<noteq> None \<longleftrightarrow> canonical_status c \<noteq> None"
  by (cases c) auto

lemma valid_error_code_plain:
  assumes "valid_error_code code"
  shows "code \<noteq> []" "CHR '':'' \<notin> set code"
proof -
  have "\<forall>c \<in> set code. c \<noteq> CHR '':''"
  proof
    fix c assume "c \<in> set code"
    then obtain i where "i < length code" "code ! i = c" by (auto simp: in_set_conv_nth)
    then have "is_ascii_lowercase c \<or> is_ascii_digit c \<or> c = CHR ''_''"
      using assms by (auto simp: valid_error_code_def)
    then show "c \<noteq> CHR '':''" by (auto simp: is_ascii_lowercase_def is_ascii_digit_def)
  qed
  then show "CHR '':'' \<notin> set code" by auto
  show "code \<noteq> []" using assms by (simp add: valid_error_code_def)
qed

section \<open>The document of an error\<close>

text \<open>The document \<open>encode_problem\<close> writes, before it is cut to its required fields.\<close>

definition wire_document ::
  "(status_code \<Rightarrow> string option) \<Rightarrow> error \<Rightarrow> string \<Rightarrow> string option \<Rightarrow> bool \<Rightarrow> ProblemDetails" where
  "wire_document canonical_reason e request_id inst controls =
     (let p = fst (problem_from_error canonical_reason e request_id inst)
      in if controls then p else p\<lparr>pd_request_id := None\<rparr>)"

text \<open>The category and status the receiver sees.\<close>

definition carried_category :: "error \<Rightarrow> ErrorCategory" where
  "carried_category e =
     (if e_kind e = EK_Application then category_from_status (e_status e)
      else if e_category e = EC_Unknown then EC_Internal else e_category e)"

definition carried_status :: "error \<Rightarrow> status_code" where
  "carried_status e =
     (if e_kind e = EK_Application then e_status e
      else (case canonical_status (e_category e) of Some s \<Rightarrow> s | None \<Rightarrow> 500))"

definition carried_message :: "error \<Rightarrow> string" where
  "carried_message e =
     (if e_kind e = EK_Framework \<and> carried_category e = EC_Internal
      then ''Internal server error'' else e_message e)"

definition carried_details :: "error \<Rightarrow> (string \<times> json) list option" where
  "carried_details e =
     (if e_kind e = EK_Application \<and> e_origin e = EO_Local then e_details e else None)"

definition carried_name :: "error \<Rightarrow> string" where
  "carried_name e =
     (if e_kind e = EK_Application then ''application''
      else the (framework_category_name (carried_category e)))"

lemma ErrorKind_not: "k \<noteq> EK_Application \<longleftrightarrow> k = EK_Framework" "k \<noteq> EK_Framework \<longleftrightarrow> k = EK_Application"
  by (cases k; simp)+

lemma problem_class_eq: "problem_class e = (e_kind e, carried_name e, carried_status e)"
  by (cases "e_category e")
    (auto simp: problem_class_def carried_name_def carried_category_def carried_status_def ErrorKind_not)

lemma framework_carried_name:
  "e_kind e = EK_Framework \<Longrightarrow> framework_category_name (carried_category e) = Some (carried_name e)"
  by (cases "e_category e") (simp_all add: carried_name_def carried_category_def)

lemma carried_name_plain: "carried_name e \<noteq> [] \<and> CHR '':'' \<notin> set (carried_name e)"
proof (cases "e_kind e")
  case EK_Application
  then show ?thesis by (simp add: carried_name_def)
next
  case EK_Framework
  then show ?thesis using category_name_plain[OF framework_carried_name] by simp
qed

lemma carried_name_internal:
  "e_kind e = EK_Framework \<Longrightarrow> carried_name e = ''internal'' \<longleftrightarrow> carried_category e = EC_Internal"
  using framework_carried_name[of e] by (cases "carried_category e") auto

lemma wire_document_fields:
  assumes "p = wire_document canonical_reason e request_id inst controls"
  shows "pd_type_uri p = URN_PREFIX @ carried_name e @ '':'' @ e_code e" "pd_status p = carried_status e"
    "pd_detail p = Some (carried_message e)" "pd_code p = Some (e_code e)"
    "pd_request_id p = (if controls then Some request_id else None)" "pd_details p = carried_details e"
    "pd_retryable p = (e_kind e = EK_Framework \<and> hint_is_retryable (e_retry_hint e))"
  using carried_name_internal[of e]
  by (auto simp: assms wire_document_def problem_from_error_def problem_class_eq Let_def
      carried_message_def carried_details_def)

lemma encode_problem_Some:
  assumes "encode_problem to_json canonical_reason e request_id inst controls = Some r"
  defines "p \<equiv> wire_document canonical_reason e request_id inst controls"
  shows "pr_status r = carried_status e" "length (pr_body r) \<le> EMERGENCY_PROBLEM_LIMIT"
    "pr_body r = to_json (if length (to_json p) \<le> EMERGENCY_PROBLEM_LIMIT then p
                          else without_optional_fields p)"
    "pr_headers r = problem_headers e request_id controls"
proof -
  have "snd (problem_from_error canonical_reason e request_id inst) = carried_status e"
    by (simp add: problem_from_error_def problem_class_eq Let_def)
  then have *: "problem_from_error canonical_reason e request_id inst
      = (fst (problem_from_error canonical_reason e request_id inst), carried_status e)"
    by (simp add: prod_eq_iff)
  from assms(1) obtain body where b: "bounded_problem to_json p = Some body"
    and r: "r = \<lparr>pr_status = carried_status e, pr_headers = problem_headers e request_id controls, pr_body = body\<rparr>"
    unfolding encode_problem_def p_def wire_document_def by (subst (asm) *) (auto simp: Let_def)
  show "pr_status r = carried_status e" "pr_headers r = problem_headers e request_id controls"
    by (simp_all add: r)
  show "length (pr_body r) \<le> EMERGENCY_PROBLEM_LIMIT"
    "pr_body r = to_json (if length (to_json p) \<le> EMERGENCY_PROBLEM_LIMIT then p
                          else without_optional_fields p)"
    using b by (auto simp: r bounded_problem_def Let_def split: if_splits)
qed

section \<open>Validation of that document\<close>

lemma parse_reserved_type_carried:
  assumes "valid_error_code (e_code e)" "pd_code p = Some (e_code e)" "pd_status p = carried_status e"
  shows "parse_reserved_type p (carried_name e @ '':'' @ e_code e) request_id
         = Inr \<lparr>ps_kind = e_kind e, ps_category = carried_category e\<rparr>"
proof -
  have split: "split_once (CHR '':'') (carried_name e @ '':'' @ e_code e) = Some (carried_name e, e_code e)"
    using split_once_append[of "CHR '':''" "carried_name e" "e_code e"] carried_name_plain[of e] by simp
  note plain = valid_error_code_plain[OF assms(1)] carried_name_plain[of e]
  show ?thesis
  proof (cases "e_kind e")
    case EK_Application
    then show ?thesis
      using plain split assms
      by (simp add: parse_reserved_type_def carried_name_def carried_category_def carried_status_def)
  next
    case EK_Framework
    then have n: "framework_category_name (carried_category e) = Some (carried_name e)"
      by (rule framework_carried_name)
    show ?thesis
      using plain split assms EK_Framework category_name_from_name[OF n] category_name_plain[OF n]
      by (simp add: parse_reserved_type_def)
  qed
qed

lemma parse_problem_type_carried:
  assumes "valid_error_code (e_code e)" "pd_code p = Some (e_code e)" "pd_status p = carried_status e"
    and type_uri: "pd_type_uri p = URN_PREFIX @ carried_name e @ '':'' @ e_code e"
  shows "parse_problem_type p request_id = Inr \<lparr>ps_kind = e_kind e, ps_category = carried_category e\<rparr>"
proof -
  have "(case get_prefix (length URN_PREFIX) (pd_type_uri p) of
            Some prefix \<Rightarrow> eq_ignore_ascii_case prefix URN_PREFIX \<and> prefix \<noteq> URN_PREFIX
          | None \<Rightarrow> False) = False"
    by (simp add: get_prefix_def type_uri)
  moreover have "strip_prefix URN_PREFIX (pd_type_uri p) = Some (carried_name e @ '':'' @ e_code e)"
    by (simp only: type_uri strip_prefix_append)
  ultimately show ?thesis
    using parse_reserved_type_carried[OF assms(1-3)] by (simp add: parse_problem_type_def)
qed

text \<open>The error can be sent: an application error has an error status.\<close>

definition sendable :: "error \<Rightarrow> bool" where
  "sendable e \<longleftrightarrow> valid_error_code (e_code e)
     \<and> (e_kind e = EK_Application \<longrightarrow> is_client_error (e_status e) \<or> is_server_error (e_status e))"

lemma carried_status_is_error:
  "sendable e \<Longrightarrow> is_client_error (carried_status e) \<or> is_server_error (carried_status e)"
  using canonical_status_is_error[of "e_category e"]
  by (auto simp: sendable_def carried_status_def is_server_error_def split: option.splits)

lemma carried_canonical:
  "e_kind e = EK_Framework \<Longrightarrow> canonical_status (carried_category e) = Some (carried_status e)"
  by (cases "e_category e") (simp_all add: carried_category_def carried_status_def)

lemma validate_problem_carried:
  assumes e: "sendable e"
    and p: "pd_code p = Some (e_code e)" "pd_status p = carried_status e"
      "pd_type_uri p = URN_PREFIX @ carried_name e @ '':'' @ e_code e"
      "pd_request_id p = (if controls then Some request_id else None)"
    and rid: "request_id_is_valid request_id"
  shows "validate_problem to_str parse_date canonical_reason now (carried_status e) request_id p controls
         = Inr \<lparr>ps_kind = e_kind e, ps_category = carried_category e\<rparr>"
proof -
  have "valid_error_code (e_code e)" using e by (simp add: sendable_def)
  note semantics = parse_problem_type_carried[OF this p(1-3)]
  show ?thesis
    using carried_status_is_error[OF e] carried_canonical[of e] p(2,4) rid
    unfolding validate_problem_def Let_def semantics
    by (cases "e_kind e") auto
qed

section \<open>Properties\<close>

text \<open>
  C6.  The round trip of an error over the wire.  Encoding a sendable error with a valid request id
  and decoding the answer gives exactly the remote error with the same kind, code and status, its
  category (an unknown framework category becomes internal), the message unless it is internal (a
  fixed text) or the document was cut to its required fields, and the details of a local application
  error; an application error comes back as not retryable.
\<close>

theorem problem_round_trip:
  assumes serde: "\<And>q. q \<in> {wire_document canonical_reason e request_id inst controls,
                          without_optional_fields (wire_document canonical_reason e request_id inst controls)} \<Longrightarrow>
                       from_json (to_json q) = Some q"
    and e: "sendable e"
    and rid: "request_id_is_valid request_id"
    and enc: "encode_problem to_json canonical_reason e request_id inst controls = Some r"
  shows "decode_problem to_str parse_date canonical_reason from_json now (pr_status r) request_id
           (pr_body r) headers controls
         = (let kept = length (to_json (wire_document canonical_reason e request_id inst controls))
                       \<le> EMERGENCY_PROBLEM_LIMIT
            in \<lparr>e_kind = e_kind e, e_category = carried_category e, e_code = e_code e,
                e_message = (if kept then carried_message e else ''remote service returned an error''),
                e_status = carried_status e, e_origin = EO_Remote, e_request_id = Some request_id,
                e_attempts = 0, e_headers = headers,
                e_details = (if kept then carried_details e else None),
                e_retry_hint = (if e_kind e = EK_Application then RH_Never
                                else normalized_retry_hint to_str parse_date EK_Framework
                                       (carried_status e) headers now),
                e_source = None\<rparr>)"
proof -
  define p where "p = wire_document canonical_reason e request_id inst controls"
  define p' where "p' = (if length (to_json p) \<le> EMERGENCY_PROBLEM_LIMIT then p else without_optional_fields p)"
  note doc = wire_document_fields[OF p_def]
  note r = encode_problem_Some[OF enc, folded p_def]
  have body: "from_json (pr_body r) = Some p'" unfolding r(3) p'_def by (rule serde) (auto simp: p_def)
  have fields: "pd_code p' = Some (e_code e)" "pd_status p' = carried_status e"
      "pd_type_uri p' = URN_PREFIX @ carried_name e @ '':'' @ e_code e"
      "pd_request_id p' = (if controls then Some request_id else None)"
    by (simp_all add: p'_def doc without_optional_fields_def)
  have optional: "pd_detail p' = (if length (to_json p) \<le> EMERGENCY_PROBLEM_LIMIT then Some (carried_message e) else None)"
      "pd_details p' = (if length (to_json p) \<le> EMERGENCY_PROBLEM_LIMIT then carried_details e else None)"
    by (simp_all add: p'_def doc without_optional_fields_def)
  note valid = validate_problem_carried[OF e fields rid]
  have "carried_details e = None" if "e_kind e = EK_Framework" using that by (simp add: carried_details_def)
  then show ?thesis
    unfolding decode_problem_def body r(1) option.case valid sum.case p_def[symmetric]
    by (cases "e_kind e") (simp_all add: from_remote_parts_def with_headers_def fields(1,4) optional Let_def)
qed

definition demo_error :: error where
  "demo_error = local_inner EK_Application EC_Conflict 409 ''order_conflict'' ''order 7 exists''"

definition demo_reason :: "status_code \<Rightarrow> string option" where
  "demo_reason s = (if s = 409 then Some ''Conflict'' else None)"

definition demo_document :: ProblemDetails where
  "demo_document = wire_document demo_reason demo_error ''r1'' None True"

definition demo_to_json :: "ProblemDetails \<Rightarrow> string" where
  "demo_to_json p = (if pd_detail p = None then ''minimal'' else ''full'')"

definition demo_from_json :: "string \<Rightarrow> ProblemDetails option" where
  "demo_from_json s = (if s = ''full'' then Some demo_document
                       else if s = ''minimal'' then Some (without_optional_fields demo_document) else None)"

lemma demo_valid_code: "valid_error_code ''order_conflict''"
  by (simp add: valid_error_code_def is_ascii_lowercase_def upt_rec)

lemma demo_document_detail: "pd_detail demo_document \<noteq> None"
  using wire_document_fields(3)[OF refl, of demo_reason demo_error "''r1''" None True]
  by (simp add: demo_document_def)

lemma demo_serde:
  "q \<in> {demo_document, without_optional_fields demo_document} \<Longrightarrow> demo_from_json (demo_to_json q) = Some q"
  using demo_document_detail by (auto simp: demo_from_json_def demo_to_json_def without_optional_fields_def)

theorem problem_round_trip_witness:
  "\<exists>r. encode_problem demo_to_json demo_reason demo_error ''r1'' None True = Some r
     \<and> e_code (decode_problem Some (\<lambda>_. None) demo_reason demo_from_json 0 (pr_status r) ''r1''
          (pr_body r) [] True) = ''order_conflict''
     \<and> e_category (decode_problem Some (\<lambda>_. None) demo_reason demo_from_json 0 (pr_status r) ''r1''
          (pr_body r) [] True) = EC_Conflict"
proof -
  have bounded: "bounded_problem demo_to_json p = Some (demo_to_json p)" for p
    by (simp add: bounded_problem_def demo_to_json_def EMERGENCY_PROBLEM_LIMIT_def)
  have "encode_problem demo_to_json demo_reason demo_error ''r1'' None True \<noteq> None"
    by (simp add: encode_problem_def Let_def bounded split: prod.split)
  then obtain r where r: "encode_problem demo_to_json demo_reason demo_error ''r1'' None True = Some r"
    by blast
  have sendable: "sendable demo_error"
    using demo_valid_code by (simp add: sendable_def demo_error_def is_client_error_def)
  have rid: "request_id_is_valid ''r1''"
    by (simp add: request_id_is_valid_def identity_byte_def ascii_defs)
  note d = problem_round_trip[OF demo_serde[unfolded demo_document_def] sendable rid r,
      of Some "\<lambda>_. None" 0 "[]"]
  have code: "e_code demo_error = ''order_conflict''" "carried_category demo_error = EC_Conflict"
    by (simp_all add: demo_error_def carried_category_def category_from_status_def)
  show ?thesis using r code by (intro exI[of _ r] conjI) (simp_all only: d Let_def error.simps)
qed

lemma get_all_retry_after:
  assumes "e_kind e = EK_Framework" "e_origin e = EO_Local" "retry_after (e_retry_hint e) = Some d"
  shows "get_all (problem_headers e request_id controls) RETRY_AFTER = [nat_to_string (retry_after_seconds d)]"
  using assms by (simp add: problem_headers_def Let_def RETRY_AFTER_def header_names)

text \<open>
   A retry delay survives the wire and is never shortened: the client of a local framework error
  waits for the whole seconds that cover the delay the server asked for, less than a second more,
  provided the status is a transient one; for every other status it does not retry at all.
\<close>

theorem retry_delay_round_trip:
  assumes ascii: "to_str (nat_to_string (retry_after_seconds d)) = Some (nat_to_string (retry_after_seconds d))"
    and e: "e_kind e = EK_Framework" "e_origin e = EO_Local" "e_retry_hint e = RH_After d"
    and d: "d \<le> from_secs U64_MAX"
  shows "\<exists>d'. normalized_retry_hint to_str parse_date EK_Framework (carried_status e)
                (problem_headers e request_id controls) now
              = (if is_transient_status (carried_status e) then RH_After d' else RH_Never)
           \<and> d \<le> d' \<and> d' < d + NANOS_PER_SEC"
proof -
  have "retry_after_seconds d \<le> U64_MAX" by (simp add: retry_after_seconds_def)
  from parse_unsigned_to_string[OF this] have hint:
    "parse_retry_after to_str parse_date (problem_headers e request_id controls) now
     = Some (from_secs (retry_after_seconds d))"
    using get_all_retry_after[of e d request_id controls] e ascii by (simp add: parse_retry_after_def)
  have pos: "0 < NANOS_PER_SEC" by (simp add: NANOS_PER_SEC_def)
  have split: "d = d div NANOS_PER_SEC * NANOS_PER_SEC + d mod NANOS_PER_SEC" by simp
  have le: "d div NANOS_PER_SEC + (if d mod NANOS_PER_SEC \<noteq> 0 then 1 else 0) \<le> U64_MAX"
  proof (cases "d mod NANOS_PER_SEC = 0")
    case True
    then show ?thesis using div_le_mono[OF d, of NANOS_PER_SEC] pos by (simp add: from_secs_def)
  next
    case False
    have "d div NANOS_PER_SEC < U64_MAX"
    proof (rule ccontr)
      assume "\<not> d div NANOS_PER_SEC < U64_MAX"
      then have "U64_MAX \<le> d div NANOS_PER_SEC" by (rule leI)
      then have "U64_MAX * NANOS_PER_SEC \<le> d div NANOS_PER_SEC * NANOS_PER_SEC" by (rule mult_right_mono) simp
      moreover have "0 < d mod NANOS_PER_SEC" using False by simp
      ultimately show False using split d unfolding from_secs_def by linarith
    qed
    then show ?thesis using False by simp
  qed
  have secs: "retry_after_seconds d = d div NANOS_PER_SEC + (if d mod NANOS_PER_SEC \<noteq> 0 then 1 else 0)"
    unfolding retry_after_seconds_def by (rule saturating_add_exact[OF le])
  have small: "d mod NANOS_PER_SEC < NANOS_PER_SEC" by (rule mod_less_divisor[OF pos])
  have "d \<le> from_secs (retry_after_seconds d) \<and> from_secs (retry_after_seconds d) < d + NANOS_PER_SEC"
  proof (cases "d mod NANOS_PER_SEC = 0")
    case True
    then show ?thesis using split pos unfolding from_secs_def secs by simp
  next
    case False
    then have "from_secs (retry_after_seconds d) = d div NANOS_PER_SEC * NANOS_PER_SEC + NANOS_PER_SEC"
      unfolding from_secs_def secs by simp
    then show ?thesis using split small False by linarith
  qed
  then show ?thesis
    by (intro exI[of _ "from_secs (retry_after_seconds d)"]) (simp add: normalized_retry_hint_def hint)
qed

theorem retry_delay_round_trip_witness:
  "\<exists>d'. normalized_retry_hint Some (\<lambda>_. None) EK_Framework 503
          (problem_headers (with_retry_hint (local_inner EK_Framework EC_Unavailable 503 ''overloaded'' [])
             (RH_After 1500000000)) ''r1'' True) 0 = RH_After d' \<and> 1500000000 \<le> d'"
proof -
  define e where "e = with_retry_hint (local_inner EK_Framework EC_Unavailable 503 ''overloaded'' [])
             (RH_After 1500000000)"
  have e: "e_kind e = EK_Framework" "e_origin e = EO_Local" "e_retry_hint e = RH_After 1500000000"
    by (simp_all add: e_def with_retry_hint_def)
  have status: "carried_status e = 503" by (simp add: e_def with_retry_hint_def carried_status_def)
  have "(1500000000 :: nat) \<le> from_secs U64_MAX" by (simp add: from_secs_def U64_MAX_def NANOS_PER_SEC_def)
  from retry_delay_round_trip[OF _ e this, of Some "\<lambda>_. None" "''r1''" True 0] show ?thesis
    unfolding status e_def[symmetric] by (auto simp: is_transient_status_def)
qed

end
