(* ===== verification/Budget.thy ===== *)
theory Budget
  imports Prelude
begin

text \<open>
  The byte budget of \<open>fusen/src/runtime/budget.rs\<close>: a limit on the bytes held by live permits.

  First the operations as one thread sees them, used by the codec; then the compare-and-swap loop
  itself, as a step relation of threads that share the counter.  In both a \<open>usize\<close> is a number up to
  \<open>USIZE_MAX\<close>, its addition checked and its subtraction wrapping as in the source.
\<close>

section \<open>The operations\<close>

record ByteBudget =
  bb_limit :: nat
  bb_used :: nat

definition ByteBudget_new :: "nat \<Rightarrow> ByteBudget" where
  "ByteBudget_new limit = \<lparr>bb_limit = limit, bb_used = 0\<rparr>"

text \<open>One round of \<open>try_add\<close> on a value read from the counter: the value to write, if any.\<close>

definition add_target :: "nat \<Rightarrow> nat \<Rightarrow> nat \<Rightarrow> nat option" where
  "add_target limit current bytes =
     (case checked_add USIZE_MAX current bytes of
        None \<Rightarrow> None
      | Some next \<Rightarrow> if limit < next then None else Some next)"

definition try_add :: "nat \<Rightarrow> ByteBudget \<Rightarrow> bool \<times> ByteBudget" where
  "try_add bytes b =
     (case add_target (bb_limit b) (bb_used b) bytes of
        None \<Rightarrow> (False, b)
      | Some next \<Rightarrow> (True, b\<lparr>bb_used := next\<rparr>))"

definition wrapping_sub :: "nat \<Rightarrow> nat \<Rightarrow> nat" where
  "wrapping_sub a b = (a + (USIZE_MAX + 1) - b) mod (USIZE_MAX + 1)"

definition budget_release :: "nat \<Rightarrow> ByteBudget \<Rightarrow> ByteBudget" where
  "budget_release bytes b = b\<lparr>bb_used := wrapping_sub (bb_used b) bytes\<rparr>"

text \<open>A permit of one budget is the number of its bytes; dropping it releases them.\<close>

type_synonym BytePermit = nat

definition try_reserve :: "nat \<Rightarrow> ByteBudget \<Rightarrow> BytePermit option \<times> ByteBudget" where
  "try_reserve bytes b =
     (let (ok, b) = try_add bytes b in (if ok then Some bytes else None, b))"

definition permit_grow :: "nat \<Rightarrow> BytePermit \<Rightarrow> ByteBudget \<Rightarrow> bool \<times> BytePermit \<times> ByteBudget" where
  "permit_grow bytes permit b =
     (let (ok, b) = try_add bytes b
      in if ok then (True, wrapping_add USIZE_MAX permit bytes, b) else (False, permit, b))"

definition permit_drop :: "BytePermit \<Rightarrow> ByteBudget \<Rightarrow> ByteBudget" where
  "permit_drop permit b = budget_release permit b"

datatype BudgetedWriteFailure = LimitExceeded | BudgetExhausted

record BudgetedWriter =
  bw_bytes :: string
  bw_limit :: nat
  bw_permit :: BytePermit
  bw_failure :: "BudgetedWriteFailure option"

definition BudgetedWriter_new ::
  "nat \<Rightarrow> nat \<Rightarrow> ByteBudget \<Rightarrow> (BudgetedWriteFailure + BudgetedWriter) \<times> ByteBudget" where
  "BudgetedWriter_new limit wire_overhead b =
     (case try_reserve wire_overhead b of
        (None, b) \<Rightarrow> (Inl BudgetExhausted, b)
      | (Some permit, b) \<Rightarrow>
          (Inr \<lparr>bw_bytes = [], bw_limit = limit, bw_permit = permit, bw_failure = None\<rparr>, b))"

definition writer_write ::
  "string \<Rightarrow> BudgetedWriter \<Rightarrow> ByteBudget \<Rightarrow> nat option \<times> BudgetedWriter \<times> ByteBudget" where
  "writer_write buffer w b =
     (if (case checked_add USIZE_MAX (length (bw_bytes w)) (length buffer) of
            None \<Rightarrow> True | Some n \<Rightarrow> bw_limit w < n)
      then (None, w\<lparr>bw_failure := Some LimitExceeded\<rparr>, b)
      else (case permit_grow (length buffer) (bw_permit w) b of
              (False, permit, b) \<Rightarrow> (None, w\<lparr>bw_failure := Some BudgetExhausted, bw_permit := permit\<rparr>, b)
            | (True, permit, b) \<Rightarrow>
                (Some (length buffer), w\<lparr>bw_bytes := bw_bytes w @ buffer, bw_permit := permit\<rparr>, b)))"

section \<open>The shared counter\<close>

text \<open>
  A thread adds for a new permit or to grow permit \<open>p\<close>: it loads the counter, then loops on
  \<^verbatim>\<open>compare_exchange_weak\<close> (which may fail spuriously), and after a successful growth adds the bytes
  to the permit.  Rust's ownership lets a permit be dropped only when no thread is growing it.
\<close>

datatype add_op = AO_Reserve | AO_Grow nat

datatype add_thread =
  AT_Idle
| AT_Looping add_op nat nat
| AT_Granted nat nat

record shared_budget =
  sb_limit :: nat
  sb_used :: nat
  sb_permits :: "nat option list"
  sb_threads :: "add_thread list"

definition growing :: "nat \<Rightarrow> add_thread \<Rightarrow> bool" where
  "growing p t = (case t of AT_Idle \<Rightarrow> False | AT_Looping op _ _ \<Rightarrow> op = AO_Grow p | AT_Granted q _ \<Rightarrow> q = p)"

definition live_permit :: "nat \<Rightarrow> shared_budget \<Rightarrow> bool" where
  "live_permit p s = (p < length (sb_permits s) \<and> sb_permits s ! p \<noteq> None)"

inductive budget_step :: "shared_budget \<Rightarrow> shared_budget \<Rightarrow> bool" where
  load: "\<lbrakk>i < length (sb_threads s); sb_threads s ! i = AT_Idle;
          case op of AO_Reserve \<Rightarrow> True | AO_Grow p \<Rightarrow> live_permit p s\<rbrakk> \<Longrightarrow>
    budget_step s (s\<lparr>sb_threads := (sb_threads s)[i := AT_Looping op bytes (sb_used s)]\<rparr>)"
| reject: "\<lbrakk>i < length (sb_threads s); sb_threads s ! i = AT_Looping op bytes current;
          add_target (sb_limit s) current bytes = None\<rbrakk> \<Longrightarrow>
    budget_step s (s\<lparr>sb_threads := (sb_threads s)[i := AT_Idle]\<rparr>)"
| cas_fail: "\<lbrakk>i < length (sb_threads s); sb_threads s ! i = AT_Looping op bytes current;
          add_target (sb_limit s) current bytes = Some next\<rbrakk> \<Longrightarrow>
    budget_step s (s\<lparr>sb_threads := (sb_threads s)[i := AT_Looping op bytes (sb_used s)]\<rparr>)"
| cas_reserve: "\<lbrakk>i < length (sb_threads s); sb_threads s ! i = AT_Looping AO_Reserve bytes current;
          add_target (sb_limit s) current bytes = Some next; sb_used s = current\<rbrakk> \<Longrightarrow>
    budget_step s (s\<lparr>sb_used := next, sb_permits := sb_permits s @ [Some bytes],
                     sb_threads := (sb_threads s)[i := AT_Idle]\<rparr>)"
| cas_grow: "\<lbrakk>i < length (sb_threads s); sb_threads s ! i = AT_Looping (AO_Grow p) bytes current;
          add_target (sb_limit s) current bytes = Some next; sb_used s = current\<rbrakk> \<Longrightarrow>
    budget_step s (s\<lparr>sb_used := next, sb_threads := (sb_threads s)[i := AT_Granted p bytes]\<rparr>)"
| record_growth: "\<lbrakk>i < length (sb_threads s); sb_threads s ! i = AT_Granted p bytes;
          p < length (sb_permits s); sb_permits s ! p = Some n\<rbrakk> \<Longrightarrow>
    budget_step s (s\<lparr>sb_permits := (sb_permits s)[p := Some (wrapping_add USIZE_MAX n bytes)],
                     sb_threads := (sb_threads s)[i := AT_Idle]\<rparr>)"
| drop_permit: "\<lbrakk>p < length (sb_permits s); sb_permits s ! p = Some n;
          \<forall>t \<in> set (sb_threads s). \<not> growing p t\<rbrakk> \<Longrightarrow>
    budget_step s (s\<lparr>sb_used := wrapping_sub (sb_used s) n, sb_permits := (sb_permits s)[p := None]\<rparr>)"

inductive_cases budget_stepE: "budget_step s s'"

definition shared_initial :: "nat \<Rightarrow> nat \<Rightarrow> shared_budget" where
  "shared_initial limit threads =
     \<lparr>sb_limit = limit, sb_used = 0, sb_permits = [], sb_threads = replicate threads AT_Idle\<rparr>"

inductive budget_reachable :: "nat \<Rightarrow> nat \<Rightarrow> shared_budget \<Rightarrow> bool" for limit threads where
  initial: "budget_reachable limit threads (shared_initial limit threads)"
| step: "budget_reachable limit threads s \<Longrightarrow> budget_step s s' \<Longrightarrow> budget_reachable limit threads s'"

section \<open>The invariant\<close>

definition permit_bytes :: "nat option \<Rightarrow> nat" where
  "permit_bytes p = (case p of Some n \<Rightarrow> n | None \<Rightarrow> 0)"

definition granted_bytes :: "add_thread \<Rightarrow> nat" where
  "granted_bytes t = (case t of AT_Granted p n \<Rightarrow> n | _ \<Rightarrow> 0)"

definition held_bytes :: "shared_budget \<Rightarrow> nat" where
  "held_bytes s = sum_list (map permit_bytes (sb_permits s)) + sum_list (map granted_bytes (sb_threads s))"

definition budget_inv :: "nat \<Rightarrow> shared_budget \<Rightarrow> bool" where
  "budget_inv limit s =
     (sb_limit s = limit \<and> sb_used s = held_bytes s \<and> sb_used s \<le> limit)"

lemma add_target_Some:
  "add_target limit c n = Some m \<longleftrightarrow> m = c + n \<and> c + n \<le> limit \<and> c + n \<le> USIZE_MAX"
  by (auto simp: add_target_def checked_add_def)

lemma add_target_None:
  "add_target limit c n = None \<longleftrightarrow> limit < c + n \<or> USIZE_MAX < c + n"
  by (auto simp: add_target_def checked_add_def)

lemma wrapping_sub_exact: "b \<le> a \<Longrightarrow> a \<le> USIZE_MAX \<Longrightarrow> wrapping_sub a b = a - b"
proof -
  assume "b \<le> a" "a \<le> USIZE_MAX"
  then have "a + (USIZE_MAX + 1) - b = (a - b) + (USIZE_MAX + 1)" "a - b < USIZE_MAX + 1" by auto
  then show ?thesis unfolding wrapping_sub_def by (simp only: mod_add_self2 mod_less)
qed

lemma two_members_le:
  assumes "i < length xs" "p < length ys"
  shows "f (xs ! i) + g (ys ! p) \<le> sum_list (map f xs) + (sum_list (map g ys) :: nat)"
  using member_le_sum[OF assms(1), of f] member_le_sum[OF assms(2), of g] by linarith

lemma budget_step_inv:
  assumes "budget_step s s'" "budget_inv limit s" "limit \<le> USIZE_MAX"
  shows "budget_inv limit s'"
  using assms(1)
proof cases
  case (record_growth i p bytes n)
  have "granted_bytes (sb_threads s ! i) + permit_bytes (sb_permits s ! p) \<le> held_bytes s"
    using two_members_le[OF record_growth(2,4), of granted_bytes permit_bytes] by (simp add: held_bytes_def)
  then have "n + bytes \<le> USIZE_MAX"
    using record_growth assms(2,3) by (simp add: budget_inv_def granted_bytes_def permit_bytes_def)
  then have "wrapping_add USIZE_MAX n bytes = n + bytes" by (rule wrapping_add_exact)
  then show ?thesis
    using sum_list_map_update[OF record_growth(2), of granted_bytes AT_Idle]
      sum_list_map_update[OF record_growth(4), of permit_bytes "Some (n + bytes)"] record_growth assms(2)
    by (simp add: budget_inv_def held_bytes_def granted_bytes_def permit_bytes_def)
next
  case (drop_permit p n)
  have "n \<le> sum_list (map permit_bytes (sb_permits s))"
    using member_le_sum[OF drop_permit(2), of permit_bytes] drop_permit(3) by (simp add: permit_bytes_def)
  then have "n \<le> sb_used s" "sb_used s \<le> USIZE_MAX" using assms(2,3) by (simp_all add: budget_inv_def held_bytes_def)
  then have "wrapping_sub (sb_used s) n = sb_used s - n" by (rule wrapping_sub_exact)
  then have "sb_used s' = sb_used s - n" by (simp add: drop_permit(1))
  moreover have "held_bytes s' + n = held_bytes s"
    using sum_list_map_update[OF drop_permit(2), of permit_bytes None] drop_permit(3)
    by (simp add: held_bytes_def permit_bytes_def drop_permit(1))
  moreover have "sb_limit s' = sb_limit s" by (simp add: drop_permit(1))
  ultimately show ?thesis using assms(2) unfolding budget_inv_def by linarith
next
  case (load i op bytes)
  then show ?thesis
    using sum_list_map_update[OF load(2), of granted_bytes "AT_Looping op bytes (sb_used s)"] assms(2)
    by (simp add: budget_inv_def held_bytes_def granted_bytes_def)
next
  case (reject i op bytes current)
  then show ?thesis
    using sum_list_map_update[OF reject(2), of granted_bytes AT_Idle] assms(2)
    by (simp add: budget_inv_def held_bytes_def granted_bytes_def)
next
  case (cas_fail i op bytes current nxt)
  then show ?thesis
    using sum_list_map_update[OF cas_fail(2), of granted_bytes "AT_Looping op bytes (sb_used s)"] assms(2)
    by (simp add: budget_inv_def held_bytes_def granted_bytes_def)
next
  case (cas_reserve i bytes current nxt)
  then show ?thesis
    using sum_list_map_update[OF cas_reserve(2), of granted_bytes AT_Idle] assms(2)
    by (simp add: budget_inv_def held_bytes_def granted_bytes_def permit_bytes_def add_target_Some)
next
  case (cas_grow i p bytes current nxt)
  then show ?thesis
    using sum_list_map_update[OF cas_grow(2), of granted_bytes "AT_Granted p bytes"] assms(2)
    by (simp add: budget_inv_def held_bytes_def granted_bytes_def add_target_Some)
qed

lemma budget_reachable_inv:
  "budget_reachable limit threads s \<Longrightarrow> limit \<le> USIZE_MAX \<Longrightarrow> budget_inv limit s"
proof (induction rule: budget_reachable.induct)
  case initial
  then show ?case
    by (simp add: budget_inv_def shared_initial_def held_bytes_def granted_bytes_def map_replicate_const sum_list_replicate)
next
  case (step s s')
  then show ?case using budget_step_inv by blast
qed

text \<open>
  C11.  Whatever the interleaving of reservations, growths and drops, the bytes of the live permits
  (and of growths granted but not yet recorded) are exactly the counter and never exceed the limit;
  so the wrapping subtraction of a drop never wraps.
\<close>

theorem byte_budget_never_exceeded:
  "\<lbrakk>budget_reachable limit threads s; limit \<le> USIZE_MAX\<rbrakk> \<Longrightarrow>
   sb_used s = sum_list (map permit_bytes (sb_permits s)) + sum_list (map granted_bytes (sb_threads s))
   \<and> sb_used s \<le> limit"
  using budget_reachable_inv[of limit threads s] by (simp add: budget_inv_def held_bytes_def)

theorem byte_budget_never_exceeded_witness:
  "sb_used \<lparr>sb_limit = 8, sb_used = 5, sb_permits = [Some 5], sb_threads = [AT_Idle]\<rparr> \<le> 8"
proof -
  have s0: "budget_reachable 8 1 \<lparr>sb_limit = 8, sb_used = 0, sb_permits = [], sb_threads = [AT_Idle]\<rparr>"
    using budget_reachable.initial[of 8 1] by (simp add: shared_initial_def)
  have s1: "budget_reachable 8 1 \<lparr>sb_limit = 8, sb_used = 0, sb_permits = [], sb_threads = [AT_Looping AO_Reserve 5 0]\<rparr>"
    using budget_reachable.step[OF s0 budget_step.load[of 0 _ AO_Reserve 5]] by simp
  have "add_target 8 0 5 = Some 5" by (simp add: add_target_Some USIZE_MAX_def)
  then have s2: "budget_reachable 8 1 \<lparr>sb_limit = 8, sb_used = 5, sb_permits = [Some 5], sb_threads = [AT_Idle]\<rparr>"
    using budget_reachable.step[OF s1 budget_step.cas_reserve[of 0 _ 5 0 5]] by simp
  show ?thesis using byte_budget_never_exceeded[OF s2] by (simp add: USIZE_MAX_def)
qed

end
