(* ===== verification/Admission.thy ===== *)
theory Admission
  imports Prelude
begin

text \<open>
  The admission gate of \<open>fusen/src/runtime/admission.rs\<close>: at most \<open>limit\<close> calls inside, and a drain
  that waits for the last of them.

  Every atomic access, semaphore operation and notification of the source is one step of one task, and
  the steps of the tasks interleave arbitrarily (sequential consistency).  Library behaviour taken from
  the documentation of tokio: a semaphore that was closed hands out no permit and fails the tasks that
  wait for one; \<^verbatim>\<open>notify_waiters\<close> wakes every \<^verbatim>\<open>Notified\<close> future that exists, polled or not.
\<close>

section \<open>The gate and its tasks\<close>

datatype GateState = RUNNING | DRAINING | CLOSED

datatype AdmissionError = AE_Overloaded | AE_Draining

text \<open>
  Where a task stands.  \<open>GT_Checked True\<close> is a call of \<open>enter\<close>, which waits for a permit, and
  \<open>GT_Checked False\<close> one of \<open>try_enter\<close>, both past the first look at the state.  \<open>GT_Inside\<close> holds the
  guard.  \<open>GT_Notifying\<close> and \<open>GT_Releasing\<close> are inside \<open>release_one\<close> and before the drop of the permit;
  they carry the error the task will return, none for the drop of a guard.  \<open>GT_Swapped\<close> and
  \<open>GT_Closing\<close> are inside \<open>begin_draining\<close> or \<open>close\<close>, after changing the state and after closing the
  semaphore.
\<close>

datatype gate_task =
  GT_Idle
| GT_Checked bool
| GT_Refused
| GT_Permit
| GT_Counted
| GT_Inside
| GT_Notifying "AdmissionError option"
| GT_Releasing "AdmissionError option"
| GT_Failed AdmissionError
| GT_Swapped
| GT_Closing

text \<open>A task in \<open>drained\<close>: its \<^verbatim>\<open>Notified\<close> future exists, with the flag whether it was notified.\<close>

datatype gate_waiter = GW_Idle | GW_Armed bool | GW_Waiting bool | GW_Drained

record AdmissionGate =
  g_state :: GateState
  g_available :: nat
  g_sem_closed :: bool
  g_active :: nat
  g_tasks :: "gate_task list"
  g_waiters :: "gate_waiter list"

definition AdmissionGate_new :: "nat \<Rightarrow> nat \<Rightarrow> nat \<Rightarrow> AdmissionGate" where
  "AdmissionGate_new limit tasks waiters =
     \<lparr>g_state = RUNNING, g_available = limit, g_sem_closed = False, g_active = 0,
      g_tasks = replicate tasks GT_Idle, g_waiters = replicate waiters GW_Idle\<rparr>"

definition set_task :: "nat \<Rightarrow> gate_task \<Rightarrow> AdmissionGate \<Rightarrow> AdmissionGate" where
  "set_task i t g = g\<lparr>g_tasks := (g_tasks g)[i := t]\<rparr>"

definition set_waiter :: "nat \<Rightarrow> gate_waiter \<Rightarrow> AdmissionGate \<Rightarrow> AdmissionGate" where
  "set_waiter i w g = g\<lparr>g_waiters := (g_waiters g)[i := w]\<rparr>"

fun notify_waiter :: "gate_waiter \<Rightarrow> gate_waiter" where
  "notify_waiter (GW_Armed b) = GW_Armed True"
| "notify_waiter (GW_Waiting b) = GW_Waiting True"
| "notify_waiter w = w"

definition notify_waiters :: "AdmissionGate \<Rightarrow> AdmissionGate" where
  "notify_waiters g = g\<lparr>g_waiters := map notify_waiter (g_waiters g)\<rparr>"

text \<open>The first half of \<open>release_one\<close>: whoever takes the count from one to zero must notify.\<close>

definition release_count :: "nat \<Rightarrow> AdmissionError option \<Rightarrow> AdmissionGate \<Rightarrow> AdmissionGate" where
  "release_count i r g =
     set_task i (if g_active g = 1 then GT_Notifying r else GT_Releasing r)
       (g\<lparr>g_active := g_active g - 1\<rparr>)"

definition at_task :: "AdmissionGate \<Rightarrow> nat \<Rightarrow> gate_task \<Rightarrow> bool" where
  "at_task g i t = (i < length (g_tasks g) \<and> g_tasks g ! i = t)"

definition at_waiter :: "AdmissionGate \<Rightarrow> nat \<Rightarrow> gate_waiter \<Rightarrow> bool" where
  "at_waiter g i w = (i < length (g_waiters g) \<and> g_waiters g ! i = w)"

section \<open>The steps\<close>

inductive gate_step :: "AdmissionGate \<Rightarrow> AdmissionGate \<Rightarrow> bool" where
  check: "\<lbrakk>at_task g i GT_Idle; g_state g = RUNNING\<rbrakk> \<Longrightarrow>
    gate_step g (set_task i (GT_Checked waits) g)"
| check_draining: "\<lbrakk>at_task g i GT_Idle; g_state g \<noteq> RUNNING\<rbrakk> \<Longrightarrow>
    gate_step g (set_task i (GT_Failed AE_Draining) g)"
| acquire: "\<lbrakk>at_task g i (GT_Checked waits); \<not> g_sem_closed g; 0 < g_available g\<rbrakk> \<Longrightarrow>
    gate_step g (set_task i GT_Permit (g\<lparr>g_available := g_available g - 1\<rparr>))"
| refuse: "\<lbrakk>at_task g i (GT_Checked False); g_sem_closed g \<or> g_available g = 0\<rbrakk> \<Longrightarrow>
    gate_step g (set_task i GT_Refused g)"
| await_closed: "\<lbrakk>at_task g i (GT_Checked True); g_sem_closed g\<rbrakk> \<Longrightarrow>
    gate_step g (set_task i (GT_Failed AE_Draining) g)"
| await_cancelled: "at_task g i (GT_Checked True) \<Longrightarrow> gate_step g (set_task i GT_Idle g)"
| refused: "at_task g i GT_Refused \<Longrightarrow>
    gate_step g (set_task i (GT_Failed (if g_state g = RUNNING then AE_Overloaded else AE_Draining)) g)"
| count: "at_task g i GT_Permit \<Longrightarrow>
    gate_step g (set_task i GT_Counted (g\<lparr>g_active := g_active g + 1\<rparr>))"
| admitted: "\<lbrakk>at_task g i GT_Counted; g_state g = RUNNING\<rbrakk> \<Longrightarrow>
    gate_step g (set_task i GT_Inside g)"
| back_out: "\<lbrakk>at_task g i GT_Counted; g_state g \<noteq> RUNNING\<rbrakk> \<Longrightarrow>
    gate_step g (release_count i (Some AE_Draining) g)"
| drop_guard: "at_task g i GT_Inside \<Longrightarrow> gate_step g (release_count i None g)"
| notify: "at_task g i (GT_Notifying r) \<Longrightarrow>
    gate_step g (set_task i (GT_Releasing r) (notify_waiters g))"
| release: "at_task g i (GT_Releasing r) \<Longrightarrow>
    gate_step g (set_task i (case r of None \<Rightarrow> GT_Idle | Some e \<Rightarrow> GT_Failed e)
                   (g\<lparr>g_available := g_available g + 1\<rparr>))"
| failed: "at_task g i (GT_Failed e) \<Longrightarrow> gate_step g (set_task i GT_Idle g)"
| begin_draining: "\<lbrakk>at_task g i GT_Idle; g_state g = RUNNING\<rbrakk> \<Longrightarrow>
    gate_step g (set_task i GT_Swapped (g\<lparr>g_state := DRAINING\<rparr>))"
| close: "at_task g i GT_Idle \<Longrightarrow> gate_step g (set_task i GT_Swapped (g\<lparr>g_state := CLOSED\<rparr>))"
| close_semaphore: "at_task g i GT_Swapped \<Longrightarrow>
    gate_step g (set_task i GT_Closing (g\<lparr>g_sem_closed := True\<rparr>))"
| close_notify: "at_task g i GT_Closing \<Longrightarrow> gate_step g (set_task i GT_Idle (notify_waiters g))"
| wait_arm: "at_waiter g i GW_Idle \<Longrightarrow> gate_step g (set_waiter i (GW_Armed False) g)"
| wait_done: "\<lbrakk>at_waiter g i (GW_Armed b); g_active g = 0\<rbrakk> \<Longrightarrow> gate_step g (set_waiter i GW_Drained g)"
| wait_block: "\<lbrakk>at_waiter g i (GW_Armed b); g_active g \<noteq> 0\<rbrakk> \<Longrightarrow>
    gate_step g (set_waiter i (GW_Waiting b) g)"
| wait_wake: "at_waiter g i (GW_Waiting True) \<Longrightarrow> gate_step g (set_waiter i GW_Idle g)"
| wait_return: "at_waiter g i GW_Drained \<Longrightarrow> gate_step g (set_waiter i GW_Idle g)"

inductive_cases gate_stepE: "gate_step g g'"

section \<open>The invariant\<close>

definition holds_permit :: "gate_task \<Rightarrow> bool" where
  "holds_permit t = (case t of GT_Permit \<Rightarrow> True | GT_Counted \<Rightarrow> True | GT_Inside \<Rightarrow> True
     | GT_Notifying r \<Rightarrow> True | GT_Releasing r \<Rightarrow> True | _ \<Rightarrow> False)"

definition is_counted :: "gate_task \<Rightarrow> bool" where
  "is_counted t = (t = GT_Counted \<or> t = GT_Inside)"

definition will_notify :: "gate_task \<Rightarrow> bool" where
  "will_notify t = (case t of GT_Notifying r \<Rightarrow> True | _ \<Rightarrow> False)"

definition gate_inv :: "nat \<Rightarrow> AdmissionGate \<Rightarrow> bool" where
  "gate_inv limit g \<longleftrightarrow>
     g_available g + tally holds_permit (g_tasks g) = limit
     \<and> g_active g = tally is_counted (g_tasks g)
     \<and> (GW_Waiting False \<in> set (g_waiters g) \<longrightarrow>
          0 < g_active g \<or> 0 < tally will_notify (g_tasks g))"

lemmas gate_updates = set_task_def set_waiter_def notify_waiters_def release_count_def at_task_def at_waiter_def

lemma set_task_counts:
  assumes "at_task g i t0"
  shows "tally p (g_tasks (set_task i t g)) + (if p t0 then 1 else 0)
         = tally p (g_tasks g) + (if p t then 1 else 0)"
  using assms tally_update[of i "g_tasks g" p t] by (simp add: set_task_def at_task_def)

lemma at_task_tally: "at_task g i t \<Longrightarrow> p t \<Longrightarrow> 0 < tally p (g_tasks g)"
  using tally_pos[of i "g_tasks g" p] by (simp add: at_task_def)

lemma task_classes [simp]:
  "holds_permit GT_Permit" "holds_permit GT_Counted" "holds_permit GT_Inside"
  "holds_permit (GT_Notifying r)" "holds_permit (GT_Releasing r)"
  "\<not> holds_permit GT_Idle" "\<not> holds_permit (GT_Checked b)" "\<not> holds_permit GT_Refused"
  "\<not> holds_permit (GT_Failed e)" "\<not> holds_permit GT_Swapped" "\<not> holds_permit GT_Closing"
  "is_counted GT_Counted" "is_counted GT_Inside"
  "\<not> is_counted GT_Idle" "\<not> is_counted (GT_Checked b)" "\<not> is_counted GT_Refused"
  "\<not> is_counted GT_Permit" "\<not> is_counted (GT_Notifying r)" "\<not> is_counted (GT_Releasing r)"
  "\<not> is_counted (GT_Failed e)" "\<not> is_counted GT_Swapped" "\<not> is_counted GT_Closing"
  "will_notify (GT_Notifying r)" "\<not> will_notify GT_Idle" "\<not> will_notify (GT_Checked b)"
  "\<not> will_notify GT_Refused" "\<not> will_notify GT_Permit" "\<not> will_notify GT_Counted"
  "\<not> will_notify GT_Inside" "\<not> will_notify (GT_Releasing r)" "\<not> will_notify (GT_Failed e)"
  "\<not> will_notify GT_Swapped" "\<not> will_notify GT_Closing"
  by (simp_all add: holds_permit_def is_counted_def will_notify_def)

lemma task_step_inv:
  assumes "at_task g i t0" "gate_inv limit g" "g_tasks g1 = g_tasks g"
    and "g_available g1 + (if holds_permit t then 1 else 0) = g_available g + (if holds_permit t0 then 1 else 0)"
    and "g_active g1 + (if is_counted t0 then 1 else 0) = g_active g + (if is_counted t then 1 else 0)"
    and "GW_Waiting False \<notin> set (g_waiters g1)
         \<or> g_waiters g1 = g_waiters g \<and> (will_notify t0 \<longrightarrow> will_notify t)
           \<and> (g_active g1 = 0 \<longrightarrow> g_active g = 0 \<or> will_notify t)"
  shows "gate_inv limit (set_task i t g1)"
proof -
  have "at_task g1 i t0" using assms(1,3) by (simp add: at_task_def)
  note counts = set_task_counts[OF this, unfolded assms(3)]
  have fields: "g_available (set_task i t g1) = g_available g1" "g_active (set_task i t g1) = g_active g1"
    "g_waiters (set_task i t g1) = g_waiters g1"
    by (simp_all add: set_task_def)
  have "g_available g1 + tally holds_permit (g_tasks (set_task i t g1)) = limit"
    using counts[of holds_permit t] assms(2,4) unfolding gate_inv_def by linarith
  moreover have "g_active g1 = tally is_counted (g_tasks (set_task i t g1))"
    using counts[of is_counted t] assms(2,5) unfolding gate_inv_def by linarith
  moreover have "0 < g_active g1 \<or> 0 < tally will_notify (g_tasks (set_task i t g1))"
    if waiting: "GW_Waiting False \<in> set (g_waiters g1)"
  proof -
    have same: "g_waiters g1 = g_waiters g" "will_notify t0 \<longrightarrow> will_notify t"
      "g_active g1 = 0 \<longrightarrow> g_active g = 0 \<or> will_notify t"
      using assms(6) waiting by auto
    then have "0 < g_active g \<or> 0 < tally will_notify (g_tasks g)"
      using assms(2) waiting by (auto simp: gate_inv_def)
    moreover have "0 < tally will_notify (g_tasks (set_task i t g1))" if "will_notify t"
      using at_task_tally[of "set_task i t g1" i t will_notify] that assms(1,3)
      by (simp add: at_task_def set_task_def)
    ultimately show ?thesis
      using counts[of will_notify t] same(2,3) by (cases "will_notify t"; cases "g_active g1 = 0") simp_all
  qed
  ultimately show ?thesis by (simp add: gate_inv_def fields)
qed

lemma waiter_step_inv:
  assumes "gate_inv limit g" "w = GW_Waiting False \<Longrightarrow> g_active g \<noteq> 0"
  shows "gate_inv limit (set_waiter i w g)"
proof -
  have "set (g_waiters (set_waiter i w g)) \<subseteq> insert w (set (g_waiters g))"
    by (simp add: set_waiter_def set_update_subset_insert)
  then show ?thesis using assms by (auto simp: gate_inv_def set_waiter_def)
qed

lemma notified_waiters: "GW_Waiting False \<notin> set (g_waiters (notify_waiters g))"
proof -
  have "notify_waiter w \<noteq> GW_Waiting False" for w by (cases w) auto
  from this[symmetric] show ?thesis by (auto simp: notify_waiters_def)
qed

lemma release_count_inv:
  assumes "at_task g i t0" "is_counted t0" "holds_permit t0" "\<not> will_notify t0" "gate_inv limit g"
  shows "gate_inv limit (release_count i r g)"
proof -
  have "0 < g_active g" using at_task_tally[of g i t0 is_counted] assms by (simp add: gate_inv_def)
  then show ?thesis
    unfolding release_count_def using assms by (intro task_step_inv[of g i t0]) auto
qed

lemma gate_step_inv: "gate_step g g' \<Longrightarrow> gate_inv limit g \<Longrightarrow> gate_inv limit g'"
proof (induction rule: gate_step.induct)
  case (back_out g i)
  then show ?case using release_count_inv[of g i GT_Counted] by simp
next
  case (drop_guard g i)
  then show ?case using release_count_inv[of g i GT_Inside] by simp
next
  case (notify g i r)
  then show ?case
    using notified_waiters by (intro task_step_inv[of g i "GT_Notifying r"]) (auto simp: notify_waiters_def)
next
  case (close_notify g i)
  then show ?case
    using notified_waiters by (intro task_step_inv[of g i GT_Closing]) (auto simp: notify_waiters_def)
next
  case (release g i r)
  then show ?case by (intro task_step_inv[of g i "GT_Releasing r"]) (auto split: option.split)
qed (auto intro: task_step_inv waiter_step_inv)

interpretation capacity: stepwise gate_step "gate_inv limit" for limit
  by unfold_locales (rule gate_step_inv)

text \<open>Outside \<open>RUNNING\<close> nobody gets in any more.\<close>

definition gate_shut :: "AdmissionGate \<Rightarrow> bool" where
  "gate_shut g \<longleftrightarrow> g_state g \<noteq> RUNNING \<and> GT_Inside \<notin> set (g_tasks g)"

lemma set_task_shut:
  "g_state g1 \<noteq> RUNNING \<Longrightarrow> GT_Inside \<notin> set (g_tasks g1) \<Longrightarrow> t \<noteq> GT_Inside \<Longrightarrow> gate_shut (set_task i t g1)"
  using set_update_subset_insert[of "g_tasks g1" i t] by (auto simp: gate_shut_def set_task_def)

lemma gate_shutD: "gate_shut g \<Longrightarrow> g_state g \<noteq> RUNNING" "gate_shut g \<Longrightarrow> GT_Inside \<notin> set (g_tasks g)"
  by (simp_all add: gate_shut_def)

lemma set_waiter_shut [simp]: "gate_shut (set_waiter i w g) = gate_shut g"
  by (simp add: gate_shut_def set_waiter_def)

lemma release_count_shut: "gate_shut g \<Longrightarrow> gate_shut (release_count i r g)"
  unfolding release_count_def by (rule set_task_shut) (auto dest: gate_shutD)

lemma gate_step_shut: "gate_step g g' \<Longrightarrow> gate_shut g \<Longrightarrow> gate_shut g'"
proof (induction rule: gate_step.induct)
  case (release g i r)
  then show ?case by (intro set_task_shut) (auto dest: gate_shutD split: option.split)
qed (auto intro!: set_task_shut release_count_shut dest: gate_shutD simp: notify_waiters_def)

interpretation shut: stepwise gate_step gate_shut
  by unfold_locales (rule gate_step_shut)

section \<open>Properties\<close>

lemma gate_initial_inv: "gate_inv limit (AdmissionGate_new limit tasks waiters)"
  by (simp add: gate_inv_def AdmissionGate_new_def tally_replicate set_replicate_conv_if)

lemma gate_runs_inv: "gate_step\<^sup>*\<^sup>* (AdmissionGate_new limit tasks waiters) g \<Longrightarrow> gate_inv limit g"
  using capacity.along_runs gate_initial_inv by blast

text \<open>
  C16.  Capacity.  However the calls of the gate interleave, the free permits and the tasks that hold one
  always add up to the limit, the active count is exactly the number of counted tasks, and at most
  \<open>limit\<close> calls are inside.
\<close>

theorem admission_capacity:
  "gate_step\<^sup>*\<^sup>* (AdmissionGate_new limit tasks waiters) g \<Longrightarrow>
   g_available g + tally holds_permit (g_tasks g) = limit
   \<and> g_active g = tally is_counted (g_tasks g)
   \<and> length (filter (\<lambda>t. t = GT_Inside) (g_tasks g)) \<le> limit"
proof -
  assume "gate_step\<^sup>*\<^sup>* (AdmissionGate_new limit tasks waiters) g"
  then have inv: "gate_inv limit g" by (rule gate_runs_inv)
  have "length (filter (\<lambda>t. t = GT_Inside) ts) \<le> length (filter holds_permit ts)" for ts
    by (induction ts) auto
  then have "length (filter (\<lambda>t. t = GT_Inside) (g_tasks g)) \<le> tally holds_permit (g_tasks g)"
    by (simp add: tally_length)
  then show ?thesis using inv by (auto simp: gate_inv_def)
qed

text \<open>
  C24.  A drain is final.  When the last look of \<open>drained\<close> at the active count succeeds after the gate
  has left \<open>RUNNING\<close>, no call is inside then, and none is ever inside again, whatever happens next.
\<close>

theorem drained_gate_stays_empty:
  "\<lbrakk>gate_step\<^sup>*\<^sup>* (AdmissionGate_new limit tasks waiters) g; g_state g \<noteq> RUNNING;
    gate_step g g1; at_waiter g1 i GW_Drained; \<not> at_waiter g i GW_Drained; gate_step\<^sup>*\<^sup>* g1 g2\<rbrakk> \<Longrightarrow>
   GT_Inside \<notin> set (g_tasks g1) \<and> GT_Inside \<notin> set (g_tasks g2)"
proof -
  assume runs: "gate_step\<^sup>*\<^sup>* (AdmissionGate_new limit tasks waiters) g" "gate_step\<^sup>*\<^sup>* g1 g2"
    and state: "g_state g \<noteq> RUNNING" and step: "gate_step g g1"
    and drained: "at_waiter g1 i GW_Drained" "\<not> at_waiter g i GW_Drained"
  from step drained have "g_active g = 0"
  proof (cases rule: gate_step.cases)
  qed (auto simp: gate_updates nth_list_update nth_map split: if_splits elim: notify_waiter.elims)
  then have "tally is_counted (g_tasks g) = 0" using gate_runs_inv[OF runs(1)] by (simp add: gate_inv_def)
  then have "gate_shut g" using state by (auto simp: tally_eq_0 gate_shut_def)
  then have "gate_shut g1" using step by (rule gate_step_shut[rotated])
  then show ?thesis using shut.along_runs[OF runs(2)] gate_shutD(2) by blast
qed

text \<open>
  C25.  No lost wake-up.  A task that waits in \<open>drained\<close> and was not notified is never forgotten: some
  call is still counted, whose release will notify it, or has already released the last count and is
  about to.
\<close>

theorem drain_wakeup_never_lost:
  "\<lbrakk>gate_step\<^sup>*\<^sup>* (AdmissionGate_new limit tasks waiters) g; at_waiter g i (GW_Waiting False)\<rbrakk> \<Longrightarrow>
   \<exists>j t. at_task g j t \<and> (t = GT_Counted \<or> t = GT_Inside \<or> (\<exists>r. t = GT_Notifying r))"
proof -
  assume runs: "gate_step\<^sup>*\<^sup>* (AdmissionGate_new limit tasks waiters) g" and "at_waiter g i (GW_Waiting False)"
  then have "GW_Waiting False \<in> set (g_waiters g)" by (metis at_waiter_def nth_mem)
  then have "tally is_counted (g_tasks g) \<noteq> 0 \<or> tally will_notify (g_tasks g) \<noteq> 0"
    using gate_runs_inv[OF runs] by (auto simp: gate_inv_def)
  then obtain t where "t \<in> set (g_tasks g)" "is_counted t \<or> will_notify t" by (auto simp: tally_eq_0)
  moreover from this(1) obtain j where "at_task g j t" by (auto simp: in_set_conv_nth at_task_def)
  moreover have "is_counted t \<or> will_notify t \<longleftrightarrow> t = GT_Counted \<or> t = GT_Inside \<or> (\<exists>r. t = GT_Notifying r)"
    by (cases t) auto
  ultimately show ?thesis by blast
qed

text \<open>The steps a task has left at most, in the step relation above.\<close>

fun task_work :: "gate_task \<Rightarrow> nat" where
  "task_work GT_Idle = 0"
| "task_work (GT_Failed e) = 1"
| "task_work GT_Closing = 1"
| "task_work GT_Swapped = 2"
| "task_work (GT_Releasing r) = 2"
| "task_work GT_Refused = 2"
| "task_work (GT_Notifying r) = 3"
| "task_work GT_Inside = 4"
| "task_work GT_Counted = 5"
| "task_work GT_Permit = 6"
| "task_work (GT_Checked waits) = 7"

definition gate_work :: "AdmissionGate \<Rightarrow> nat" where
  "gate_work g = sum_list (map task_work (g_tasks g))"

lemma set_task_work:
  assumes "at_task g i t0" "g_tasks g1 = g_tasks g"
  shows "gate_work (set_task i t g1) + task_work t0 = gate_work g + task_work t"
  using assms sum_list_map_update[of i "g_tasks g" task_work t]
  by (simp add: set_task_def at_task_def gate_work_def)

lemma set_task_less:
  "\<lbrakk>at_task g i t0; g_tasks g1 = g_tasks g; task_work t < task_work t0\<rbrakk> \<Longrightarrow>
   gate_work (set_task i t g1) < gate_work g"
  using set_task_work[of g i t0 g1 t] by linarith

lemma release_count_less:
  "\<lbrakk>at_task g i t0; 3 < task_work t0\<rbrakk> \<Longrightarrow> gate_work (release_count i r g) < gate_work g"
  unfolding release_count_def by (rule set_task_less[of g i t0]) auto

text \<open>
  Every call finishes.  A step either starts an idle task, or belongs to a waiter of \<open>drained\<close> and
  changes no task, or strictly decreases the remaining work, whatever the other tasks did before; so
  between two starts only finitely many steps are possible and a drain cannot go on for ever.
\<close>

theorem gate_calls_terminate:
  "gate_step g g' \<Longrightarrow>
   gate_work g' < gate_work g
   \<or> (\<exists>i t. at_task g i GT_Idle \<and> g_tasks g' = (g_tasks g)[i := t])
   \<or> g_tasks g' = g_tasks g"
proof (induction rule: gate_step.induct)
  case (release g i r)
  then have "gate_work (set_task i (case r of None \<Rightarrow> GT_Idle | Some e \<Rightarrow> GT_Failed e)
      (g\<lparr>g_available := g_available g + 1\<rparr>)) < gate_work g"
    by (intro set_task_less[of g i "GT_Releasing r"]) (auto split: option.split)
  then show ?case by simp
next
  case (check g i waits)
  then show ?case by (intro disjI2 disjI1 exI[of _ i] exI[of _ "GT_Checked waits"]) (simp add: set_task_def)
next
  case (check_draining g i)
  then show ?case by (intro disjI2 disjI1 exI[of _ i] exI[of _ "GT_Failed AE_Draining"]) (simp add: set_task_def)
next
  case (begin_draining g i)
  then show ?case by (intro disjI2 disjI1 exI[of _ i] exI[of _ GT_Swapped]) (simp add: set_task_def)
next
  case (close g i)
  then show ?case by (intro disjI2 disjI1 exI[of _ i] exI[of _ GT_Swapped]) (simp add: set_task_def)
qed (auto intro: set_task_less release_count_less simp: notify_waiters_def set_waiter_def)

section \<open>A run\<close>

definition gate_demo :: "GateState \<Rightarrow> nat \<Rightarrow> nat \<Rightarrow> gate_task list \<Rightarrow> gate_waiter \<Rightarrow> AdmissionGate" where
  "gate_demo state available active tasks waiter =
     \<lparr>g_state = state, g_available = available, g_sem_closed = False, g_active = active,
      g_tasks = tasks, g_waiters = [waiter]\<rparr>"

lemmas gate_demo_simps = gate_demo_def gate_updates numeral_2_eq_2

lemma gate_demo_step:
  "gate_step\<^sup>*\<^sup>* g0 g \<Longrightarrow> gate_step g g1 \<Longrightarrow> g1 = g2 \<Longrightarrow> gate_step\<^sup>*\<^sup>* g0 g2"
  by simp

lemma gate_demo_inside:
  "gate_step\<^sup>*\<^sup>* (AdmissionGate_new 1 2 1) (gate_demo RUNNING 0 1 [GT_Inside, GT_Idle] (GW_Idle))"
proof -
  have "gate_step\<^sup>*\<^sup>* (AdmissionGate_new 1 2 1) (gate_demo RUNNING 1 0 [GT_Idle, GT_Idle] GW_Idle)"
    by (simp add: AdmissionGate_new_def gate_demo_simps)
  from gate_demo_step[OF this gate_step.check[of _ 0 False], of "gate_demo RUNNING 1 0 [GT_Checked False, GT_Idle] GW_Idle"]
  have "gate_step\<^sup>*\<^sup>* (AdmissionGate_new 1 2 1) (gate_demo RUNNING 1 0 [GT_Checked False, GT_Idle] GW_Idle)"
    by (simp add: gate_demo_simps)
  from gate_demo_step[OF this gate_step.acquire[of _ 0 False], of "gate_demo RUNNING 0 0 [GT_Permit, GT_Idle] GW_Idle"]
  have "gate_step\<^sup>*\<^sup>* (AdmissionGate_new 1 2 1) (gate_demo RUNNING 0 0 [GT_Permit, GT_Idle] GW_Idle)"
    by (simp add: gate_demo_simps)
  from gate_demo_step[OF this gate_step.count[of _ 0], of "gate_demo RUNNING 0 1 [GT_Counted, GT_Idle] GW_Idle"]
  have "gate_step\<^sup>*\<^sup>* (AdmissionGate_new 1 2 1) (gate_demo RUNNING 0 1 [GT_Counted, GT_Idle] GW_Idle)"
    by (simp add: gate_demo_simps)
  from gate_demo_step[OF this gate_step.admitted[of _ 0], of "gate_demo RUNNING 0 1 [GT_Inside, GT_Idle] GW_Idle"]
  show ?thesis by (simp add: gate_demo_simps)
qed

lemma gate_demo_draining:
  "gate_step\<^sup>*\<^sup>* (AdmissionGate_new 1 2 1) (gate_demo DRAINING 0 1 [GT_Inside, GT_Swapped] (GW_Armed False))"
proof -
  from gate_demo_step[OF gate_demo_inside gate_step.begin_draining[of _ 1],
      of "gate_demo DRAINING 0 1 [GT_Inside, GT_Swapped] GW_Idle"]
  have "gate_step\<^sup>*\<^sup>* (AdmissionGate_new 1 2 1) (gate_demo DRAINING 0 1 [GT_Inside, GT_Swapped] GW_Idle)"
    by (simp add: gate_demo_simps)
  from gate_demo_step[OF this gate_step.wait_arm[of _ 0],
      of "gate_demo DRAINING 0 1 [GT_Inside, GT_Swapped] (GW_Armed False)"]
  show ?thesis by (simp add: gate_demo_simps)
qed

theorem admission_capacity_witness:
  "g_available (gate_demo RUNNING 0 1 [GT_Inside, GT_Idle] GW_Idle) + 1 = 1
   \<and> length (filter (\<lambda>t. t = GT_Inside) [GT_Inside, GT_Idle]) \<le> 1"
  using admission_capacity[OF gate_demo_inside] by (simp add: gate_demo_def)

theorem drained_gate_stays_empty_witness:
  "GT_Inside \<notin> set (g_tasks (gate_demo DRAINING 0 0 [GT_Notifying None, GT_Swapped] GW_Drained))"
proof -
  have dropped: "gate_step\<^sup>*\<^sup>* (AdmissionGate_new 1 2 1) (gate_demo DRAINING 0 0 [GT_Notifying None, GT_Swapped] (GW_Armed False))"
    using gate_demo_step[OF gate_demo_draining gate_step.drop_guard[of _ 0],
      of "gate_demo DRAINING 0 0 [GT_Notifying None, GT_Swapped] (GW_Armed False)"]
    by (simp add: gate_demo_simps)
  have "gate_step (gate_demo DRAINING 0 0 [GT_Notifying None, GT_Swapped] (GW_Armed False))
     (gate_demo DRAINING 0 0 [GT_Notifying None, GT_Swapped] GW_Drained)"
    using gate_step.wait_done[of "gate_demo DRAINING 0 0 [GT_Notifying None, GT_Swapped] (GW_Armed False)" 0 False]
    by (simp add: gate_demo_simps)
  from drained_gate_stays_empty[OF dropped _ this, of 0 "gate_demo DRAINING 0 0 [GT_Notifying None, GT_Swapped] GW_Drained"]
  show ?thesis by (simp add: gate_demo_simps)
qed

theorem drain_wakeup_never_lost_witness:
  "\<exists>j t. at_task (gate_demo DRAINING 0 1 [GT_Inside, GT_Swapped] (GW_Waiting False)) j t
     \<and> (t = GT_Counted \<or> t = GT_Inside \<or> (\<exists>r. t = GT_Notifying r))"
proof -
  have "gate_step\<^sup>*\<^sup>* (AdmissionGate_new 1 2 1) (gate_demo DRAINING 0 1 [GT_Inside, GT_Swapped] (GW_Waiting False))"
    using gate_demo_step[OF gate_demo_draining gate_step.wait_block[of _ 0 False],
      of "gate_demo DRAINING 0 1 [GT_Inside, GT_Swapped] (GW_Waiting False)"]
    by (simp add: gate_demo_simps)
  from drain_wakeup_never_lost[OF this, of 0] show ?thesis by (simp add: gate_demo_def at_waiter_def)
qed

theorem gate_calls_terminate_witness:
  "gate_work (gate_demo RUNNING 0 1 [GT_Inside, GT_Idle] GW_Idle)
   < gate_work (gate_demo RUNNING 0 1 [GT_Counted, GT_Idle] GW_Idle)"
proof -
  have "gate_step (gate_demo RUNNING 0 1 [GT_Counted, GT_Idle] GW_Idle)
     (gate_demo RUNNING 0 1 [GT_Inside, GT_Idle] GW_Idle)"
    using gate_step.admitted[of "gate_demo RUNNING 0 1 [GT_Counted, GT_Idle] GW_Idle" 0]
    by (simp add: gate_demo_simps)
  from gate_calls_terminate[OF this] show ?thesis
    by (simp add: gate_demo_def gate_work_def)
qed

end
