(* ===== verification/Wire_Request.thy ===== *)
theory Wire_Request
  imports Routes Wire_Headers Budget
begin

text \<open>
  The request side of the wire (\<open>fusen/src/wire/mod.rs\<close>): the JSON encoder of an invocation, the
  checks on what an encoder produced, and the HTTP request of one attempt.

  The functions of third-party crates the encoder calls are the fields of \<open>wire_lib\<close>: percent
  encoding, the parsers of header names, header values, request targets and URIs, and serde's JSON
  text.  A \<^verbatim>\<open>HashSet\<close> of names is a list; where the source iterates over one the model takes the order
  of declaration.
\<close>

record wire_lib =
  wl_url_encode :: "string \<Rightarrow> string"
  wl_header_name :: "string \<Rightarrow> string option"
  wl_header_value :: "string \<Rightarrow> string option"
  wl_json_to_vec :: "json \<Rightarrow> string option"
  wl_path_and_query :: "string \<Rightarrow> bool"
  wl_parse_uri :: "string \<Rightarrow> string option"

record RequestEncoding =
  re_service :: ServiceDescriptor
  re_method :: MethodDescriptor
  re_arguments :: "(string \<times> json) list"
  re_headers :: header_map

record EncodedRequest =
  er_method :: http_method
  er_path_and_query :: string
  er_headers :: header_map
  er_body :: string

section \<open>Text\<close>

text \<open>\<^verbatim>\<open>str::replace\<close> for a non-empty pattern, and \<^verbatim>\<open>join\<close>.\<close>

function replace_all :: "string \<Rightarrow> string \<Rightarrow> string \<Rightarrow> string" where
  "replace_all pat by s =
     (if pat = [] \<or> s = [] then s
      else (case strip_prefix pat s of
              Some rest \<Rightarrow> by @ replace_all pat by rest
            | None \<Rightarrow> hd s # replace_all pat by (tl s)))"
  by pat_completeness auto
termination
  by (relation "measure (\<lambda>(_, _, s). length s)") (auto simp: strip_prefix_Some_iff)

declare replace_all.simps [simp del]

fun join_with :: "string \<Rightarrow> string list \<Rightarrow> string" where
  "join_with sep [] = []"
| "join_with sep [x] = x"
| "join_with sep (x # xs) = x @ sep @ join_with sep xs"

definition invalid_http_parameter :: "string \<Rightarrow> error" where
  "invalid_http_parameter message = framework EC_InvalidArgument ''invalid_http_parameter'' message"

definition scalar_text :: "json \<Rightarrow> string \<Rightarrow> error + string" where
  "scalar_text v name =
     (case v of
        JString s \<Rightarrow> Inr s
      | JBool b \<Rightarrow> Inr (if b then ''true'' else ''false'')
      | JNumber n \<Rightarrow> Inr n
      | _ \<Rightarrow> Inl (invalid_http_parameter (''HTTP text argument '' @ name @ '' must be a scalar'')))"

definition cookie_byte :: "char \<Rightarrow> bool" where
  "cookie_byte c =
     (byte c = 33 \<or> (35 \<le> byte c \<and> byte c \<le> 43) \<or> (45 \<le> byte c \<and> byte c \<le> 58)
      \<or> (60 \<le> byte c \<and> byte c \<le> 91) \<or> (93 \<le> byte c \<and> byte c \<le> 126))"

definition cookie_text :: "json \<Rightarrow> string \<Rightarrow> error + string" where
  "cookie_text v name =
     bind_result (scalar_text v name) (\<lambda>t.
       if list_all cookie_byte t then Inr t
       else Inl (framework EC_InvalidArgument ''invalid_cookie_parameter''
              (''cookie argument '' @ name @ '' contains a character that is not allowed on the wire'')))"

section \<open>The query\<close>

definition invalid_query_cardinality :: "string \<Rightarrow> string \<Rightarrow> error" where
  "invalid_query_cardinality name detail =
     invalid_http_parameter (''HTTP query argument '' @ name @ '' '' @ detail)"

definition query_pair :: "wire_lib \<Rightarrow> string \<Rightarrow> string \<Rightarrow> string" where
  "query_pair lib name v = wl_url_encode lib name @ ''='' @ wl_url_encode lib v"

fun append_repeated ::
  "wire_lib \<Rightarrow> string \<Rightarrow> json list \<Rightarrow> string list \<Rightarrow> error + string list" where
  "append_repeated lib name [] query = Inr query"
| "append_repeated lib name (v # vs) query =
     bind_result (scalar_text v name) (\<lambda>t. append_repeated lib name vs (query @ [query_pair lib name t]))"

definition append_query ::
  "wire_lib \<Rightarrow> string \<Rightarrow> HttpParameterCardinality \<Rightarrow> json \<Rightarrow> string list \<Rightarrow> error + string list" where
  "append_query lib name cardinality v query =
     (case cardinality of
        PC_Scalar \<Rightarrow>
          (case v of
             JNull \<Rightarrow> Inr query
           | JArray _ \<Rightarrow> Inl (invalid_query_cardinality name
               ''is an array but is declared scalar; add `#[param(query, repeated)]`'')
           | _ \<Rightarrow> bind_result (scalar_text v name) (\<lambda>t. Inr (query @ [query_pair lib name t])))
      | PC_Repeated \<Rightarrow>
          (case v of
             JArray values \<Rightarrow> append_repeated lib name values query
           | _ \<Rightarrow> Inl (invalid_query_cardinality name
               (''is declared repeated but did not serialize as an array; ''
                @ ''serialize it as an array or remove `repeated`''))))"

definition query_contains :: "wire_lib \<Rightarrow> string list \<Rightarrow> string \<Rightarrow> bool" where
  "query_contains lib query name = list_ex (starts_with (wl_url_encode lib name @ ''='')) query"

definition ignored_entry :: "json \<Rightarrow> bool" where
  "ignored_entry v = (v = JNull \<or> v = JArray [])"

fun append_scalars :: "wire_lib \<Rightarrow> string \<Rightarrow> json list \<Rightarrow> string list \<Rightarrow> error + string list" where
  "append_scalars lib name [] query = Inr query"
| "append_scalars lib name (v # vs) query =
     bind_result (append_query lib name PC_Scalar v query) (append_scalars lib name vs)"

fun append_query_entries ::
  "wire_lib \<Rightarrow> string list \<Rightarrow> (string \<times> json) list \<Rightarrow> string list \<Rightarrow> error + string list" where
  "append_query_entries lib explicit [] query = Inr query"
| "append_query_entries lib explicit ((name, v) # entries) query =
     (if ignored_entry v then append_query_entries lib explicit entries query
      else if name \<in> set explicit \<or> query_contains lib query name
      then Inl (framework EC_InvalidArgument ''duplicate_query_parameter''
             (''query_map conflicts with query parameter '' @ name))
      else bind_result
             (case v of
                JArray values \<Rightarrow> append_scalars lib name values query
              | _ \<Rightarrow> append_query lib name PC_Scalar v query)
             (append_query_entries lib explicit entries))"

definition append_query_map ::
  "wire_lib \<Rightarrow> json \<Rightarrow> string list \<Rightarrow> string list \<Rightarrow> error + string list" where
  "append_query_map lib v explicit query =
     (case v of
        JObject entries \<Rightarrow> append_query_entries lib explicit entries query
      | JNull \<Rightarrow> Inr query
      | _ \<Rightarrow> Inl (framework EC_InvalidArgument ''invalid_query_map''
               ''query_map argument must serialize as a JSON object''))"

section \<open>The headers\<close>

definition header_conflict :: "string \<Rightarrow> error" where
  "header_conflict name = framework EC_InvalidArgument ''header_binding_conflict''
     (''HTTP header '' @ name @ '' has more than one owner'')"

definition runtime_owned_headers :: "string list" where
  "runtime_owned_headers =
     [CONTENT_TYPE, ACCEPT, REQUEST_ID, TIMEOUT_MS, ATTEMPT, SERVICE_GROUP, SERVICE_VERSION,
      CONTENT_LENGTH, HOST, CONNECTION, TE, TRAILER, TRANSFER_ENCODING, UPGRADE]"

definition is_runtime_owned_header :: "string \<Rightarrow> bool" where
  "is_runtime_owned_header name = (name \<in> set runtime_owned_headers)"

text \<open>The first of the names the headers contain is the conflict that is reported.\<close>

definition reject_headers :: "string list \<Rightarrow> header_map \<Rightarrow> error + unit" where
  "reject_headers names headers =
     (case find (contains_key headers) names of
        Some name \<Rightarrow> Inl (header_conflict name)
      | None \<Rightarrow> Inr ())"

definition reject_binding_owned_headers :: "header_map \<Rightarrow> error + unit" where
  "reject_binding_owned_headers headers = reject_headers runtime_owned_headers headers"

definition bound_header_name :: "wire_lib \<Rightarrow> string \<Rightarrow> error + string" where
  "bound_header_name lib name =
     (case wl_header_name lib name of
        Some n \<Rightarrow> Inr n
      | None \<Rightarrow> Inl (framework EC_InvalidArgument ''invalid_header_parameter''
               ''header argument name is not a valid HTTP header name''))"

definition insert_bound_header ::
  "wire_lib \<Rightarrow> string \<Rightarrow> json \<Rightarrow> header_map \<Rightarrow> error + header_map" where
  "insert_bound_header lib name v headers =
     bind_result (bound_header_name lib name) (\<lambda>name.
       if contains_key headers name \<or> is_runtime_owned_header name
       then Inl (header_conflict name)
       else bind_result (scalar_text v name) (\<lambda>t.
              case wl_header_value lib t of
                Some t \<Rightarrow> Inr (insert_header name t headers)
              | None \<Rightarrow> Inl (framework EC_InvalidArgument ''invalid_header_parameter''
                       ''header argument cannot be represented as an HTTP header value'')))"

definition invalid_header_map :: "string \<Rightarrow> error" where
  "invalid_header_map message = framework EC_InvalidArgument ''invalid_header_map'' message"

fun append_header_values ::
  "wire_lib \<Rightarrow> string \<Rightarrow> json list \<Rightarrow> header_map \<Rightarrow> error + header_map" where
  "append_header_values lib name [] headers = Inr headers"
| "append_header_values lib name (v # vs) headers =
     bind_result (scalar_text v name) (\<lambda>t.
       case wl_header_value lib t of
         Some t \<Rightarrow> append_header_values lib name vs (append_header name t headers)
       | None \<Rightarrow> Inl (invalid_header_map ''header_map contains an invalid HTTP header value''))"

fun append_header_entries ::
  "wire_lib \<Rightarrow> string list \<Rightarrow> (string \<times> json) list \<Rightarrow> header_map \<Rightarrow> error + header_map" where
  "append_header_entries lib explicit [] headers = Inr headers"
| "append_header_entries lib explicit ((name, v) # entries) headers =
     (if ignored_entry v then append_header_entries lib explicit entries headers
      else (case wl_header_name lib name of
              None \<Rightarrow> Inl (invalid_header_map ''header_map contains an invalid HTTP header name'')
            | Some name \<Rightarrow>
                if name \<in> set explicit \<or> contains_key headers name \<or> is_runtime_owned_header name
                then Inl (header_conflict name)
                else bind_result
                       (append_header_values lib name (case v of JArray values \<Rightarrow> values | _ \<Rightarrow> [v]) headers)
                       (append_header_entries lib explicit entries)))"

definition append_header_map ::
  "wire_lib \<Rightarrow> json \<Rightarrow> string list \<Rightarrow> header_map \<Rightarrow> error + header_map" where
  "append_header_map lib v explicit headers =
     (case v of
        JObject entries \<Rightarrow> append_header_entries lib explicit entries headers
      | JNull \<Rightarrow> Inr headers
      | _ \<Rightarrow> Inl (invalid_header_map ''header_map argument must serialize as a JSON object''))"

section \<open>The JSON encoder\<close>

text \<open>The locals of \<open>encode_json_request\<close> that its loop over the parameters updates.\<close>

record request_parts =
  rq_path :: string
  rq_query :: "string list"
  rq_headers :: header_map
  rq_body :: "json option"
  rq_fields :: "(string \<times> json) list"
  rq_cookies :: "string list"

definition placeholder :: "string \<Rightarrow> string" where
  "placeholder name = CHR ''{'' # name @ ''}''"

definition encode_parameter ::
  "wire_lib \<Rightarrow> string list \<Rightarrow> string list \<Rightarrow> (string \<times> json) list \<Rightarrow> HttpParameter \<Rightarrow>
   request_parts \<Rightarrow> error + request_parts" where
  "encode_parameter lib explicit_query explicit_headers arguments p st =
     (let v = (case map_of arguments (hp_name p) of Some v \<Rightarrow> v | None \<Rightarrow> JNull)
      in case hp_source p of
           PS_Path \<Rightarrow>
             bind_result (scalar_text v (hp_name p)) (\<lambda>t.
               Inr (st\<lparr>rq_path := replace_all (placeholder (hp_name p)) (wl_url_encode lib t) (rq_path st)\<rparr>))
         | PS_Query \<Rightarrow>
             bind_result (append_query lib (hp_name p) (hp_cardinality p) v (rq_query st))
               (\<lambda>query. Inr (st\<lparr>rq_query := query\<rparr>))
         | PS_Header \<Rightarrow>
             if v = JNull then Inr st
             else bind_result (insert_bound_header lib (hp_name p) v (rq_headers st))
                    (\<lambda>headers. Inr (st\<lparr>rq_headers := headers\<rparr>))
         | PS_Cookie \<Rightarrow>
             if v = JNull then Inr st
             else bind_result (cookie_text v (hp_name p))
                    (\<lambda>t. Inr (st\<lparr>rq_cookies := rq_cookies st @ [hp_name p @ ''='' @ t]\<rparr>))
         | PS_BodyField \<Rightarrow> Inr (st\<lparr>rq_fields := bt_insert (hp_name p) v (rq_fields st)\<rparr>)
         | PS_Body \<Rightarrow> Inr (st\<lparr>rq_body := Some v\<rparr>)
         | PS_QueryMap \<Rightarrow>
             bind_result (append_query_map lib v explicit_query (rq_query st))
               (\<lambda>query. Inr (st\<lparr>rq_query := query\<rparr>))
         | PS_HeaderMap \<Rightarrow>
             bind_result (append_header_map lib v explicit_headers (rq_headers st))
               (\<lambda>headers. Inr (st\<lparr>rq_headers := headers\<rparr>)))"

fun encode_parameters ::
  "wire_lib \<Rightarrow> string list \<Rightarrow> string list \<Rightarrow> (string \<times> json) list \<Rightarrow> HttpParameter list \<Rightarrow>
   request_parts \<Rightarrow> error + request_parts" where
  "encode_parameters lib eq eh arguments [] st = Inr st"
| "encode_parameters lib eq eh arguments (p # ps) st =
     bind_result (encode_parameter lib eq eh arguments p st) (encode_parameters lib eq eh arguments ps)"

definition insert_checked ::
  "wire_lib \<Rightarrow> string \<Rightarrow> string \<Rightarrow> error \<Rightarrow> header_map \<Rightarrow> error + header_map" where
  "insert_checked lib name v e headers =
     (case wl_header_value lib v of Some v \<Rightarrow> Inr (insert_header name v headers) | None \<Rightarrow> Inl e)"

definition insert_cookie_header ::
  "wire_lib \<Rightarrow> string list \<Rightarrow> header_map \<Rightarrow> error + header_map" where
  "insert_cookie_header lib cookies headers =
     (if cookies = [] then Inr headers
      else if contains_key headers COOKIE then Inl (header_conflict COOKIE)
      else insert_checked lib COOKIE (join_with ''; '' cookies)
             (framework EC_InvalidArgument ''invalid_cookie_parameter''
                ''cookie argument cannot be represented as an HTTP Cookie header'') headers)"

definition encode_body :: "wire_lib \<Rightarrow> request_parts \<Rightarrow> error + string" where
  "encode_body lib st =
     (case (if rq_body st = None \<and> rq_fields st \<noteq> [] then Some (JObject (rq_fields st)) else rq_body st) of
        None \<Rightarrow> Inr []
      | Some v \<Rightarrow>
          (case wl_json_to_vec lib v of
             Some body \<Rightarrow> Inr body
           | None \<Rightarrow> Inl (Error_internal ''failed to encode JSON request body'' [])))"

definition finish_headers ::
  "wire_lib \<Rightarrow> HttpOperation \<Rightarrow> string \<Rightarrow> header_map \<Rightarrow> error + header_map" where
  "finish_headers lib mapping body headers =
     bind_result
       (if body = [] then Inr headers
        else insert_checked lib CONTENT_TYPE (ho_consumes mapping)
               (framework EC_InvalidArgument ''invalid_consumes_media_type''
                  ''request media type cannot be represented as Content-Type'') headers)
       (insert_checked lib ACCEPT (ho_produces mapping)
          (framework EC_InvalidArgument ''invalid_produces_media_type''
             ''response media type cannot be represented as Accept''))"

definition encode_json_request :: "wire_lib \<Rightarrow> RequestEncoding \<Rightarrow> error + EncodedRequest" where
  "encode_json_request lib request =
     (let mapping = md_http (re_method request);
          parameters = ho_parameters mapping;
          explicit_query = map hp_name (of_source PS_Query parameters)
      in bind_result (reject_binding_owned_headers (re_headers request)) (\<lambda>_.
         bind_result (collect_results (map (\<lambda>p. bound_header_name lib (hp_name p)) (of_source PS_Header parameters)))
           (\<lambda>explicit_headers.
         bind_result (reject_headers (remdups explicit_headers) (re_headers request)) (\<lambda>_.
         if of_source PS_Cookie parameters \<noteq> [] \<and> contains_key (re_headers request) COOKIE
         then Inl (header_conflict COOKIE)
         else
         bind_result (encode_parameters lib explicit_query explicit_headers (re_arguments request) parameters
             \<lparr>rq_path = ho_path mapping, rq_query = [], rq_headers = re_headers request, rq_body = None,
              rq_fields = [], rq_cookies = []\<rparr>) (\<lambda>st.
         bind_result (insert_cookie_header lib (rq_cookies st) (rq_headers st)) (\<lambda>headers.
         bind_result (encode_body lib st) (\<lambda>body.
         bind_result (finish_headers lib mapping body headers) (\<lambda>headers.
           Inr \<lparr>er_method = ho_method mapping,
                er_path_and_query =
                  (if rq_query st = [] then rq_path st
                   else rq_path st @ ''?'' @ join_with ''&'' (rq_query st)),
                er_headers = headers, er_body = body\<rparr>))))))))"

section \<open>Templates and attempts\<close>

record RequestTemplate =
  tp_method :: http_method
  tp_path_and_query :: string
  tp_headers :: header_map
  tp_body :: string
  tp_permit :: BytePermit

definition codec_panic :: error where
  "codec_panic = framework EC_Internal ''codec_panic''
     ''HTTP codec panicked while processing a service invocation''"

definition request_too_large :: error where
  "request_too_large = framework EC_PayloadTooLarge ''request_too_large''
     ''encoded request body exceeds the configured limit''"

definition request_budget_exhausted :: error where
  "request_budget_exhausted = framework EC_ResourceExhausted ''request_byte_budget_exhausted''
     ''client request byte budget is exhausted''"

definition encoder_forbidden_headers :: "string list" where
  "encoder_forbidden_headers =
     [REQUEST_ID, TIMEOUT_MS, ATTEMPT, SERVICE_GROUP, SERVICE_VERSION, CONTENT_LENGTH, HOST, CONNECTION,
      TE, TRAILER, TRANSFER_ENCODING, UPGRADE]"

definition validate_encoded_request ::
  "wire_lib \<Rightarrow> MethodDescriptor \<Rightarrow> http_method \<Rightarrow> string \<Rightarrow> header_map \<Rightarrow> error + unit" where
  "validate_encoded_request lib descriptor encoded_method path_and_query headers =
     (if encoded_method \<noteq> ho_method (md_http descriptor)
      then Inl (framework EC_InvalidArgument ''invalid_encoded_request_method''
             ''request encoder method must match the canonical HTTP operation'')
      else if \<not> starts_with ''/'' path_and_query \<or> \<not> wl_path_and_query lib path_and_query
      then Inl (framework EC_InvalidArgument ''invalid_encoded_request_uri''
             ''request encoder must produce a valid absolute-path URI without authority'')
      else reject_headers encoder_forbidden_headers headers)"

text \<open>The encoder is an argument; \<open>None\<close> is its panic.\<close>

definition encode_request_template ::
  "wire_lib \<Rightarrow> (RequestEncoding \<Rightarrow> (error + EncodedRequest) option) \<Rightarrow> RequestEncoding \<Rightarrow> nat \<Rightarrow> ByteBudget \<Rightarrow>
   (error + RequestTemplate) \<times> ByteBudget" where
  "encode_request_template lib encoder request max_body b =
     (case encoder request of
        None \<Rightarrow> (Inl codec_panic, b)
      | Some (Inl e) \<Rightarrow> (Inl (with_local_origin e), b)
      | Some (Inr encoded) \<Rightarrow>
          (case validate_encoded_request lib (re_method request) (er_method encoded)
                  (er_path_and_query encoded) (er_headers encoded) of
             Inl e \<Rightarrow> (Inl e, b)
           | Inr _ \<Rightarrow>
               if max_body < length (er_body encoded) then (Inl request_too_large, b)
               else (case try_reserve (length (er_body encoded)) b of
                       (None, b) \<Rightarrow> (Inl request_budget_exhausted, b)
                     | (Some permit, b) \<Rightarrow>
                         (Inr \<lparr>tp_method = er_method encoded, tp_path_and_query = er_path_and_query encoded,
                               tp_headers = er_headers encoded, tp_body = er_body encoded, tp_permit = permit\<rparr>,
                          b))))"

definition endpoint_uri :: "wire_lib \<Rightarrow> url \<Rightarrow> string \<Rightarrow> error + string" where
  "endpoint_uri lib endpoint path_and_query =
     (if u_scheme endpoint \<noteq> ''http'' \<and> u_scheme endpoint \<noteq> ''https''
      then Inl (framework EC_InvalidArgument ''unsupported_endpoint_scheme''
             ''client transport accepts only http or https endpoints'')
      else (let v = rev (dropWhile (\<lambda>c. c = CHR ''/'') (rev (u_as_str endpoint)));
                v = (if starts_with ''/'' path_and_query then v else v @ ''/'');
                v = v @ path_and_query
            in case wl_parse_uri lib v of
                 Some uri \<Rightarrow> Inr uri
               | None \<Rightarrow> Inl (Error_internal ''failed to construct canonical HTTP URI'' [])))"

record attempt_request =
  ar_method :: http_method
  ar_version :: http_version
  ar_uri :: string
  ar_headers :: header_map
  ar_body :: string

definition insert_optional ::
  "wire_lib \<Rightarrow> string \<Rightarrow> string option \<Rightarrow> string \<Rightarrow> header_map \<Rightarrow> error + header_map" where
  "insert_optional lib name v message headers =
     (case v of
        None \<Rightarrow> Inr headers
      | Some v \<Rightarrow> insert_checked lib name v (Error_internal message []) headers)"

definition control_headers ::
  "wire_lib \<Rightarrow> string \<Rightarrow> duration \<Rightarrow> nat \<Rightarrow> ServiceDescriptor \<Rightarrow> header_map \<Rightarrow> error + header_map" where
  "control_headers lib request_id remaining attempt service headers =
     bind_result (insert_checked lib REQUEST_ID request_id
         (Error_internal ''invalid generated request ID'' []) headers) (\<lambda>headers.
     bind_result (insert_checked lib TIMEOUT_MS (nat_to_string (min (remaining div 10 ^ 6) MAX_TIMEOUT_MS))
         (Error_internal ''invalid timeout header'' []) headers) (\<lambda>headers.
     bind_result (insert_checked lib ATTEMPT (nat_to_string attempt)
         (Error_internal ''invalid attempt header'' []) headers) (\<lambda>headers.
     bind_result (insert_optional lib SERVICE_GROUP (ss_group (sd_selector service))
         ''invalid service group'' headers)
       (insert_optional lib SERVICE_VERSION (ss_version (sd_selector service)) ''invalid service version''))))"

definition to_request ::
  "wire_lib \<Rightarrow> RequestTemplate \<Rightarrow> url \<Rightarrow> http_version \<Rightarrow> string \<Rightarrow> duration \<Rightarrow> nat \<Rightarrow> bool \<Rightarrow>
   ServiceDescriptor \<Rightarrow> error + attempt_request" where
  "to_request lib tp endpoint version request_id remaining attempt invocation_controls service =
     bind_result (endpoint_uri lib endpoint (tp_path_and_query tp)) (\<lambda>uri.
     bind_result
       (if invocation_controls then control_headers lib request_id remaining attempt service (tp_headers tp)
        else Inr (tp_headers tp)) (\<lambda>headers.
       Inr \<lparr>ar_method = tp_method tp, ar_version = version, ar_uri = uri, ar_headers = headers,
            ar_body = tp_body tp\<rparr>))"

end
