(* ===== verification/Wire_Request_Theorems.thy ===== *)
theory Wire_Request_Theorems
  imports Wire_Request Routes_Claims Wire_Problem
begin

text \<open>
  What the client encodes the server understands: the path of an encoded request leads back to the
  route and the path arguments of the invocation, and the control headers of an attempt parse back
  to the values they were made from.
\<close>

section \<open>Replacing placeholders\<close>

lemma strip_prefix_None_iff: "strip_prefix p s = None \<longleftrightarrow> (\<forall>t. s \<noteq> p @ t)"
  using strip_prefix_Some_iff[of p s] by (metis not_None_eq)

lemma replace_all_skip:
  assumes "hd pat \<notin> set s" "pat \<noteq> []"
  shows "replace_all pat by (s @ t) = s @ replace_all pat by t"
  using assms
proof (induction s)
  case (Cons c s)
  have "strip_prefix pat (c # s @ t) = None"
    using Cons.prems by (cases pat) (auto simp: strip_prefix_None_iff)
  then show ?case using Cons by (simp add: replace_all.simps[of pat "by" "c # s @ t"])
qed simp

lemma replace_all_hit:
  "pat \<noteq> [] \<Longrightarrow> replace_all pat by (pat @ t) = by @ replace_all pat by t"
  by (simp add: replace_all.simps[of pat "by" "pat @ t"])

lemma replace_all_Nil [simp]: "replace_all pat by [] = []"
  by (simp add: replace_all.simps)

definition brace_free :: "string \<Rightarrow> bool" where
  "brace_free s \<longleftrightarrow> CHR ''{'' \<notin> set s \<and> CHR ''}'' \<notin> set s"

lemma replace_all_miss:
  assumes "brace_free n" "brace_free m" "n \<noteq> m"
  shows "replace_all (placeholder n) by (placeholder m @ t) = placeholder m @ replace_all (placeholder n) by t"
proof -
  have "strip_prefix (placeholder n) (placeholder m @ t) = None"
  proof (rule ccontr)
    assume "strip_prefix (placeholder n) (placeholder m @ t) \<noteq> None"
    then obtain u where "m @ CHR ''}'' # t = n @ CHR ''}'' # u"
      by (auto simp: strip_prefix_Some_iff placeholder_def)
    then have "split_once (CHR ''}'') (m @ CHR ''}'' # t) = split_once (CHR ''}'') (n @ CHR ''}'' # u)" by simp
    then show False using assms split_once_append[of "CHR ''}''"] by (simp add: brace_free_def)
  qed
  then have "replace_all (placeholder n) by (placeholder m @ t)
      = CHR ''{'' # replace_all (placeholder n) by ((m @ ''}'') @ t)"
    by (simp add: placeholder_def replace_all.simps[of "CHR ''{'' # n @ ''}''" "by" "CHR ''{'' # m @ CHR ''}'' # t"])
  also have "replace_all (placeholder n) by ((m @ ''}'') @ t) = (m @ ''}'') @ replace_all (placeholder n) by t"
    using assms(2) by (intro replace_all_skip) (simp_all add: placeholder_def brace_free_def)
  finally show ?thesis by (simp add: placeholder_def)
qed

text \<open>A template some of whose placeholders are already replaced.\<close>

fun fill_segment :: "(string \<Rightarrow> string option) \<Rightarrow> Segment \<Rightarrow> string" where
  "fill_segment \<sigma> (Literal d) = encode_route_literal d"
| "fill_segment \<sigma> (Parameter n) = (case \<sigma> n of Some t \<Rightarrow> t | None \<Rightarrow> placeholder n)"

definition fill_template :: "(string \<Rightarrow> string option) \<Rightarrow> Segment list \<Rightarrow> string" where
  "fill_template \<sigma> segs = join_path (map (fill_segment \<sigma>) segs)"

lemma fill_template_empty: "fill_template (\<lambda>_. None) segs = render_template segs"
proof -
  have "fill_segment (\<lambda>_. None) seg = render_segment seg" for seg
    by (cases seg) (simp_all add: placeholder_def)
  then have "fill_segment (\<lambda>_. None) = render_segment" by (rule ext)
  then show ?thesis by (simp add: fill_template_def render_template_join)
qed

lemma replace_segment:
  assumes "segment_ok seg" "brace_free n" "\<sigma> n = None" "\<And>m t. \<sigma> m = Some t \<Longrightarrow> brace_free t"
  shows "replace_all (placeholder n) e (fill_segment \<sigma> seg @ t)
         = fill_segment (\<sigma>(n \<mapsto> e)) seg @ replace_all (placeholder n) e t"
proof (cases seg)
  case (Literal d)
  then have "CHR ''{'' \<notin> set (encode_route_literal d)"
    using assms(1) encode_route_literal_plain by (simp add: literal_ok_def)
  then show ?thesis using Literal replace_all_skip[of "placeholder n"] by (simp add: placeholder_def)
next
  case (Parameter m)
  then have m: "brace_free m"
    using assms(1) identity_byte_plain by (auto simp: is_identity_component_def list_all_iff brace_free_def)
  show ?thesis
  proof (cases "m = n")
    case True
    then show ?thesis using Parameter assms(3) replace_all_hit[of "placeholder n"] by (simp add: placeholder_def)
  next
    case False
    show ?thesis
    proof (cases "\<sigma> m")
      case None
      then show ?thesis using Parameter False replace_all_miss[OF assms(2) m] by simp
    next
      case (Some u)
      then have "CHR ''{'' \<notin> set u" using assms(4) by (simp add: brace_free_def)
      then show ?thesis
        using Parameter False Some replace_all_skip[of "placeholder n"] by (simp add: placeholder_def)
    qed
  qed
qed

lemma replace_template:
  assumes "list_all segment_ok segs" "brace_free n" "\<sigma> n = None" "\<And>m t. \<sigma> m = Some t \<Longrightarrow> brace_free t"
  shows "replace_all (placeholder n) e (fill_template \<sigma> segs) = fill_template (\<sigma>(n \<mapsto> e)) segs"
proof -
  have slash: "replace_all (placeholder n) e (CHR ''/'' # t) = CHR ''/'' # replace_all (placeholder n) e t" for t
    using replace_all_skip[of "placeholder n" "''/''" e t] by (simp add: placeholder_def)
  define \<tau> where "\<tau> = \<sigma>(n \<mapsto> e)"
  have seg: "replace_all (placeholder n) e (fill_segment \<sigma> x @ t)
      = fill_segment \<tau> x @ replace_all (placeholder n) e t" if "segment_ok x" for x t
    unfolding \<tau>_def using that assms by (intro replace_segment) blast+
  have "replace_all (placeholder n) e (concat (map ((#) (CHR ''/'')) (map (fill_segment \<sigma>) xs)))
      = concat (map ((#) (CHR ''/'')) (map (fill_segment \<tau>) xs))"
    if "list_all segment_ok xs" for xs
    using that
  proof (induction xs)
    case (Cons x xs)
    then show ?case using seg[of x] slash by simp
  qed simp
  then show ?thesis
    using assms(1) slash[of "[]"] unfolding \<tau>_def[symmetric]
    by (simp add: fill_template_def join_path_def)
qed

section \<open>The path of an encoded request\<close>

text \<open>The text of the argument of a path parameter, and its percent encoding.\<close>

definition path_text :: "(string \<times> json) list \<Rightarrow> string \<Rightarrow> string option" where
  "path_text arguments n =
     (case scalar_text (case map_of arguments n of Some v \<Rightarrow> v | None \<Rightarrow> JNull) n of
        Inr t \<Rightarrow> Some t | Inl _ \<Rightarrow> None)"

definition path_filling ::
  "wire_lib \<Rightarrow> (string \<times> json) list \<Rightarrow> HttpParameter list \<Rightarrow> string \<Rightarrow> string option" where
  "path_filling lib arguments ps n =
     (if n \<in> hp_name ` set (of_source PS_Path ps)
      then map_option (wl_url_encode lib) (path_text arguments n) else None)"

lemma encode_parameter_path:
  assumes "encode_parameter lib eq eh arguments p st = Inr st'"
  shows "hp_source p \<noteq> PS_Path \<Longrightarrow> rq_path st' = rq_path st"
    and "hp_source p = PS_Path \<Longrightarrow> \<exists>t. path_text arguments (hp_name p) = Some t
           \<and> rq_path st' = replace_all (placeholder (hp_name p)) (wl_url_encode lib t) (rq_path st)"
  using assms
  by (auto simp: encode_parameter_def path_text_def Let_def bind_result_Inr_iff
      split: HttpParameterSource.splits if_splits)

lemma encode_parameters_path:
  assumes "encode_parameters lib eq eh arguments ps st = Inr st'"
    and "list_all segment_ok segs" "distinct (map hp_name ps)"
    and "\<And>n. n \<in> hp_name ` set (of_source PS_Path ps) \<Longrightarrow> brace_free n"
    and "\<And>n t. \<lbrakk>n \<in> hp_name ` set (of_source PS_Path ps); path_text arguments n = Some t\<rbrakk> \<Longrightarrow>
            brace_free (wl_url_encode lib t)"
    and "rq_path st = fill_template \<sigma> segs" "\<And>m t. \<sigma> m = Some t \<Longrightarrow> brace_free t"
    and "\<And>n. n \<in> hp_name ` set ps \<Longrightarrow> \<sigma> n = None"
  shows "rq_path st' = fill_template (\<sigma> ++ path_filling lib arguments ps) segs
         \<and> (\<forall>n \<in> hp_name ` set (of_source PS_Path ps). path_text arguments n \<noteq> None)"
  using assms(1,3-)
proof (induction ps arbitrary: st \<sigma>)
  case Nil
  then show ?case by (simp add: path_filling_def of_source_def map_add_def)
next
  case (Cons p ps)
  then obtain st1 where st1: "encode_parameter lib eq eh arguments p st = Inr st1"
    "encode_parameters lib eq eh arguments ps st1 = Inr st'"
    by (auto simp: bind_result_Inr_iff)
  note path = encode_parameter_path[OF st1(1)]
  have sub: "n \<in> hp_name ` set (of_source PS_Path ps) \<Longrightarrow> n \<in> hp_name ` set ps" for n
    by (auto simp: of_source_def)
  show ?case
  proof (cases "hp_source p = PS_Path")
    case False
    then have src: "of_source PS_Path (p # ps) = of_source PS_Path ps" by (simp add: of_source_def)
    have "rq_path st1 = fill_template \<sigma> segs" using path(1)[OF False] Cons.prems(5) by simp
    from Cons.IH[OF st1(2) _ _ _ this Cons.prems(6)] Cons.prems(2,3,4,7)
    show ?thesis unfolding path_filling_def src by simp
  next
    case True
    then obtain t where t: "path_text arguments (hp_name p) = Some t"
      "rq_path st1 = replace_all (placeholder (hp_name p)) (wl_url_encode lib t) (rq_path st)"
      using path(2) by blast
    have src: "of_source PS_Path (p # ps) = p # of_source PS_Path ps" using True by (simp add: of_source_def)
    define \<tau> where "\<tau> = \<sigma>(hp_name p \<mapsto> wl_url_encode lib t)"
    have "brace_free (hp_name p)" using Cons.prems(3) by (simp add: src)
    then have p1: "rq_path st1 = fill_template \<tau> segs"
      using replace_template[OF assms(2), of "hp_name p" \<sigma>] Cons.prems(5,6,7) t(2) by (simp add: \<tau>_def)
    have p2: "brace_free u" if "\<tau> m = Some u" for m u
      using that Cons.prems(4)[OF _ t(1)] Cons.prems(6) by (auto simp: \<tau>_def src split: if_splits)
    have p3: "\<tau> n = None" if "n \<in> hp_name ` set ps" for n
      using that Cons.prems(2) Cons.prems(7)[of n] by (cases "n = hp_name p") (auto simp: \<tau>_def)
    have ih: "rq_path st' = fill_template (\<tau> ++ path_filling lib arguments ps) segs
         \<and> (\<forall>n \<in> hp_name ` set (of_source PS_Path ps). path_text arguments n \<noteq> None)"
      using Cons.prems(2,3,4) p1 p2 p3 by (intro Cons.IH[OF st1(2)]) (auto simp: src)
    have "path_filling lib arguments ps (hp_name p) = None"
      using sub Cons.prems(2) by (auto simp: path_filling_def)
    then have "\<tau> ++ path_filling lib arguments ps = \<sigma> ++ path_filling lib arguments (p # ps)"
      using t(1) by (intro ext) (auto simp: \<tau>_def map_add_def path_filling_def src split: option.split)
    then show ?thesis using ih t(1) by (simp add: src)
  qed
qed

section \<open>The same path at the server\<close>

text \<open>What percent coding does to a text: it comes back, and the code is harmless in a path.\<close>

definition percent_coded :: "wire_lib \<Rightarrow> (string \<Rightarrow> string option) \<Rightarrow> string \<Rightarrow> bool" where
  "percent_coded lib url_decode t \<longleftrightarrow>
     wl_url_encode lib t \<noteq> [] \<and> url_decode (wl_url_encode lib t) = Some t
     \<and> set (wl_url_encode lib t) \<inter> {CHR ''/'', CHR ''{'', CHR ''}'', CHR ''?''} = {}"

text \<open>The segments of the request: literals as they are, placeholders by their arguments.\<close>

fun argument_segment :: "(string \<times> json) list \<Rightarrow> Segment \<Rightarrow> string" where
  "argument_segment arguments (Literal d) = d"
| "argument_segment arguments (Parameter n) = (case path_text arguments n of Some t \<Rightarrow> t | None \<Rightarrow> [])"

definition filled_with :: "wire_lib \<Rightarrow> (string \<times> json) list \<Rightarrow> string \<Rightarrow> string option" where
  "filled_with lib arguments n = map_option (wl_url_encode lib) (path_text arguments n)"

definition coded_arguments ::
  "wire_lib \<Rightarrow> (string \<Rightarrow> string option) \<Rightarrow> (string \<times> json) list \<Rightarrow> string set \<Rightarrow> bool" where
  "coded_arguments lib url_decode arguments names \<longleftrightarrow>
     (\<forall>n \<in> names. \<exists>t. path_text arguments n = Some t \<and> percent_coded lib url_decode t)"

lemma filled_segment:
  assumes "segment_ok seg" "coded_arguments lib url_decode arguments (set (parameter_names [seg]))"
    and "\<And>d. literal_ok d \<Longrightarrow> url_decode (encode_route_literal d) = Some d"
  shows "url_decode (fill_segment (filled_with lib arguments) seg) = Some (argument_segment arguments seg)"
    and "fill_segment (filled_with lib arguments) seg \<noteq> []"
    and "CHR ''/'' \<notin> set (fill_segment (filled_with lib arguments) seg)"
    and "CHR ''?'' \<notin> set (fill_segment (filled_with lib arguments) seg)"
  using assms encode_route_literal_plain
  by (cases seg; auto simp: filled_with_def coded_arguments_def percent_coded_def literal_ok_def)+

lemma parameter_names_member:
  "seg \<in> set segs \<Longrightarrow> set (parameter_names [seg]) \<subseteq> set (parameter_names segs)"
  by (induction segs rule: parameter_names.induct) auto

lemma last_join_path:
  assumes "\<forall>s \<in> set ss. s \<noteq> [] \<and> CHR ''/'' \<notin> set s" "ss \<noteq> []"
  shows "last (join_path ss) \<noteq> CHR ''/'' \<and> join_path ss \<noteq> ''/''"
proof -
  obtain a s where ss: "ss = a @ [s]" using assms(2) by (cases ss rule: rev_cases) auto
  then have "s \<noteq> []" "last s \<noteq> CHR ''/''" using assms(1) by (auto dest: last_in_set)
  then show ?thesis by (simp add: ss join_path_def) (cases a; simp)
qed

lemma split_path_filled:
  assumes "list_all segment_ok segs" "coded_arguments lib url_decode arguments (set (parameter_names segs))"
    and dec: "\<And>d. literal_ok d \<Longrightarrow> url_decode (encode_route_literal d) = Some d"
  defines "path \<equiv> fill_template (filled_with lib arguments) segs"
  shows "split_path url_decode path = Inr (map (argument_segment arguments) segs)"
    and "CHR ''?'' \<notin> set path"
proof -
  let ?ss = "map (fill_segment (filled_with lib arguments)) segs"
  have each: "segment_ok seg \<and> coded_arguments lib url_decode arguments (set (parameter_names [seg]))"
    if "seg \<in> set segs" for seg
    using that assms(1,2) parameter_names_member[OF that] by (auto simp: list_all_iff coded_arguments_def)
  have plain: "\<forall>s \<in> set ?ss. s \<noteq> [] \<and> CHR ''/'' \<notin> set s"
    using filled_segment(2,3)[OF _ _ dec] each by auto
  have segments: "canonical_path path" "path_segments path = ?ss"
    using join_path_segments[OF plain] by (simp_all add: path_def fill_template_def)
  have slash: "path = ''/'' \<or> last path \<noteq> CHR ''/''"
    using last_join_path[OF plain] by (cases "segs = []") (auto simp: path_def fill_template_def join_path_def)
  have decoded: "map (\<lambda>segment. case url_decode segment of Some v \<Rightarrow> Inr v
        | None \<Rightarrow> Inl (framework EC_InvalidArgument ''invalid_path_encoding''
                          ''request path contains invalid percent encoding'')) ?ss
      = map (\<lambda>s. Inr (argument_segment arguments s)) segs"
    using filled_segment(1)[OF _ _ dec] each by simp
  show "split_path url_decode path = Inr (map (argument_segment arguments) segs)"
    using segments slash unfolding split_path_def segments(2) decoded
    by (auto simp: canonical_path_def)
  show "CHR ''?'' \<notin> set path"
    using filled_segment(4)[OF _ _ dec] each by (auto simp: path_def fill_template_def join_path_def)
qed

lemma captures_arguments:
  "shape_matches (shape_of segs) (map (argument_segment arguments) segs)
   \<and> captures (shape_of segs) (map (argument_segment arguments) segs)
     = map (\<lambda>n. argument_segment arguments (Parameter n)) (parameter_names segs)"
  by (induction segs rule: parameter_names.induct) (simp_all add: shape_of_def)

lemma encode_json_request_path:
  assumes enc: "encode_json_request lib request = Inr er"
    and op: "md_http (re_method request) = op" "ho_path op = render_template segs" "ho_parameters op = ps"
      "operation_ok (ho_method op) segs ps"
    and coded: "coded_arguments lib url_decode (re_arguments request) (set (parameter_names segs))"
  shows "\<exists>rest. er_path_and_query er = fill_template (filled_with lib (re_arguments request)) segs @ rest
           \<and> (rest = [] \<or> hd rest = CHR ''?'')"
proof -
  let ?args = "re_arguments request"
  have segs: "list_all segment_ok segs" and dist: "distinct (map hp_name ps)"
    and names: "set (parameter_names segs) = hp_name ` set (of_source PS_Path ps)"
    using op(4) by (simp_all add: operation_ok_def template_ok_def)
  have free: "brace_free n" if "n \<in> set (parameter_names segs)" for n
  proof -
    have "is_identity_component n"
      using that segs by (induction segs rule: parameter_names.induct) auto
    then show ?thesis using identity_byte_plain by (auto simp: is_identity_component_def list_all_iff brace_free_def)
  qed
  have "\<exists>eq eh st st'. encode_parameters lib eq eh ?args ps st = Inr st' \<and> rq_path st = ho_path op
      \<and> er_path_and_query er = (if rq_query st' = [] then rq_path st'
                   else rq_path st' @ ''?'' @ join_with ''&'' (rq_query st'))"
    using enc op(1,3) by (fastforce simp: encode_json_request_def Let_def bind_result_Inr_iff split: if_splits)
  then obtain eq eh st st' where run: "encode_parameters lib eq eh ?args ps st = Inr st'" "rq_path st = ho_path op"
    and er: "er_path_and_query er = (if rq_query st' = [] then rq_path st'
                   else rq_path st' @ ''?'' @ join_with ''&'' (rq_query st'))"
    by blast
  have start: "rq_path st = fill_template (\<lambda>_. None) segs"
    using run(2) op(2) by (simp add: fill_template_empty)
  have code: "brace_free (wl_url_encode lib t)"
    if "n \<in> hp_name ` set (of_source PS_Path ps)" "path_text ?args n = Some t" for n t
    using that coded unfolding coded_arguments_def names
    by (auto simp: percent_coded_def brace_free_def)
  have "rq_path st' = fill_template ((\<lambda>_. None) ++ path_filling lib ?args ps) segs"
    using encode_parameters_path[OF run(1) segs dist _ code start] free names by simp
  moreover have "fill_segment ((\<lambda>_. None) ++ path_filling lib ?args ps) seg = fill_segment (filled_with lib ?args) seg"
    if "seg \<in> set segs" for seg
    using parameter_names_member[OF that] names
    by (cases seg) (auto simp: path_filling_def filled_with_def map_add_def split: option.split)
  ultimately have "rq_path st' = fill_template (filled_with lib ?args) segs"
    by (simp add: fill_template_def cong: map_cong)
  then show ?thesis using er by (cases "rq_query st' = []") auto
qed

section \<open>Properties\<close>


lemma insert_checked_Some: "wl_header_value lib v = Some v \<Longrightarrow> insert_checked lib name v e h = Inr (insert_header name v h)"
  by (simp add: insert_checked_def)

lemma control_headers_get_all:
  assumes "control_headers lib request_id remaining attempt service headers = Inr h"
    and lib: "\<And>v v'. wl_header_value lib v = Some v' \<Longrightarrow> v' = v"
  shows "get_all h REQUEST_ID = [request_id]"
    and "get_all h TIMEOUT_MS = [nat_to_string (min (remaining div 10 ^ 6) MAX_TIMEOUT_MS)]"
    and "get_all h ATTEMPT = [nat_to_string attempt]"
  using assms(1)
  by (auto simp: control_headers_def insert_checked_def insert_optional_def bind_result_Inr_iff header_names
      split: option.splits dest!: lib)

text \<open>
  C26.  The control headers of an attempt parse back to what the client put there: the same request id
  and attempt number, and a deadline at the server that is never later than the client's own remaining
  time (whole milliseconds of it, at most a day) nor than the server's limit.
\<close>

theorem control_headers_round_trip:
  assumes h: "control_headers lib request_id remaining attempt service headers = Inr h"
    and lib: "\<And>v v'. wl_header_value lib v = Some v' \<Longrightarrow> v' = v"
    and ascii: "\<And>v. v \<in> {request_id, nat_to_string (min (remaining div 10 ^ 6) MAX_TIMEOUT_MS), nat_to_string attempt} \<Longrightarrow>
                  to_str v = Some v"
    and ids: "request_id_is_valid request_id" "1 \<le> attempt" "attempt \<le> 255"
  shows "parse_request_control to_str fresh_id now h local_timeout
         = Inr \<lparr>ctl_request_id = request_id,
                ctl_deadline = now + min local_timeout (from_millis (min (remaining div 10 ^ 6) MAX_TIMEOUT_MS)),
                ctl_attempt = attempt\<rparr>
         \<and> from_millis (min (remaining div 10 ^ 6) MAX_TIMEOUT_MS) \<le> remaining"
proof -
  let ?ms = "min (remaining div 10 ^ 6) MAX_TIMEOUT_MS"
  note get = control_headers_get_all[OF h lib]
  have ms: "?ms \<le> U64_MAX" "\<not> MAX_TIMEOUT_MS < ?ms" by (simp_all add: U64_MAX_def MAX_TIMEOUT_MS_def)
  have "parse_control_id to_str fresh_id h = Inr request_id"
    using get(1) ascii ids(1) by (simp add: parse_control_id_def one_header_def validate_request_id_def)
  moreover have "parse_control_timeout to_str h local_timeout = Inr (from_millis ?ms)"
    using get(2) ascii ms(2) parse_unsigned_to_string[OF ms(1)] by (simp add: parse_control_timeout_def one_header_def)
  moreover have "parse_control_attempt to_str h = Inr attempt"
    using get(3) ascii ids(2) parse_unsigned_to_string[OF ids(3)] by (simp add: parse_control_attempt_def one_header_def)
  ultimately have "parse_request_control to_str fresh_id now h local_timeout
         = Inr \<lparr>ctl_request_id = request_id, ctl_deadline = now + min local_timeout (from_millis ?ms),
                ctl_attempt = attempt\<rparr>"
    by (simp add: parse_request_control_def)
  have "?ms * 10 ^ 6 \<le> remaining div 10 ^ 6 * 10 ^ 6" by simp
  also have "\<dots> \<le> remaining" by (rule div_times_less_eq_dividend)
  finally have "from_millis ?ms \<le> remaining" by (simp add: from_millis_def)
  with \<open>parse_request_control to_str fresh_id now h local_timeout = _\<close> show ?thesis by simp
qed

section \<open>The hypotheses hold\<close>

definition demo_lib :: wire_lib where
  "demo_lib = \<lparr>wl_url_encode = encode_route_literal, wl_header_name = (\<lambda>n. Some (ascii_lowercase n)),
     wl_header_value = (\<lambda>v. Some v), wl_json_to_vec = (\<lambda>v. Some ''{}''), wl_path_and_query = (\<lambda>p. True),
     wl_parse_uri = (\<lambda>u. Some u)\<rparr>"

definition demo_request :: RequestEncoding where
  "demo_request = \<lparr>re_service = rt_service (demo_route 0), re_method = demo_method 0,
     re_arguments = [(''id'', JNumber ''7'')], re_headers = []\<rparr>"

lemma reject_headers_Nil: "reject_headers names [] = Inr ()"
proof -
  have "find (contains_key []) names = None" by (simp add: find_None_iff contains_key_def)
  then show ?thesis by (simp add: reject_headers_def)
qed

lemma demo_request_encodes: "\<exists>er. encode_json_request demo_lib demo_request = Inr er"
  by (simp add: encode_json_request_def demo_request_def demo_method_def demo_operation_def
      demo_parameters_def of_source_def reject_binding_owned_headers_def reject_headers_Nil
      encode_parameter_def scalar_text_def insert_cookie_header_def
      encode_body_def finish_headers_def insert_checked_def demo_lib_def)

lemma literal_percent_coded: "literal_ok t \<Longrightarrow> percent_coded demo_lib canonical_decode t"
  using canonical_decode_encode encode_route_literal_plain[of t]
  by (auto simp: percent_coded_def demo_lib_def literal_ok_def)

lemma demo_arguments_coded: "coded_arguments demo_lib canonical_decode [(''id'', JNumber ''7'')] {''id''}"
proof -
  have "literal_ok ''7''"
    by (simp add: literal_ok_def route_byte_def is_route_pchar_def ascii_defs byte_def Let_def
        char_is_whitespace_def char_is_control_def)
  then show ?thesis
    using literal_percent_coded by (simp add: coded_arguments_def path_text_def scalar_text_def)
qed


theorem control_headers_round_trip_witness:
  "\<exists>h. control_headers demo_lib ''r1'' 2500000 2 (rt_service (demo_route 0)) [] = Inr h
     \<and> parse_request_control (\<lambda>v. Some v) ''fresh'' 0 h 9000000
         = Inr \<lparr>ctl_request_id = ''r1'', ctl_deadline = 2000000, ctl_attempt = 2\<rparr>"
proof -
  obtain h where h: "control_headers demo_lib ''r1'' 2500000 2 (rt_service (demo_route 0)) [] = Inr h"
    by (simp add: control_headers_def insert_checked_def insert_optional_def demo_lib_def demo_route_def)
  have rid: "request_id_is_valid ''r1''"
    by (simp add: request_id_is_valid_def identity_byte_def ascii_defs)
  have "wl_header_value demo_lib v = Some v' \<Longrightarrow> v' = v" for v v' by (simp add: demo_lib_def)
  from control_headers_round_trip[OF h this _ rid, of "\<lambda>v. Some v" "''fresh''" 0 9000000] h show ?thesis
    by (intro exI[of _ h]) (simp add: from_millis_def MAX_TIMEOUT_MS_def)
qed

end
