(* ===== verification/Budget_Ledger.thy ===== *)
theory Budget_Ledger
  imports Budget
begin

text \<open>
  The interface between the byte budget and the code that holds its permits: what a reservation, a
  growth and a drop promise, and the accounting that follows from it for a holder of one permit.
\<close>

locale permit_ledger =
  fixes ok :: "'b \<Rightarrow> bool" and used :: "'b \<Rightarrow> nat" and limit :: "'b \<Rightarrow> nat"
    and reserve :: "nat \<Rightarrow> 'b \<Rightarrow> nat option \<times> 'b"
    and grow :: "nat \<Rightarrow> nat \<Rightarrow> 'b \<Rightarrow> bool \<times> nat \<times> 'b"
    and release :: "nat \<Rightarrow> 'b \<Rightarrow> 'b"
  assumes within: "ok b \<Longrightarrow> used b \<le> limit b"
    and reserve_spec: "ok b \<Longrightarrow> reserve n b = (r, b') \<Longrightarrow>
      ok b' \<and> limit b' = limit b
      \<and> (if used b + n \<le> limit b then r = Some n \<and> used b' = used b + n else r = None \<and> b' = b)"
    and grow_spec: "ok b \<Longrightarrow> p \<le> used b \<Longrightarrow> grow n p b = (g, p', b') \<Longrightarrow>
      ok b' \<and> limit b' = limit b
      \<and> (if used b + n \<le> limit b then g \<and> p' = p + n \<and> used b' = used b + n else \<not> g \<and> p' = p \<and> b' = b)"
    and release_spec: "ok b \<Longrightarrow> p \<le> used b \<Longrightarrow>
      ok (release p b) \<and> limit (release p b) = limit b \<and> used (release p b) = used b - p"
begin

text \<open>\<open>holding b0 p b\<close>: the budget is the one of \<open>b0\<close> plus a permit of \<open>p\<close> bytes.\<close>

definition holding :: "'b \<Rightarrow> nat \<Rightarrow> 'b \<Rightarrow> bool" where
  "holding b0 p b \<longleftrightarrow> ok b \<and> limit b = limit b0 \<and> used b = used b0 + p"

lemma holding_reserved: "ok b \<Longrightarrow> reserve n b = (Some p, b') \<Longrightarrow> p = n \<and> holding b p b'"
  using reserve_spec[of b n "Some p" b'] by (auto simp: holding_def split: if_splits)

lemma not_reserved: "ok b \<Longrightarrow> reserve n b = (None, b') \<Longrightarrow> b' = b \<and> limit b < used b + n"
  using reserve_spec[of b n None b'] by (auto split: if_splits)

lemma holding_grown: "holding b0 p b \<Longrightarrow> grow n p b = (True, p', b') \<Longrightarrow> p' = p + n \<and> holding b0 p' b'"
  using grow_spec[of b p n True p' b'] by (auto simp: holding_def split: if_splits)

lemma not_grown:
  "holding b0 p b \<Longrightarrow> grow n p b = (False, p', b') \<Longrightarrow> p' = p \<and> b' = b \<and> limit b0 < used b0 + p + n"
  using grow_spec[of b p n False p' b'] by (auto simp: holding_def split: if_splits)

lemma holding_released: "holding b0 p b \<Longrightarrow> holding b0 0 (release p b)"
  using release_spec[of b p] by (simp add: holding_def)

lemma holding_limit: "holding b0 p b \<Longrightarrow> used b0 + p \<le> limit b0"
  using within[of b] by (simp add: holding_def)

end

definition budget_ok :: "ByteBudget \<Rightarrow> bool" where
  "budget_ok b \<longleftrightarrow> bb_used b \<le> bb_limit b \<and> bb_limit b \<le> USIZE_MAX"

lemma try_add_spec:
  assumes "budget_ok b" "try_add n b = (g, b')"
  shows "budget_ok b' \<and> bb_limit b' = bb_limit b
         \<and> (if bb_used b + n \<le> bb_limit b then g \<and> bb_used b' = bb_used b + n else \<not> g \<and> b' = b)"
proof (cases "bb_used b + n \<le> bb_limit b")
  case True
  then have "add_target (bb_limit b) (bb_used b) n = Some (bb_used b + n)"
    using assms(1) by (simp add: add_target_Some budget_ok_def)
  then show ?thesis using True assms by (auto simp: try_add_def budget_ok_def)
next
  case False
  then have "add_target (bb_limit b) (bb_used b) n = None" by (simp add: add_target_None)
  then show ?thesis using False assms by (auto simp: try_add_def)
qed

lemma try_reserve_spec:
  assumes "budget_ok b" "try_reserve n b = (r, b')"
  shows "budget_ok b' \<and> bb_limit b' = bb_limit b
      \<and> (if bb_used b + n \<le> bb_limit b then r = Some n \<and> bb_used b' = bb_used b + n else r = None \<and> b' = b)"
proof -
  obtain h c where hc: "try_add n b = (h, c)" by (cases "try_add n b")
  then have "r = (if h then Some n else None)" "b' = c" using assms(2) by (simp_all add: try_reserve_def)
  then show ?thesis using try_add_spec[OF assms(1) hc] by (cases h) (simp_all split: if_splits)
qed

lemma permit_grow_spec:
  assumes "budget_ok b" "p \<le> bb_used b" "permit_grow n p b = (g, p', b')"
  shows "budget_ok b' \<and> bb_limit b' = bb_limit b
      \<and> (if bb_used b + n \<le> bb_limit b then g \<and> p' = p + n \<and> bb_used b' = bb_used b + n
         else \<not> g \<and> p' = p \<and> b' = b)"
proof -
  obtain h c where hc: "try_add n b = (h, c)" by (cases "try_add n b")
  note spec = try_add_spec[OF assms(1) hc]
  show ?thesis
  proof (cases "bb_used b + n \<le> bb_limit b")
    case True
    then have "wrapping_add USIZE_MAX p n = p + n"
      using assms(1,2) by (intro wrapping_add_exact) (simp add: budget_ok_def)
    moreover have "h" using spec True by simp
    ultimately have "g" "p' = p + n" "b' = c" using assms(3) hc by (simp_all add: permit_grow_def)
    then show ?thesis using spec True by simp
  next
    case False
    then have "\<not> h" "c = b" using spec by simp_all
    then have "\<not> g" "p' = p" "b' = b" using assms(3) hc by (simp_all add: permit_grow_def)
    then show ?thesis using assms(1) False by simp
  qed
qed

lemma permit_drop_spec:
  assumes "budget_ok b" "p \<le> bb_used b"
  shows "budget_ok (permit_drop p b) \<and> bb_limit (permit_drop p b) = bb_limit b
      \<and> bb_used (permit_drop p b) = bb_used b - p"
proof -
  have "wrapping_sub (bb_used b) p = bb_used b - p"
    using assms by (intro wrapping_sub_exact) (auto simp: budget_ok_def)
  moreover have "bb_used b - p \<le> bb_limit b" "bb_limit b \<le> USIZE_MAX" using assms(1) by (auto simp: budget_ok_def)
  ultimately show ?thesis by (simp add: permit_drop_def budget_release_def budget_ok_def)
qed

interpretation ledger: permit_ledger budget_ok bb_used bb_limit try_reserve permit_grow permit_drop
proof
  show "bb_used b \<le> bb_limit b" if "budget_ok b" for b using that by (simp add: budget_ok_def)
qed (use try_reserve_spec permit_grow_spec permit_drop_spec in blast)+

end
