(* ===== verification/Wire_Body.thy ===== *)
theory Wire_Body
  imports Budget_Ledger Wire_Problem Wire_Request
begin

text \<open>
  Bodies and responses on the wire (\<open>fusen/src/wire/mod.rs\<close>) with the response value of
  \<open>fusen/src/context.rs\<close>: reading a body under a limit and a byte budget, encoding a success,
  decoding a response, and the body stream that hyper polls.

  A body is the finite list of the frames its stream yields before it ends or fails; a future that is
  dropped in between drops its permit like the error returns do.  Decoders are arguments returning
  \<open>None\<close> when they panic.  The extensions and completion handles of a response stay with it unchanged
  and are left out.
\<close>

section \<open>Reading a body\<close>

datatype body_frame = BF_Data string | BF_Trailers | BF_Failed string

definition CHUNK_RESERVATION :: nat where "CHUNK_RESERVATION = 4 * 1024"

datatype BodyReadRole = BR_Request | BR_Response string

definition payload_too_large :: error where
  "payload_too_large = framework EC_PayloadTooLarge ''payload_too_large''
     ''request or response body exceeds the configured limit''"

definition client_response_budget_exhausted :: error where
  "client_response_budget_exhausted = framework EC_ResourceExhausted ''response_byte_budget_exhausted''
     ''client response byte budget is exhausted''"

definition client_response_too_large :: error where
  "client_response_too_large = framework EC_PayloadTooLarge ''response_too_large''
     ''response body exceeds the configured limit''"

fun role_too_large :: "BodyReadRole \<Rightarrow> error" where
  "role_too_large BR_Request = payload_too_large"
| "role_too_large (BR_Response request_id) = client_response_too_large"

fun role_budget_exhausted :: "BodyReadRole \<Rightarrow> error" where
  "role_budget_exhausted BR_Request = framework EC_ResourceExhausted ''body_byte_budget_exhausted''
     ''body byte budget is exhausted''"
| "role_budget_exhausted (BR_Response request_id) = client_response_budget_exhausted"

fun role_stream_failed :: "BodyReadRole \<Rightarrow> string \<Rightarrow> error" where
  "role_stream_failed BR_Request e =
     with_retry_hint (Error_internal ''HTTP body stream failed'' e) RH_Retryable"
| "role_stream_failed (BR_Response request_id) e =
     with_source (remote_protocol_error ''response_body_stream_failed''
       ''remote response body stream failed before completion'' request_id) e"

fun role_content_length_mismatch :: "BodyReadRole \<Rightarrow> error" where
  "role_content_length_mismatch BR_Request = framework EC_InvalidArgument ''content_length_mismatch''
     ''request body length does not match Content-Length''"
| "role_content_length_mismatch (BR_Response request_id) =
     remote_protocol_error ''content_length_mismatch''
       ''response body length does not match Content-Length'' request_id"

text \<open>\<^verbatim>\<open>usize::div_ceil\<close>.\<close>

definition div_ceil :: "nat \<Rightarrow> nat \<Rightarrow> nat" where
  "div_ceil a b = a div b + (if a mod b \<noteq> 0 then 1 else 0)"

definition chunk_growth :: "nat \<Rightarrow> nat" where
  "chunk_growth needed = div_ceil needed CHUNK_RESERVATION * CHUNK_RESERVATION"

text \<open>
  The loop of \<open>read_body_with_role\<close>.  Leaving it with an error drops the permit, which gives its bytes
  back.
\<close>

fun read_frames ::
  "BodyReadRole \<Rightarrow> nat \<Rightarrow> body_frame list \<Rightarrow> BytePermit \<Rightarrow> nat \<Rightarrow> string \<Rightarrow> ByteBudget \<Rightarrow>
   (error + string \<times> BytePermit) \<times> ByteBudget" where
  "read_frames role max_body [] permit reserved bytes b = (Inr (bytes, permit), b)"
| "read_frames role max_body (BF_Failed e # frames) permit reserved bytes b =
     (Inl (role_stream_failed role e), permit_drop permit b)"
| "read_frames role max_body (BF_Trailers # frames) permit reserved bytes b =
     read_frames role max_body frames permit reserved bytes b"
| "read_frames role max_body (BF_Data chunk # frames) permit reserved bytes b =
     (case checked_add USIZE_MAX (length bytes) (length chunk) of
        None \<Rightarrow> (Inl (role_too_large role), permit_drop permit b)
      | Some size_total \<Rightarrow>
          if max_body < size_total then (Inl (role_too_large role), permit_drop permit b)
          else if reserved < size_total
          then (case permit_grow (chunk_growth (size_total - reserved)) permit b of
                  (False, permit, b) \<Rightarrow> (Inl (role_budget_exhausted role), permit_drop permit b)
                | (True, permit, b) \<Rightarrow>
                    read_frames role max_body frames permit
                      (reserved + chunk_growth (size_total - reserved)) (bytes @ chunk) b)
          else read_frames role max_body frames permit reserved (bytes @ chunk) b)"

definition read_body_with_role ::
  "BodyReadRole \<Rightarrow> body_frame list \<Rightarrow> nat option \<Rightarrow> nat \<Rightarrow> ByteBudget \<Rightarrow>
   (error + string \<times> BytePermit) \<times> ByteBudget" where
  "read_body_with_role role frames content_length max_body b =
     (if (case content_length of Some n \<Rightarrow> max_body < n | None \<Rightarrow> False)
      then (Inl (role_too_large role), b)
      else (let initial = (case content_length of Some n \<Rightarrow> n | None \<Rightarrow> 0)
            in case try_reserve initial b of
                 (None, b) \<Rightarrow> (Inl (role_budget_exhausted role), b)
               | (Some permit, b) \<Rightarrow>
                   (case read_frames role max_body frames permit initial [] b of
                      (Inl e, b) \<Rightarrow> (Inl e, b)
                    | (Inr (bytes, permit), b) \<Rightarrow>
                        if (case content_length of Some n \<Rightarrow> n \<noteq> length bytes | None \<Rightarrow> False)
                        then (Inl (role_content_length_mismatch role), permit_drop permit b)
                        else (Inr (bytes, permit), b))))"

definition read_body ::
  "body_frame list \<Rightarrow> nat option \<Rightarrow> nat \<Rightarrow> ByteBudget \<Rightarrow> (error + string \<times> BytePermit) \<times> ByteBudget" where
  "read_body frames content_length max_body b =
     read_body_with_role BR_Request frames content_length max_body b"

definition read_response_body ::
  "body_frame list \<Rightarrow> nat option \<Rightarrow> nat \<Rightarrow> ByteBudget \<Rightarrow> string \<Rightarrow>
   (error + string \<times> BytePermit) \<times> ByteBudget" where
  "read_response_body frames content_length max_body b request_id =
     read_body_with_role (BR_Response request_id) frames content_length max_body b"

section \<open>Responses\<close>

text \<open>\<^verbatim>\<open>Response<Body>\<close>: the encoded body with the permit it holds, status, headers, attempts.\<close>

record Response =
  rs_body :: string
  rs_permit :: "BytePermit option"
  rs_status :: status_code
  rs_headers :: header_map
  rs_attempts :: nat

definition from_json_bytes :: "string \<Rightarrow> Response" where
  "from_json_bytes bytes =
     \<lparr>rs_body = bytes, rs_permit = None, rs_status = 200, rs_headers = [], rs_attempts = 0\<rparr>"

definition set_status :: "status_code \<Rightarrow> Response \<Rightarrow> error + Response" where
  "set_status status r =
     (if \<not> is_success status
      then Inl (framework EC_InvalidArgument ''invalid_response_status''
             ''service invocation success response status must be 2xx'')
      else Inr (r\<lparr>rs_status := status\<rparr>))"

definition response_budget_exhausted :: error where
  "response_budget_exhausted = framework EC_ResourceExhausted ''response_byte_budget_exhausted''
     ''server response byte budget is exhausted''"

definition response_too_large :: error where
  "response_too_large = framework EC_Internal ''response_too_large''
     ''encoded invocation response exceeds the configured limit''"

text \<open>
  \<open>success_with_budget\<close>: serde writes the value in pieces, the argument \<open>chunks\<close>, and reports its own
  failure, if any, after them.
\<close>

fun write_chunks ::
  "string list \<Rightarrow> BudgetedWriter \<Rightarrow> ByteBudget \<Rightarrow> bool \<times> BudgetedWriter \<times> ByteBudget" where
  "write_chunks [] w b = (True, w, b)"
| "write_chunks (c # cs) w b =
     (case writer_write c w b of
        (None, w, b) \<Rightarrow> (False, w, b)
      | (Some n, w, b) \<Rightarrow> write_chunks cs w b)"

definition success_with_budget ::
  "string list \<Rightarrow> string option \<Rightarrow> nat \<Rightarrow> nat \<Rightarrow> ByteBudget \<Rightarrow> (error + Response) \<times> ByteBudget" where
  "success_with_budget chunks serde_failure limit wire_overhead b =
     (case BudgetedWriter_new limit wire_overhead b of
        (Inl f, b) \<Rightarrow> (Inl response_budget_exhausted, b)
      | (Inr w, b) \<Rightarrow>
          (case write_chunks chunks w b of
             (ok, w, b) \<Rightarrow>
               if ok \<and> serde_failure = None
               then (Inr \<lparr>rs_body = bw_bytes w, rs_permit = Some (bw_permit w), rs_status = 200,
                          rs_headers = [], rs_attempts = 0\<rparr>, b)
               else (Inl (case bw_failure w of
                            Some LimitExceeded \<Rightarrow> response_too_large
                          | Some BudgetExhausted \<Rightarrow> response_budget_exhausted
                          | None \<Rightarrow> Error_internal ''failed to serialize invocation response''
                                      (case serde_failure of Some e \<Rightarrow> e | None \<Rightarrow> [])),
                     permit_drop (bw_permit w) b)))"

section \<open>Encoding a success\<close>

record wire_response =
  wr_status :: status_code
  wr_headers :: header_map
  wr_body :: string
  wr_permit :: BytePermit

text \<open>
  The permit of the response belongs to the server's budget or there is none; a permit of another
  budget is treated as none by the source, and its drop does not touch this budget.
\<close>

definition body_permit ::
  "nat \<Rightarrow> BytePermit option \<Rightarrow> ByteBudget \<Rightarrow> (error + BytePermit) \<times> ByteBudget" where
  "body_permit size_total existing b =
     (case existing of
        Some permit \<Rightarrow>
          (let missing = size_total - permit
           in if 0 < missing
              then (case permit_grow missing permit b of
                      (False, permit, b) \<Rightarrow> (Inl response_budget_exhausted, permit_drop permit b)
                    | (True, permit, b) \<Rightarrow> (Inr permit, b))
              else (Inr permit, b))
      | None \<Rightarrow>
          (case try_reserve size_total b of
             (None, b) \<Rightarrow> (Inl response_budget_exhausted, b)
           | (Some permit, b) \<Rightarrow> (Inr permit, b)))"

definition drop_optional :: "BytePermit option \<Rightarrow> ByteBudget \<Rightarrow> ByteBudget" where
  "drop_optional permit b = (case permit of Some p \<Rightarrow> permit_drop p b | None \<Rightarrow> b)"

definition encode_success ::
  "wire_lib \<Rightarrow> Response \<Rightarrow> string \<Rightarrow> bool \<Rightarrow> nat \<Rightarrow> ByteBudget \<Rightarrow> (error + wire_response) \<times> ByteBudget" where
  "encode_success lib response produces suppress max_body b =
     (let suppress_body = (suppress \<or> rs_status response = 204 \<or> rs_status response = 205);
          size_total = (if suppress_body then 0 else length (rs_body response))
      in if max_body < size_total then (Inl response_too_large, drop_optional (rs_permit response) b)
         else (case body_permit size_total (rs_permit response) b of
                 (Inl e, b) \<Rightarrow> (Inl e, b)
               | (Inr permit, b) \<Rightarrow>
                   (let headers = response_headers_without_control (rs_headers response);
                        body = (if suppress_body then [] else rs_body response)
                    in if suppress_body
                       then (Inr \<lparr>wr_status = rs_status response, wr_headers = headers, wr_body = body,
                                  wr_permit = permit\<rparr>, b)
                       else (case wl_header_value lib produces of
                               None \<Rightarrow> (Inl (framework EC_Internal ''invalid_produces_media_type''
                                        ''configured response media type is not a valid Content-Type''),
                                      permit_drop permit b)
                             | Some v \<Rightarrow>
                                 (Inr \<lparr>wr_status = rs_status response,
                                       wr_headers = insert_header CONTENT_TYPE v headers, wr_body = body,
                                       wr_permit = permit\<rparr>, b)))))"

section \<open>Decoding a response\<close>

record BufferedResponse =
  br_status :: status_code
  br_version :: http_version
  br_headers :: header_map
  br_body :: string
  br_request_id :: string
  br_invocation_controls :: bool

record incoming_response =
  in_status :: status_code
  in_version :: http_version
  in_headers :: header_map
  in_frames :: "body_frame list"

type_synonym ResponseDecoder = "BufferedResponse \<Rightarrow> (error + Response) option"
type_synonym ErrorDecoder = "BufferedResponse \<Rightarrow> error option"

definition hold_decoded_response_budget ::
  "Response \<Rightarrow> BytePermit \<Rightarrow> nat \<Rightarrow> ByteBudget \<Rightarrow> (error + Response) \<times> ByteBudget" where
  "hold_decoded_response_budget response permit max_body b =
     (let decoded_length = length (rs_body response)
      in if max_body < decoded_length then (Inl client_response_too_large, permit_drop permit b)
         else (let missing = decoded_length - permit
               in if 0 < missing
                  then (case permit_grow missing permit b of
                          (False, permit, b) \<Rightarrow> (Inl client_response_budget_exhausted, permit_drop permit b)
                        | (True, permit, b) \<Rightarrow> (Inr (response\<lparr>rs_permit := Some permit\<rparr>), b))
                  else (Inr (response\<lparr>rs_permit := Some permit\<rparr>), b)))"

definition decoded_error ::
  "ErrorDecoder \<Rightarrow> BufferedResponse \<Rightarrow> string \<Rightarrow> header_map \<Rightarrow> error" where
  "decoded_error error_decoder buffered request_id application_headers =
     (case error_decoder buffered of
        None \<Rightarrow> codec_panic
      | Some e \<Rightarrow> with_headers (with_request_id (with_remote_origin e) request_id) application_headers)"

text \<open>Run the decoder on a successful response, then hold its budget and set the headers.\<close>

definition decode_success ::
  "ResponseDecoder \<Rightarrow> BufferedResponse \<Rightarrow> BytePermit \<Rightarrow> nat \<Rightarrow> header_map \<Rightarrow> ByteBudget \<Rightarrow>
   (error + Response) \<times> ByteBudget" where
  "decode_success response_decoder buffered permit max_body application_headers b =
     (case response_decoder buffered of
        None \<Rightarrow> (Inl codec_panic, permit_drop permit b)
      | Some (Inl e) \<Rightarrow> (Inl (with_remote_origin e), permit_drop permit b)
      | Some (Inr decoded) \<Rightarrow>
          (case hold_decoded_response_budget decoded permit max_body b of
             (Inl e, b) \<Rightarrow> (Inl e, b)
           | (Inr decoded, b) \<Rightarrow> (Inr (decoded\<lparr>rs_headers := application_headers\<rparr>), b)))"

definition decode_head_response ::
  "ErrorDecoder \<Rightarrow> BufferedResponse \<Rightarrow> string \<Rightarrow> header_map \<Rightarrow> ByteBudget \<Rightarrow> (error + Response) \<times> ByteBudget" where
  "decode_head_response error_decoder buffered request_id application_headers b =
     (if \<not> is_success (br_status buffered)
      then (Inl (decoded_error error_decoder buffered request_id application_headers), b)
      else (case try_reserve 0 b of
              (None, b) \<Rightarrow> (Inl client_response_budget_exhausted, b)
            | (Some permit, b) \<Rightarrow>
                (case set_status (br_status buffered)
                        ((from_json_bytes ''null'')\<lparr>rs_permit := Some permit, rs_headers := application_headers\<rparr>) of
                   Inl e \<Rightarrow> (Inl e, permit_drop permit b)
                 | Inr response \<Rightarrow> (Inr response, b))))"

text \<open>A 204 or 205: the decoder sees \<open>null\<close>; its permit is reserved after it succeeded.\<close>

definition decode_empty_response ::
  "ResponseDecoder \<Rightarrow> BufferedResponse \<Rightarrow> nat \<Rightarrow> header_map \<Rightarrow> ByteBudget \<Rightarrow> (error + Response) \<times> ByteBudget" where
  "decode_empty_response response_decoder buffered max_body application_headers b =
     (case response_decoder buffered of
        None \<Rightarrow> (Inl codec_panic, b)
      | Some (Inl e) \<Rightarrow> (Inl (with_remote_origin e), b)
      | Some (Inr decoded) \<Rightarrow>
          (case try_reserve 0 b of
             (None, b) \<Rightarrow> (Inl client_response_budget_exhausted, b)
           | (Some permit, b) \<Rightarrow>
               (case hold_decoded_response_budget decoded permit max_body b of
                  (Inl e, b) \<Rightarrow> (Inl e, b)
                | (Inr decoded, b) \<Rightarrow> (Inr (decoded\<lparr>rs_headers := application_headers\<rparr>), b))))"

definition decode_body_response ::
  "(string \<Rightarrow> string option) \<Rightarrow> ResponseDecoder \<Rightarrow> ErrorDecoder \<Rightarrow> string \<Rightarrow> incoming_response \<Rightarrow>
   (string \<Rightarrow> BufferedResponse) \<Rightarrow> nat \<Rightarrow> header_map \<Rightarrow> ByteBudget \<Rightarrow> (error + Response) \<times> ByteBudget" where
  "decode_body_response to_str response_decoder error_decoder request_id response buffered max_body
       application_headers b =
     (case parse_response_content_length to_str (in_headers response) request_id of
        Inl e \<Rightarrow> (Inl e, b)
      | Inr content_length \<Rightarrow>
          (case read_response_body (in_frames response) content_length max_body b request_id of
             (Inl e, b) \<Rightarrow>
               (Inl (if e_origin e = EO_Remote then with_headers e application_headers else e), b)
           | (Inr (body, permit), b) \<Rightarrow>
               if \<not> is_success (in_status response)
               then (Inl (decoded_error error_decoder (buffered body) request_id application_headers),
                     permit_drop permit b)
               else decode_success response_decoder (buffered body) permit max_body application_headers b))"

definition decode_http_response ::
  "(string \<Rightarrow> string option) \<Rightarrow> ResponseDecoder \<Rightarrow> ErrorDecoder \<Rightarrow> bool \<Rightarrow> string \<Rightarrow> incoming_response \<Rightarrow>
   nat \<Rightarrow> ByteBudget \<Rightarrow> bool \<Rightarrow> (error + Response) \<times> ByteBudget" where
  "decode_http_response to_str response_decoder error_decoder head request_id response max_body b controls =
     (case bind_result (validate_response_http_version (in_version response) request_id (in_headers response))
             (\<lambda>_. validate_response_request_id to_str controls (in_headers response) request_id) of
        Inl e \<Rightarrow> (Inl e, b)
      | Inr _ \<Rightarrow>
          (let decoder_headers = response_headers_for_decoder (in_headers response);
               application_headers = response_headers_without_control decoder_headers;
               buffered = (\<lambda>body. \<lparr>br_status = in_status response, br_version = in_version response,
                  br_headers = decoder_headers, br_body = body, br_request_id = request_id,
                  br_invocation_controls = controls\<rparr>)
           in if head then decode_head_response error_decoder (buffered []) request_id application_headers b
              else if in_status response = 204 \<or> in_status response = 205
              then decode_empty_response response_decoder (buffered ''null'') max_body application_headers b
              else decode_body_response to_str response_decoder error_decoder request_id response buffered
                     max_body application_headers b))"

section \<open>The JSON decoders\<close>

definition json_response_decode ::
  "(string \<Rightarrow> string option) \<Rightarrow> (string \<Rightarrow> mime option) \<Rightarrow> string \<Rightarrow> BufferedResponse \<Rightarrow> error + Response" where
  "json_response_decode to_str mime_parse produces response =
     bind_result
       (if br_status response = 204 \<or> br_status response = 205 then Inr ()
        else validate_json_response_content_type to_str mime_parse (br_headers response) produces
               (br_request_id response))
       (\<lambda>_. set_status (br_status response)
              ((from_json_bytes (br_body response))\<lparr>rs_headers := br_headers response\<rparr>))"

definition json_error_decode ::
  "(string \<Rightarrow> string option) \<Rightarrow> (string \<Rightarrow> instant option) \<Rightarrow> (status_code \<Rightarrow> string option) \<Rightarrow>
   (string \<Rightarrow> ProblemDetails option) \<Rightarrow> instant \<Rightarrow> http_method \<Rightarrow> BufferedResponse \<Rightarrow> error" where
  "json_error_decode to_str parse_date canonical_reason from_json now method response =
     (if method = M_HEAD \<and> br_body response = []
      then decode_head_error to_str parse_date canonical_reason now (br_status response)
             (br_request_id response) (br_headers response)
      else decode_problem to_str parse_date canonical_reason from_json now (br_status response)
             (br_request_id response) (br_body response) (br_headers response)
             (br_invocation_controls response))"

section \<open>The body stream\<close>

record GuardedBody =
  gb_chunks :: "string option list"
  gb_next_chunk :: nat
  gb_remaining :: nat

definition GuardedBody_new :: "string \<Rightarrow> GuardedBody" where
  "GuardedBody_new body =
     \<lparr>gb_chunks = [Some body, None, None], gb_next_chunk = 0, gb_remaining = length body\<rparr>"

function poll_frame :: "GuardedBody \<Rightarrow> string option \<times> GuardedBody" where
  "poll_frame g =
     (if gb_next_chunk g < length (gb_chunks g)
      then (let index = gb_next_chunk g;
                taken = gb_chunks g ! index;
                g = g\<lparr>gb_next_chunk := index + 1, gb_chunks := (gb_chunks g)[index := None]\<rparr>
            in case taken of
                 None \<Rightarrow> poll_frame g
               | Some chunk \<Rightarrow>
                   if chunk = [] then poll_frame g
                   else (Some chunk, g\<lparr>gb_remaining := gb_remaining g - length chunk\<rparr>))
      else (None, g))"
  by pat_completeness auto
termination
  by (relation "measure (\<lambda>g. length (gb_chunks g) - gb_next_chunk g)") auto

declare poll_frame.simps [simp del]

definition is_end_stream :: "GuardedBody \<Rightarrow> bool" where
  "is_end_stream g = (gb_remaining g = 0)"

definition size_hint :: "GuardedBody \<Rightarrow> nat" where
  "size_hint g = gb_remaining g"

end
