(* ===== verification/Wire_Body_Theorems.thy ===== *)
theory Wire_Body_Theorems
  imports Wire_Body
begin

text \<open>
  What reading, decoding and streaming a body guarantee: the bytes are exactly the data of the frames,
  every limit holds, and the byte budget moves by exactly the permit that is handed on, or not at all.
\<close>

section \<open>Reading\<close>

fun frame_data :: "body_frame list \<Rightarrow> string" where
  "frame_data [] = []"
| "frame_data (BF_Data c # frames) = c @ frame_data frames"
| "frame_data (f # frames) = frame_data frames"

fun is_failed :: "body_frame \<Rightarrow> bool" where
  "is_failed (BF_Failed e) = True"
| "is_failed _ = False"

definition complete_frames :: "body_frame list \<Rightarrow> bool" where
  "complete_frames frames \<longleftrightarrow> \<not> list_ex is_failed frames"

lemma complete_frames_simps [simp]:
  "complete_frames []" "\<not> complete_frames (BF_Failed e # frames)"
  "complete_frames (BF_Data c # frames) = complete_frames frames"
  "complete_frames (BF_Trailers # frames) = complete_frames frames"
  by (simp_all add: complete_frames_def)

lemma chunk_growth_bounds: "n \<le> chunk_growth n \<and> chunk_growth n < n + CHUNK_RESERVATION"
proof -
  let ?c = CHUNK_RESERVATION
  have pos: "0 < ?c" by (simp add: CHUNK_RESERVATION_def)
  have split: "n = n div ?c * ?c + n mod ?c" by simp
  have small: "n mod ?c < ?c" using pos by simp
  show ?thesis
  proof (cases "n mod ?c = 0")
    case True
    then show ?thesis using split pos by (simp add: chunk_growth_def div_ceil_def)
  next
    case False
    then have "chunk_growth n = n div ?c * ?c + ?c" by (simp add: chunk_growth_def div_ceil_def)
    then show ?thesis using split small False by linarith
  qed
qed

text \<open>What a reader hands on, with the budget it started from.\<close>

definition body_result ::
  "ByteBudget \<Rightarrow> (string \<Rightarrow> nat \<Rightarrow> bool) \<Rightarrow> (error + string \<times> BytePermit) \<times> ByteBudget \<Rightarrow> bool" where
  "body_result b0 post res \<longleftrightarrow>
     (case res of
        (Inl e, b) \<Rightarrow> ledger.holding b0 0 b
      | (Inr (bytes, permit), b) \<Rightarrow> ledger.holding b0 permit b \<and> post bytes permit)"

lemma read_frames_result:
  assumes "ledger.holding b0 permit b" "length bytes \<le> permit" "length bytes \<le> max_body"
  shows "body_result b0 (\<lambda>out p. out = bytes @ frame_data frames \<and> complete_frames frames
            \<and> length out \<le> p \<and> length out \<le> max_body)
          (read_frames role max_body frames permit permit bytes b)"
  using assms
proof (induction frames arbitrary: permit bytes b)
  case Nil
  then show ?case by (simp add: body_result_def)
next
  case (Cons f frames)
  have dropped: "ledger.holding b0 0 (permit_drop permit b)" by (rule ledger.holding_released[OF Cons.prems(1)])
  show ?case
  proof (cases f)
    case BF_Trailers
    then show ?thesis using Cons by simp
  next
    case (BF_Failed e)
    then show ?thesis using dropped by (simp add: body_result_def)
  next
    case (BF_Data chunk)
    let ?n = "length bytes + length chunk"
    consider "USIZE_MAX < ?n \<or> max_body < ?n" | "?n \<le> USIZE_MAX" "?n \<le> max_body" "?n \<le> permit"
      | "?n \<le> USIZE_MAX" "?n \<le> max_body" "permit < ?n" by linarith
    then show ?thesis
    proof cases
      case 1
      then show ?thesis using BF_Data dropped by (auto simp: body_result_def checked_add_def)
    next
      case 2
      then show ?thesis
        using BF_Data Cons.IH[OF Cons.prems(1), of "bytes @ chunk"] by (simp add: checked_add_def)
    next
      case 3
      let ?g = "chunk_growth (?n - permit)"
      obtain ok p b1 where grow: "permit_grow ?g permit b = (ok, p, b1)" by (cases "permit_grow ?g permit b") auto
      show ?thesis
      proof (cases ok)
        case True
        then have p: "p = permit + ?g" "ledger.holding b0 p b1"
          using ledger.holding_grown[OF Cons.prems(1)] grow by auto
        have "?n \<le> p" using chunk_growth_bounds[of "?n - permit"] p(1) by linarith
        then show ?thesis
          using BF_Data 3 True grow p Cons.IH[OF p(2), of "bytes @ chunk"] by (simp add: checked_add_def)
      next
        case False
        then have "p = permit" "b1 = b" using ledger.not_grown[OF Cons.prems(1)] grow by auto
        then show ?thesis using BF_Data 3 False grow dropped by (simp add: body_result_def checked_add_def)
      qed
    qed
  qed
qed

lemma read_body_result:
  assumes "budget_ok b"
  shows "body_result b (\<lambda>out p. out = frame_data frames \<and> complete_frames frames \<and> length out \<le> p
            \<and> length out \<le> max_body \<and> content_length \<in> {None, Some (length out)})
          (read_body_with_role role frames content_length max_body b)"
proof -
  let ?init = "case content_length of Some n \<Rightarrow> n | None \<Rightarrow> 0"
  have start: "ledger.holding b 0 b" using assms by (simp add: ledger.holding_def)
  show ?thesis
  proof (cases "(case content_length of Some n \<Rightarrow> max_body < n | None \<Rightarrow> False)")
    case True
    then show ?thesis using start by (simp add: read_body_with_role_def body_result_def)
  next
    case small: False
    obtain r b1 where r: "try_reserve ?init b = (r, b1)" by (cases "try_reserve ?init b")
    show ?thesis
    proof (cases r)
      case None
      then have "b1 = b" using ledger.not_reserved[OF assms] r by blast
      then show ?thesis using small r None start by (simp add: read_body_with_role_def body_result_def)
    next
      case (Some p)
      then have p: "p = ?init" "ledger.holding b p b1" using ledger.holding_reserved[OF assms] r by blast+
      obtain out b2 where out: "read_frames role max_body frames p ?init [] b1 = (out, b2)"
        by (cases "read_frames role max_body frames p ?init [] b1")
      have frames: "body_result b (\<lambda>out p. out = frame_data frames \<and> complete_frames frames
            \<and> length out \<le> p \<and> length out \<le> max_body) (out, b2)"
        using read_frames_result[OF p(2), of "[]" max_body frames role] out p(1) by simp
      show ?thesis
      proof (cases out)
        case (Inl e)
        then show ?thesis using small r Some out frames by (simp add: read_body_with_role_def body_result_def)
      next
        case (Inr x)
        obtain bytes q where x: "x = (bytes, q)" by (cases x)
        then have "ledger.holding b q b2" using frames Inr by (simp add: body_result_def)
        then have "ledger.holding b 0 (permit_drop q b2)" by (rule ledger.holding_released)
        then show ?thesis
          using small r Some out frames Inr x
          by (cases content_length) (auto simp: read_body_with_role_def body_result_def)
      qed
    qed
  qed
qed

text \<open>
  C27.  Reading a body is exact.  A success is all the data of a stream that did not fail, of the declared
  length if one was declared, within the limit, with a permit that covers it; the budget grew by exactly
  that permit.  After an error, whichever it is, the budget is what it was before.
\<close>

theorem read_body_exact:
  "\<lbrakk>budget_ok b; read_body_with_role role frames content_length max_body b = (r, b')\<rbrakk> \<Longrightarrow>
   (case r of
      Inl e \<Rightarrow> bb_used b' = bb_used b
    | Inr (bytes, permit) \<Rightarrow>
        bytes = frame_data frames \<and> complete_frames frames
        \<and> length bytes \<le> max_body \<and> length bytes \<le> permit
        \<and> content_length \<in> {None, Some (length bytes)} \<and> bb_used b' = bb_used b + permit)"
  using read_body_result[of b frames max_body content_length role]
  by (auto simp: body_result_def ledger.holding_def split: sum.splits)

theorem read_body_exact_witness:
  "\<exists>b'. read_body_with_role BR_Request [BF_Data ''ab'', BF_Trailers, BF_Data ''c''] None 8 (ByteBudget_new 8192)
          = (Inr (''abc'', 4096), b') \<and> bb_used b' = 4096"
proof -
  have ok: "budget_ok (ByteBudget_new 8192)" by (simp add: budget_ok_def ByteBudget_new_def USIZE_MAX_def)
  obtain b' where "read_body_with_role BR_Request [BF_Data ''ab'', BF_Trailers, BF_Data ''c''] None 8 (ByteBudget_new 8192)
          = (Inr (''abc'', 4096), b')"
    by (simp add: read_body_with_role_def ByteBudget_new_def try_reserve_def try_add_def add_target_def
        checked_add_def permit_grow_def chunk_growth_def div_ceil_def CHUNK_RESERVATION_def USIZE_MAX_def
        wrapping_add_def)
  with read_body_exact[OF ok this] show ?thesis by (auto simp: ByteBudget_new_def)
qed

text \<open>Enough room is a chunk more than the body: then only the stream or the declared length can fail.\<close>

lemma read_frames_succeeds:
  assumes "ledger.holding b0 permit b" "complete_frames frames"
    and "length (bytes @ frame_data frames) \<le> max_body" "max_body \<le> USIZE_MAX"
    and "bb_used b0 + length (bytes @ frame_data frames) + CHUNK_RESERVATION \<le> bb_limit b0"
    and "permit < length (bytes @ frame_data frames) + CHUNK_RESERVATION"
  shows "\<exists>out p b'. read_frames role max_body frames permit permit bytes b = (Inr (out, p), b')"
  using assms
proof (induction frames arbitrary: permit bytes b)
  case Nil
  then show ?case by simp
next
  case (Cons f frames)
  show ?case
  proof (cases f)
    case BF_Trailers
    then show ?thesis using Cons by simp
  next
    case (BF_Failed e)
    then show ?thesis using Cons.prems(2) by simp
  next
    case (BF_Data chunk)
    let ?n = "length bytes + length chunk"
    have n: "?n \<le> USIZE_MAX" "?n \<le> max_body" using Cons.prems(3,4) BF_Data by simp_all
    show ?thesis
    proof (cases "permit < ?n")
      case False
      then show ?thesis
        using BF_Data n Cons.IH[OF Cons.prems(1), of "bytes @ chunk"] Cons.prems(2-6) by (simp add: checked_add_def)
    next
      case True
      let ?g = "chunk_growth (?n - permit)"
      have g: "permit + ?g < ?n + CHUNK_RESERVATION" using chunk_growth_bounds[of "?n - permit"] True by linarith
      obtain ok p b1 where grow: "permit_grow ?g permit b = (ok, p, b1)" by (cases "permit_grow ?g permit b") auto
      have ok: "ok"
      proof (rule ccontr)
        assume "\<not> ok"
        then have "bb_limit b0 < bb_used b0 + permit + ?g"
          using ledger.not_grown[OF Cons.prems(1)] grow by simp
        then show False using g Cons.prems(5) BF_Data by simp
      qed
      then have p: "p = permit + ?g" "ledger.holding b0 p b1"
        using ledger.holding_grown[OF Cons.prems(1)] grow by auto
      have "p < length ((bytes @ chunk) @ frame_data frames) + CHUNK_RESERVATION" using g p(1) by simp
      then show ?thesis
        using BF_Data True n ok grow p Cons.IH[OF p(2), of "bytes @ chunk"] Cons.prems(2-5)
        by (simp add: checked_add_def)
    qed
  qed
qed

text \<open>
   A well-formed body is never refused.  When the stream does not fail, the body fits the limit, its
  declared length is right and the budget has room for it and one chunk more, reading succeeds.
\<close>

theorem read_body_accepts:
  assumes ok: "budget_ok b" and frames: "complete_frames frames"
    and limits: "length (frame_data frames) \<le> max_body" "max_body \<le> USIZE_MAX"
    and declared: "content_length \<in> {None, Some (length (frame_data frames))}"
    and room: "bb_used b + length (frame_data frames) + CHUNK_RESERVATION \<le> bb_limit b"
  shows "\<exists>permit b'. read_body_with_role role frames content_length max_body b
                      = (Inr (frame_data frames, permit), b')"
proof -
  let ?init = "case content_length of Some n \<Rightarrow> n | None \<Rightarrow> 0"
  have init: "?init \<le> length (frame_data frames)" using declared by auto
  obtain r b1 where r: "try_reserve ?init b = (r, b1)" by (cases "try_reserve ?init b")
  obtain p where p: "r = Some p"
    using ledger.not_reserved[OF ok] r init room by (cases r) fastforce+
  then have h: "p = ?init" "ledger.holding b p b1" using ledger.holding_reserved[OF ok] r by blast+
  obtain out q b2 where out: "read_frames role max_body frames ?init ?init [] b1 = (Inr (out, q), b2)"
    using read_frames_succeeds[OF h(2) frames, of "[]" max_body role] limits room init h(1)
    by (auto simp: CHUNK_RESERVATION_def)
  have "out = frame_data frames"
    using read_frames_result[OF h(2), of "[]" max_body frames role] out h(1) by (simp add: body_result_def)
  then show ?thesis
    using r p out h(1) declared limits by (auto simp: read_body_with_role_def split: option.split)
qed

theorem read_body_accepts_witness:
  "\<exists>permit b'. read_body_with_role (BR_Response ''r1'') [BF_Data ''abc''] (Some 3) 3 (ByteBudget_new 8192)
                 = (Inr (''abc'', permit), b')"
  using read_body_accepts[of "ByteBudget_new 8192" "[BF_Data ''abc'']" 3 "Some 3" "BR_Response ''r1''"]
  by (simp add: budget_ok_def ByteBudget_new_def USIZE_MAX_def CHUNK_RESERVATION_def)

section \<open>Decoding\<close>

text \<open>What decoding hands on, with the budget it started from.\<close>

definition response_result ::
  "ByteBudget \<Rightarrow> (Response \<Rightarrow> nat \<Rightarrow> bool) \<Rightarrow> (error + Response) \<times> ByteBudget \<Rightarrow> bool" where
  "response_result b0 post res \<longleftrightarrow>
     (case res of
        (Inl e, b) \<Rightarrow> ledger.holding b0 0 b
      | (Inr resp, b) \<Rightarrow> (\<exists>p. rs_permit resp = Some p \<and> ledger.holding b0 p b \<and> post resp p))"

lemma response_result_Inl [simp]: "response_result b0 post (Inl e, b) \<longleftrightarrow> ledger.holding b0 0 b"
  by (simp add: response_result_def)

lemma response_result_Inr [simp]:
  "response_result b0 post (Inr resp, b) \<longleftrightarrow>
     (\<exists>p. rs_permit resp = Some p \<and> ledger.holding b0 p b \<and> post resp p)"
  by (simp add: response_result_def)

lemma hold_decoded_result:
  assumes "ledger.holding b0 permit b"
  shows "response_result b0 (\<lambda>resp p. length (rs_body resp) \<le> max_body \<and> length (rs_body resp) \<le> p
           \<and> rs_body resp = rs_body decoded)
          (hold_decoded_response_budget decoded permit max_body b)"
proof -
  note dropped = ledger.holding_released[OF assms]
  let ?missing = "length (rs_body decoded) - permit"
  obtain ok p b1 where grow: "permit_grow ?missing permit b = (ok, p, b1)"
    by (cases "permit_grow ?missing permit b") auto
  show ?thesis
  proof (cases "max_body < length (rs_body decoded) \<or> ?missing = 0")
    case True
    then show ?thesis using dropped assms by (auto simp: hold_decoded_response_budget_def Let_def)
  next
    case False
    show ?thesis
    proof (cases ok)
      case True
      then have "p = permit + ?missing" "ledger.holding b0 p b1"
        using ledger.holding_grown[OF assms] grow by auto
      then show ?thesis using False True grow by (auto simp: hold_decoded_response_budget_def Let_def)
    next
      case no: False
      then have "p = permit" "b1 = b" using ledger.not_grown[OF assms] grow by auto
      then show ?thesis using False no grow dropped by (auto simp: hold_decoded_response_budget_def Let_def)
    qed
  qed
qed

definition bounded_response :: "nat \<Rightarrow> Response \<Rightarrow> nat \<Rightarrow> bool" where
  "bounded_response max_body resp p \<longleftrightarrow> length (rs_body resp) \<le> max_body \<and> length (rs_body resp) \<le> p"

lemma held_with_headers:
  assumes "ledger.holding b0 permit b"
  shows "response_result b0 (bounded_response max_body)
           (case hold_decoded_response_budget decoded permit max_body b of
              (Inl e, b) \<Rightarrow> (Inl e, b)
            | (Inr decoded, b) \<Rightarrow> (Inr (decoded\<lparr>rs_headers := headers\<rparr>), b))"
  using hold_decoded_result[OF assms, of max_body decoded]
  by (cases "hold_decoded_response_budget decoded permit max_body b"; cases "fst (hold_decoded_response_budget decoded permit max_body b)")
    (auto simp: bounded_response_def)

lemma decode_success_result:
  assumes "ledger.holding b0 permit b"
  shows "response_result b0 (bounded_response max_body)
           (decode_success decoder buffered permit max_body headers b)"
  using ledger.holding_released[OF assms] held_with_headers[OF assms]
  by (cases "decoder buffered"; cases "the (decoder buffered)") (auto simp: decode_success_def)

lemma decode_empty_result:
  assumes "budget_ok b"
  shows "response_result b (bounded_response max_body) (decode_empty_response decoder buffered max_body headers b)"
proof -
  have start: "ledger.holding b 0 b" using assms by (simp add: ledger.holding_def)
  obtain r b1 where r: "try_reserve 0 b = (r, b1)" by (cases "try_reserve 0 b")
  show ?thesis
  proof (cases r)
    case None
    then have "b1 = b" using ledger.not_reserved[OF assms] r by blast
    then show ?thesis using r None start
      by (cases "decoder buffered"; cases "the (decoder buffered)") (auto simp: decode_empty_response_def)
  next
    case (Some p)
    then have "ledger.holding b p b1" using ledger.holding_reserved[OF assms] r by blast
    from held_with_headers[OF this] show ?thesis using r Some start
      by (cases "decoder buffered"; cases "the (decoder buffered)") (auto simp: decode_empty_response_def)
  qed
qed

lemma decode_head_result:
  assumes "budget_ok b"
  shows "response_result b (\<lambda>resp p. rs_body resp = ''null'')
           (decode_head_response error_decoder buffered request_id headers b)"
proof -
  have start: "ledger.holding b 0 b" using assms by (simp add: ledger.holding_def)
  obtain r b1 where r: "try_reserve 0 b = (r, b1)" by (cases "try_reserve 0 b")
  show ?thesis
  proof (cases r)
    case None
    then have "b1 = b" using ledger.not_reserved[OF assms] r by blast
    then show ?thesis using r None start by (simp add: decode_head_response_def)
  next
    case (Some p)
    then have "p = 0" "ledger.holding b p b1" using ledger.holding_reserved[OF assms] r by blast+
    then show ?thesis using r Some start
      by (auto simp: decode_head_response_def set_status_def from_json_bytes_def)
  qed
qed

lemma decode_body_result:
  assumes "budget_ok b"
  shows "response_result b (bounded_response max_body)
     (decode_body_response to_str decoder error_decoder request_id response buffered max_body headers b)"
proof -
  have start: "ledger.holding b 0 b" using assms by (simp add: ledger.holding_def)
  show ?thesis
  proof (cases "parse_response_content_length to_str (in_headers response) request_id")
    case (Inl e)
    then show ?thesis using start by (simp add: decode_body_response_def)
  next
    case (Inr cl)
    obtain r b1 where r: "read_body_with_role (BR_Response request_id) (in_frames response) cl max_body b = (r, b1)"
      by (cases "read_body_with_role (BR_Response request_id) (in_frames response) cl max_body b")
    note read = read_body_result[OF assms, of "in_frames response" max_body cl "BR_Response request_id", unfolded r]
    show ?thesis
    proof (cases r)
      case (Inl e)
      then show ?thesis using read r \<open>_ = Inr cl\<close>
        by (simp add: decode_body_response_def read_response_body_def body_result_def)
    next
      case x: (Inr x)
      obtain body permit where bp: "x = (body, permit)" by (cases x)
      have h: "ledger.holding b permit b1" using read x bp by (simp add: body_result_def)
      show ?thesis
        using r x bp \<open>_ = Inr cl\<close> ledger.holding_released[OF h] decode_success_result[OF h]
        by (simp add: decode_body_response_def read_response_body_def)
    qed
  qed
qed

lemma decode_http_result:
  assumes "budget_ok b"
  shows "response_result b (\<lambda>resp p. if head then rs_body resp = ''null'' else bounded_response max_body resp p)
     (decode_http_response to_str decoder error_decoder head request_id response max_body b controls)"
proof (cases "bind_result (validate_response_http_version (in_version response) request_id (in_headers response))
             (\<lambda>_. validate_response_request_id to_str controls (in_headers response) request_id)")
  case (Inl e)
  then show ?thesis using assms by (simp add: decode_http_response_def ledger.holding_def)
next
  case (Inr x)
  then show ?thesis
    using decode_head_result[OF assms] decode_empty_result[OF assms] decode_body_result[OF assms]
    by (cases head) (simp_all add: decode_http_response_def Let_def)
qed

text \<open>
  C28.  Decoding a response never leaks or overdraws the budget, whatever the decoders do (fail, panic or
  produce a longer body): an error leaves the budget as it was, a success holds exactly the permit the
  budget grew by, and, but for the fixed answer to a HEAD request, its body is within the limit and
  covered by that permit.
\<close>

theorem decode_response_accounts:
  "\<lbrakk>budget_ok b;
    decode_http_response to_str decoder error_decoder head request_id response max_body b controls = (r, b')\<rbrakk> \<Longrightarrow>
   (case r of
      Inl e \<Rightarrow> bb_used b' = bb_used b
    | Inr resp \<Rightarrow>
        \<exists>p. rs_permit resp = Some p \<and> bb_used b' = bb_used b + p
          \<and> (if head then rs_body resp = ''null'' else length (rs_body resp) \<le> max_body \<and> length (rs_body resp) \<le> p))"
  using decode_http_result[of b head max_body to_str decoder error_decoder request_id response controls]
  by (auto simp: response_result_def ledger.holding_def bounded_response_def split: sum.splits if_splits)

theorem decode_response_accounts_witness:
  "\<exists>resp b'. decode_http_response (\<lambda>v. Some v) (\<lambda>buffered. Some (Inr (from_json_bytes (br_body buffered @ ''!''))))
       (\<lambda>buffered. None) False ''r1''
       \<lparr>in_status = 200, in_version = HTTP_11, in_headers = [], in_frames = [BF_Data ''abc'']\<rparr> 8
       (ByteBudget_new 8192) False = (Inr resp, b')
     \<and> (\<exists>p. rs_permit resp = Some p \<and> bb_used b' = p \<and> 4 \<le> p)"
proof -
  let ?resp = "\<lparr>in_status = 200, in_version = HTTP_11, in_headers = [], in_frames = [BF_Data ''abc'']\<rparr>"
  have ok: "budget_ok (ByteBudget_new 8192)" by (simp add: budget_ok_def ByteBudget_new_def USIZE_MAX_def)
  obtain resp b' where run: "decode_http_response (\<lambda>v. Some v)
       (\<lambda>buffered. Some (Inr (from_json_bytes (br_body buffered @ ''!'')))) (\<lambda>buffered. None) False ''r1''
       ?resp 8 (ByteBudget_new 8192) False = (Inr resp, b')" and len: "length (rs_body resp) = 4"
    by (simp add: decode_http_response_def validate_response_http_version_def validate_response_request_id_def
        decode_body_response_def parse_response_content_length_def read_response_body_def
        read_body_with_role_def ByteBudget_new_def try_reserve_def try_add_def add_target_def
        checked_add_def permit_grow_def chunk_growth_def div_ceil_def CHUNK_RESERVATION_def USIZE_MAX_def
        wrapping_add_def is_success_def decode_success_def hold_decoded_response_budget_def
        from_json_bytes_def Let_def)
  from decode_response_accounts[OF ok run] len run show ?thesis by (auto simp: ByteBudget_new_def)
qed

section \<open>Streaming\<close>

fun poll_all :: "nat \<Rightarrow> GuardedBody \<Rightarrow> string list \<times> GuardedBody" where
  "poll_all 0 g = ([], g)"
| "poll_all (Suc n) g =
     (case poll_frame g of
        (None, g) \<Rightarrow> ([], g)
      | (Some chunk, g) \<Rightarrow> (let (rest, g) = poll_all n g in (chunk # rest, g)))"

lemma poll_first:
  "poll_frame (GuardedBody_new body) =
     (if body = [] then (None, \<lparr>gb_chunks = [None, None, None], gb_next_chunk = 3, gb_remaining = 0\<rparr>)
      else (Some body, \<lparr>gb_chunks = [None, None, None], gb_next_chunk = 1, gb_remaining = 0\<rparr>))"
  by (simp add: poll_frame.simps GuardedBody_new_def Let_def numeral_3_eq_3)

lemma poll_rest:
  "poll_frame \<lparr>gb_chunks = [None, None, None], gb_next_chunk = 1, gb_remaining = 0\<rparr>
   = (None, \<lparr>gb_chunks = [None, None, None], gb_next_chunk = 3, gb_remaining = 0\<rparr>)"
  by (simp add: poll_frame.simps Let_def numeral_3_eq_3)

lemma size_hint_new: "size_hint (GuardedBody_new body) = length body"
  by (simp add: size_hint_def GuardedBody_new_def)

text \<open>
   The body stream yields exactly the body: polled to its end it gives the body as one chunk, nothing
  for an empty body, and never an empty chunk; before the first poll the size hint is the exact length,
  at the end the stream knows that it ended.
\<close>

theorem guarded_body_streams:
  "poll_all (Suc (Suc n)) (GuardedBody_new body)
     = (if body = [] then [] else [body], \<lparr>gb_chunks = [None, None, None], gb_next_chunk = 3, gb_remaining = 0\<rparr>)
   \<and> size_hint (GuardedBody_new body) = length body
   \<and> is_end_stream (snd (poll_all (Suc (Suc n)) (GuardedBody_new body)))"
  using poll_rest by (auto simp: poll_first size_hint_new is_end_stream_def)

end
