(* ===== verification/Watch.thy ===== *)
theory Watch
  imports Prelude
begin

text \<open>
  The channel of \<^verbatim>\<open>tokio::sync::watch\<close> the directory and the hot configuration publish through, as its
  documentation states it: one current value, a version that every \<^verbatim>\<open>send_replace\<close> increments, and
  receivers that remember the version they saw.
\<close>

record 'a watch =
  wt_value :: 'a
  wt_version :: nat

definition watch_channel :: "'a \<Rightarrow> 'a watch" where
  "watch_channel v = \<lparr>wt_value = v, wt_version = 0\<rparr>"

definition send_replace :: "'a \<Rightarrow> 'a watch \<Rightarrow> 'a watch" where
  "send_replace v w = \<lparr>wt_value = v, wt_version = Suc (wt_version w)\<rparr>"

text \<open>\<^verbatim>\<open>has_changed\<close> of a receiver that saw version \<open>seen\<close>.\<close>

definition has_changed :: "'a watch \<Rightarrow> nat \<Rightarrow> bool" where
  "has_changed w seen \<longleftrightarrow> seen \<noteq> wt_version w"

text \<open>
  The contract its users rely on: an observer that saw the current version holds the current value, and
  it keeps a correct view through every publication and every look.
\<close>

locale latest_wins =
  fixes publish :: "'a \<Rightarrow> 'c \<Rightarrow> 'c" and current :: "'c \<Rightarrow> 'a" and version :: "'c \<Rightarrow> nat"
  assumes current_publish: "current (publish v c) = v"
    and version_publish: "version c < version (publish v c)"
begin

definition observes :: "'c \<Rightarrow> nat \<Rightarrow> ('a \<Rightarrow> bool) \<Rightarrow> bool" where
  "observes c seen p \<longleftrightarrow> seen \<le> version c \<and> (seen = version c \<longrightarrow> p (current c))"

lemma observes_publish: "observes c seen p \<Longrightarrow> observes (publish v c) seen p"
  using version_publish[of c v] by (simp add: observes_def)

lemma observes_look: "p (current c) \<Longrightarrow> observes c (version c) p"
  by (simp add: observes_def)

lemma observes_caught_up: "observes c seen p \<Longrightarrow> seen = version c \<Longrightarrow> p (current c)"
  by (simp add: observes_def)

lemma current_publishes: "vs \<noteq> [] \<Longrightarrow> current (fold publish vs c) = last vs"
  by (induction vs arbitrary: c) (auto simp: current_publish)

end

interpretation watch: latest_wins send_replace wt_value wt_version
  by unfold_locales (simp_all add: send_replace_def)

end
