(* ===== verification/Hot_Config.thy ===== *)
theory Hot_Config
  imports Utf8 Watch
begin

text \<open>
  Configuration documents and their last-good typed view (\<open>fusen-config/src/hot.rs\<close>,
  \<open>static_config.rs\<close>, \<open>error.rs\<close>): keys, formats, the publisher and the task that turns raw
  documents into typed snapshots.

  The parsers are arguments: \<open>toml\<close> gives a value or the text of its error, \<open>yaml\<close> is \<open>None\<close> when the
  feature is disabled.  A mutex is a critical section: every operation on the publisher is one step.
\<close>

section \<open>Errors\<close>

datatype ConfigOperation =
  CO_Read | CO_Parse | CO_Prepare | CO_Activate | CO_Publish | CO_Close | CO_Watch

datatype ConfigErrorKind =
  CK_InvalidInput | CK_UnsupportedFormat | CK_Io | CK_InvalidData | CK_Unavailable | CK_Unauthorized
| CK_Timeout | CK_Cancelled | CK_CleanupAborted | CK_Internal

record ConfigError =
  ce_operation :: ConfigOperation
  ce_kind :: ConfigErrorKind
  ce_message :: string
  ce_source :: string

fun default_message :: "ConfigErrorKind \<Rightarrow> string" where
  "default_message CK_InvalidInput = ''configuration input is invalid''"
| "default_message CK_UnsupportedFormat = ''configuration format is unsupported''"
| "default_message CK_Io = ''configuration input could not be read''"
| "default_message CK_InvalidData = ''configuration data is invalid''"
| "default_message CK_Unavailable = ''configuration provider is unavailable''"
| "default_message CK_Unauthorized = ''configuration provider rejected the operation''"
| "default_message CK_Timeout = ''configuration operation timed out''"
| "default_message CK_Cancelled = ''configuration operation was cancelled''"
| "default_message CK_CleanupAborted = ''configuration cleanup did not complete''"
| "default_message CK_Internal = ''configuration operation failed internally''"

definition ConfigError_new :: "ConfigOperation \<Rightarrow> ConfigErrorKind \<Rightarrow> string \<Rightarrow> ConfigError" where
  "ConfigError_new operation kind src =
     \<lparr>ce_operation = operation, ce_kind = kind, ce_message = default_message kind, ce_source = src\<rparr>"

definition ConfigError_message :: "ConfigOperation \<Rightarrow> ConfigErrorKind \<Rightarrow> string \<Rightarrow> ConfigError" where
  "ConfigError_message operation kind message =
     \<lparr>ce_operation = operation, ce_kind = kind, ce_message = message, ce_source = message\<rparr>"

fun kind_is_retryable :: "ConfigErrorKind \<Rightarrow> bool" where
  "kind_is_retryable CK_Unavailable = True"
| "kind_is_retryable CK_Timeout = True"
| "kind_is_retryable _ = False"

section \<open>Documents and keys\<close>

datatype ConfigFormat = CF_Toml | CF_Yaml

record ConfigDocument =
  cd_format :: ConfigFormat
  cd_content :: string

text \<open>\<^verbatim>\<open>value.trim().to_ascii_lowercase()\<close> as code points.\<close>

definition trimmed_lowercase :: "string \<Rightarrow> nat list" where
  "trimmed_lowercase v = map (\<lambda>c. if 65 \<le> c \<and> c \<le> 90 then c + 32 else c) (trim_chars (chars v))"

definition from_name :: "string \<Rightarrow> ConfigFormat option" where
  "from_name v =
     (let n = trimmed_lowercase v
      in if n \<in> map byte ` {''toml'', ''text/toml'', ''application/toml''} then Some CF_Toml
         else if n \<in> map byte ` {''yaml'', ''yml'', ''text/yaml'', ''application/yaml'', ''application/x-yaml''}
         then Some CF_Yaml
         else None)"

fun format_as_str :: "ConfigFormat \<Rightarrow> string" where
  "format_as_str CF_Toml = ''toml''"
| "format_as_str CF_Yaml = ''yaml''"

record ConfigKey =
  ck_name :: string
  ck_group :: "string option"

definition MAX_KEY_BYTES :: nat where "MAX_KEY_BYTES = 256"

definition validate_key_component :: "string \<Rightarrow> string \<Rightarrow> ConfigError + unit" where
  "validate_key_component v field =
     (if v \<noteq> [] \<and> length v \<le> MAX_KEY_BYTES \<and> trim_chars (chars v) = chars v \<and> \<not> list_ex is_ascii_control v
      then Inr ()
      else Inl (ConfigError_message CO_Prepare CK_InvalidInput
             (field @ '' must be 1-256 bytes without surrounding whitespace or control characters'')))"

definition build_key :: "string \<Rightarrow> string option \<Rightarrow> ConfigError + ConfigKey" where
  "build_key name grp =
     bind_result (validate_key_component name ''configuration name'') (\<lambda>_.
     bind_result
       (case grp of Some g \<Rightarrow> validate_key_component g ''configuration group'' | None \<Rightarrow> Inr ()) (\<lambda>_.
       Inr \<lparr>ck_name = name, ck_group = grp\<rparr>))"

definition parse_toml :: "(string \<Rightarrow> string + 'v) \<Rightarrow> string \<Rightarrow> ConfigError + 'v" where
  "parse_toml toml content = map_err (ConfigError_new CO_Parse CK_InvalidData) (toml content)"

definition parse_yaml :: "(string \<Rightarrow> string + 'v) option \<Rightarrow> string \<Rightarrow> ConfigError + 'v" where
  "parse_yaml yaml content =
     (case yaml of
        Some y \<Rightarrow> map_err (ConfigError_new CO_Parse CK_InvalidData) (y content)
      | None \<Rightarrow> Inl (ConfigError_message CO_Parse CK_UnsupportedFormat
                 ''YAML support requires the fusen-config `yaml` feature''))"

definition parse_document ::
  "(string \<Rightarrow> string + 'v) \<Rightarrow> (string \<Rightarrow> string + 'v) option \<Rightarrow> ConfigDocument \<Rightarrow> ConfigError + 'v" where
  "parse_document toml yaml d =
     (case cd_format d of
        CF_Toml \<Rightarrow> parse_toml toml (cd_content d)
      | CF_Yaml \<Rightarrow> parse_yaml yaml (cd_content d))"

section \<open>The publisher\<close>

record RawSnapshot =
  sn_document :: "ConfigDocument option"
  sn_closed :: bool

record PublisherState =
  ps_revision :: nat
  ps_baseline :: "ConfigDocument option"
  ps_closed :: bool
  ps_sender :: "RawSnapshot watch"

definition ConfigPublisher_new :: PublisherState where
  "ConfigPublisher_new =
     \<lparr>ps_revision = 0, ps_baseline = None, ps_closed = False,
      ps_sender = watch_channel \<lparr>sn_document = None, sn_closed = False\<rparr>\<rparr>"

definition publish :: "ConfigDocument \<Rightarrow> PublisherState \<Rightarrow> (ConfigError + unit) \<times> PublisherState" where
  "publish document s =
     (if ps_closed s
      then (Inl (ConfigError_message CO_Publish CK_Cancelled ''configuration publisher is closed''), s)
      else (case checked_add U64_MAX (ps_revision s) 1 of
              None \<Rightarrow> (Inl (ConfigError_message CO_Publish CK_Internal ''raw configuration revision overflowed''), s)
            | Some revision \<Rightarrow>
                (Inr (), s\<lparr>ps_revision := revision,
                           ps_sender := send_replace \<lparr>sn_document = Some document, sn_closed = False\<rparr> (ps_sender s)\<rparr>)))"

definition publish_initial :: "ConfigDocument \<Rightarrow> PublisherState \<Rightarrow> (ConfigError + unit) \<times> PublisherState" where
  "publish_initial document s =
     (if ps_closed s
      then (Inl (ConfigError_message CO_Activate CK_Cancelled ''configuration publisher closed during activation''), s)
      else (let s = s\<lparr>ps_baseline := Some document\<rparr>
            in if sn_document (wt_value (ps_sender s)) = None
               then (case checked_add U64_MAX (ps_revision s) 1 of
                       None \<Rightarrow> (Inl (ConfigError_message CO_Activate CK_Internal
                                 ''raw configuration revision overflowed''), s)
                     | Some revision \<Rightarrow>
                         (Inr (), s\<lparr>ps_revision := revision,
                            ps_sender := send_replace \<lparr>sn_document = Some document, sn_closed = False\<rparr> (ps_sender s)\<rparr>))
               else (Inr (), s)))"

definition finish_publisher :: "PublisherState \<Rightarrow> PublisherState" where
  "finish_publisher s =
     (if ps_closed s then s
      else s\<lparr>ps_closed := True, ps_revision := saturating_add U64_MAX (ps_revision s) 1,
             ps_sender := send_replace \<lparr>sn_document = sn_document (wt_value (ps_sender s)), sn_closed = True\<rparr>
                            (ps_sender s)\<rparr>)"

section \<open>The typed view\<close>

text \<open>A \<^verbatim>\<open>HotConfig\<close> with its background task: the two channels it feeds, and what the task saw.\<close>

record 'v ConfigSnapshot =
  cs_revision :: nat
  cs_observed_at :: instant
  cs_value :: 'v

record 'v HotConfig =
  hc_snapshot :: "'v ConfigSnapshot"
  hc_last_error :: "ConfigError option"
  hc_seen :: nat
  hc_running :: bool

text \<open>The initial value: the baseline first, then the current document when it is another one.\<close>

definition initial_value ::
  "(ConfigDocument \<Rightarrow> ConfigError + 'v) \<Rightarrow> ConfigDocument option \<Rightarrow> ConfigDocument option \<Rightarrow>
   'v option \<times> ConfigError option" where
  "initial_value parse baseline document =
     (let (v, e) = (case baseline of
                      None \<Rightarrow> (None, None)
                    | Some d \<Rightarrow> (case parse d of Inr x \<Rightarrow> (Some x, None) | Inl err \<Rightarrow> (None, Some err)))
      in if document \<noteq> None \<and> baseline \<noteq> document
         then (case parse (the document) of
                 Inr x \<Rightarrow> (Some x, None)
               | Inl err \<Rightarrow> (v, Some err))
         else (v, e))"

definition typed ::
  "(ConfigDocument \<Rightarrow> ConfigError + 'v) \<Rightarrow> (ConfigError + unit) option \<Rightarrow> bool \<Rightarrow> instant \<Rightarrow> PublisherState \<Rightarrow>
   ConfigError + 'v HotConfig" where
  "typed parse activation_result has_runtime now s =
     (case activation_result of
        Some (Inl e) \<Rightarrow> Inl e
      | None \<Rightarrow> Inl (ConfigError_message CO_Watch CK_InvalidInput
                 ''configuration handle must be activated before creating a typed view'')
      | Some (Inr _) \<Rightarrow>
          (let current = wt_value (ps_sender s)
           in if sn_closed current
              then Inl (ConfigError_message CO_Watch CK_Cancelled ''configuration handle is closed'')
              else (case initial_value parse (ps_baseline s) (sn_document current) of
                      (None, e) \<Rightarrow>
                        Inl (case e of Some e \<Rightarrow> e
                             | None \<Rightarrow> ConfigError_message CO_Watch CK_Internal
                                 ''activated configuration source did not publish an initial document'')
                    | (Some v, e) \<Rightarrow>
                        if \<not> has_runtime then Inl (ConfigError_new CO_Watch CK_Internal [])
                        else Inr \<lparr>hc_snapshot = \<lparr>cs_revision = 1, cs_observed_at = now, cs_value = v\<rparr>,
                                  hc_last_error = e, hc_seen = wt_version (ps_sender s), hc_running = True\<rparr>)))"

text \<open>
  One turn of the task: it reacts to a change it has not seen.  A change it cannot see because the
  sender is gone does not arise here, the publisher sends its closed snapshot first.
\<close>

definition typed_turn ::
  "(ConfigDocument \<Rightarrow> ConfigError + 'v) \<Rightarrow> instant \<Rightarrow> PublisherState \<Rightarrow> 'v HotConfig \<Rightarrow> 'v HotConfig" where
  "typed_turn parse now s h =
     (if \<not> hc_running h \<or> \<not> has_changed (ps_sender s) (hc_seen h) then h
      else (let snapshot = wt_value (ps_sender s);
                h = h\<lparr>hc_seen := wt_version (ps_sender s)\<rparr>
            in if sn_closed snapshot then h\<lparr>hc_running := False\<rparr>
               else (case sn_document snapshot of
                       None \<Rightarrow> h
                     | Some document \<Rightarrow>
                         (case parse document of
                            Inr v \<Rightarrow>
                              (case checked_add U64_MAX (cs_revision (hc_snapshot h)) 1 of
                                 None \<Rightarrow> h\<lparr>hc_last_error := Some (ConfigError_message CO_Watch CK_Internal
                                            ''typed configuration revision overflowed''), hc_running := False\<rparr>
                               | Some revision \<Rightarrow>
                                   h\<lparr>hc_last_error := None,
                                     hc_snapshot := \<lparr>cs_revision = revision, cs_observed_at = now, cs_value = v\<rparr>\<rparr>)
                          | Inl e \<Rightarrow> h\<lparr>hc_last_error := Some e\<rparr>))))"

end
