(* ===== verification/Hot_Config_Theorems.thy ===== *)
theory Hot_Config_Theorems
  imports Hot_Config
begin

text \<open>
  The typed view is the last good configuration: over any interleaving of publications and turns of the
  view's task it holds the value of the last document it saw that parses.
\<close>

section \<open>Runs\<close>

datatype hot_event = HE_Publish ConfigDocument | HE_Finish | HE_Turn instant

text \<open>The document a turn looks at, if it looks at one.\<close>

definition turn_document :: "PublisherState \<Rightarrow> 'v HotConfig \<Rightarrow> ConfigDocument option" where
  "turn_document s h =
     (if hc_running h \<and> has_changed (ps_sender s) (hc_seen h) \<and> \<not> sn_closed (wt_value (ps_sender s))
      then sn_document (wt_value (ps_sender s)) else None)"

text \<open>The third component collects the documents the task looked at, in order.\<close>

type_synonym 'v hot_system = "PublisherState \<times> 'v HotConfig \<times> ConfigDocument list"

fun hot_step ::
  "(ConfigDocument \<Rightarrow> ConfigError + 'v) \<Rightarrow> hot_event \<Rightarrow> 'v hot_system \<Rightarrow> 'v hot_system" where
  "hot_step parse (HE_Publish d) (s, h, seen) = (snd (publish d s), h, seen)"
| "hot_step parse HE_Finish (s, h, seen) = (finish_publisher s, h, seen)"
| "hot_step parse (HE_Turn now) (s, h, seen) =
     (s, typed_turn parse now s h,
      seen @ (case turn_document s h of Some d \<Rightarrow> [d] | None \<Rightarrow> []))"

definition hot_run ::
  "(ConfigDocument \<Rightarrow> ConfigError + 'v) \<Rightarrow> hot_event list \<Rightarrow> 'v hot_system \<Rightarrow> 'v hot_system" where
  "hot_run parse events sys = fold (hot_step parse) events sys"

section \<open>The specification\<close>

text \<open>The value of the last document that parses, the number of those, the error of the last document.\<close>

definition good :: "(ConfigDocument \<Rightarrow> ConfigError + 'v) \<Rightarrow> ConfigDocument list \<Rightarrow> 'v list" where
  "good parse ds = concat (map (\<lambda>d. case parse d of Inr v \<Rightarrow> [v] | Inl e \<Rightarrow> []) ds)"

definition last_good :: "(ConfigDocument \<Rightarrow> ConfigError + 'v) \<Rightarrow> ConfigDocument list \<Rightarrow> 'v \<Rightarrow> 'v" where
  "last_good parse ds v0 = last (v0 # good parse ds)"

definition last_rejection ::
  "(ConfigDocument \<Rightarrow> ConfigError + 'v) \<Rightarrow> ConfigDocument list \<Rightarrow> ConfigError option \<Rightarrow> ConfigError option" where
  "last_rejection parse ds e0 =
     (if ds = [] then e0 else (case parse (last ds) of Inl e \<Rightarrow> Some e | Inr v \<Rightarrow> None))"

lemma good_snoc: "good parse (ds @ [d]) = good parse ds @ (case parse d of Inr v \<Rightarrow> [v] | Inl e \<Rightarrow> [])"
  by (simp add: good_def)

lemma good_length: "length (good parse ds) \<le> length ds"
  by (induction ds) (auto simp: good_def split: sum.split)

text \<open>What a view shows of the current document once it has seen it.\<close>

definition shows_document ::
  "(ConfigDocument \<Rightarrow> ConfigError + 'v) \<Rightarrow> 'v HotConfig \<Rightarrow> RawSnapshot \<Rightarrow> bool" where
  "shows_document parse h snapshot \<longleftrightarrow>
     \<not> sn_closed snapshot
     \<and> (case sn_document snapshot of
          None \<Rightarrow> True
        | Some d \<Rightarrow>
            (case parse d of
               Inr v \<Rightarrow> cs_value (hc_snapshot h) = v \<and> hc_last_error h = None
             | Inl e \<Rightarrow> hc_last_error h = Some e))"

definition hot_ok ::
  "(ConfigDocument \<Rightarrow> ConfigError + 'v) \<Rightarrow> 'v HotConfig \<Rightarrow> 'v hot_system \<Rightarrow> bool" where
  "hot_ok parse h0 sys \<longleftrightarrow>
     (case sys of (s, h, seen) \<Rightarrow>
        cs_value (hc_snapshot h) = last_good parse seen (cs_value (hc_snapshot h0))
        \<and> cs_revision (hc_snapshot h) = Suc (length (good parse seen))
        \<and> hc_last_error h = last_rejection parse seen (hc_last_error h0)
        \<and> (hc_running h \<longrightarrow> watch.observes (ps_sender s) (hc_seen h) (shows_document parse h)))"

section \<open>Every step keeps it\<close>

lemma publish_observes:
  "watch.observes (ps_sender s) n p \<Longrightarrow> watch.observes (ps_sender (snd (publish d s))) n p"
  by (auto simp: publish_def watch.observes_publish split: option.split)

lemma finish_observes:
  "watch.observes (ps_sender s) n p \<Longrightarrow> watch.observes (ps_sender (finish_publisher s)) n p"
  by (auto simp: finish_publisher_def watch.observes_publish)

lemma turn_ok:
  assumes ok: "hot_ok parse h0 (s, h, seen)" and room: "Suc (length seen) < U64_MAX"
  shows "hot_ok parse h0 (hot_step parse (HE_Turn now) (s, h, seen))"
proof (cases "hc_running h \<and> has_changed (ps_sender s) (hc_seen h)")
  case False
  then have "typed_turn parse now s h = h" "turn_document s h = None"
    by (auto simp: typed_turn_def turn_document_def)
  then show ?thesis using ok by simp
next
  case True
  show ?thesis
  proof (cases "turn_document s h")
    case None
    then have "sn_closed (wt_value (ps_sender s)) \<or> sn_document (wt_value (ps_sender s)) = None"
      using True by (auto simp: turn_document_def split: if_splits)
    then show ?thesis
      using ok True None watch.observes_look[of _ "ps_sender s"]
      by (auto simp: typed_turn_def hot_ok_def Let_def shows_document_def)
  next
    case (Some d)
    then have d: "\<not> sn_closed (wt_value (ps_sender s))" "sn_document (wt_value (ps_sender s)) = Some d"
      by (auto simp: turn_document_def split: if_splits)
    have revision: "cs_revision (hc_snapshot h) = Suc (length (good parse seen))"
      using ok by (simp add: hot_ok_def)
    then have next_revision: "checked_add U64_MAX (cs_revision (hc_snapshot h)) 1 = Some (Suc (Suc (length (good parse seen))))"
      using good_length[of parse seen] room by (simp add: checked_add_def)
    show ?thesis
    proof (cases "parse d")
      case (Inl e)
      then show ?thesis
        using ok True d Some watch.observes_look[of _ "ps_sender s"]
        by (auto simp: typed_turn_def hot_ok_def Let_def shows_document_def last_good_def good_snoc last_rejection_def)
    next
      case (Inr v)
      then show ?thesis
        using ok True d Some next_revision watch.observes_look[of _ "ps_sender s"]
        by (auto simp: typed_turn_def hot_ok_def Let_def shows_document_def last_good_def good_snoc last_rejection_def)
    qed
  qed
qed

lemma hot_step_seen: "\<exists>ds. snd (snd (hot_step parse ev (s, h, seen))) = seen @ ds"
  by (cases ev) auto

lemma hot_run_ok:
  assumes "hot_ok parse h0 sys" "Suc (length (snd (snd (hot_run parse events sys)))) < U64_MAX"
  shows "hot_ok parse h0 (hot_run parse events sys)"
  using assms
proof (induction events rule: rev_induct)
  case (snoc ev events)
  obtain s h seen where run: "hot_run parse events sys = (s, h, seen)" by (cases "hot_run parse events sys")
  have last: "hot_run parse (events @ [ev]) sys = hot_step parse ev (s, h, seen)"
    using run by (simp add: hot_run_def)
  obtain ds where ds: "snd (snd (hot_step parse ev (s, h, seen))) = seen @ ds" using hot_step_seen by metis
  then have small: "Suc (length seen) < U64_MAX" using snoc.prems(2) by (simp add: last)
  then have ih: "hot_ok parse h0 (s, h, seen)" using snoc.IH snoc.prems(1) run by simp
  show ?case
  proof (cases ev)
    case (HE_Turn now)
    then show ?thesis unfolding last using turn_ok[OF ih small] by simp
  next
    case (HE_Publish d)
    then show ?thesis unfolding last using ih by (auto simp: hot_ok_def publish_observes)
  next
    case HE_Finish
    then show ?thesis unfolding last using ih by (auto simp: hot_ok_def finish_observes)
  qed
qed (simp add: hot_run_def)

lemma initial_value_shows:
  assumes "initial_value parse b (Some d) = (Some v, e)"
  shows "case parse d of Inr x \<Rightarrow> v = x \<and> e = None | Inl err \<Rightarrow> e = Some err"
proof (cases "b = Some d")
  case True
  then show ?thesis using assms by (cases "parse d") (simp_all add: initial_value_def)
next
  case False
  obtain v0 e0 where "(case b of None \<Rightarrow> (None, None)
      | Some d \<Rightarrow> (case parse d of Inr x \<Rightarrow> (Some x, None) | Inl err \<Rightarrow> (None, Some err))) = (v0, e0)"
    by fastforce
  then show ?thesis using assms False by (cases "parse d") (simp_all add: initial_value_def)
qed

lemma typed_Inr:
  assumes "typed parse act rt now s = Inr h"
  shows "\<exists>v e. initial_value parse (ps_baseline s) (sn_document (wt_value (ps_sender s))) = (Some v, e)
      \<and> \<not> sn_closed (wt_value (ps_sender s))
      \<and> h = \<lparr>hc_snapshot = \<lparr>cs_revision = 1, cs_observed_at = now, cs_value = v\<rparr>,
             hc_last_error = e, hc_seen = wt_version (ps_sender s), hc_running = True\<rparr>"
proof -
  obtain v e where ve: "initial_value parse (ps_baseline s) (sn_document (wt_value (ps_sender s))) = (v, e)"
    by fastforce
  show ?thesis
    using assms ve by (cases act; cases "the act"; cases v) (auto simp: typed_def Let_def split: if_splits)
qed

lemma typed_ok:
  assumes "typed parse act rt now s = Inr h"
  shows "hot_ok parse h (s, h, [])"
proof -
  from typed_Inr[OF assms] obtain v e
    where init: "initial_value parse (ps_baseline s) (sn_document (wt_value (ps_sender s))) = (Some v, e)"
      and rest: "\<not> sn_closed (wt_value (ps_sender s))"
        "h = \<lparr>hc_snapshot = \<lparr>cs_revision = 1, cs_observed_at = now, cs_value = v\<rparr>,
             hc_last_error = e, hc_seen = wt_version (ps_sender s), hc_running = True\<rparr>"
    by blast
  have "shows_document parse h (wt_value (ps_sender s))"
  proof (cases "sn_document (wt_value (ps_sender s))")
    case None
    then show ?thesis using rest(1) by (simp add: shows_document_def)
  next
    case (Some d)
    then show ?thesis
      using init initial_value_shows[of parse "ps_baseline s" d v e] rest
      by (cases "parse d") (simp_all add: shows_document_def)
  qed
  then show ?thesis
    using rest(2) watch.observes_look[of "shows_document parse h" "ps_sender s"]
    by (simp add: hot_ok_def last_good_def good_def last_rejection_def)
qed

section \<open>Properties\<close>

text \<open>
  C10.  The typed view refines its specification.  Whatever is published and whenever the task runs: the
  value is that of the last document the task saw that parses (the initial one if there is none), the
  revision counts exactly those, and the reported error is the one of the last document seen, if it was
  rejected.  Once the task has seen the current document of an open source, the view shows it: its value
  and no error when it parses, its error otherwise.
\<close>

theorem hot_config_last_good:
  assumes view: "typed parse act rt now s0 = Inr h0"
    and run: "hot_run parse events (s0, h0, []) = (s, h, seen)"
    and room: "Suc (length seen) < U64_MAX"
  shows "cs_value (hc_snapshot h) = last_good parse seen (cs_value (hc_snapshot h0))
         \<and> cs_revision (hc_snapshot h) = Suc (length (good parse seen))
         \<and> hc_last_error h = last_rejection parse seen (hc_last_error h0)
         \<and> (hc_running h \<and> \<not> has_changed (ps_sender s) (hc_seen h) \<longrightarrow>
              shows_document parse h (wt_value (ps_sender s)))"
  using hot_run_ok[OF typed_ok[OF view], of events] run room
  by (auto simp: hot_ok_def has_changed_def dest: watch.observes_caught_up)

definition demo_parse :: "ConfigDocument \<Rightarrow> ConfigError + string" where
  "demo_parse d = parse_document (\<lambda>t. if t = ''bad'' then Inl ''syntax'' else Inr t) None d"

definition demo_toml :: "string \<Rightarrow> ConfigDocument" where
  "demo_toml t = \<lparr>cd_format = CF_Toml, cd_content = t\<rparr>"

theorem hot_config_last_good_witness:
  "\<exists>h0 s h. typed demo_parse (Some (Inr ())) True 0 (snd (publish_initial (demo_toml ''a'') ConfigPublisher_new)) = Inr h0
     \<and> hot_run demo_parse [HE_Publish (demo_toml ''b''), HE_Turn 1, HE_Publish (demo_toml ''bad''), HE_Turn 2]
         (snd (publish_initial (demo_toml ''a'') ConfigPublisher_new), h0, [])
         = (s, h, [demo_toml ''b'', demo_toml ''bad''])
     \<and> cs_value (hc_snapshot h) = ''b'' \<and> hc_last_error h \<noteq> None"
proof -
  let ?s0 = "snd (publish_initial (demo_toml ''a'') ConfigPublisher_new)"
  let ?events = "[HE_Publish (demo_toml ''b''), HE_Turn 1, HE_Publish (demo_toml ''bad''), HE_Turn 2]"
  note evaluate = publish_initial_def ConfigPublisher_new_def watch_channel_def checked_add_def U64_MAX_def
    send_replace_def demo_toml_def demo_parse_def parse_document_def parse_toml_def map_err_def
  obtain h0 where h0: "typed demo_parse (Some (Inr ())) True 0 ?s0 = Inr h0"
    by (simp add: typed_def initial_value_def evaluate Let_def)
  then have h0_eq: "h0 = \<lparr>hc_snapshot = \<lparr>cs_revision = 1, cs_observed_at = 0, cs_value = ''a''\<rparr>,
      hc_last_error = None, hc_seen = 1, hc_running = True\<rparr>"
    by (simp add: typed_def initial_value_def evaluate Let_def)
  obtain s h where run: "hot_run demo_parse ?events (?s0, h0, []) = (s, h, [demo_toml ''b'', demo_toml ''bad''])"
    by (simp add: hot_run_def h0_eq turn_document_def has_changed_def publish_def typed_turn_def evaluate Let_def)
  have "Suc (length [demo_toml ''b'', demo_toml ''bad'']) < U64_MAX" by (simp add: U64_MAX_def)
  note view = hot_config_last_good[OF h0 run this]
  have "last_good demo_parse [demo_toml ''b'', demo_toml ''bad''] v = ''b''"
    "last_rejection demo_parse [demo_toml ''b'', demo_toml ''bad''] e \<noteq> None" for v e
    by (simp_all add: last_good_def good_def last_rejection_def demo_parse_def parse_document_def parse_toml_def
        map_err_def demo_toml_def)
  then show ?thesis using h0 run view by (intro exI[of _ h0] exI[of _ s] exI[of _ h]) simp
qed

end
