(* ===== verification/Hot_Lifecycle.thy ===== *)
theory Hot_Lifecycle
  imports Hot_Config
begin

text \<open>
  The lifecycle of a configuration handle (\<open>Lifecycle\<close> and \<open>LifecycleWorker\<close> of
  \<open>fusen-config/src/hot.rs\<close>): callers that activate or close it, the worker task they start, and the
  provider that publishes documents.

  Every atomic access, every \<^verbatim>\<open>send_replace\<close> and every look at a channel is one step.  The mutex \<open>start\<close>
  is held from the step that takes it to the step that leaves its section; what happens to the state it
  guards in between is seen by nobody else.  The provider's futures end with any result, panic, or are
  dropped with the worker when the runtime goes away.
\<close>

section \<open>The state\<close>

datatype StartState = SS_Prepared | SS_Started | SS_Finished

type_synonym shared_result = "(ConfigError + unit) option"

text \<open>
  A caller inside \<open>ensure_started\<close>, \<open>request_close\<close> or \<open>finish_before_start\<close>.  \<open>LC_Starting\<close>,
  \<open>LC_NoRuntime\<close> and \<open>LC_Closing\<close> wait for the mutex; \<open>LC_Spawning\<close>, \<open>LC_Finish\<close>, \<open>LC_Activation\<close> and
  \<open>LC_Close\<close> hold it, before the spawn, the end of the publisher, and the two results.
\<close>

datatype lifecycle_caller =
  LC_Idle
| LC_Starting
| LC_NoRuntime ConfigError
| LC_Requested
| LC_Closing
| LC_Spawning
| LC_Finish "ConfigError + unit"
| LC_Activation "ConfigError + unit"
| LC_Close

text \<open>The worker between its effects; \<open>LW_Aborted\<close> and the two after it are its drop.\<close>

datatype LifecycleWorker =
  LW_None
| LW_Spawned
| LW_Activating
| LW_Activated "ConfigError + unit"
| LW_Announcing "ConfigError + unit"
| LW_Announced
| LW_Awaiting
| LW_Cleaning
| LW_Cleaned "ConfigError + unit"
| LW_Closing "ConfigError + unit"
| LW_Aborted bool
| LW_AbortedActivation
| LW_AbortedClose
| LW_Done

text \<open>
  \<open>lf_activations\<close> and \<open>lf_cleanups\<close> count how often the worker polled the activation future first and
  called the cleanup factory, \<open>lf_lock\<close> is the caller that holds the mutex.
\<close>

record Lifecycle =
  lf_start :: StartState
  lf_lock :: "nat option"
  lf_close_requested :: bool
  lf_close_request :: "bool watch"
  lf_activation :: shared_result
  lf_close :: shared_result
  lf_publisher :: PublisherState
  lf_worker :: LifecycleWorker
  lf_seen :: nat
  lf_callers :: "lifecycle_caller list"
  lf_activations :: nat
  lf_cleanups :: nat

definition Lifecycle_new :: "nat \<Rightarrow> Lifecycle" where
  "Lifecycle_new callers =
     \<lparr>lf_start = SS_Prepared, lf_lock = None, lf_close_requested = False,
      lf_close_request = watch_channel False, lf_activation = None, lf_close = None,
      lf_publisher = ConfigPublisher_new, lf_worker = LW_None, lf_seen = 0,
      lf_callers = replicate callers LC_Idle, lf_activations = 0, lf_cleanups = 0\<rparr>"

definition at_caller :: "Lifecycle \<Rightarrow> nat \<Rightarrow> lifecycle_caller \<Rightarrow> bool" where
  "at_caller s i c = (i < length (lf_callers s) \<and> lf_callers s ! i = c)"

definition set_caller :: "nat \<Rightarrow> lifecycle_caller \<Rightarrow> Lifecycle \<Rightarrow> Lifecycle" where
  "set_caller i c s = s\<lparr>lf_callers := (lf_callers s)[i := c]\<rparr>"

abbreviation set_worker :: "LifecycleWorker \<Rightarrow> Lifecycle \<Rightarrow> Lifecycle" where
  "set_worker w s \<equiv> s\<lparr>lf_worker := w\<rparr>"

definition closed_before_activation :: "ConfigError + unit" where
  "closed_before_activation =
     Inl (ConfigError_message CO_Activate CK_Cancelled ''configuration handle closed before activation'')"

definition close_seen :: "Lifecycle \<Rightarrow> bool" where
  "close_seen s = wt_value (lf_close_request s)"

text \<open>What the worker makes of an activation when it looks at the close request afterwards.\<close>

definition settle_activation :: "bool \<Rightarrow> ConfigError + unit \<Rightarrow> ConfigError + unit" where
  "settle_activation closing r =
     (if closing \<and> r = Inr ()
      then Inl (ConfigError_message CO_Activate CK_Cancelled
             ''configuration handle closed while activation was pending'')
      else r)"

definition activation_panicked :: "ConfigError + unit" where
  "activation_panicked =
     Inl (ConfigError_message CO_Activate CK_Internal ''configuration provider activation panicked'')"

fun cleanup_panicked :: "bool \<Rightarrow> ConfigError + unit" where
  "cleanup_panicked True =
     Inl (ConfigError_message CO_Close CK_Internal ''configuration provider cleanup factory panicked'')"
| "cleanup_panicked False =
     Inl (ConfigError_message CO_Close CK_Internal ''configuration provider cleanup panicked'')"

definition activation_aborted :: "ConfigError + unit" where
  "activation_aborted =
     Inl (ConfigError_message CO_Activate CK_Internal ''configuration activation worker was aborted'')"

definition cleanup_aborted :: "ConfigError + unit" where
  "cleanup_aborted =
     Inl (ConfigError_message CO_Close CK_CleanupAborted ''configuration cleanup worker was aborted'')"

section \<open>The steps\<close>

text \<open>What comes from outside: calls, publications of the provider, and the loss of the runtime.\<close>

inductive lifecycle_input :: "Lifecycle \<Rightarrow> Lifecycle \<Rightarrow> bool" where
  call_activate: "\<lbrakk>at_caller s i LC_Idle; lf_activation s = None\<rbrakk> \<Longrightarrow>
    lifecycle_input s (set_caller i LC_Starting s)"
| call_without_runtime: "\<lbrakk>at_caller s i LC_Idle; lf_activation s = None;
      e = ConfigError_new CO_Activate CK_Internal cause\<rbrakk> \<Longrightarrow>
    lifecycle_input s (set_caller i (LC_NoRuntime e) s)"
| call_close: "\<lbrakk>at_caller s i LC_Idle; \<not> lf_close_requested s\<rbrakk> \<Longrightarrow>
    lifecycle_input s (set_caller i LC_Requested (s\<lparr>lf_close_requested := True\<rparr>))"
| call_close_again: "\<lbrakk>at_caller s i LC_Idle; lf_close_requested s\<rbrakk> \<Longrightarrow>
    lifecycle_input s (set_caller i LC_Closing s)"
| provider_publish: "lifecycle_input s (s\<lparr>lf_publisher := snd (publish document (lf_publisher s))\<rparr>)"
| abort_before_start: "lf_worker s = LW_Spawned \<Longrightarrow> lifecycle_input s (set_worker (LW_Aborted False) s)"
| abort_activation: "lf_worker s = LW_Activating \<Longrightarrow> lifecycle_input s (set_worker (LW_Aborted False) s)"
| abort_waiting: "lf_worker s = LW_Awaiting \<Longrightarrow> lifecycle_input s (set_worker (LW_Aborted True) s)"
| abort_cleanup: "lf_worker s = LW_Cleaning \<Longrightarrow> lifecycle_input s (set_worker (LW_Aborted True) s)"

text \<open>What the callers and the worker do on their own.\<close>

inductive lifecycle_progress :: "Lifecycle \<Rightarrow> Lifecycle \<Rightarrow> bool" where
  send_request: "at_caller s i LC_Requested \<Longrightarrow>
    lifecycle_progress s
      (set_caller i LC_Closing (s\<lparr>lf_close_request := send_replace True (lf_close_request s)\<rparr>))"
| late: "\<lbrakk>at_caller s i c; c \<in> {LC_Starting, LC_NoRuntime e, LC_Closing}; lf_lock s = None;
      lf_start s \<noteq> SS_Prepared\<rbrakk> \<Longrightarrow>
    lifecycle_progress s (set_caller i LC_Idle s)"
| start_cancelled: "\<lbrakk>at_caller s i LC_Starting; lf_lock s = None; lf_start s = SS_Prepared;
      lf_close_requested s\<rbrakk> \<Longrightarrow>
    lifecycle_progress s
      (set_caller i (LC_Finish closed_before_activation) (s\<lparr>lf_lock := Some i, lf_start := SS_Finished\<rparr>))"
| start_accepted: "\<lbrakk>at_caller s i LC_Starting; lf_lock s = None; lf_start s = SS_Prepared;
      \<not> lf_close_requested s\<rbrakk> \<Longrightarrow>
    lifecycle_progress s (set_caller i LC_Spawning (s\<lparr>lf_lock := Some i\<rparr>))"
| spawn: "at_caller s i LC_Spawning \<Longrightarrow>
    lifecycle_progress s
      (set_caller i LC_Idle
        (s\<lparr>lf_lock := None, lf_start := SS_Started, lf_worker := LW_Spawned,
           lf_seen := wt_version (lf_close_request s)\<rparr>))"
| no_runtime: "\<lbrakk>at_caller s i (LC_NoRuntime e); lf_lock s = None; lf_start s = SS_Prepared\<rbrakk> \<Longrightarrow>
    lifecycle_progress s
      (set_caller i (LC_Finish (Inl e)) (s\<lparr>lf_lock := Some i, lf_start := SS_Finished\<rparr>))"
| close_prepared: "\<lbrakk>at_caller s i LC_Closing; lf_lock s = None; lf_start s = SS_Prepared\<rbrakk> \<Longrightarrow>
    lifecycle_progress s
      (set_caller i (LC_Finish closed_before_activation) (s\<lparr>lf_lock := Some i, lf_start := SS_Finished\<rparr>))"
| finish: "at_caller s i (LC_Finish r) \<Longrightarrow>
    lifecycle_progress s
      (set_caller i (LC_Activation r) (s\<lparr>lf_publisher := finish_publisher (lf_publisher s)\<rparr>))"
| finish_activation: "at_caller s i (LC_Activation r) \<Longrightarrow>
    lifecycle_progress s (set_caller i LC_Close (s\<lparr>lf_activation := Some r\<rparr>))"
| finish_close: "at_caller s i LC_Close \<Longrightarrow>
    lifecycle_progress s (set_caller i LC_Idle (s\<lparr>lf_close := Some (Inr ()), lf_lock := None\<rparr>))"
| activate: "lf_worker s = LW_Spawned \<Longrightarrow>
    lifecycle_progress s (set_worker LW_Activating (s\<lparr>lf_activations := Suc (lf_activations s)\<rparr>))"
| activated: "\<lbrakk>lf_worker s = LW_Activating; publish_initial document (lf_publisher s) = (r, p)\<rbrakk> \<Longrightarrow>
    lifecycle_progress s (set_worker (LW_Activated r) (s\<lparr>lf_publisher := p\<rparr>))"
| activation_failed: "\<lbrakk>lf_worker s = LW_Activating; r = Inl e \<or> r = activation_panicked\<rbrakk> \<Longrightarrow>
    lifecycle_progress s (set_worker (LW_Activated r) s)"
| settle: "lf_worker s = LW_Activated r \<Longrightarrow>
    lifecycle_progress s (set_worker (LW_Announcing (settle_activation (close_seen s) r)) s)"
| announce: "lf_worker s = LW_Announcing r \<Longrightarrow>
    lifecycle_progress s (set_worker LW_Announced (s\<lparr>lf_activation := Some r\<rparr>))"
| close_pending: "\<lbrakk>lf_worker s = LW_Announced; close_seen s\<rbrakk> \<Longrightarrow>
    lifecycle_progress s (set_worker LW_Cleaning (s\<lparr>lf_cleanups := Suc (lf_cleanups s)\<rparr>))"
| await_close: "\<lbrakk>lf_worker s = LW_Announced; \<not> close_seen s\<rbrakk> \<Longrightarrow>
    lifecycle_progress s (set_worker LW_Awaiting s)"
| close_arrived: "\<lbrakk>lf_worker s = LW_Awaiting; has_changed (lf_close_request s) (lf_seen s)\<rbrakk> \<Longrightarrow>
    lifecycle_progress s
      (set_worker LW_Cleaning
        (s\<lparr>lf_seen := wt_version (lf_close_request s), lf_cleanups := Suc (lf_cleanups s)\<rparr>))"
| cleaned: "lf_worker s = LW_Cleaning \<Longrightarrow> lifecycle_progress s (set_worker (LW_Cleaned r) s)"
| cleanup_panics: "lf_worker s = LW_Cleaning \<Longrightarrow>
    lifecycle_progress s (set_worker (LW_Cleaned (cleanup_panicked in_factory)) s)"
| worker_finish: "lf_worker s = LW_Cleaned r \<Longrightarrow>
    lifecycle_progress s (set_worker (LW_Closing r) (s\<lparr>lf_publisher := finish_publisher (lf_publisher s)\<rparr>))"
| worker_close: "lf_worker s = LW_Closing r \<Longrightarrow>
    lifecycle_progress s (set_worker LW_Done (s\<lparr>lf_close := Some r\<rparr>))"
| aborted_finish: "lf_worker s = LW_Aborted published \<Longrightarrow>
    lifecycle_progress s
      (set_worker (if published then LW_AbortedClose else LW_AbortedActivation)
        (s\<lparr>lf_publisher := finish_publisher (lf_publisher s)\<rparr>))"
| aborted_activation: "lf_worker s = LW_AbortedActivation \<Longrightarrow>
    lifecycle_progress s (set_worker LW_AbortedClose (s\<lparr>lf_activation := Some activation_aborted\<rparr>))"
| aborted_close: "lf_worker s = LW_AbortedClose \<Longrightarrow>
    lifecycle_progress s (set_worker LW_Done (s\<lparr>lf_close := Some cleanup_aborted\<rparr>))"

inductive_cases lifecycle_inputE: "lifecycle_input s s'"
inductive_cases lifecycle_progressE: "lifecycle_progress s s'"

definition lifecycle_step :: "Lifecycle \<Rightarrow> Lifecycle \<Rightarrow> bool" where
  "lifecycle_step s s' \<longleftrightarrow> lifecycle_input s s' \<or> lifecycle_progress s s'"

end
