(* ===== verification/Hot_Lifecycle_Theorems.thy ===== *)
theory Hot_Lifecycle_Theorems
  imports Hot_Lifecycle
begin

text \<open>
  What the lifecycle of a configuration handle promises: its results are given once and in order, its
  cleanup runs exactly when it must, and a requested close always ends.
\<close>

section \<open>Callers and publishers\<close>

lemma at_caller_set [simp]:
  "at_caller (set_caller i c s) j d \<longleftrightarrow> (if i = j then i < length (lf_callers s) \<and> c = d else at_caller s j d)"
  by (auto simp: at_caller_def set_caller_def)

lemma set_caller_fields [simp]:
  "lf_start (set_caller i c s) = lf_start s" "lf_lock (set_caller i c s) = lf_lock s"
  "lf_close_requested (set_caller i c s) = lf_close_requested s"
  "lf_close_request (set_caller i c s) = lf_close_request s"
  "lf_activation (set_caller i c s) = lf_activation s" "lf_close (set_caller i c s) = lf_close s"
  "lf_publisher (set_caller i c s) = lf_publisher s" "lf_worker (set_caller i c s) = lf_worker s"
  "lf_seen (set_caller i c s) = lf_seen s" "lf_activations (set_caller i c s) = lf_activations s"
  "lf_cleanups (set_caller i c s) = lf_cleanups s"
  "length (lf_callers (set_caller i c s)) = length (lf_callers s)"
  by (simp_all add: set_caller_def)

lemma at_caller_unique: "at_caller s i c \<Longrightarrow> at_caller s i d \<Longrightarrow> c = d"
  by (simp add: at_caller_def)

lemma at_caller_length: "at_caller s i c \<Longrightarrow> i < length (lf_callers s)"
  by (simp add: at_caller_def)

lemma at_caller_update [simp]:
  "at_caller (s\<lparr>lf_start := a\<rparr>) = at_caller s" "at_caller (s\<lparr>lf_lock := b\<rparr>) = at_caller s"
  "at_caller (s\<lparr>lf_close_requested := r\<rparr>) = at_caller s"
  "at_caller (s\<lparr>lf_close_request := w\<rparr>) = at_caller s"
  "at_caller (s\<lparr>lf_activation := x\<rparr>) = at_caller s" "at_caller (s\<lparr>lf_close := y\<rparr>) = at_caller s"
  "at_caller (s\<lparr>lf_publisher := p\<rparr>) = at_caller s" "at_caller (s\<lparr>lf_worker := u\<rparr>) = at_caller s"
  "at_caller (s\<lparr>lf_seen := n\<rparr>) = at_caller s" "at_caller (s\<lparr>lf_activations := n\<rparr>) = at_caller s"
  "at_caller (s\<lparr>lf_cleanups := n\<rparr>) = at_caller s"
  by (simp_all add: at_caller_def fun_eq_iff)

definition has_initial :: "PublisherState \<Rightarrow> bool" where
  "has_initial p \<longleftrightarrow> ps_baseline p \<noteq> None \<and> sn_document (wt_value (ps_sender p)) \<noteq> None"

lemma finish_publisher_keeps [simp]:
  "ps_closed (finish_publisher p)" "has_initial (finish_publisher p) = has_initial p"
  by (simp_all add: finish_publisher_def has_initial_def send_replace_def)

lemma publish_keeps:
  "ps_closed (snd (publish d p)) = ps_closed p" "has_initial p \<Longrightarrow> has_initial (snd (publish d p))"
  by (auto simp: publish_def has_initial_def send_replace_def split: option.splits)

lemma publish_initial_keeps:
  assumes "publish_initial d p = (r, q)"
  shows "ps_closed q = ps_closed p" and "r = Inr () \<Longrightarrow> has_initial q"
  using assms
  by (auto simp: publish_initial_def has_initial_def send_replace_def Let_def
           split: option.splits if_splits)

section \<open>The mutex and the worker\<close>

fun in_section :: "lifecycle_caller \<Rightarrow> bool" where
  "in_section LC_Spawning = True"
| "in_section (LC_Finish r) = True"
| "in_section (LC_Activation r) = True"
| "in_section LC_Close = True"
| "in_section c = False"

definition untouched :: "Lifecycle \<Rightarrow> bool" where
  "untouched s \<longleftrightarrow> lf_worker s = LW_None \<and> lf_activations s = 0 \<and> lf_cleanups s = 0"

abbreviation results :: "Lifecycle \<Rightarrow> shared_result \<times> shared_result" where
  "results s \<equiv> (lf_activation s, lf_close s)"

fun section_ok :: "lifecycle_caller \<Rightarrow> Lifecycle \<Rightarrow> bool" where
  "section_ok LC_Spawning s \<longleftrightarrow> lf_start s = SS_Prepared \<and> results s = (None, None)"
| "section_ok (LC_Finish r) s \<longleftrightarrow> lf_start s = SS_Finished \<and> results s = (None, None) \<and> r \<noteq> Inr ()"
| "section_ok (LC_Activation r) s \<longleftrightarrow>
     lf_start s = SS_Finished \<and> results s = (None, None) \<and> r \<noteq> Inr () \<and> ps_closed (lf_publisher s)"
| "section_ok LC_Close s \<longleftrightarrow>
     lf_start s = SS_Finished \<and> lf_activation s \<notin> {None, Some (Inr ())} \<and> lf_close s = None \<and>
     ps_closed (lf_publisher s)"
| "section_ok c s \<longleftrightarrow> False"

text \<open>What the worker has done when it stands where it stands.\<close>

fun worker_ok :: "LifecycleWorker \<Rightarrow> Lifecycle \<Rightarrow> bool" where
  "worker_ok LW_None s \<longleftrightarrow> False"
| "worker_ok LW_Spawned s \<longleftrightarrow> results s = (None, None) \<and> lf_activations s = 0 \<and> lf_cleanups s = 0"
| "worker_ok LW_Activating s \<longleftrightarrow> results s = (None, None) \<and> lf_activations s = 1 \<and> lf_cleanups s = 0"
| "worker_ok (LW_Activated r) s \<longleftrightarrow>
     results s = (None, None) \<and> lf_activations s = 1 \<and> lf_cleanups s = 0 \<and>
     (r = Inr () \<longrightarrow> has_initial (lf_publisher s))"
| "worker_ok (LW_Announcing r) s \<longleftrightarrow>
     results s = (None, None) \<and> lf_activations s = 1 \<and> lf_cleanups s = 0 \<and>
     (r = Inr () \<longrightarrow> has_initial (lf_publisher s))"
| "worker_ok LW_Announced s \<longleftrightarrow>
     lf_activation s \<noteq> None \<and> lf_close s = None \<and> lf_activations s = 1 \<and> lf_cleanups s = 0"
| "worker_ok LW_Awaiting s \<longleftrightarrow>
     lf_activation s \<noteq> None \<and> lf_close s = None \<and> lf_activations s = 1 \<and> lf_cleanups s = 0 \<and> lf_seen s = 0"
| "worker_ok LW_Cleaning s \<longleftrightarrow>
     lf_activation s \<noteq> None \<and> lf_close s = None \<and> lf_activations s = 1 \<and> lf_cleanups s = 1"
| "worker_ok (LW_Cleaned r) s \<longleftrightarrow>
     lf_activation s \<noteq> None \<and> lf_close s = None \<and> lf_activations s = 1 \<and> lf_cleanups s = 1"
| "worker_ok (LW_Closing r) s \<longleftrightarrow>
     lf_activation s \<noteq> None \<and> lf_close s = None \<and> lf_activations s = 1 \<and> lf_cleanups s = 1 \<and>
     ps_closed (lf_publisher s)"
| "worker_ok (LW_Aborted p) s \<longleftrightarrow>
     p = (lf_activation s \<noteq> None) \<and> lf_close s = None \<and> lf_activations s \<le> 1 \<and>
     lf_cleanups s \<le> lf_activations s"
| "worker_ok LW_AbortedActivation s \<longleftrightarrow>
     results s = (None, None) \<and> lf_activations s \<le> 1 \<and> lf_cleanups s \<le> lf_activations s \<and>
     ps_closed (lf_publisher s)"
| "worker_ok LW_AbortedClose s \<longleftrightarrow>
     lf_activation s \<noteq> None \<and> lf_close s = None \<and> lf_activations s \<le> 1 \<and>
     lf_cleanups s \<le> lf_activations s \<and> ps_closed (lf_publisher s)"
| "worker_ok LW_Done s \<longleftrightarrow>
     lf_activation s \<noteq> None \<and> lf_close s \<noteq> None \<and> lf_activations s \<le> 1 \<and>
     lf_cleanups s \<le> lf_activations s \<and> ps_closed (lf_publisher s) \<and>
     (lf_close s = Some (Inr ()) \<longrightarrow> lf_cleanups s = 1)"

definition unlocked_ok :: "Lifecycle \<Rightarrow> bool" where
  "unlocked_ok s \<longleftrightarrow>
     (case lf_start s of
        SS_Prepared \<Rightarrow> untouched s \<and> results s = (None, None)
      | SS_Started \<Rightarrow> worker_ok (lf_worker s) s
      | SS_Finished \<Rightarrow> untouched s \<and> ps_closed (lf_publisher s) \<and>
          lf_activation s \<notin> {None, Some (Inr ())} \<and> lf_close s = Some (Inr ()))"

definition lifecycle_ok :: "Lifecycle \<Rightarrow> bool" where
  "lifecycle_ok s \<longleftrightarrow>
     (\<forall>i c. at_caller s i c \<longrightarrow> in_section c \<longrightarrow> lf_lock s = Some i) \<and>
     (case lf_lock s of
        None \<Rightarrow> unlocked_ok s
      | Some i \<Rightarrow> untouched s \<and> (\<exists>c. at_caller s i c \<and> section_ok c s)) \<and>
     (lf_activation s = Some (Inr ()) \<longrightarrow> has_initial (lf_publisher s)) \<and>
     (0 < wt_version (lf_close_request s) \<longleftrightarrow> close_seen s) \<and>
     lf_seen s \<le> wt_version (lf_close_request s)"

lemma lifecycle_ok_new: "lifecycle_ok (Lifecycle_new n)"
  by (auto simp: lifecycle_ok_def Lifecycle_new_def at_caller_def unlocked_ok_def untouched_def
      close_seen_def watch_channel_def)

text \<open>A caller outside the section changes nothing the invariant looks at.\<close>

lemma section_ok_cong:
  "\<lbrakk>lf_start s' = lf_start s; lf_activation s' = lf_activation s; lf_close s' = lf_close s;
    ps_closed (lf_publisher s') = ps_closed (lf_publisher s)\<rbrakk> \<Longrightarrow> section_ok c s' = section_ok c s"
  by (cases c) simp_all

lemma section_ok_in_section: "section_ok c s \<Longrightarrow> in_section c"
  by (cases c) simp_all

text \<open>The holder of the mutex is the only caller in the section, and the worker runs with the mutex free.\<close>

lemma lifecycle_ok_holder:
  assumes "lifecycle_ok s" and "at_caller s i c" and "in_section c"
  shows "lf_lock s = Some i \<and> untouched s \<and> section_ok c s"
  using assms at_caller_unique by (fastforce simp: lifecycle_ok_def)

lemma lifecycle_ok_worker:
  assumes "lifecycle_ok s" and "lf_worker s \<noteq> LW_None"
  shows "lf_lock s = None \<and> lf_start s = SS_Started \<and> worker_ok (lf_worker s) s"
  using assms
  by (auto simp: lifecycle_ok_def unlocked_ok_def untouched_def split: option.splits StartState.splits)

lemma worker_move:
  assumes ok: "lifecycle_ok s" and w: "lf_worker s \<noteq> LW_None"
    and same: "lf_start s' = lf_start s" "lf_lock s' = lf_lock s" "lf_close_request s' = lf_close_request s"
      "at_caller s' = at_caller s"
    and new: "worker_ok (lf_worker s') s'" "lf_activation s' = Some (Inr ()) \<Longrightarrow> has_initial (lf_publisher s')"
      "lf_seen s' \<le> wt_version (lf_close_request s)"
  shows "lifecycle_ok s'"
  using ok lifecycle_ok_worker[OF ok w] same new
  by (auto simp: lifecycle_ok_def unlocked_ok_def close_seen_def)

lemma caller_move:
  assumes ok: "lifecycle_ok s" and i: "at_caller s i c" "\<not> in_section c" "\<not> in_section d"
    and same: "lf_start s' = lf_start s" "lf_lock s' = lf_lock s" "lf_publisher s' = lf_publisher s"
      "lf_activation s' = lf_activation s" "lf_close s' = lf_close s" "lf_worker s' = lf_worker s"
      "lf_activations s' = lf_activations s" "lf_cleanups s' = lf_cleanups s" "lf_seen s' = lf_seen s"
      "lf_callers s' = lf_callers s"
    and req: "lf_seen s' \<le> wt_version (lf_close_request s')" "0 < wt_version (lf_close_request s') \<longleftrightarrow> close_seen s'"
  shows "lifecycle_ok (set_caller i d s')"
proof -
  have at: "at_caller s' = at_caller s" using same by (simp add: at_caller_def fun_eq_iff)
  have sec: "section_ok e (set_caller i d s') = section_ok e s" for e
    using same by (intro section_ok_cong) simp_all
  have wok: "worker_ok w (set_caller i d s') = worker_ok w s" for w
    using same by (cases w) simp_all
  have un: "untouched (set_caller i d s') = untouched s" using same by (simp add: untouched_def)
  have unl: "unlocked_ok (set_caller i d s') = unlocked_ok s"
    using same wok un by (cases "lf_start s") (simp_all add: unlocked_ok_def)
  have keep: "at_caller s j e \<Longrightarrow> in_section e \<Longrightarrow> at_caller (set_caller i d s') j e" for j e
    using i at_caller_unique[of s i] by (auto simp: at)
  have old: "at_caller (set_caller i d s') j e \<Longrightarrow> in_section e \<Longrightarrow> at_caller s j e" for j e
    using i by (auto simp: at split: if_splits)
  show ?thesis
    unfolding lifecycle_ok_def
  proof (intro conjI)
    show "\<forall>j e. at_caller (set_caller i d s') j e \<longrightarrow> in_section e \<longrightarrow> lf_lock (set_caller i d s') = Some j"
      using ok old same(2) by (auto simp: lifecycle_ok_def simp del: at_caller_set)
    show "case lf_lock (set_caller i d s') of None \<Rightarrow> unlocked_ok (set_caller i d s')
      | Some j \<Rightarrow> untouched (set_caller i d s') \<and>
          (\<exists>e. at_caller (set_caller i d s') j e \<and> section_ok e (set_caller i d s'))"
    proof (cases "lf_lock s")
      case None
      then show ?thesis using ok unl same(2) by (simp add: lifecycle_ok_def)
    next
      case (Some j)
      then obtain e where "untouched s" "at_caller s j e" "section_ok e s"
        using ok by (auto simp: lifecycle_ok_def)
      then show ?thesis
        using Some keep[of j e] section_ok_in_section[of e s] un sec[of e] same(2)
        by (auto simp del: at_caller_set)
    qed
  qed (use ok same req in \<open>auto simp: lifecycle_ok_def close_seen_def\<close>)
qed

text \<open>A caller that enters the section or moves on inside it.\<close>

lemma section_move:
  assumes ok: "lifecycle_ok s" and i: "at_caller s i c" "lf_lock s = Some i \<or> lf_lock s = None"
    and u: "untouched s"
    and same: "lf_lock s' = Some i" "lf_close_request s' = lf_close_request s" "lf_seen s' = lf_seen s"
      "lf_callers s' = lf_callers s" "lf_worker s' = lf_worker s" "lf_activations s' = lf_activations s"
      "lf_cleanups s' = lf_cleanups s"
    and new: "section_ok d s'" "lf_activation s' \<noteq> Some (Inr ())"
  shows "lifecycle_ok (set_caller i d s')"
proof -
  have at: "at_caller s' = at_caller s" using same by (simp add: at_caller_def fun_eq_iff)
  have sec: "section_ok d (set_caller i d s')"
    using new(1) by (subst section_ok_cong[of _ s']) simp_all
  have none: "at_caller s j e \<Longrightarrow> in_section e \<Longrightarrow> j = i" for j e
    using ok i(2) by (auto simp: lifecycle_ok_def)
  have here: "at_caller (set_caller i d s') i d" using i same by (simp add: at_caller_length)
  show ?thesis
    unfolding lifecycle_ok_def
  proof (intro conjI)
    show "\<forall>j e. at_caller (set_caller i d s') j e \<longrightarrow> in_section e \<longrightarrow> lf_lock (set_caller i d s') = Some j"
      using none same by (auto simp: at split: if_splits)
    show "case lf_lock (set_caller i d s') of None \<Rightarrow> unlocked_ok (set_caller i d s')
      | Some j \<Rightarrow> untouched (set_caller i d s') \<and>
          (\<exists>e. at_caller (set_caller i d s') j e \<and> section_ok e (set_caller i d s'))"
      using same sec here u by (auto simp: untouched_def simp del: at_caller_set)
  qed (use ok same new in \<open>auto simp: lifecycle_ok_def close_seen_def\<close>)
qed

lemma section_leave:
  assumes ok: "lifecycle_ok s" and i: "at_caller s i c" "lf_lock s = Some i"
    and same: "lf_lock s' = None" "lf_close_request s' = lf_close_request s"
      "lf_callers s' = lf_callers s" "lf_seen s' \<le> wt_version (lf_close_request s)"
    and new: "unlocked_ok (set_caller i LC_Idle s')" "lf_activation s' \<noteq> Some (Inr ())"
  shows "lifecycle_ok (set_caller i LC_Idle s')"
proof -
  have at: "at_caller s' = at_caller s" using same by (simp add: at_caller_def fun_eq_iff)
  have none: "at_caller s j e \<Longrightarrow> in_section e \<Longrightarrow> j = i" for j e
    using ok i(2) by (auto simp: lifecycle_ok_def)
  show ?thesis
    unfolding lifecycle_ok_def
  proof (intro conjI)
    show "\<forall>j e. at_caller (set_caller i LC_Idle s') j e \<longrightarrow> in_section e \<longrightarrow>
            lf_lock (set_caller i LC_Idle s') = Some j"
      using none by (auto simp: at split: if_splits)
  qed (use ok same new in \<open>auto simp: lifecycle_ok_def close_seen_def\<close>)
qed

section \<open>Every step keeps the invariant\<close>

lemma settled_ok: "settle_activation b r = Inr () \<Longrightarrow> r = Inr ()"
  by (auto simp: settle_activation_def split: if_splits)

lemma lifecycle_ok_request:
  assumes "lifecycle_ok s"
  shows "0 < wt_version (lf_close_request s) \<longleftrightarrow> close_seen s"
    and "lf_seen s \<le> wt_version (lf_close_request s)"
    and "lf_activation s = Some (Inr ()) \<Longrightarrow> has_initial (lf_publisher s)"
  using assms by (simp_all add: lifecycle_ok_def)

lemma publish_lifecycle_ok:
  assumes ok: "lifecycle_ok s" and p: "ps_closed p = ps_closed (lf_publisher s)"
    "has_initial (lf_publisher s) \<Longrightarrow> has_initial p"
  shows "lifecycle_ok (s\<lparr>lf_publisher := p\<rparr>)"
proof -
  have sec: "section_ok c (s\<lparr>lf_publisher := p\<rparr>) = section_ok c s" for c
    using p by (intro section_ok_cong) simp_all
  have "worker_ok w s \<Longrightarrow> worker_ok w (s\<lparr>lf_publisher := p\<rparr>)" for w
    using p by (cases w) auto
  moreover have "untouched (s\<lparr>lf_publisher := p\<rparr>) = untouched s" by (simp add: untouched_def)
  ultimately have "unlocked_ok s \<Longrightarrow> unlocked_ok (s\<lparr>lf_publisher := p\<rparr>)"
    using p by (cases "lf_start s") (simp_all add: unlocked_ok_def)
  then show ?thesis
    using ok p sec by (cases "lf_lock s") (simp_all add: lifecycle_ok_def untouched_def close_seen_def)
qed

lemma input_lifecycle_ok:
  assumes step: "lifecycle_input s s'" and ok: "lifecycle_ok s"
  shows "lifecycle_ok s'"
  using step
proof cases
  case (provider_publish document)
  show ?thesis unfolding provider_publish
    by (rule publish_lifecycle_ok[OF ok]) (simp_all add: publish_keeps)
next
  case (call_activate i)
  show ?thesis unfolding call_activate
    by (rule caller_move[OF ok call_activate(2)]) (use lifecycle_ok_request[OF ok] in simp_all)
next
  case (call_without_runtime i e cause)
  show ?thesis unfolding call_without_runtime(1)
    by (rule caller_move[OF ok call_without_runtime(2)]) (use lifecycle_ok_request[OF ok] in simp_all)
next
  case (call_close i)
  show ?thesis unfolding call_close
    by (rule caller_move[OF ok call_close(2)])
      (use lifecycle_ok_request[OF ok] in \<open>simp_all add: close_seen_def\<close>)
next
  case (call_close_again i)
  show ?thesis unfolding call_close_again
    by (rule caller_move[OF ok call_close_again(2)]) (use lifecycle_ok_request[OF ok] in simp_all)
next
  case abort_before_start
  then show ?thesis
    using lifecycle_ok_worker[OF ok] lifecycle_ok_request[OF ok] by (intro worker_move[OF ok]) auto
next
  case abort_activation
  then show ?thesis
    using lifecycle_ok_worker[OF ok] lifecycle_ok_request[OF ok] by (intro worker_move[OF ok]) auto
next
  case abort_waiting
  then show ?thesis
    using lifecycle_ok_worker[OF ok] lifecycle_ok_request[OF ok] by (intro worker_move[OF ok]) auto
next
  case abort_cleanup
  then show ?thesis
    using lifecycle_ok_worker[OF ok] lifecycle_ok_request[OF ok] by (intro worker_move[OF ok]) auto
qed

lemma progress_lifecycle_ok:
  assumes step: "lifecycle_progress s s'" and ok: "lifecycle_ok s"
  shows "lifecycle_ok s'"
  using step
proof cases
  case (send_request i)
  show ?thesis unfolding send_request
    by (rule caller_move[OF ok send_request(2)])
      (use lifecycle_ok_request[OF ok] in \<open>simp_all add: close_seen_def send_replace_def\<close>)
next
  case (late i c e)
  show ?thesis unfolding late(1)
    by (rule caller_move[OF ok late(2)]) (use late(3) lifecycle_ok_request[OF ok] in auto)
next
  case (start_cancelled i)
  then have "untouched s" "results s = (None, None)" using ok by (auto simp: lifecycle_ok_def unlocked_ok_def)
  then show ?thesis unfolding start_cancelled(1)
    by (intro section_move[OF ok start_cancelled(2)])
      (simp_all add: start_cancelled closed_before_activation_def)
next
  case (start_accepted i)
  then have "untouched s" "results s = (None, None)" using ok by (auto simp: lifecycle_ok_def unlocked_ok_def)
  then show ?thesis unfolding start_accepted(1)
    by (intro section_move[OF ok start_accepted(2)]) (simp_all add: start_accepted)
next
  case (spawn i)
  have "lf_lock s = Some i" "untouched s" "results s = (None, None)"
    using lifecycle_ok_holder[OF ok spawn(2)] by auto
  then show ?thesis unfolding spawn(1)
    by (intro section_leave[OF ok spawn(2)]) (auto simp: unlocked_ok_def untouched_def)
next
  case (no_runtime i e)
  then have "untouched s" "results s = (None, None)" using ok by (auto simp: lifecycle_ok_def unlocked_ok_def)
  then show ?thesis unfolding no_runtime(1)
    by (intro section_move[OF ok no_runtime(2)]) (simp_all add: no_runtime)
next
  case (close_prepared i)
  then have "untouched s" "results s = (None, None)" using ok by (auto simp: lifecycle_ok_def unlocked_ok_def)
  then show ?thesis unfolding close_prepared(1)
    by (intro section_move[OF ok close_prepared(2)]) (simp_all add: close_prepared closed_before_activation_def)
next
  case (finish i r)
  show ?thesis unfolding finish(1)
    using lifecycle_ok_holder[OF ok finish(2)] by (intro section_move[OF ok finish(2)]) auto
next
  case (finish_activation i r)
  show ?thesis unfolding finish_activation(1)
    using lifecycle_ok_holder[OF ok finish_activation(2)]
    by (intro section_move[OF ok finish_activation(2)]) auto
next
  case (finish_close i)
  show ?thesis unfolding finish_close(1)
    using lifecycle_ok_holder[OF ok finish_close(2)] lifecycle_ok_request[OF ok]
    by (intro section_leave[OF ok finish_close(2)]) (auto simp: unlocked_ok_def untouched_def)
next
  case (activated document r p)
  then show ?thesis
    using lifecycle_ok_worker[OF ok] lifecycle_ok_request[OF ok] publish_initial_keeps[OF activated(3)]
    by (intro worker_move[OF ok]) auto
next
  case (settle r)
  then show ?thesis
    using lifecycle_ok_worker[OF ok] lifecycle_ok_request[OF ok] by (intro worker_move[OF ok]) (auto dest: settled_ok)
next
  case (await_close)
  then show ?thesis
    using lifecycle_ok_worker[OF ok] lifecycle_ok_request[OF ok] by (intro worker_move[OF ok]) auto
next
  case (aborted_finish published)
  then show ?thesis
    using lifecycle_ok_worker[OF ok] lifecycle_ok_request[OF ok]
    by (intro worker_move[OF ok]) (cases published; force)+
next
  case (activation_failed r e)
  then show ?thesis
    using lifecycle_ok_worker[OF ok] lifecycle_ok_request[OF ok]
    by (intro worker_move[OF ok]) (auto simp: activation_panicked_def)
qed (use lifecycle_ok_worker[OF ok] lifecycle_ok_request[OF ok] in
      \<open>(intro worker_move[OF ok]; force simp: activation_aborted_def cleanup_aborted_def)+\<close>)

lemma step_lifecycle_ok: "lifecycle_step s s' \<Longrightarrow> lifecycle_ok s \<Longrightarrow> lifecycle_ok s'"
  unfolding lifecycle_step_def using input_lifecycle_ok progress_lifecycle_ok by blast

interpretation lifecycle: stepwise lifecycle_step lifecycle_ok
  by unfold_locales (rule step_lifecycle_ok)

section \<open>Results are given once\<close>

definition results_kept :: "Lifecycle \<Rightarrow> Lifecycle \<Rightarrow> bool" where
  "results_kept s s' \<longleftrightarrow>
     (lf_activation s \<noteq> None \<longrightarrow> lf_activation s' = lf_activation s) \<and>
     (lf_close s \<noteq> None \<longrightarrow> lf_close s' = lf_close s)"

lemma results_kept_trans: "results_kept s t \<Longrightarrow> results_kept t u \<Longrightarrow> results_kept s u"
  by (auto simp: results_kept_def)

lemma input_keeps_results: "lifecycle_input s s' \<Longrightarrow> results_kept s s'"
  by (erule lifecycle_input.cases) (auto simp: results_kept_def)

lemma progress_keeps_results:
  assumes "lifecycle_progress s s'" and ok: "lifecycle_ok s"
  shows "results_kept s s'"
  using assms(1)
proof cases
  case (finish_activation i r)
  then show ?thesis using lifecycle_ok_holder[OF ok finish_activation(2)] by (simp add: results_kept_def)
next
  case (finish_close i)
  then show ?thesis using lifecycle_ok_holder[OF ok finish_close(2)] by (simp add: results_kept_def)
qed (use lifecycle_ok_worker[OF ok] in \<open>auto simp: results_kept_def\<close>)

lemma runs_keep_results:
  "lifecycle_step\<^sup>*\<^sup>* s s' \<Longrightarrow> lifecycle_ok s \<Longrightarrow> results_kept s s'"
proof (induction rule: rtranclp_induct)
  case (step t u)
  then have "lifecycle_ok t" using lifecycle.along_runs by blast
  then have "results_kept t u"
    using step.hyps(2) input_keeps_results progress_keeps_results by (auto simp: lifecycle_step_def)
  then show ?case using step results_kept_trans by blast
qed (simp add: results_kept_def)

section \<open>A requested close is on its way\<close>

definition request_ok :: "Lifecycle \<Rightarrow> bool" where
  "request_ok s \<longleftrightarrow>
     (lf_close_requested s \<longrightarrow> close_seen s \<or> (\<exists>i. at_caller s i LC_Requested)) \<and>
     (lf_close_requested s \<longrightarrow> lf_start s = SS_Prepared \<longrightarrow>
        (\<exists>i. at_caller s i LC_Requested \<or> at_caller s i LC_Closing))"

lemma at_caller_other:
  "at_caller s j d \<Longrightarrow> at_caller s i c \<Longrightarrow> c \<noteq> d \<Longrightarrow> at_caller (set_caller i e s') j d \<longleftrightarrow> at_caller s' j d"
  by (cases "i = j") (auto dest: at_caller_unique)

lemma caller_keeps_request:
  assumes ok: "request_ok s" and i: "at_caller s i c" "c \<noteq> LC_Requested" "c \<noteq> LC_Closing \<or> lf_start s' \<noteq> SS_Prepared"
    and same: "lf_close_requested s' = lf_close_requested s" "lf_close_request s' = lf_close_request s"
      "lf_callers s' = lf_callers s" "lf_start s' = SS_Prepared \<Longrightarrow> lf_start s = SS_Prepared"
  shows "request_ok (set_caller i d s')"
proof -
  have at: "at_caller s' = at_caller s" using same by (simp add: at_caller_def fun_eq_iff)
  have 1: "at_caller (set_caller i d s') j LC_Requested" if "at_caller s j LC_Requested" for j
    using at_caller_other[OF that i(1) i(2)] that at by simp
  have 2: "at_caller (set_caller i d s') j LC_Closing" if "at_caller s j LC_Closing" "c \<noteq> LC_Closing" for j
    using at_caller_other[OF that(1) i(1) that(2)] that(1) at by simp
  show ?thesis
    using ok i(3) same 1 2 by (auto simp: request_ok_def close_seen_def simp del: at_caller_set; blast)
qed

lemma worker_keeps_request:
  "\<lbrakk>request_ok s; lf_close_requested s' = lf_close_requested s; lf_close_request s' = lf_close_request s;
    lf_callers s' = lf_callers s; lf_start s' = lf_start s\<rbrakk> \<Longrightarrow> request_ok s'"
  by (simp add: request_ok_def close_seen_def at_caller_def)

lemma input_request_ok:
  assumes "lifecycle_input s s'" and ok: "request_ok s"
  shows "request_ok s'"
  using assms(1)
proof cases
  case (call_activate i)
  then show ?thesis by (auto intro: caller_keeps_request[OF ok])
next
  case (call_without_runtime i e cause)
  then show ?thesis by (auto intro: caller_keeps_request[OF ok])
next
  case (call_close i)
  then show ?thesis by (auto simp: request_ok_def dest: at_caller_length)
next
  case (call_close_again i)
  then show ?thesis by (auto intro: caller_keeps_request[OF ok])
qed (auto intro: worker_keeps_request[OF ok])

lemma progress_request_ok:
  assumes "lifecycle_progress s s'" and ok: "request_ok s"
  shows "request_ok s'"
  using assms(1)
proof cases
  case (send_request i)
  then show ?thesis by (auto simp: request_ok_def close_seen_def send_replace_def dest: at_caller_length)
next
  case (late i c e)
  show ?thesis unfolding late(1) by (rule caller_keeps_request[OF ok late(2)]) (use late in auto)
next
  case (start_cancelled i)
  show ?thesis unfolding start_cancelled(1) by (rule caller_keeps_request[OF ok start_cancelled(2)]) (use start_cancelled in auto)
next
  case (start_accepted i)
  show ?thesis unfolding start_accepted(1) by (rule caller_keeps_request[OF ok start_accepted(2)]) (use start_accepted in auto)
next
  case (spawn i)
  show ?thesis unfolding spawn(1) by (rule caller_keeps_request[OF ok spawn(2)]) (use spawn in auto)
next
  case (no_runtime i e)
  show ?thesis unfolding no_runtime(1) by (rule caller_keeps_request[OF ok no_runtime(2)]) (use no_runtime in auto)
next
  case (close_prepared i)
  show ?thesis unfolding close_prepared(1) by (rule caller_keeps_request[OF ok close_prepared(2)]) (use close_prepared in auto)
next
  case (finish i r)
  show ?thesis unfolding finish(1) by (rule caller_keeps_request[OF ok finish(2)]) (use finish in auto)
next
  case (finish_activation i r)
  show ?thesis unfolding finish_activation(1) by (rule caller_keeps_request[OF ok finish_activation(2)]) (use finish_activation in auto)
next
  case (finish_close i)
  show ?thesis unfolding finish_close(1) by (rule caller_keeps_request[OF ok finish_close(2)]) (use finish_close in auto)
qed (auto intro: worker_keeps_request[OF ok])

lemma step_request_ok: "lifecycle_step s s' \<Longrightarrow> request_ok s \<Longrightarrow> request_ok s'"
  unfolding lifecycle_step_def using input_request_ok progress_request_ok by blast

interpretation request: stepwise lifecycle_step request_ok
  by unfold_locales (rule step_request_ok)

section \<open>Work left\<close>

fun caller_work :: "lifecycle_caller \<Rightarrow> nat" where
  "caller_work LC_Idle = 0"
| "caller_work LC_Starting = 4"
| "caller_work (LC_NoRuntime e) = 4"
| "caller_work LC_Requested = 5"
| "caller_work LC_Closing = 4"
| "caller_work LC_Spawning = 1"
| "caller_work (LC_Finish r) = 3"
| "caller_work (LC_Activation r) = 2"
| "caller_work LC_Close = 1"

fun worker_work :: "LifecycleWorker \<Rightarrow> nat" where
  "worker_work LW_None = 11"
| "worker_work LW_Spawned = 10"
| "worker_work LW_Activating = 9"
| "worker_work (LW_Activated r) = 8"
| "worker_work (LW_Announcing r) = 7"
| "worker_work LW_Announced = 6"
| "worker_work LW_Awaiting = 5"
| "worker_work LW_Cleaning = 4"
| "worker_work (LW_Cleaned r) = 3"
| "worker_work (LW_Closing r) = 2"
| "worker_work (LW_Aborted p) = 4"
| "worker_work LW_AbortedActivation = 3"
| "worker_work LW_AbortedClose = 2"
| "worker_work LW_Done = 0"

definition lifecycle_work :: "Lifecycle \<Rightarrow> nat" where
  "lifecycle_work s = sum_list (map caller_work (lf_callers s)) + worker_work (lf_worker s)"

lemma caller_work_less:
  assumes "at_caller s i c" "lf_callers s' = lf_callers s"
    "caller_work d + worker_work (lf_worker s') < caller_work c + worker_work (lf_worker s)"
  shows "lifecycle_work (set_caller i d s') < lifecycle_work s"
  using assms sum_list_map_update[of i "lf_callers s" caller_work d]
  by (simp add: lifecycle_work_def at_caller_def set_caller_def)

lemma worker_work_less:
  assumes "lf_callers s' = lf_callers s" "worker_work (lf_worker s') < worker_work (lf_worker s)"
  shows "lifecycle_work s' < lifecycle_work s"
  using assms by (simp add: lifecycle_work_def)

lemma progress_works:
  assumes step: "lifecycle_progress s s'" and ok: "lifecycle_ok s"
  shows "lifecycle_work s' < lifecycle_work s"
  using step
proof cases
  case (spawn i)
  then show ?thesis
    using lifecycle_ok_holder[OF ok spawn(2)] unfolding spawn(1)
    by (intro caller_work_less[OF spawn(2)]) (auto simp: untouched_def)
next
  case (late i c e)
  then show ?thesis unfolding late(1) by (intro caller_work_less[OF late(2)]) auto
qed (intro worker_work_less; simp; fail | auto intro: caller_work_less)+

lemma close_progresses:
  assumes ok: "lifecycle_ok s" and req: "request_ok s" "lf_close_requested s" and pending: "lf_close s = None"
  shows "\<exists>s'. lifecycle_progress s s'"
proof (cases "lf_lock s")
  case (Some i)
  then obtain c where "at_caller s i c" "section_ok c s" using ok by (auto simp: lifecycle_ok_def)
  then show ?thesis
    by (cases c) (auto intro: lifecycle_progress.intros)
next
  case None
  then have u: "unlocked_ok s" using ok by (simp add: lifecycle_ok_def)
  show ?thesis
  proof (cases "lf_start s")
    case SS_Prepared
    then obtain i where "at_caller s i LC_Requested \<or> at_caller s i LC_Closing"
      using req by (auto simp: request_ok_def)
    then show ?thesis using None SS_Prepared send_request close_prepared by blast
  next
    case SS_Started
    then have w: "worker_ok (lf_worker s) s" using u by (simp add: unlocked_ok_def)
    show ?thesis
    proof (cases "lf_worker s")
      case LW_Awaiting
      show ?thesis
      proof (cases "close_seen s")
        case True
        then have "has_changed (lf_close_request s) (lf_seen s)"
          using w LW_Awaiting lifecycle_ok_request(1)[OF ok] by (simp add: has_changed_def)
        then show ?thesis using close_arrived LW_Awaiting by blast
      next
        case False
        then show ?thesis using req send_request by (auto simp: request_ok_def)
      qed
    next
      case LW_Announced
      then show ?thesis using close_pending await_close by blast
    next
      case LW_Activating
      then show ?thesis using activation_failed by blast
    qed (use w pending in \<open>auto intro: lifecycle_progress.intros\<close>)
  next
    case SS_Finished
    then show ?thesis using u pending by (simp add: unlocked_ok_def)
  qed
qed

lemma progress_keeps_request:
  "lifecycle_progress s s' \<Longrightarrow> lf_close_requested s \<Longrightarrow> lf_close_requested s'"
  by (erule lifecycle_progress.cases) auto

definition close_pends :: "Lifecycle \<Rightarrow> bool" where
  "close_pends s \<longleftrightarrow> lifecycle_ok s \<and> request_ok s \<and> lf_close_requested s"

lemma progress_runs:
  "(lifecycle_progress ^^ k) s t \<Longrightarrow> close_pends s \<Longrightarrow>
   close_pends t \<and> lifecycle_work t + k \<le> lifecycle_work s"
proof (induction k arbitrary: t)
  case (Suc k)
  from Suc.prems(1) obtain u where u: "(lifecycle_progress ^^ k) s u" "lifecycle_progress u t" by auto
  then have "close_pends u" "lifecycle_work u + k \<le> lifecycle_work s" using Suc by auto
  moreover have "close_pends t"
    using calculation u(2) progress_lifecycle_ok progress_request_ok progress_keeps_request
    by (auto simp: close_pends_def)
  ultimately show ?case using progress_works[OF u(2)] by (auto simp: close_pends_def)
qed simp

section \<open>The claims\<close>

lemma results_accounted:
  assumes ok: "lifecycle_ok s"
  shows "lf_close s \<noteq> None \<Longrightarrow> lf_activation s \<noteq> None \<and> ps_closed (lf_publisher s)"
    and "lf_activations s \<le> 1" and "lf_cleanups s \<le> lf_activations s"
    and "lf_close s = Some (Inr ()) \<Longrightarrow> lf_cleanups s = lf_activations s"
proof -
  have "(lf_close s \<noteq> None \<longrightarrow> lf_activation s \<noteq> None \<and> ps_closed (lf_publisher s)) \<and>
    lf_activations s \<le> 1 \<and> lf_cleanups s \<le> lf_activations s \<and>
    (lf_close s = Some (Inr ()) \<longrightarrow> lf_cleanups s = lf_activations s)"
  proof (cases "lf_worker s = LW_None")
    case True
    show ?thesis
    proof (cases "lf_lock s")
      case None
      then show ?thesis
        using ok True by (cases "lf_start s") (auto simp: lifecycle_ok_def unlocked_ok_def untouched_def)
    next
      case (Some i)
      then obtain c where "untouched s" "section_ok c s" using ok by (auto simp: lifecycle_ok_def)
      then show ?thesis by (cases c) (auto simp: untouched_def)
    qed
  next
    case False
    then have "worker_ok (lf_worker s) s" using lifecycle_ok_worker[OF ok] by blast
    then show ?thesis by (cases "lf_worker s") auto
  qed
  then show "lf_close s \<noteq> None \<Longrightarrow> lf_activation s \<noteq> None \<and> ps_closed (lf_publisher s)"
    "lf_activations s \<le> 1" "lf_cleanups s \<le> lf_activations s"
    "lf_close s = Some (Inr ()) \<Longrightarrow> lf_cleanups s = lf_activations s" by auto
qed

lemma request_ok_new: "request_ok (Lifecycle_new n)"
  by (simp add: request_ok_def Lifecycle_new_def)


text \<open>
  C30. A requested close always ends: from any state in which a close was requested, the callers and the
  worker take only boundedly many steps of their own, and they can take another one until the close
  result is there.  A provider future that never ends is a worker that takes no more steps.
\<close>

theorem requested_close_completes:
  assumes "lifecycle_step\<^sup>*\<^sup>* (Lifecycle_new n) s" and "lf_close_requested s"
    and "(lifecycle_progress ^^ k) s t"
  shows "k \<le> lifecycle_work s \<and> ((\<exists>u. lifecycle_progress t u) \<or> lf_close t \<noteq> None)"
proof -
  have "close_pends s"
    using assms(2) lifecycle.along_runs[OF assms(1) lifecycle_ok_new] request.along_runs[OF assms(1) request_ok_new]
    by (simp add: close_pends_def)
  from progress_runs[OF assms(3) this] show ?thesis
    using close_progresses[of t] by (auto simp: close_pends_def)
qed

section \<open>Witnesses\<close>

abbreviation demo_document :: ConfigDocument where
  "demo_document \<equiv> \<lparr>cd_format = CF_Toml, cd_content = ''a = 1''\<rparr>"

lemma more_steps:
  "lifecycle_input s t \<Longrightarrow> lifecycle_step\<^sup>*\<^sup>* t u \<Longrightarrow> lifecycle_step\<^sup>*\<^sup>* s u"
  "lifecycle_progress s t \<Longrightarrow> lifecycle_step\<^sup>*\<^sup>* t u \<Longrightarrow> lifecycle_step\<^sup>*\<^sup>* s u"
  by (meson converse_rtranclp_into_rtranclp lifecycle_step_def)+

text \<open>One caller activates the handle; the worker publishes the document and waits for the close.\<close>

lemma Lifecycle_new_fields:
  "lf_activation (Lifecycle_new n) = None" "\<not> lf_close_requested (Lifecycle_new n)"
  "lf_lock (Lifecycle_new n) = None" "lf_start (Lifecycle_new n) = SS_Prepared"
  "lf_close (Lifecycle_new n) = None" "lf_activations (Lifecycle_new n) = 0"
  "lf_publisher (Lifecycle_new n) = ConfigPublisher_new"
  "\<not> wt_value (lf_close_request (Lifecycle_new n))"
  by (simp_all add: Lifecycle_new_def watch_channel_def)

lemma demo_published: "\<exists>q. publish_initial demo_document ConfigPublisher_new = (Inr (), q)"
  by (simp add: publish_initial_def ConfigPublisher_new_def watch_channel_def checked_add_def U64_MAX_def)

lemma demo_activated:
  "\<exists>s. lifecycle_step\<^sup>*\<^sup>* (Lifecycle_new 1) s \<and> lf_activation s = Some (Inr ()) \<and> lf_activations s = 1 \<and>
       lf_close s = None \<and> lf_worker s = LW_Announced \<and> at_caller s 0 LC_Idle \<and> \<not> lf_close_requested s"
proof -
  define s0 where "s0 = Lifecycle_new 1"
  define s1 where "s1 = set_caller 0 LC_Starting s0"
  define s2 where "s2 = set_caller 0 LC_Spawning (s1\<lparr>lf_lock := Some 0\<rparr>)"
  define s3 where "s3 = set_caller 0 LC_Idle (s2\<lparr>lf_lock := None, lf_start := SS_Started,
    lf_worker := LW_Spawned, lf_seen := wt_version (lf_close_request s2)\<rparr>)"
  define s4 where "s4 = set_worker LW_Activating (s3\<lparr>lf_activations := Suc (lf_activations s3)\<rparr>)"
  obtain q where q: "publish_initial demo_document ConfigPublisher_new = (Inr (), q)"
    using demo_published by blast
  define s5 where "s5 = set_worker (LW_Activated (Inr ())) (s4\<lparr>lf_publisher := q\<rparr>)"
  define s6 where "s6 = set_worker (LW_Announcing (settle_activation (close_seen s5) (Inr ()))) s5"
  define s7 where "s7 = set_worker LW_Announced
    (s6\<lparr>lf_activation := Some (settle_activation (close_seen s5) (Inr ()))\<rparr>)"
  note f = Lifecycle_new_fields
  have f0: "at_caller s0 0 LC_Idle" "length (lf_callers s0) = 1"
    by (simp_all add: s0_def at_caller_def Lifecycle_new_def)
  have f3: "lf_publisher s3 = ConfigPublisher_new" "lf_activations s3 = 0" "lf_close s3 = None"
    "at_caller s3 0 LC_Idle" "\<not> lf_close_requested s3" "\<not> wt_value (lf_close_request s3)"
    by (simp_all add: s3_def s2_def s1_def s0_def[symmetric] f0) (simp_all add: s0_def f)
  have 1: "lifecycle_input s0 s1"
    unfolding s1_def by (rule call_activate[OF f0(1)]) (simp add: s0_def f)
  have 2: "lifecycle_progress s1 s2"
    unfolding s2_def by (rule start_accepted) (simp_all add: s1_def f0; simp add: s0_def f)+
  have 3: "lifecycle_progress s2 s3"
    unfolding s3_def by (rule spawn) (simp add: s2_def s1_def f0)
  have 4: "lifecycle_progress s3 s4" unfolding s4_def by (rule activate) (simp add: s3_def)
  have 5: "lifecycle_progress s4 s5"
    unfolding s5_def by (rule activated[where document = demo_document]) (simp_all add: s4_def f3 q)
  have 6: "lifecycle_progress s5 s6" unfolding s6_def by (rule settle) (simp add: s5_def)
  have 7: "lifecycle_progress s6 s7" unfolding s7_def by (rule announce) (simp add: s6_def)
  have "lifecycle_step\<^sup>*\<^sup>* s0 s7"
    by (rule more_steps(1)[OF 1], (rule more_steps(2)[OF 2] more_steps(2)[OF 3] more_steps(2)[OF 4]
        more_steps(2)[OF 5] more_steps(2)[OF 6] more_steps(2)[OF 7])+) simp
  moreover have "lf_activation s7 = Some (Inr ()) \<and> lf_activations s7 = 1 \<and> lf_close s7 = None \<and>
    lf_worker s7 = LW_Announced \<and> at_caller s7 0 LC_Idle \<and> \<not> lf_close_requested s7"
    by (simp add: s7_def s6_def s5_def s4_def f3 settle_activation_def close_seen_def)
  ultimately show ?thesis unfolding s0_def by blast
qed


theorem requested_close_completes_witness:
  "\<exists>s. lifecycle_step\<^sup>*\<^sup>* (Lifecycle_new 1) s \<and> lf_close_requested s \<and> lf_activation s = Some (Inr ()) \<and>
       lf_close s = None \<and> (\<exists>u. lifecycle_progress s u)"
proof -
  obtain s where s: "lifecycle_step\<^sup>*\<^sup>* (Lifecycle_new 1) s" "lf_activation s = Some (Inr ())"
    "lf_close s = None" "at_caller s 0 LC_Idle" "\<not> lf_close_requested s"
    using demo_activated by blast
  let ?t = "set_caller 0 LC_Requested (s\<lparr>lf_close_requested := True\<rparr>)"
  have "lifecycle_input s ?t" by (rule call_close[OF s(4,5)])
  then have t: "lifecycle_step\<^sup>*\<^sup>* (Lifecycle_new 1) ?t"
    using s(1) by (meson rtranclp.rtrancl_into_rtrancl lifecycle_step_def)
  have "(lifecycle_progress ^^ 0) ?t ?t" by simp
  from requested_close_completes[OF t _ this] show ?thesis
    using t s by (intro exI[of _ ?t]) simp
qed

end
