(* ===== verification/Directory.thy ===== *)
theory Directory
  imports Capabilities Watch
begin

text \<open>
  Registry errors (\<open>fusen-register/src/error.rs\<close>), discovered instances
  (\<open>ServiceInstance\<close> of \<open>fusen-contract/src/service.rs\<close>) and the latest-wins directory of instances a
  registry publishes (\<open>fusen-register/src/directory.rs\<close>).  A publication happens under the lock of the
  publisher, so it is one step; the time it reads is an argument.
\<close>

section \<open>Errors\<close>

datatype RegistryOperation =
  RO_PrepareRegistration | RO_ActivateRegistration | RO_CloseRegistration
| RO_PrepareSubscription | RO_ActivateSubscription | RO_CloseSubscription | RO_Directory

datatype RegistryErrorKind =
  RK_Unavailable | RK_Timeout | RK_Unauthorized | RK_InvalidResource | RK_Conflict
| RK_Cancelled | RK_CleanupAborted | RK_Internal

record RegistryError =
  re_operation :: RegistryOperation
  re_kind :: RegistryErrorKind
  re_message :: string
  re_source :: string

fun registry_default_message :: "RegistryErrorKind \<Rightarrow> string" where
  "registry_default_message RK_Unavailable = ''registry provider is unavailable''"
| "registry_default_message RK_Timeout = ''registry operation timed out''"
| "registry_default_message RK_Unauthorized = ''registry provider rejected the operation''"
| "registry_default_message RK_InvalidResource = ''registry resource is invalid''"
| "registry_default_message RK_Conflict = ''registry resource conflicts with existing state''"
| "registry_default_message RK_Cancelled = ''registry operation was cancelled''"
| "registry_default_message RK_CleanupAborted = ''registry cleanup did not complete''"
| "registry_default_message RK_Internal = ''registry operation failed internally''"

definition RegistryError_new :: "RegistryOperation \<Rightarrow> RegistryErrorKind \<Rightarrow> string \<Rightarrow> RegistryError" where
  "RegistryError_new operation kind src =
     \<lparr>re_operation = operation, re_kind = kind, re_message = registry_default_message kind, re_source = src\<rparr>"

definition RegistryError_message :: "RegistryOperation \<Rightarrow> RegistryErrorKind \<Rightarrow> string \<Rightarrow> RegistryError" where
  "RegistryError_message operation kind message =
     \<lparr>re_operation = operation, re_kind = kind, re_message = message, re_source = message\<rparr>"

definition registry_kind_is_retryable :: "RegistryErrorKind \<Rightarrow> bool" where
  "registry_kind_is_retryable k = (k = RK_Unavailable \<or> k = RK_Timeout)"

section \<open>Instances\<close>

record ServiceInstance =
  si_instance_id :: string
  si_endpoint :: url
  si_capabilities :: EndpointCapabilities
  si_weight :: f64
  si_metadata :: metadata

definition ServiceInstance_new ::
  "string \<Rightarrow> url \<Rightarrow> EndpointCapabilities \<Rightarrow> f64 \<Rightarrow> ServiceInstance" where
  "ServiceInstance_new instance_id endpoint capabilities weight =
     \<lparr>si_instance_id = instance_id, si_endpoint = endpoint, si_capabilities = capabilities,
      si_weight = weight, si_metadata = []\<rparr>"

definition instance_with_metadata :: "ServiceInstance \<Rightarrow> metadata \<Rightarrow> ContractError + ServiceInstance" where
  "instance_with_metadata s m = bind_result (validate_user_metadata m) (\<lambda>_. Inr (s\<lparr>si_metadata := m\<rparr>))"

section \<open>Registrations\<close>

record ServiceRegistration =
  rg_instance_id :: string
  rg_descriptor :: ServiceDescriptor
  rg_endpoint :: url
  rg_capabilities :: EndpointCapabilities
  rg_weight :: f64
  rg_metadata :: metadata

definition ServiceRegistration_new ::
  "string \<Rightarrow> ServiceDescriptor \<Rightarrow> url \<Rightarrow> EndpointCapabilities \<Rightarrow> f64 \<Rightarrow> ServiceRegistration" where
  "ServiceRegistration_new instance_id descriptor endpoint capabilities weight =
     \<lparr>rg_instance_id = instance_id, rg_descriptor = descriptor, rg_endpoint = endpoint,
      rg_capabilities = capabilities, rg_weight = weight, rg_metadata = []\<rparr>"

definition registration_with_metadata ::
  "ServiceRegistration \<Rightarrow> metadata \<Rightarrow> ContractError + ServiceRegistration" where
  "registration_with_metadata r m = bind_result (validate_user_metadata m) (\<lambda>_. Inr (r\<lparr>rg_metadata := m\<rparr>))"

definition rg_selector :: "ServiceRegistration \<Rightarrow> ServiceSelector" where
  "rg_selector r = sd_selector (rg_descriptor r)"

definition ServiceWeight_default :: f64 where
  "ServiceWeight_default = \<lparr>mant = 1, expo = 0\<rparr>"

section \<open>The directory\<close>

datatype DirectoryState = DS_Initializing | DS_Ready | DS_Stale | DS_Unavailable | DS_Closed

record DirectorySnapshot =
  dn_revision :: nat
  dn_observed_at :: instant
  dn_state :: DirectoryState
  dn_instances :: "ServiceInstance list"

text \<open>The state behind a publisher and its clones, and the channel its directories read.\<close>

record DirectoryPublisher =
  dp_revision :: nat
  dp_sender :: "DirectorySnapshot watch"

definition directory :: "instant \<Rightarrow> DirectoryPublisher" where
  "directory now =
     \<lparr>dp_revision = 0,
      dp_sender = watch_channel
        \<lparr>dn_revision = 0, dn_observed_at = now, dn_state = DS_Initializing, dn_instances = []\<rparr>\<rparr>"

abbreviation directory_snapshot :: "DirectoryPublisher \<Rightarrow> DirectorySnapshot" where
  "directory_snapshot p \<equiv> wt_value (dp_sender p)"

definition directory_publish ::
  "DirectoryState \<Rightarrow> ServiceInstance list option \<Rightarrow> instant \<Rightarrow> DirectoryPublisher \<Rightarrow>
   (RegistryError + DirectorySnapshot) \<times> DirectoryPublisher" where
  "directory_publish state instances now p =
     (if state = DS_Initializing \<or> state = DS_Closed
      then (Inl (RegistryError_message RO_Directory RK_InvalidResource
             ''Initializing and Closed are lifecycle-managed directory states''), p)
      else (case checked_add U64_MAX (dp_revision p) 1 of
              None \<Rightarrow> (Inl (RegistryError_message RO_Directory RK_Internal ''directory revision overflowed''), p)
            | Some revision \<Rightarrow>
                (let snapshot = \<lparr>dn_revision = revision, dn_observed_at = now, dn_state = state,
                       dn_instances = (case instances of Some is \<Rightarrow> is
                                       | None \<Rightarrow> dn_instances (directory_snapshot p))\<rparr>
                 in (Inr snapshot, \<lparr>dp_revision = revision, dp_sender = send_replace snapshot (dp_sender p)\<rparr>))))"

definition publish_ready :: "ServiceInstance list \<Rightarrow> instant \<Rightarrow> DirectoryPublisher \<Rightarrow>
  (RegistryError + DirectorySnapshot) \<times> DirectoryPublisher" where
  "publish_ready instances = directory_publish DS_Ready (Some instances)"

definition publish_snapshot :: "DirectoryState \<Rightarrow> ServiceInstance list \<Rightarrow> instant \<Rightarrow> DirectoryPublisher \<Rightarrow>
  (RegistryError + DirectorySnapshot) \<times> DirectoryPublisher" where
  "publish_snapshot state instances = directory_publish state (Some instances)"

definition publish_state :: "DirectoryState \<Rightarrow> instant \<Rightarrow> DirectoryPublisher \<Rightarrow>
  (RegistryError + DirectorySnapshot) \<times> DirectoryPublisher" where
  "publish_state state = directory_publish state None"

text \<open>The drop of the last clone of a publisher.\<close>

definition directory_drop :: "instant \<Rightarrow> DirectoryPublisher \<Rightarrow> DirectoryPublisher" where
  "directory_drop now p =
     (case checked_add U64_MAX (dp_revision p) 1 of
        None \<Rightarrow> p
      | Some revision \<Rightarrow>
          \<lparr>dp_revision = revision,
           dp_sender = send_replace
             \<lparr>dn_revision = revision, dn_observed_at = now, dn_state = DS_Closed,
              dn_instances = dn_instances (directory_snapshot p)\<rparr> (dp_sender p)\<rparr>)"

text \<open>
  \<^verbatim>\<open>changed\<close> of a directory that saw version \<open>seen\<close>, when it returns: the newest snapshot if it has not
  seen it, an error once the publisher is gone.
\<close>

definition directory_changed :: "bool \<Rightarrow> nat \<Rightarrow> DirectoryPublisher \<Rightarrow> (RegistryError + DirectorySnapshot) option" where
  "directory_changed dropped seen p =
     (if has_changed (dp_sender p) seen then Some (Inr (directory_snapshot p))
      else if dropped
      then Some (Inl (RegistryError_message RO_Directory RK_Unavailable ''directory publisher ended''))
      else None)"

section \<open>Facts\<close>

definition directory_wf :: "DirectoryPublisher \<Rightarrow> bool" where
  "directory_wf p \<longleftrightarrow> dn_revision (directory_snapshot p) = dp_revision p \<and> dp_revision p \<le> U64_MAX"

lemma directory_wf_new [simp]: "directory_wf (directory now)"
  by (simp add: directory_wf_def directory_def watch_channel_def)

lemma directory_publish_ok:
  assumes "state \<notin> {DS_Initializing, DS_Closed}" and "dp_revision p < U64_MAX"
  shows "dn_state (directory_snapshot (snd (directory_publish state instances now p))) = state"
    and "dn_instances (directory_snapshot (snd (directory_publish state instances now p))) =
      (case instances of Some is \<Rightarrow> is | None \<Rightarrow> dn_instances (directory_snapshot p))"
    and "dp_revision (snd (directory_publish state instances now p)) = Suc (dp_revision p)"
  using assms by (simp_all add: directory_publish_def checked_add_def send_replace_def Let_def)

lemma directory_publish_mono: "dp_revision p \<le> dp_revision (snd (directory_publish state instances now p))"
  by (auto simp: directory_publish_def checked_add_def Let_def)

lemma directory_drop_mono: "dp_revision p \<le> dp_revision (directory_drop now p)"
  by (simp add: directory_drop_def checked_add_def)

lemma directory_wf_publish: "directory_wf p \<Longrightarrow> directory_wf (snd (directory_publish state instances now p))"
  by (auto simp: directory_publish_def checked_add_def send_replace_def directory_wf_def Let_def)

lemma directory_wf_drop: "directory_wf p \<Longrightarrow> directory_wf (directory_drop now p)"
  by (auto simp: directory_drop_def checked_add_def send_replace_def directory_wf_def)

end
