(* ===== verification/Client_Config.thy ===== *)
theory Client_Config
  imports Breaker Contract
begin

text \<open>
  The client configuration (\<open>fusen/src/client/config.rs\<close>) and its validation errors
  (\<open>fusen/src/error/validation.rs\<close>).

  A builder is the value built so far; each of its methods is a constructor of a datatype of settings, and
  a chain of calls is a list of settings applied in order.  The getters are the record selectors.
\<close>

section \<open>Validation errors\<close>

datatype ConfigValidationErrorKind = VK_OutOfRange | VK_Inconsistent

record ConfigValidationError =
  cv_kind :: ConfigValidationErrorKind
  cv_field_path :: string
  cv_reason :: string

definition validation_kind_text :: "ConfigValidationErrorKind \<Rightarrow> string" where
  "validation_kind_text kind = (case kind of VK_OutOfRange \<Rightarrow> ''out of range'' | VK_Inconsistent \<Rightarrow> ''inconsistent'')"

definition validation_error_text :: "ConfigValidationError \<Rightarrow> string" where
  "validation_error_text e =
     ''invalid configuration at '' @ cv_field_path e @ '' ('' @ validation_kind_text (cv_kind e) @ ''): '' @ cv_reason e"

definition out_of_range :: "string \<Rightarrow> string \<Rightarrow> ConfigValidationError" where
  "out_of_range field_path reason = \<lparr>cv_kind = VK_OutOfRange, cv_field_path = field_path, cv_reason = reason\<rparr>"

definition inconsistent :: "string \<Rightarrow> string \<Rightarrow> ConfigValidationError" where
  "inconsistent field_path reason = \<lparr>cv_kind = VK_Inconsistent, cv_field_path = field_path, cv_reason = reason\<rparr>"

definition positive_duration :: "duration \<Rightarrow> string \<Rightarrow> ConfigValidationError + unit" where
  "positive_duration v field_path =
     (if v = 0 then Inl (out_of_range field_path ''must be greater than zero'') else Inr ())"

definition positive_usize :: "nat \<Rightarrow> string \<Rightarrow> ConfigValidationError + unit" where
  "positive_usize v field_path =
     (if v = 0 then Inl (out_of_range field_path ''must be greater than zero'') else Inr ())"

definition positive_u32 :: "nat \<Rightarrow> string \<Rightarrow> ConfigValidationError + unit" where
  "positive_u32 v field_path =
     (if v = 0 then Inl (out_of_range field_path ''must be greater than zero'') else Inr ())"

abbreviation and_then :: "'e + unit \<Rightarrow> 'e + 'a \<Rightarrow> 'e + 'a" where
  "and_then r s \<equiv> bind_result r (\<lambda>_. s)"

definition MIB :: nat where "MIB = 1024 * 1024"

section \<open>Admission\<close>

record QueueConfig =
  qc_capacity :: nat
  qc_max_wait :: duration

definition QueueConfig_default :: QueueConfig where
  "QueueConfig_default = \<lparr>qc_capacity = 0, qc_max_wait = from_millis 50\<rparr>"

definition validate_queue :: "QueueConfig \<Rightarrow> ConfigValidationError + unit" where
  "validate_queue c =
     (if 0 < qc_capacity c \<and> qc_max_wait c = 0
      then Inl (inconsistent ''client.admission.queue.max_wait'' ''must be positive when queue capacity is non-zero'')
      else Inr ())"

datatype queue_setting = Q_capacity nat | Q_max_wait duration

fun set_queue :: "queue_setting \<Rightarrow> QueueConfig \<Rightarrow> QueueConfig" where
  "set_queue (Q_capacity v) c = c\<lparr>qc_capacity := v\<rparr>"
| "set_queue (Q_max_wait v) c = c\<lparr>qc_max_wait := v\<rparr>"

definition QueueConfig_build :: "queue_setting list \<Rightarrow> ConfigValidationError + QueueConfig" where
  "QueueConfig_build settings =
     (let c = fold set_queue settings QueueConfig_default in and_then (validate_queue c) (Inr c))"

record ClientAdmissionConfig =
  ca_max_in_flight :: nat
  ca_max_in_flight_per_endpoint :: nat
  ca_max_request_body_bytes :: nat
  ca_max_response_body_bytes :: nat
  ca_max_inflight_request_body_bytes :: nat
  ca_max_inflight_response_body_bytes :: nat
  ca_queue :: QueueConfig

definition ClientAdmissionConfig_default :: ClientAdmissionConfig where
  "ClientAdmissionConfig_default =
     \<lparr>ca_max_in_flight = 1024, ca_max_in_flight_per_endpoint = 128, ca_max_request_body_bytes = 2 * MIB,
      ca_max_response_body_bytes = 2 * MIB, ca_max_inflight_request_body_bytes = 64 * MIB,
      ca_max_inflight_response_body_bytes = 64 * MIB, ca_queue = QueueConfig_default\<rparr>"

definition validate_admission :: "ClientAdmissionConfig \<Rightarrow> ConfigValidationError + unit" where
  "validate_admission c =
     and_then (positive_usize (ca_max_in_flight c) ''client.admission.max_in_flight'')
    (and_then (positive_usize (ca_max_in_flight_per_endpoint c) ''client.admission.max_in_flight_per_endpoint'')
    (and_then (positive_usize (ca_max_request_body_bytes c) ''client.admission.max_request_body_bytes'')
    (and_then (positive_usize (ca_max_response_body_bytes c) ''client.admission.max_response_body_bytes'')
    (and_then (if ca_max_inflight_request_body_bytes c < ca_max_request_body_bytes c
               then Inl (inconsistent ''client.admission.max_inflight_request_body_bytes''
                           ''must be at least max_request_body_bytes'') else Inr ())
    (and_then (if ca_max_inflight_response_body_bytes c < ca_max_response_body_bytes c
               then Inl (inconsistent ''client.admission.max_inflight_response_body_bytes''
                           ''must be at least max_response_body_bytes'') else Inr ())
       (validate_queue (ca_queue c)))))))"

datatype admission_setting =
  A_max_in_flight nat
| A_max_in_flight_per_endpoint nat
| A_max_request_body_bytes nat
| A_max_response_body_bytes nat
| A_max_inflight_request_body_bytes nat
| A_max_inflight_response_body_bytes nat
| A_queue QueueConfig

fun set_admission :: "admission_setting \<Rightarrow> ClientAdmissionConfig \<Rightarrow> ClientAdmissionConfig" where
  "set_admission (A_max_in_flight v) c = c\<lparr>ca_max_in_flight := v\<rparr>"
| "set_admission (A_max_in_flight_per_endpoint v) c = c\<lparr>ca_max_in_flight_per_endpoint := v\<rparr>"
| "set_admission (A_max_request_body_bytes v) c = c\<lparr>ca_max_request_body_bytes := v\<rparr>"
| "set_admission (A_max_response_body_bytes v) c = c\<lparr>ca_max_response_body_bytes := v\<rparr>"
| "set_admission (A_max_inflight_request_body_bytes v) c = c\<lparr>ca_max_inflight_request_body_bytes := v\<rparr>"
| "set_admission (A_max_inflight_response_body_bytes v) c = c\<lparr>ca_max_inflight_response_body_bytes := v\<rparr>"
| "set_admission (A_queue v) c = c\<lparr>ca_queue := v\<rparr>"

definition ClientAdmissionConfig_build ::
  "admission_setting list \<Rightarrow> ConfigValidationError + ClientAdmissionConfig" where
  "ClientAdmissionConfig_build settings =
     (let c = fold set_admission settings ClientAdmissionConfig_default in and_then (validate_admission c) (Inr c))"

section \<open>Discovery\<close>

record DiscoveryConfig =
  dc_initial_timeout :: duration
  dc_operation_timeout :: duration
  dc_close_timeout :: duration
  dc_max_staleness :: duration
  dc_reconnect_base :: duration
  dc_reconnect_cap :: duration
  dc_max_subscriptions :: nat

definition DiscoveryConfig_default :: DiscoveryConfig where
  "DiscoveryConfig_default =
     \<lparr>dc_initial_timeout = from_secs 5, dc_operation_timeout = from_secs 5, dc_close_timeout = from_secs 5,
      dc_max_staleness = from_secs 30, dc_reconnect_base = from_millis 100, dc_reconnect_cap = from_secs 30,
      dc_max_subscriptions = 1024\<rparr>"

definition validate_discovery :: "DiscoveryConfig \<Rightarrow> ConfigValidationError + unit" where
  "validate_discovery c =
     and_then (positive_duration (dc_initial_timeout c) ''client.discovery.initial_timeout'')
    (and_then (positive_duration (dc_operation_timeout c) ''client.discovery.operation_timeout'')
    (and_then (positive_duration (dc_close_timeout c) ''client.discovery.close_timeout'')
    (and_then (positive_duration (dc_reconnect_base c) ''client.discovery.reconnect_base'')
    (and_then (positive_duration (dc_reconnect_cap c) ''client.discovery.reconnect_cap'')
    (and_then (if dc_reconnect_cap c < dc_reconnect_base c
               then Inl (inconsistent ''client.discovery.reconnect_base'' ''must not exceed reconnect_cap'') else Inr ())
       (positive_usize (dc_max_subscriptions c) ''client.discovery.max_subscriptions''))))))"

datatype discovery_setting =
  D_initial_timeout duration
| D_operation_timeout duration
| D_close_timeout duration
| D_max_staleness duration
| D_reconnect_base duration
| D_reconnect_cap duration
| D_max_subscriptions nat

fun set_discovery :: "discovery_setting \<Rightarrow> DiscoveryConfig \<Rightarrow> DiscoveryConfig" where
  "set_discovery (D_initial_timeout v) c = c\<lparr>dc_initial_timeout := v\<rparr>"
| "set_discovery (D_operation_timeout v) c = c\<lparr>dc_operation_timeout := v\<rparr>"
| "set_discovery (D_close_timeout v) c = c\<lparr>dc_close_timeout := v\<rparr>"
| "set_discovery (D_max_staleness v) c = c\<lparr>dc_max_staleness := v\<rparr>"
| "set_discovery (D_reconnect_base v) c = c\<lparr>dc_reconnect_base := v\<rparr>"
| "set_discovery (D_reconnect_cap v) c = c\<lparr>dc_reconnect_cap := v\<rparr>"
| "set_discovery (D_max_subscriptions v) c = c\<lparr>dc_max_subscriptions := v\<rparr>"

definition DiscoveryConfig_build :: "discovery_setting list \<Rightarrow> ConfigValidationError + DiscoveryConfig" where
  "DiscoveryConfig_build settings =
     (let c = fold set_discovery settings DiscoveryConfig_default in and_then (validate_discovery c) (Inr c))"

section \<open>Retries\<close>

record RetryConfig =
  rt_max_attempts :: nat
  rt_backoff_base :: duration
  rt_backoff_cap :: duration
  rt_budget_capacity :: nat
  rt_budget_refill_per_second :: nat

definition RetryConfig_default :: RetryConfig where
  "RetryConfig_default =
     \<lparr>rt_max_attempts = 3, rt_backoff_base = from_millis 10, rt_backoff_cap = from_millis 200,
      rt_budget_capacity = 100, rt_budget_refill_per_second = 10\<rparr>"

definition validate_retry :: "RetryConfig \<Rightarrow> ConfigValidationError + unit" where
  "validate_retry c =
     and_then (if \<not> (1 \<le> rt_max_attempts c \<and> rt_max_attempts c \<le> 3)
               then Inl (out_of_range ''client.retry.max_attempts'' ''must be between 1 and 3 inclusive'') else Inr ())
    (and_then (positive_duration (rt_backoff_base c) ''client.retry.backoff_base'')
    (and_then (positive_duration (rt_backoff_cap c) ''client.retry.backoff_cap'')
    (and_then (if rt_backoff_cap c < rt_backoff_base c
               then Inl (inconsistent ''client.retry.backoff_base'' ''must not exceed backoff_cap'') else Inr ())
    (and_then (positive_u32 (rt_budget_capacity c) ''client.retry.budget_capacity'')
       (positive_u32 (rt_budget_refill_per_second c) ''client.retry.budget_refill_per_second'')))))"

datatype retry_setting =
  R_max_attempts nat
| R_backoff_base duration
| R_backoff_cap duration
| R_budget_capacity nat
| R_budget_refill_per_second nat

fun set_retry :: "retry_setting \<Rightarrow> RetryConfig \<Rightarrow> RetryConfig" where
  "set_retry (R_max_attempts v) c = c\<lparr>rt_max_attempts := v\<rparr>"
| "set_retry (R_backoff_base v) c = c\<lparr>rt_backoff_base := v\<rparr>"
| "set_retry (R_backoff_cap v) c = c\<lparr>rt_backoff_cap := v\<rparr>"
| "set_retry (R_budget_capacity v) c = c\<lparr>rt_budget_capacity := v\<rparr>"
| "set_retry (R_budget_refill_per_second v) c = c\<lparr>rt_budget_refill_per_second := v\<rparr>"

definition RetryConfig_build :: "retry_setting list \<Rightarrow> ConfigValidationError + RetryConfig" where
  "RetryConfig_build settings =
     (let c = fold set_retry settings RetryConfig_default in and_then (validate_retry c) (Inr c))"

section \<open>Circuit breakers\<close>

record BreakerThreshold =
  bt_window :: duration
  bt_buckets :: nat
  bt_minimum_samples :: nat
  bt_failure_ratio :: float64
  bt_open_duration :: duration
  bt_half_open_probes :: nat
  bt_close_successes :: nat

text \<open>The literals \<open>0.5\<close> and \<open>0.6\<close> as the numbers they are rounded to.\<close>

definition endpoint_default :: BreakerThreshold where
  "endpoint_default =
     \<lparr>bt_window = from_secs 10, bt_buckets = 10, bt_minimum_samples = 20,
      bt_failure_ratio = F_Finite False \<lparr>mant = 1, expo = 1\<rparr>, bt_open_duration = from_secs 10,
      bt_half_open_probes = 1, bt_close_successes = 2\<rparr>"

definition service_default :: BreakerThreshold where
  "service_default =
     \<lparr>bt_window = from_secs 30, bt_buckets = 10, bt_minimum_samples = 50,
      bt_failure_ratio = F_Finite False \<lparr>mant = 5404319552844595, expo = 53\<rparr>, bt_open_duration = from_secs 15,
      bt_half_open_probes = 2, bt_close_successes = 3\<rparr>"

datatype ThresholdScope = TS_Endpoint | TS_Service | TS_Standalone

definition threshold_path :: "ThresholdScope \<Rightarrow> string \<Rightarrow> string" where
  "threshold_path scope field =
     (case scope of
        TS_Endpoint \<Rightarrow> ''client.circuit_breaker.endpoint.''
      | TS_Service \<Rightarrow> ''client.circuit_breaker.service.''
      | TS_Standalone \<Rightarrow> ''breaker_threshold.'') @ field"

text \<open>Finite and in \<open>0.0..=1.0\<close>, which contains the negative zero.\<close>

fun ratio_in_range :: "float64 \<Rightarrow> bool" where
  "ratio_in_range F_NaN = False"
| "ratio_in_range (F_Infinite negative) = False"
| "ratio_in_range (F_Finite negative x) = (if negative then mant x = 0 else f64_le x f64_one)"

definition validate_threshold :: "BreakerThreshold \<Rightarrow> ThresholdScope \<Rightarrow> ConfigValidationError + unit" where
  "validate_threshold c scope =
     and_then (positive_duration (bt_window c) (threshold_path scope ''window''))
    (and_then (if bt_buckets c = 0
               then Inl (out_of_range (threshold_path scope ''buckets'') ''must be greater than zero'') else Inr ())
    (and_then (positive_u32 (bt_minimum_samples c) (threshold_path scope ''minimum_samples''))
    (and_then (if \<not> ratio_in_range (bt_failure_ratio c)
               then Inl (out_of_range (threshold_path scope ''failure_ratio'') ''must be finite and between 0 and 1'')
               else Inr ())
    (and_then (positive_duration (bt_open_duration c) (threshold_path scope ''open_duration''))
    (and_then (positive_u32 (bt_half_open_probes c) (threshold_path scope ''half_open_probes''))
       (positive_u32 (bt_close_successes c) (threshold_path scope ''close_successes'')))))))"

datatype threshold_setting =
  T_window duration
| T_buckets nat
| T_minimum_samples nat
| T_failure_ratio float64
| T_open_duration duration
| T_half_open_probes nat
| T_close_successes nat

fun set_threshold :: "threshold_setting \<Rightarrow> BreakerThreshold \<Rightarrow> BreakerThreshold" where
  "set_threshold (T_window v) c = c\<lparr>bt_window := v\<rparr>"
| "set_threshold (T_buckets v) c = c\<lparr>bt_buckets := v\<rparr>"
| "set_threshold (T_minimum_samples v) c = c\<lparr>bt_minimum_samples := v\<rparr>"
| "set_threshold (T_failure_ratio v) c = c\<lparr>bt_failure_ratio := v\<rparr>"
| "set_threshold (T_open_duration v) c = c\<lparr>bt_open_duration := v\<rparr>"
| "set_threshold (T_half_open_probes v) c = c\<lparr>bt_half_open_probes := v\<rparr>"
| "set_threshold (T_close_successes v) c = c\<lparr>bt_close_successes := v\<rparr>"

definition BreakerThreshold_build ::
  "BreakerThreshold \<Rightarrow> threshold_setting list \<Rightarrow> ConfigValidationError + BreakerThreshold" where
  "BreakerThreshold_build start settings =
     (let c = fold set_threshold settings start in and_then (validate_threshold c TS_Standalone) (Inr c))"

record CircuitBreakerConfig =
  cb_endpoint :: BreakerThreshold
  cb_service :: BreakerThreshold
  cb_max_open_duration :: duration
  cb_max_endpoint_entries :: nat
  cb_idle_eviction :: duration

definition DEFAULT_ENDPOINT_IDLE_EVICTION :: duration where
  "DEFAULT_ENDPOINT_IDLE_EVICTION = from_secs 600"

definition CircuitBreakerConfig_default :: CircuitBreakerConfig where
  "CircuitBreakerConfig_default =
     \<lparr>cb_endpoint = endpoint_default, cb_service = service_default, cb_max_open_duration = from_secs 120,
      cb_max_endpoint_entries = 10000, cb_idle_eviction = DEFAULT_ENDPOINT_IDLE_EVICTION\<rparr>"

definition validate_circuit_breaker :: "CircuitBreakerConfig \<Rightarrow> ConfigValidationError + unit" where
  "validate_circuit_breaker c =
     and_then (validate_threshold (cb_endpoint c) TS_Endpoint)
    (and_then (validate_threshold (cb_service c) TS_Service)
    (and_then (positive_duration (cb_max_open_duration c) ''client.circuit_breaker.max_open_duration'')
    (and_then (positive_usize (cb_max_endpoint_entries c) ''client.circuit_breaker.max_endpoint_entries'')
       (positive_duration (cb_idle_eviction c) ''client.circuit_breaker.idle_eviction''))))"

datatype circuit_setting =
  C_endpoint BreakerThreshold
| C_service BreakerThreshold
| C_max_open_duration duration
| C_max_endpoint_entries nat
| C_idle_eviction duration

fun set_circuit :: "circuit_setting \<Rightarrow> CircuitBreakerConfig \<Rightarrow> CircuitBreakerConfig" where
  "set_circuit (C_endpoint v) c = c\<lparr>cb_endpoint := v\<rparr>"
| "set_circuit (C_service v) c = c\<lparr>cb_service := v\<rparr>"
| "set_circuit (C_max_open_duration v) c = c\<lparr>cb_max_open_duration := v\<rparr>"
| "set_circuit (C_max_endpoint_entries v) c = c\<lparr>cb_max_endpoint_entries := v\<rparr>"
| "set_circuit (C_idle_eviction v) c = c\<lparr>cb_idle_eviction := v\<rparr>"

definition CircuitBreakerConfig_build ::
  "circuit_setting list \<Rightarrow> ConfigValidationError + CircuitBreakerConfig" where
  "CircuitBreakerConfig_build settings =
     (let c = fold set_circuit settings CircuitBreakerConfig_default in and_then (validate_circuit_breaker c) (Inr c))"

text \<open>\<open>breaker_config\<close> of \<open>fusen/src/client/runtime.rs\<close>; a ratio that was validated is finite.\<close>

definition breaker_config :: "BreakerThreshold \<Rightarrow> duration \<Rightarrow> BreakerConfig" where
  "breaker_config threshold max_open_duration =
     BreakerConfig_new (bt_window threshold) (bt_buckets threshold) (bt_minimum_samples threshold)
       (case bt_failure_ratio threshold of F_Finite _ x \<Rightarrow> x) (bt_open_duration threshold) max_open_duration
       (bt_half_open_probes threshold) (bt_close_successes threshold)"

section \<open>HTTP pools\<close>

record ClientHttpConfig =
  ch_http1_max_idle_per_host :: nat
  ch_pool_idle_timeout :: "duration option"
  ch_http2_connections_per_host :: nat
  ch_http2_keep_alive_interval :: "duration option"
  ch_http2_keep_alive_timeout :: duration

definition ClientHttpConfig_default :: ClientHttpConfig where
  "ClientHttpConfig_default =
     \<lparr>ch_http1_max_idle_per_host = 128, ch_pool_idle_timeout = Some (from_secs 90),
      ch_http2_connections_per_host = 1, ch_http2_keep_alive_interval = None,
      ch_http2_keep_alive_timeout = from_secs 20\<rparr>"

definition validate_client_http :: "ClientHttpConfig \<Rightarrow> ConfigValidationError + unit" where
  "validate_client_http c =
     and_then (if ch_pool_idle_timeout c = Some 0
               then Inl (out_of_range ''client.http.pool_idle_timeout'' ''must be positive when configured'') else Inr ())
    (and_then (positive_usize (ch_http2_connections_per_host c) ''client.http.http2_connections_per_host'')
    (and_then (if ch_http2_keep_alive_interval c = Some 0
               then Inl (out_of_range ''client.http.http2_keep_alive_interval'' ''must be positive when configured'')
               else Inr ())
       (positive_duration (ch_http2_keep_alive_timeout c) ''client.http.http2_keep_alive_timeout'')))"

datatype client_http_setting =
  H_http1_max_idle_per_host nat
| H_pool_idle_timeout "duration option"
| H_http2_connections_per_host nat
| H_http2_keep_alive_interval "duration option"
| H_http2_keep_alive_timeout duration

fun set_client_http :: "client_http_setting \<Rightarrow> ClientHttpConfig \<Rightarrow> ClientHttpConfig" where
  "set_client_http (H_http1_max_idle_per_host v) c = c\<lparr>ch_http1_max_idle_per_host := v\<rparr>"
| "set_client_http (H_pool_idle_timeout v) c = c\<lparr>ch_pool_idle_timeout := v\<rparr>"
| "set_client_http (H_http2_connections_per_host v) c = c\<lparr>ch_http2_connections_per_host := v\<rparr>"
| "set_client_http (H_http2_keep_alive_interval v) c = c\<lparr>ch_http2_keep_alive_interval := v\<rparr>"
| "set_client_http (H_http2_keep_alive_timeout v) c = c\<lparr>ch_http2_keep_alive_timeout := v\<rparr>"

definition ClientHttpConfig_build :: "client_http_setting list \<Rightarrow> ConfigValidationError + ClientHttpConfig" where
  "ClientHttpConfig_build settings =
     (let c = fold set_client_http settings ClientHttpConfig_default in and_then (validate_client_http c) (Inr c))"

section \<open>The whole configuration\<close>

record ClientConfig =
  cc_request_timeout :: duration
  cc_connect_timeout :: duration
  cc_shutdown_timeout :: duration
  cc_admission :: ClientAdmissionConfig
  cc_discovery :: DiscoveryConfig
  cc_retry :: RetryConfig
  cc_circuit_breaker :: CircuitBreakerConfig
  cc_http :: ClientHttpConfig

definition ClientConfig_default :: ClientConfig where
  "ClientConfig_default =
     \<lparr>cc_request_timeout = from_secs 10, cc_connect_timeout = from_secs 3, cc_shutdown_timeout = from_secs 30,
      cc_admission = ClientAdmissionConfig_default, cc_discovery = DiscoveryConfig_default,
      cc_retry = RetryConfig_default, cc_circuit_breaker = CircuitBreakerConfig_default,
      cc_http = ClientHttpConfig_default\<rparr>"

definition ClientConfig_validate :: "ClientConfig \<Rightarrow> ConfigValidationError + unit" where
  "ClientConfig_validate c =
     and_then (positive_duration (cc_request_timeout c) ''client.request_timeout'')
    (and_then (positive_duration (cc_connect_timeout c) ''client.connect_timeout'')
    (and_then (positive_duration (cc_shutdown_timeout c) ''client.shutdown_timeout'')
    (and_then (validate_admission (cc_admission c))
    (and_then (validate_discovery (cc_discovery c))
    (and_then (validate_retry (cc_retry c))
    (and_then (validate_circuit_breaker (cc_circuit_breaker c))
       (validate_client_http (cc_http c))))))))"

datatype client_setting =
  L_request_timeout duration
| L_connect_timeout duration
| L_shutdown_timeout duration
| L_admission ClientAdmissionConfig
| L_discovery DiscoveryConfig
| L_retry RetryConfig
| L_circuit_breaker CircuitBreakerConfig
| L_http ClientHttpConfig

fun set_client :: "client_setting \<Rightarrow> ClientConfig \<Rightarrow> ClientConfig" where
  "set_client (L_request_timeout v) c = c\<lparr>cc_request_timeout := v\<rparr>"
| "set_client (L_connect_timeout v) c = c\<lparr>cc_connect_timeout := v\<rparr>"
| "set_client (L_shutdown_timeout v) c = c\<lparr>cc_shutdown_timeout := v\<rparr>"
| "set_client (L_admission v) c = c\<lparr>cc_admission := v\<rparr>"
| "set_client (L_discovery v) c = c\<lparr>cc_discovery := v\<rparr>"
| "set_client (L_retry v) c = c\<lparr>cc_retry := v\<rparr>"
| "set_client (L_circuit_breaker v) c = c\<lparr>cc_circuit_breaker := v\<rparr>"
| "set_client (L_http v) c = c\<lparr>cc_http := v\<rparr>"

definition ClientConfig_build :: "client_setting list \<Rightarrow> ConfigValidationError + ClientConfig" where
  "ClientConfig_build settings =
     (let c = fold set_client settings ClientConfig_default in and_then (ClientConfig_validate c) (Inr c))"

end
