(* ===== verification/Lifecycle_Errors.thy ===== *)
theory Lifecycle_Errors
  imports Directory Client_Config
begin

text \<open>
  The failures of building, starting, connecting and stopping clients and servers (\<open>fusen/src/error/lifecycle.rs\<close>).
  A source is one of the errors the sources wrap: those of parsers and of the operating system are their texts, and
  \<open>XS_Closed\<close> is the error of a channel whose sender is gone or of a missing runtime.
\<close>

datatype lifecycle_source =
  XS_Text string
| XS_Contract ContractError
| XS_Config ConfigValidationError
| XS_Registry RegistryError
| XS_Io string
| XS_Closed

section \<open>Clients\<close>

datatype ClientErrorKind = LK_Build | LK_Connect | LK_Discovery | LK_Closed | LK_Timeout | LK_Shutdown

record ClientError =
  cl_kind :: ClientErrorKind
  cl_message :: string
  cl_source :: "lifecycle_source option"

definition ClientError_from_message :: "ClientErrorKind \<Rightarrow> string \<Rightarrow> ClientError" where
  "ClientError_from_message kind message = \<lparr>cl_kind = kind, cl_message = message, cl_source = None\<rparr>"

definition ClientError_with_source :: "ClientErrorKind \<Rightarrow> string \<Rightarrow> lifecycle_source \<Rightarrow> ClientError" where
  "ClientError_with_source kind message src = \<lparr>cl_kind = kind, cl_message = message, cl_source = Some src\<rparr>"

definition client_kind_text :: "ClientErrorKind \<Rightarrow> string" where
  "client_kind_text kind =
     (case kind of
        LK_Build \<Rightarrow> ''build'' | LK_Connect \<Rightarrow> ''connect'' | LK_Discovery \<Rightarrow> ''discovery'' | LK_Closed \<Rightarrow> ''closed''
      | LK_Timeout \<Rightarrow> ''timeout'' | LK_Shutdown \<Rightarrow> ''shutdown'')"

definition client_error_text :: "ClientError \<Rightarrow> string" where
  "client_error_text e = ''client '' @ client_kind_text (cl_kind e) @ '' failed: '' @ cl_message e"

section \<open>Servers\<close>

datatype ServerErrorKind =
  VK_Validation | VK_Bind | VK_Startup | VK_Accept | VK_Registry | VK_Timeout | VK_Shutdown

record ServerError =
  ve_kind :: ServerErrorKind
  ve_message :: string
  ve_source :: "lifecycle_source option"

definition server_kind_text :: "ServerErrorKind \<Rightarrow> string" where
  "server_kind_text kind =
     (case kind of
        VK_Validation \<Rightarrow> ''validation'' | VK_Bind \<Rightarrow> ''bind'' | VK_Startup \<Rightarrow> ''startup'' | VK_Accept \<Rightarrow> ''accept''
      | VK_Registry \<Rightarrow> ''registry'' | VK_Timeout \<Rightarrow> ''timeout'' | VK_Shutdown \<Rightarrow> ''shutdown'')"

definition ServerError_message :: "ServerErrorKind \<Rightarrow> string \<Rightarrow> ServerError" where
  "ServerError_message kind message = \<lparr>ve_kind = kind, ve_message = message, ve_source = None\<rparr>"

definition ServerError_source :: "ServerErrorKind \<Rightarrow> string \<Rightarrow> lifecycle_source \<Rightarrow> ServerError" where
  "ServerError_source kind message src = \<lparr>ve_kind = kind, ve_message = message, ve_source = Some src\<rparr>"

definition server_error_text :: "ServerError \<Rightarrow> string" where
  "server_error_text e = ''server '' @ server_kind_text (ve_kind e) @ '' failed: '' @ ve_message e"

end
