(* ===== verification/Subscription.thy ===== *)
theory Subscription
  imports Lifecycle_Errors Breaker_Store Retry
begin

text \<open>
  The discovery subscriptions of a client (\<open>fusen/src/client/subscription.rs\<close>): the supervisor task that
  follows one provider subscription after another and forwards what it learns to the directory the
  client reads, and the manager that hands out these directories.

  The supervisor is a step relation.  Its reactions are the functions of the source, one step each; a
  registry gives any directory, fails, panics or stays silent, timers run out and the shutdown is
  requested at any moment.  The other users of the shared endpoint breakers are a step of their own.
\<close>

section \<open>Client errors\<close>

definition client_closed :: ClientError where
  "client_closed = ClientError_from_message LK_Closed ''client runtime is draining or closed''"

section \<open>The supervisor\<close>

datatype SlotState =
  SL_Initializing | SL_Ready | SL_Stale | SL_Unavailable | SL_Failed RegistryError | SL_Quarantined | SL_Closed

datatype DirectoryMetricState = DM_Initializing | DM_Ready | DM_Stale | DM_Unavailable | DM_Closed

text \<open>Why a provider subscription is being closed, which decides what follows its close.\<close>

datatype close_reason = CR_Abandoned | CR_Failed | CR_Ended

datatype supervisor_pc =
  SU_Preparing
| SU_Activating
| SU_Following
| SU_Closing close_reason
| SU_Quarantined close_reason
| SU_Delayed instant
| SU_Ending SlotState
| SU_Cleanup
| SU_Done

record supervisor =
  su_pc :: supervisor_pc
  su_now :: instant
  su_shutdown :: bool
  su_publisher :: DirectoryPublisher
  su_state :: SlotState
  su_deadline :: "instant option"
  su_attempt :: nat
  su_retained :: bool
  su_completion :: bool
  su_breakers :: EndpointBreakers
  su_metrics :: "DirectoryMetricState list"

abbreviation directory_state :: "supervisor \<Rightarrow> DirectoryState" where
  "directory_state s \<equiv> dn_state (directory_snapshot (su_publisher s))"

definition record_directory_state :: "DirectoryMetricState \<Rightarrow> supervisor \<Rightarrow> supervisor" where
  "record_directory_state m s = s\<lparr>su_metrics := su_metrics s @ [m]\<rparr>"

definition run_subscription :: "EndpointBreakers \<Rightarrow> instant \<Rightarrow> supervisor" where
  "run_subscription breakers now =
     \<lparr>su_pc = SU_Preparing, su_now = now, su_shutdown = False, su_publisher = directory now,
      su_state = SL_Initializing, su_deadline = None, su_attempt = 0, su_retained = True,
      su_completion = False, su_breakers = breakers, su_metrics = [DM_Initializing]\<rparr>"

definition forward_snapshot ::
  "ServiceSelector \<Rightarrow> DirectoryState \<Rightarrow> ServiceInstance list \<Rightarrow> supervisor \<Rightarrow> supervisor" where
  "forward_snapshot selector state instances s =
     s\<lparr>su_breakers := replace_discovery selector (map (\<lambda>i. u_as_str (si_endpoint i)) instances) (su_breakers s),
       su_publisher := snd (publish_snapshot state instances (su_now s) (su_publisher s))\<rparr>"

definition forward_state :: "DirectoryState \<Rightarrow> supervisor \<Rightarrow> supervisor" where
  "forward_state state s = s\<lparr>su_publisher := snd (publish_state state (su_now s) (su_publisher s))\<rparr>"

definition start_stale_deadline :: "duration \<Rightarrow> supervisor \<Rightarrow> supervisor" where
  "start_stale_deadline max_staleness s =
     (if su_deadline s = None then s\<lparr>su_deadline := Some (su_now s + max_staleness)\<rparr> else s)"

definition mark_disconnected :: "duration \<Rightarrow> supervisor \<Rightarrow> supervisor" where
  "mark_disconnected max_staleness s =
     (case directory_state s of
        DS_Ready \<Rightarrow>
          record_directory_state DM_Stale
            (start_stale_deadline max_staleness (forward_state DS_Stale s)\<lparr>su_state := SL_Stale\<rparr>)
      | DS_Stale \<Rightarrow> start_stale_deadline max_staleness s\<lparr>su_state := SL_Stale\<rparr>
      | DS_Initializing \<Rightarrow>
          record_directory_state DM_Unavailable (forward_state DS_Unavailable s\<lparr>su_state := SL_Unavailable\<rparr>)
      | _ \<Rightarrow> s)"

definition update_snapshot ::
  "ServiceSelector \<Rightarrow> duration \<Rightarrow> DirectorySnapshot \<Rightarrow> supervisor \<Rightarrow> supervisor" where
  "update_snapshot selector max_staleness snapshot s =
     (case dn_state snapshot of
        DS_Ready \<Rightarrow>
          record_directory_state DM_Ready
            ((forward_snapshot selector DS_Ready (dn_instances snapshot) s)
               \<lparr>su_deadline := None, su_state := SL_Ready\<rparr>)
      | DS_Closed \<Rightarrow> mark_disconnected max_staleness s
      | DS_Initializing \<Rightarrow> s
      | _ \<Rightarrow>
          (if dn_state snapshot = DS_Stale \<and> (directory_state s = DS_Ready \<or> directory_state s = DS_Stale)
           then record_directory_state DM_Stale
                  ((start_stale_deadline max_staleness
                      (forward_snapshot selector DS_Stale (dn_instances snapshot) s))
                     \<lparr>su_state := SL_Stale\<rparr>)
           else record_directory_state DM_Unavailable
                  ((forward_snapshot selector DS_Unavailable (dn_instances snapshot) s)
                     \<lparr>su_deadline := None, su_state := SL_Unavailable\<rparr>)))"

definition expire_stale :: "supervisor \<Rightarrow> supervisor" where
  "expire_stale s =
     (if directory_state s \<noteq> DS_Stale then s
      else (let s = forward_state DS_Unavailable s;
                s = (if su_state s = SL_Ready \<or> su_state s = SL_Stale then s\<lparr>su_state := SL_Unavailable\<rparr> else s)
            in record_directory_state DM_Unavailable s))"

definition set_provider_failure :: "RegistryError \<Rightarrow> supervisor \<Rightarrow> supervisor" where
  "set_provider_failure error s =
     (if directory_state s = DS_Stale then s\<lparr>su_state := SL_Stale\<rparr>
      else (let s = (if directory_state s = DS_Initializing then forward_state DS_Unavailable s else s)
            in record_directory_state DM_Unavailable (s\<lparr>su_state := SL_Failed error\<rparr>)))"

definition set_retrying_state :: "supervisor \<Rightarrow> supervisor" where
  "set_retrying_state s =
     (case directory_state s of
        DS_Initializing \<Rightarrow> record_directory_state DM_Initializing (s\<lparr>su_state := SL_Initializing\<rparr>)
      | DS_Ready \<Rightarrow> s\<lparr>su_state := SL_Ready\<rparr>
      | DS_Stale \<Rightarrow> s\<lparr>su_state := SL_Stale\<rparr>
      | DS_Unavailable \<Rightarrow> s\<lparr>su_state := SL_Unavailable\<rparr>
      | DS_Closed \<Rightarrow> s\<lparr>su_state := SL_Closed\<rparr>)"

text \<open>\<open>reconnect_delay\<close> up to its wait: the attempt is counted and the backoff drawn.\<close>

definition reconnect_delay :: "DiscoveryConfig \<Rightarrow> (nat \<Rightarrow> nat) \<Rightarrow> supervisor \<Rightarrow> supervisor" where
  "reconnect_delay config draw s =
     (let attempt = saturating_add 255 (su_attempt s) 1
      in s\<lparr>su_attempt := attempt,
           su_pc := SU_Delayed (su_now s + full_jitter_backoff (dc_reconnect_base config)
                                  (dc_reconnect_cap config) attempt draw)\<rparr>)"

text \<open>After the close of a provider subscription that succeeded.\<close>

definition after_close :: "DiscoveryConfig \<Rightarrow> (nat \<Rightarrow> nat) \<Rightarrow> close_reason \<Rightarrow> supervisor \<Rightarrow> supervisor" where
  "after_close config draw reason s =
     (case reason of
        CR_Abandoned \<Rightarrow> s\<lparr>su_pc := SU_Ending SL_Closed\<rparr>
      | CR_Failed \<Rightarrow> reconnect_delay config draw s
      | CR_Ended \<Rightarrow> if su_shutdown s then s\<lparr>su_pc := SU_Ending SL_Closed\<rparr> else reconnect_delay config draw s)"

text \<open>Where the supervisor waits under \<open>await_with_stale_deadline\<close> or in its follow loop.\<close>

fun awaits :: "supervisor_pc \<Rightarrow> bool" where
  "awaits SU_Activating = True"
| "awaits SU_Following = True"
| "awaits (SU_Closing r) = True"
| "awaits (SU_Quarantined r) = True"
| "awaits (SU_Delayed t) = True"
| "awaits _ = False"

definition drop_publisher :: "supervisor \<Rightarrow> supervisor" where
  "drop_publisher s =
     (if su_retained s then s else s\<lparr>su_publisher := directory_drop (su_now s) (su_publisher s)\<rparr>)"

text \<open>The end of the supervisor after its last state was sent.\<close>

definition end_subscription :: "ServiceSelector \<Rightarrow> supervisor \<Rightarrow> supervisor" where
  "end_subscription selector s =
     (let s = (if su_shutdown s then s
               else s\<lparr>su_breakers := remove_discovery selector (su_breakers s), su_retained := False\<rparr>);
          s = record_directory_state DM_Closed (drop_publisher s)
      in s\<lparr>su_completion := True, su_pc := SU_Done\<rparr>)"

text \<open>What \<open>finish_shutdown\<close> of the manager does to one slot.\<close>

definition finish_slot :: "ServiceSelector \<Rightarrow> supervisor \<Rightarrow> supervisor" where
  "finish_slot selector s =
     (let s = s\<lparr>su_breakers := remove_discovery selector (su_breakers s)\<rparr>
      in if su_retained s
         then (let s = s\<lparr>su_retained := False\<rparr> in if su_pc s = SU_Done then drop_publisher s else s)
         else s)"

definition membership :: "ServiceSelector \<Rightarrow> supervisor \<Rightarrow> DiscoveryEndpoint list" where
  "membership selector s = owner_endpoints selector (eb_memberships (su_breakers s))"

inductive subscription_step ::
  "DiscoveryConfig \<Rightarrow> ServiceSelector \<Rightarrow> supervisor \<Rightarrow> supervisor \<Rightarrow> bool"
  for config :: DiscoveryConfig and selector :: ServiceSelector where
  tick: "su_now s \<le> now \<Longrightarrow> subscription_step config selector s (s\<lparr>su_now := now\<rparr>)"
| begin_shutdown: "subscription_step config selector s (s\<lparr>su_shutdown := True\<rparr>)"
| finish_shutdown: "su_shutdown s \<Longrightarrow> subscription_step config selector s (finish_slot selector s)"
| other_breakers: "owner_endpoints selector (eb_memberships breakers) = membership selector s \<Longrightarrow>
    subscription_step config selector s (s\<lparr>su_breakers := breakers\<rparr>)"
| expire: "\<lbrakk>awaits (su_pc s); su_deadline s = Some deadline; deadline \<le> su_now s\<rbrakk> \<Longrightarrow>
    subscription_step config selector s ((expire_stale s)\<lparr>su_deadline := None\<rparr>)"
| cancelled: "\<lbrakk>su_pc s = SU_Preparing; su_shutdown s\<rbrakk> \<Longrightarrow>
    subscription_step config selector s (s\<lparr>su_pc := SU_Ending SL_Closed\<rparr>)"
| prepared: "\<lbrakk>su_pc s = SU_Preparing; \<not> su_shutdown s\<rbrakk> \<Longrightarrow>
    subscription_step config selector s (s\<lparr>su_pc := SU_Activating\<rparr>)"
| prepare_failed: "\<lbrakk>su_pc s = SU_Preparing; \<not> su_shutdown s\<rbrakk> \<Longrightarrow>
    subscription_step config selector s (reconnect_delay config draw (set_provider_failure error s))"
| prepare_panicked: "\<lbrakk>su_pc s = SU_Preparing; \<not> su_shutdown s\<rbrakk> \<Longrightarrow>
    subscription_step config selector s
      (record_directory_state DM_Unavailable
         (s\<lparr>su_state := SL_Quarantined, su_pc := SU_Ending SL_Quarantined\<rparr>))"
| activate_cancelled: "\<lbrakk>su_pc s = SU_Activating; su_shutdown s\<rbrakk> \<Longrightarrow>
    subscription_step config selector s (s\<lparr>su_pc := SU_Closing CR_Abandoned\<rparr>)"
| activated: "su_pc s = SU_Activating \<Longrightarrow>
    subscription_step config selector s
      (update_snapshot selector (dc_max_staleness config) snapshot (s\<lparr>su_pc := SU_Following, su_attempt := 0\<rparr>))"
| activation_failed: "su_pc s = SU_Activating \<Longrightarrow>
    subscription_step config selector s ((set_provider_failure error s)\<lparr>su_pc := SU_Closing CR_Failed\<rparr>)"
| activation_timeout: "su_pc s = SU_Activating \<Longrightarrow>
    subscription_step config selector s
      (record_directory_state DM_Unavailable
         ((mark_disconnected (dc_max_staleness config) s)
            \<lparr>su_state := SL_Quarantined, su_pc := SU_Closing CR_Failed\<rparr>))"
| follow_cancelled: "\<lbrakk>su_pc s = SU_Following; su_shutdown s\<rbrakk> \<Longrightarrow>
    subscription_step config selector s (s\<lparr>su_pc := SU_Closing CR_Ended\<rparr>)"
| follow_changed: "su_pc s = SU_Following \<Longrightarrow>
    subscription_step config selector s (update_snapshot selector (dc_max_staleness config) snapshot s)"
| follow_ended: "su_pc s = SU_Following \<Longrightarrow>
    subscription_step config selector s
      ((mark_disconnected (dc_max_staleness config) s)\<lparr>su_pc := SU_Closing CR_Ended\<rparr>)"
| close_slow: "su_pc s = SU_Closing reason \<Longrightarrow>
    subscription_step config selector s (s\<lparr>su_state := SL_Quarantined, su_pc := SU_Quarantined reason\<rparr>)"
| closed: "su_pc s = SU_Closing reason \<or> su_pc s = SU_Quarantined reason \<Longrightarrow>
    subscription_step config selector s (after_close config draw reason s)"
| close_failed: "su_pc s = SU_Closing reason \<or> su_pc s = SU_Quarantined reason \<Longrightarrow>
    subscription_step config selector s (s\<lparr>su_state := SL_Failed error, su_pc := SU_Ending (SL_Failed error)\<rparr>)"
| delay_cancelled: "\<lbrakk>su_pc s = SU_Delayed until; su_shutdown s\<rbrakk> \<Longrightarrow>
    subscription_step config selector s (s\<lparr>su_pc := SU_Ending SL_Closed\<rparr>)"
| delayed: "\<lbrakk>su_pc s = SU_Delayed until; until \<le> su_now s\<rbrakk> \<Longrightarrow>
    subscription_step config selector s ((set_retrying_state s)\<lparr>su_pc := SU_Preparing\<rparr>)"
| ending: "su_pc s = SU_Ending state \<Longrightarrow>
    subscription_step config selector s (s\<lparr>su_state := state, su_pc := SU_Cleanup\<rparr>)"
| ended: "su_pc s = SU_Cleanup \<Longrightarrow> subscription_step config selector s (end_subscription selector s)"

section \<open>The manager\<close>

text \<open>
  What a caller of \<open>acquire\<close> finds in the table of slots under its lock: an old slot, the right to a new
  one, or an error.
\<close>

datatype slot_lookup = SK_Found | SK_Inserted

definition acquire_slot ::
  "DiscoveryConfig \<Rightarrow> bool \<Rightarrow> ServiceSelector \<Rightarrow> ServiceSelector list \<Rightarrow>
   ClientError + (slot_lookup \<times> ServiceSelector list)" where
  "acquire_slot config is_closed selector slots =
     (if is_closed then Inl client_closed
      else if selector \<in> set slots then Inr (SK_Found, slots)
      else if dc_max_subscriptions config \<le> length slots
      then Inl (ClientError_from_message LK_Discovery ''runtime subscription limit reached'')
      else Inr (SK_Inserted, slots @ [selector]))"

text \<open>One look of \<open>wait_until_ready\<close>: \<open>None\<close> is another wait for a change.\<close>

fun slot_outcome :: "SlotState \<Rightarrow> (ClientError + unit) option" where
  "slot_outcome SL_Ready = Some (Inr ())"
| "slot_outcome SL_Stale = Some (Inr ())"
| "slot_outcome (SL_Failed error) =
     Some (Inl (ClientError_with_source LK_Discovery ''registry subscription failed'' (XS_Registry error)))"
| "slot_outcome SL_Quarantined =
     Some (Inl (ClientError_from_message LK_Discovery
       ''subscription is quarantined until provider cleanup completes''))"
| "slot_outcome SL_Unavailable =
     Some (Inl (ClientError_from_message LK_Discovery ''service directory is unavailable''))"
| "slot_outcome SL_Closed = Some (Inl client_closed)"
| "slot_outcome SL_Initializing = None"

text \<open>
  \<open>wait_until_ready\<close> on the states its looks find before its timeout: the list ends with the timeout or,
  when \<open>sender_gone\<close>, with the end of the supervisor.
\<close>

fun wait_until_ready :: "bool \<Rightarrow> SlotState list \<Rightarrow> ClientError + unit" where
  "wait_until_ready sender_gone [] =
     (if sender_gone then Inl client_closed
      else Inl (ClientError_from_message LK_Timeout
        ''initial discovery did not become Ready before its deadline''))"
| "wait_until_ready sender_gone (state # looks) =
     (case slot_outcome state of Some r \<Rightarrow> r | None \<Rightarrow> wait_until_ready sender_gone looks)"

definition slot_completion :: "bool \<Rightarrow> SlotState \<Rightarrow> RegistryError + unit" where
  "slot_completion completed state =
     (if \<not> completed
      then Inl (RegistryError_message RO_CloseSubscription RK_CleanupAborted
             ''subscription supervisor ended without a terminal result'')
      else (case state of SL_Failed error \<Rightarrow> Inl error | _ \<Rightarrow> Inr ()))"

text \<open>The result of \<open>closed\<close>: the first error in the order of the selectors.\<close>

fun first_error :: "('e + unit) list \<Rightarrow> 'e + unit" where
  "first_error [] = Inr ()"
| "first_error (Inl e # rs) = Inl e"
| "first_error (Inr _ # rs) = first_error rs"

end
