(* ===== verification/Subscription_Theorems.thy ===== *)
theory Subscription_Theorems
  imports Subscription
begin

text \<open>
  What a subscription keeps true: the state callers wait for, the directory they read, the deadline of a
  stale directory and the endpoint breakers always agree.
\<close>

section \<open>Membership of the endpoint breakers\<close>

lemma owner_endpoints_replace:
  "owner_endpoints selector (eb_memberships (replace_discovery selector endpoints eb)) =
   discovery_endpoints selector endpoints"
  by (simp add: replace_discovery_def replace_owner_def remove_cached_def owner_endpoints_def Let_def
      update_conv split: prod.splits)

text \<open>The operations on other selectors are \<open>other_breakers\<close> steps of the supervisor.\<close>

lemma owner_endpoints_others:
  "selector \<noteq> other \<Longrightarrow>
   owner_endpoints selector (eb_memberships (replace_discovery other endpoints eb)) =
   owner_endpoints selector (eb_memberships eb)"
  "selector \<noteq> other \<Longrightarrow>
   owner_endpoints selector (eb_memberships (remove_discovery other eb)) =
   owner_endpoints selector (eb_memberships eb)"
  "eb_memberships (snd (get_or_insert_observed service binding src endpoint now eb)) = eb_memberships eb"
  by (auto simp: replace_discovery_def remove_discovery_def replace_owner_def remove_owner_def
      get_or_insert_observed_def remove_cached_def owner_endpoints_def Let_def update_conv' delete_conv'
      split: prod.splits)

section \<open>The reactions\<close>

abbreviation revision :: "supervisor \<Rightarrow> nat" where
  "revision s \<equiv> dp_revision (su_publisher s)"

abbreviation offered :: "supervisor \<Rightarrow> string list" where
  "offered s \<equiv> map (\<lambda>i. u_as_str (si_endpoint i)) (dn_instances (directory_snapshot (su_publisher s)))"

lemma forward_state_effect:
  assumes "state \<notin> {DS_Initializing, DS_Closed}" and "revision s < U64_MAX"
  shows "directory_state (forward_state state s) = state" and "offered (forward_state state s) = offered s"
  using directory_publish_ok[OF assms, of None] by (simp_all add: forward_state_def publish_state_def)

lemma forward_snapshot_effect:
  assumes "state \<notin> {DS_Initializing, DS_Closed}" and "revision s < U64_MAX"
  shows "directory_state (forward_snapshot selector state is s) = state"
    and "membership selector (forward_snapshot selector state is s) =
      discovery_endpoints selector (offered (forward_snapshot selector state is s))"
  using directory_publish_ok[OF assms, of "Some is"]
  by (simp_all add: forward_snapshot_def publish_snapshot_def membership_def owner_endpoints_replace)

lemma forward_keeps [simp]:
  "su_pc (forward_state state s) = su_pc s" "su_deadline (forward_state state s) = su_deadline s"
  "su_state (forward_state state s) = su_state s" "su_shutdown (forward_state state s) = su_shutdown s"
  "su_retained (forward_state state s) = su_retained s" "su_now (forward_state state s) = su_now s"
  "su_completion (forward_state state s) = su_completion s" "su_breakers (forward_state state s) = su_breakers s"
  "su_pc (forward_snapshot selector state is s) = su_pc s"
  "su_deadline (forward_snapshot selector state is s) = su_deadline s"
  "su_state (forward_snapshot selector state is s) = su_state s"
  "su_shutdown (forward_snapshot selector state is s) = su_shutdown s"
  "su_retained (forward_snapshot selector state is s) = su_retained s"
  "su_now (forward_snapshot selector state is s) = su_now s"
  "su_completion (forward_snapshot selector state is s) = su_completion s"
  "revision s \<le> revision (forward_state state s)"
  "revision s \<le> revision (forward_snapshot selector state is s)"
  by (simp_all add: forward_state_def forward_snapshot_def publish_state_def publish_snapshot_def
      directory_publish_mono)

text \<open>The state a caller waits for says what the directory says, when it says anything about it.\<close>

fun slot_matches :: "SlotState \<Rightarrow> DirectoryState \<Rightarrow> bool" where
  "slot_matches SL_Initializing d \<longleftrightarrow> d = DS_Initializing"
| "slot_matches SL_Ready d \<longleftrightarrow> d = DS_Ready"
| "slot_matches SL_Stale d \<longleftrightarrow> d = DS_Stale"
| "slot_matches SL_Unavailable d \<longleftrightarrow> d = DS_Unavailable"
| "slot_matches _ d \<longleftrightarrow> True"

definition terminal_slot :: "SlotState \<Rightarrow> bool" where
  "terminal_slot t \<longleftrightarrow> t = SL_Closed \<or> t = SL_Quarantined \<or> (\<exists>e. t = SL_Failed e)"

lemma terminal_slot_simps [simp]:
  "terminal_slot SL_Closed" "terminal_slot SL_Quarantined" "terminal_slot (SL_Failed e)"
  by (auto simp: terminal_slot_def)

lemma terminal_slot_matches: "terminal_slot t \<Longrightarrow> slot_matches t d"
  by (auto simp: terminal_slot_def)

definition agrees :: "ServiceSelector \<Rightarrow> supervisor \<Rightarrow> bool" where
  "agrees selector s \<longleftrightarrow>
     (directory_state s = DS_Stale \<longleftrightarrow> su_deadline s \<noteq> None) \<and>
     slot_matches (su_state s) (directory_state s) \<and>
     (su_retained s \<longrightarrow> membership selector s = discovery_endpoints selector (offered s))"

definition open_directory :: "supervisor \<Rightarrow> bool" where
  "open_directory s \<longleftrightarrow> revision s < U64_MAX \<and> directory_state s \<noteq> DS_Closed"

lemma mark_disconnected_agrees:
  assumes "agrees selector s" and "open_directory s"
  shows "agrees selector (mark_disconnected m s)" and "directory_state (mark_disconnected m s) \<notin> {DS_Ready, DS_Closed}"
  using assms forward_state_effect[of DS_Stale s] forward_state_effect[of DS_Unavailable s]
  by (auto simp: mark_disconnected_def agrees_def open_directory_def start_stale_deadline_def
      record_directory_state_def forward_state_def publish_state_def membership_def
      split: DirectoryState.splits)

lemma update_snapshot_agrees:
  assumes "agrees selector s" and "open_directory s"
  shows "agrees selector (update_snapshot selector m snapshot s)"
    and "directory_state (update_snapshot selector m snapshot s) \<noteq> DS_Closed"
proof -
  let ?is = "dn_instances snapshot"
  note f = forward_snapshot_effect[of DS_Ready s selector ?is] forward_snapshot_effect[of DS_Stale s selector ?is]
    forward_snapshot_effect[of DS_Unavailable s selector ?is]
  have "agrees selector (update_snapshot selector m snapshot s) \<and>
    directory_state (update_snapshot selector m snapshot s) \<noteq> DS_Closed"
  proof (cases "dn_state snapshot = DS_Closed \<or> dn_state snapshot = DS_Initializing")
    case True
    then show ?thesis
      using assms mark_disconnected_agrees[OF assms] by (auto simp: update_snapshot_def open_directory_def)
  next
    case False
    then show ?thesis
      using f assms
      by (cases "dn_state snapshot")
        (auto simp: update_snapshot_def agrees_def open_directory_def start_stale_deadline_def
          record_directory_state_def membership_def)
  qed
  then show "agrees selector (update_snapshot selector m snapshot s)"
    "directory_state (update_snapshot selector m snapshot s) \<noteq> DS_Closed" by auto
qed

lemma expire_stale_agrees:
  assumes "agrees selector s" and "open_directory s" and "su_deadline s \<noteq> None"
  shows "agrees selector ((expire_stale s)\<lparr>su_deadline := None\<rparr>)"
    and "directory_state ((expire_stale s)\<lparr>su_deadline := None\<rparr>) = DS_Unavailable"
  using assms forward_state_effect[of DS_Unavailable s]
  by (cases "su_state s"; simp add: expire_stale_def agrees_def open_directory_def
      record_directory_state_def membership_def Let_def)+

lemma set_provider_failure_agrees:
  assumes "agrees selector s" and "open_directory s"
  shows "agrees selector (set_provider_failure e s)"
    and "directory_state (set_provider_failure e s) =
      (if directory_state s = DS_Initializing then DS_Unavailable else directory_state s)"
  using assms forward_state_effect[of DS_Unavailable s]
  by (auto simp: set_provider_failure_def agrees_def open_directory_def record_directory_state_def
      membership_def Let_def)

lemma set_retrying_state_agrees:
  assumes "agrees selector s"
  shows "agrees selector (set_retrying_state s)"
    and "directory_state (set_retrying_state s) = directory_state s"
  using assms
  by (auto simp: set_retrying_state_def agrees_def record_directory_state_def membership_def
      split: DirectoryState.splits)

text \<open>What the reactions leave alone.\<close>

lemma mark_disconnected_keeps [simp]:
  "su_pc (mark_disconnected m s) = su_pc s" "su_shutdown (mark_disconnected m s) = su_shutdown s"
  "su_retained (mark_disconnected m s) = su_retained s" "su_now (mark_disconnected m s) = su_now s"
  "su_completion (mark_disconnected m s) = su_completion s" "revision s \<le> revision (mark_disconnected m s)"
  by (simp_all add: mark_disconnected_def start_stale_deadline_def record_directory_state_def
      split: DirectoryState.split)

lemma update_snapshot_keeps [simp]:
  "su_pc (update_snapshot selector m n s) = su_pc s"
  "su_shutdown (update_snapshot selector m n s) = su_shutdown s"
  "su_retained (update_snapshot selector m n s) = su_retained s"
  "su_now (update_snapshot selector m n s) = su_now s"
  "su_completion (update_snapshot selector m n s) = su_completion s"
  "revision s \<le> revision (update_snapshot selector m n s)"
  by (simp_all add: update_snapshot_def start_stale_deadline_def record_directory_state_def
      split: DirectoryState.split)

lemma expire_stale_keeps [simp]:
  "su_pc (expire_stale s) = su_pc s" "su_shutdown (expire_stale s) = su_shutdown s"
  "su_retained (expire_stale s) = su_retained s" "su_completion (expire_stale s) = su_completion s"
  "su_now (expire_stale s) = su_now s" "revision s \<le> revision (expire_stale s)"
  by (simp_all add: expire_stale_def record_directory_state_def Let_def)

lemma set_provider_failure_keeps [simp]:
  "su_pc (set_provider_failure e s) = su_pc s" "su_shutdown (set_provider_failure e s) = su_shutdown s"
  "su_retained (set_provider_failure e s) = su_retained s" "su_now (set_provider_failure e s) = su_now s"
  "su_completion (set_provider_failure e s) = su_completion s"
  "su_deadline (set_provider_failure e s) = su_deadline s" "revision s \<le> revision (set_provider_failure e s)"
  by (simp_all add: set_provider_failure_def record_directory_state_def Let_def)

lemma set_retrying_state_keeps [simp]:
  "su_pc (set_retrying_state s) = su_pc s" "su_shutdown (set_retrying_state s) = su_shutdown s"
  "su_retained (set_retrying_state s) = su_retained s" "su_now (set_retrying_state s) = su_now s"
  "su_completion (set_retrying_state s) = su_completion s"
  "su_deadline (set_retrying_state s) = su_deadline s" "su_publisher (set_retrying_state s) = su_publisher s"
  by (simp_all add: set_retrying_state_def record_directory_state_def split: DirectoryState.split)

lemma agrees_cong:
  "\<lbrakk>agrees selector s; su_publisher s' = su_publisher s; su_deadline s' = su_deadline s;
    slot_matches (su_state s') (directory_state s); su_retained s' \<Longrightarrow> su_retained s;
    su_retained s' \<Longrightarrow> membership selector s' = membership selector s\<rbrakk> \<Longrightarrow> agrees selector s'"
  by (auto simp: agrees_def)

section \<open>The invariant\<close>

definition subscription_ok :: "ServiceSelector \<Rightarrow> supervisor \<Rightarrow> bool" where
  "subscription_ok selector s \<longleftrightarrow>
     (revision s < U64_MAX \<longrightarrow>
        (if directory_state s = DS_Closed then su_pc s = SU_Done \<and> \<not> su_retained s
         else agrees selector s \<and> (directory_state s = DS_Ready \<longrightarrow> su_pc s = SU_Following \<or> su_shutdown s))) \<and>
     (\<forall>t. su_pc s = SU_Ending t \<longrightarrow> terminal_slot t) \<and>
     (su_pc s \<in> {SU_Cleanup, SU_Done} \<longrightarrow> terminal_slot (su_state s)) \<and>
     (su_completion s \<longleftrightarrow> su_pc s = SU_Done)"

lemma subscription_ok_agrees:
  assumes "subscription_ok selector s" and "revision s < U64_MAX" and "su_pc s \<noteq> SU_Done"
  shows "agrees selector s \<and> open_directory s"
  using assms by (auto simp: subscription_ok_def open_directory_def split: if_splits)

text \<open>A step that keeps the supervisor going.\<close>

lemma subscription_okI:
  assumes ok: "subscription_ok selector s" "su_pc s \<notin> {SU_Cleanup, SU_Done}"
    and rev: "revision s \<le> revision s'"
    and pc: "su_pc s' \<notin> {SU_Cleanup, SU_Done}" "\<And>t. su_pc s' = SU_Ending t \<Longrightarrow> terminal_slot t"
      "su_completion s' = su_completion s"
    and new: "\<lbrakk>revision s < U64_MAX; agrees selector s; open_directory s;
        directory_state s = DS_Ready \<longrightarrow> su_pc s = SU_Following \<or> su_shutdown s\<rbrakk> \<Longrightarrow>
      agrees selector s' \<and> directory_state s' \<noteq> DS_Closed \<and>
      (directory_state s' = DS_Ready \<longrightarrow> su_pc s' = SU_Following \<or> su_shutdown s')"
  shows "subscription_ok selector s'"
  using assms by (auto simp: subscription_ok_def open_directory_def split: if_splits)

lemma record_directory_state_keeps [simp]:
  "su_pc (record_directory_state x s) = su_pc s" "su_shutdown (record_directory_state x s) = su_shutdown s"
  "su_retained (record_directory_state x s) = su_retained s" "su_now (record_directory_state x s) = su_now s"
  "su_completion (record_directory_state x s) = su_completion s" "su_state (record_directory_state x s) = su_state s"
  "su_deadline (record_directory_state x s) = su_deadline s"
  "su_publisher (record_directory_state x s) = su_publisher s"
  "agrees selector (record_directory_state x s) = agrees selector s"
  by (simp_all add: record_directory_state_def agrees_def membership_def)

lemma agrees_pc [simp]:
  "agrees selector (s\<lparr>su_pc := x\<rparr>) = agrees selector s" "agrees selector (s\<lparr>su_attempt := n\<rparr>) = agrees selector s"
  "agrees selector (s\<lparr>su_now := now\<rparr>) = agrees selector s"
  "agrees selector (s\<lparr>su_shutdown := b\<rparr>) = agrees selector s"
  by (simp_all add: agrees_def membership_def)

lemma reconnect_delay_keeps [simp]:
  "su_shutdown (reconnect_delay c d s) = su_shutdown s" "su_completion (reconnect_delay c d s) = su_completion s"
  "su_publisher (reconnect_delay c d s) = su_publisher s" "su_pc (reconnect_delay c d s) \<noteq> SU_Cleanup" "su_pc (reconnect_delay c d s) \<noteq> SU_Done"
  "su_pc (reconnect_delay c d s) \<noteq> SU_Ending t" "su_pc (reconnect_delay c d s) \<noteq> SU_Following"
  "su_deadline (reconnect_delay c d s) = su_deadline s"
  "agrees selector (reconnect_delay c d s) = agrees selector s"
  by (simp_all add: reconnect_delay_def Let_def)

lemma after_close_keeps [simp]:
  "su_shutdown (after_close c d r s) = su_shutdown s" "su_completion (after_close c d r s) = su_completion s"
  "su_publisher (after_close c d r s) = su_publisher s" "su_pc (after_close c d r s) \<noteq> SU_Cleanup" "su_pc (after_close c d r s) \<noteq> SU_Done"
  "su_pc (after_close c d r s) = SU_Ending t \<Longrightarrow> t = SL_Closed" "su_pc (after_close c d r s) \<noteq> SU_Following"
  "su_deadline (after_close c d r s) = su_deadline s" "agrees selector (after_close c d r s) = agrees selector s"
  by (simp_all add: after_close_def split: close_reason.splits if_splits)

lemma drop_publisher_effect:
  "\<not> su_retained s \<Longrightarrow> revision (drop_publisher s) < U64_MAX \<Longrightarrow> directory_state (drop_publisher s) = DS_Closed"
  "revision s \<le> revision (drop_publisher s)" "su_pc (drop_publisher s) = su_pc s"
  "su_state (drop_publisher s) = su_state s" "su_retained (drop_publisher s) = su_retained s"
  "su_completion (drop_publisher s) = su_completion s" "su_retained s \<Longrightarrow> drop_publisher s = s"
  by (auto simp: drop_publisher_def directory_drop_def checked_add_def send_replace_def)

lemma finish_slot_effect:
  "su_pc (finish_slot selector s) = su_pc s" "su_state (finish_slot selector s) = su_state s"
  "su_completion (finish_slot selector s) = su_completion s" "\<not> su_retained (finish_slot selector s)"
  "su_pc s \<noteq> SU_Done \<Longrightarrow> su_publisher (finish_slot selector s) = su_publisher s"
  "su_deadline (finish_slot selector s) = su_deadline s" "su_shutdown (finish_slot selector s) = su_shutdown s"
  "revision s \<le> revision (finish_slot selector s)"
  "su_pc s = SU_Done \<Longrightarrow> \<not> su_retained s \<Longrightarrow> su_publisher (finish_slot selector s) = su_publisher s"
  "su_pc s = SU_Done \<Longrightarrow> su_retained s \<Longrightarrow> revision (finish_slot selector s) < U64_MAX \<Longrightarrow>
     directory_state (finish_slot selector s) = DS_Closed"
  by (auto simp: finish_slot_def Let_def drop_publisher_effect)
     (auto simp: drop_publisher_def directory_drop_def checked_add_def send_replace_def)

lemma finish_slot_ok:
  assumes ok: "subscription_ok selector s" and "su_shutdown s"
  shows "subscription_ok selector (finish_slot selector s)"
proof (cases "su_pc s = SU_Done \<and> su_retained s")
  case True
  then show ?thesis
    using ok finish_slot_effect by (auto simp: subscription_ok_def)
next
  case False
  then have same: "su_publisher (finish_slot selector s) = su_publisher s"
    using finish_slot_effect by blast
  have "agrees selector s \<Longrightarrow> agrees selector (finish_slot selector s)"
    by (rule agrees_cong) (use same in \<open>auto simp: finish_slot_effect agrees_def\<close>)
  then show ?thesis
    using ok assms(2) same by (auto simp: subscription_ok_def finish_slot_effect)
qed

text \<open>The end: with the retained publisher still there the directory stays, without it it is closed.\<close>

lemma end_subscription_retained:
  assumes "su_shutdown s" and "su_retained s"
  shows "end_subscription selector s =
    (record_directory_state DM_Closed s)\<lparr>su_completion := True, su_pc := SU_Done\<rparr>"
  using assms by (simp add: end_subscription_def drop_publisher_def)

lemma end_subscription_dropped:
  assumes "\<not> (su_shutdown s \<and> su_retained s)"
  shows "revision (end_subscription selector s) < U64_MAX \<Longrightarrow> directory_state (end_subscription selector s) = DS_Closed"
    and "su_pc (end_subscription selector s) = SU_Done" and "su_completion (end_subscription selector s)"
    and "su_state (end_subscription selector s) = su_state s" and "\<not> su_retained (end_subscription selector s)"
  using assms
  by (simp_all add: end_subscription_def drop_publisher_def directory_drop_def checked_add_def send_replace_def
      Let_def split: if_splits)

lemma end_subscription_ok:
  assumes ok: "subscription_ok selector s" and pc: "su_pc s = SU_Cleanup"
  shows "subscription_ok selector (end_subscription selector s)"
proof -
  have terminal: "terminal_slot (su_state s)" using ok pc by (simp add: subscription_ok_def)
  show ?thesis
  proof (cases "su_shutdown s \<and> su_retained s")
    case True
    let ?e = "(record_directory_state DM_Closed s)\<lparr>su_completion := True, su_pc := SU_Done\<rparr>"
    have "agrees selector s \<Longrightarrow> agrees selector ?e"
      by (rule agrees_cong) (use terminal in \<open>auto simp: membership_def record_directory_state_def intro: terminal_slot_matches\<close>)
    then show ?thesis
      using ok True terminal pc end_subscription_retained[of s selector]
      by (simp add: subscription_ok_def split: if_splits)
  next
    case False
    then show ?thesis
      using terminal end_subscription_dropped[of s selector] by (simp add: subscription_ok_def)
  qed
qed

lemma subscription_ok_new:
  "owner_endpoints selector (eb_memberships breakers) = [] \<Longrightarrow> subscription_ok selector (run_subscription breakers now)"
  by (simp add: subscription_ok_def run_subscription_def directory_def watch_channel_def agrees_def
      membership_def discovery_endpoints_def)

text \<open>The steps that only move the supervisor on.\<close>

lemma subscription_ok_pc:
  assumes ok: "subscription_ok selector s" "su_pc s \<notin> {SU_Cleanup, SU_Done}"
    and pc: "x \<notin> {SU_Cleanup, SU_Done}" "\<And>t. x = SU_Ending t \<Longrightarrow> terminal_slot t"
      "su_pc s = SU_Following \<Longrightarrow> su_shutdown s"
  shows "subscription_ok selector (s\<lparr>su_pc := x\<rparr>)"
  using assms by (intro subscription_okI[OF ok]) (auto simp: open_directory_def)

lemma subscription_ok_slot:
  assumes ok: "subscription_ok selector s" "su_pc s \<notin> {SU_Cleanup, SU_Done}"
    and pc: "x \<notin> {SU_Cleanup, SU_Done}" "\<And>t. x = SU_Ending t \<Longrightarrow> terminal_slot t"
      "su_pc s \<noteq> SU_Following" and t: "terminal_slot t"
  shows "subscription_ok selector (s\<lparr>su_state := t, su_pc := x\<rparr>)"
proof -
  have "agrees selector s \<Longrightarrow> agrees selector (s\<lparr>su_state := t, su_pc := x\<rparr>)"
    by (rule agrees_cong) (simp_all add: membership_def terminal_slot_matches[OF t])
  then show ?thesis using pc by (intro subscription_okI[OF ok]) (auto simp: open_directory_def)
qed

lemma subscription_ok_recorded [simp]:
  "subscription_ok selector (record_directory_state x s) = subscription_ok selector s"
  by (simp add: subscription_ok_def)

text \<open>The steps of a reaction: what it makes of the directory decides.\<close>

lemma subscription_ok_reaction:
  assumes ok: "subscription_ok selector s" "su_pc s \<notin> {SU_Cleanup, SU_Done}"
    and rev: "revision s \<le> revision s'"
    and pc: "su_pc s' \<notin> {SU_Cleanup, SU_Done}" "\<And>t. su_pc s' \<noteq> SU_Ending t"
      "su_completion s' = su_completion s" "su_shutdown s' = su_shutdown s"
    and new: "\<lbrakk>agrees selector s; open_directory s\<rbrakk> \<Longrightarrow>
      agrees selector s' \<and> directory_state s' \<noteq> DS_Closed \<and>
      (directory_state s' = DS_Ready \<longrightarrow> su_pc s' = SU_Following \<or> directory_state s = DS_Ready \<and> su_pc s \<noteq> SU_Following)"
  shows "subscription_ok selector s'"
  using new pc rev by (intro subscription_okI[OF ok]) auto

lemma failure_ok:
  assumes ok: "subscription_ok selector s" "su_pc s \<in> {SU_Preparing, SU_Activating}"
  shows "subscription_ok selector (set_provider_failure error s)"
  using ok(2) set_provider_failure_agrees[of selector s error]
  by (intro subscription_ok_reaction[OF ok(1)]) (auto simp: open_directory_def split: if_splits)

lemma delay_ok:
  assumes ok: "subscription_ok selector s" "su_pc s \<notin> {SU_Cleanup, SU_Done}" "su_pc s = SU_Following \<Longrightarrow> su_shutdown s"
  shows "subscription_ok selector (reconnect_delay config draw s)"
  using ok(3) by (intro subscription_okI[OF ok(1,2)]) (auto simp: open_directory_def)

lemma after_close_ok:
  assumes ok: "subscription_ok selector s" "su_pc s \<notin> {SU_Cleanup, SU_Done}" "su_pc s = SU_Following \<Longrightarrow> su_shutdown s"
  shows "subscription_ok selector (after_close config draw reason s)"
  using ok delay_ok[OF ok] subscription_ok_pc[OF ok(1,2), of "SU_Ending SL_Closed"]
  by (cases reason) (auto simp: after_close_def)

lemma expire_ok:
  assumes ok: "subscription_ok selector s" and "awaits (su_pc s)" "su_deadline s \<noteq> None"
  shows "subscription_ok selector ((expire_stale s)\<lparr>su_deadline := None\<rparr>)"
  using assms(2) expire_stale_agrees[OF _ _ assms(3)]
  by (intro subscription_ok_reaction[OF ok]) auto

lemma update_ok:
  assumes ok: "subscription_ok selector s" and "su_pc s = SU_Following"
  shows "subscription_ok selector (update_snapshot selector m snapshot s)"
  using assms(2) update_snapshot_agrees[of selector s]
  by (intro subscription_ok_reaction[OF ok]) auto

lemma disconnected_ok:
  assumes ok: "subscription_ok selector s" and pc: "su_pc s \<in> {SU_Activating, SU_Following}"
  shows "subscription_ok selector ((mark_disconnected m s)\<lparr>su_pc := SU_Closing reason\<rparr>)"
proof (rule subscription_ok_reaction[OF ok])
  let ?s = "(mark_disconnected m s)\<lparr>su_pc := SU_Closing reason\<rparr>"
  show "su_pc s \<notin> {SU_Cleanup, SU_Done}" using pc by auto
  show "agrees selector ?s \<and> directory_state ?s \<noteq> DS_Closed \<and>
      (directory_state ?s = DS_Ready \<longrightarrow> su_pc ?s = SU_Following \<or> directory_state s = DS_Ready \<and> su_pc s \<noteq> SU_Following)"
    if "agrees selector s" "open_directory s"
    using mark_disconnected_agrees[OF that, of m] by simp
qed simp_all

lemma retrying_ok:
  assumes ok: "subscription_ok selector s" and "su_pc s = SU_Delayed until"
  shows "subscription_ok selector (set_retrying_state s)"
  using assms(2) set_retrying_state_agrees[of selector s]
  by (intro subscription_ok_reaction[OF ok]) (auto simp: open_directory_def)

lemma ending_ok:
  assumes ok: "subscription_ok selector s" and "su_pc s = SU_Ending t"
  shows "subscription_ok selector (s\<lparr>su_state := t, su_pc := SU_Cleanup\<rparr>)"
proof -
  have t: "terminal_slot t" using assms by (simp add: subscription_ok_def)
  have "agrees selector s \<Longrightarrow> agrees selector (s\<lparr>su_state := t, su_pc := SU_Cleanup\<rparr>)"
    by (rule agrees_cong) (simp_all add: membership_def terminal_slot_matches[OF t])
  then show ?thesis using assms t by (auto simp: subscription_ok_def)
qed

lemma subscription_ok_step:
  assumes step: "subscription_step config selector s s'" and ok: "subscription_ok selector s"
  shows "subscription_ok selector s'"
  using step
proof cases
  case (tick now)
  then show ?thesis using ok by (simp add: subscription_ok_def)
next
  case begin_shutdown
  then show ?thesis using ok by (auto simp: subscription_ok_def)
next
  case finish_shutdown
  then show ?thesis using finish_slot_ok[OF ok] by simp
next
  case (other_breakers breakers)
  have "agrees selector (s\<lparr>su_breakers := breakers\<rparr>) = agrees selector s"
    using other_breakers(2) by (simp add: agrees_def membership_def)
  then show ?thesis unfolding other_breakers(1) using ok by (simp add: subscription_ok_def)
next
  case (expire deadline)
  then show ?thesis using expire_ok[OF ok] by simp
next
  case cancelled
  show ?thesis unfolding cancelled(1) by (rule subscription_ok_pc[OF ok]) (use cancelled in auto)
next
  case prepared
  show ?thesis unfolding prepared(1) by (rule subscription_ok_pc[OF ok]) (use prepared in auto)
next
  case (prepare_failed draw error)
  then show ?thesis using delay_ok[OF failure_ok[OF ok]] by simp
next
  case prepare_panicked
  show ?thesis unfolding prepare_panicked(1) subscription_ok_recorded by (rule subscription_ok_slot[OF ok]) (use prepare_panicked in auto)
next
  case activate_cancelled
  show ?thesis unfolding activate_cancelled(1) by (rule subscription_ok_pc[OF ok]) (use activate_cancelled in auto)
next
  case (activated snapshot)
  let ?s = "s\<lparr>su_pc := SU_Following, su_attempt := 0\<rparr>"
  have "subscription_ok selector ?s"
    using activated(2) by (intro subscription_ok_reaction[OF ok]) (simp_all add: open_directory_def)
  then show ?thesis unfolding activated(1) by (rule update_ok) simp
next
  case (activation_failed error)
  show ?thesis unfolding activation_failed(1) by (rule subscription_ok_pc[OF failure_ok[OF ok]]) (use activation_failed in auto)
next
  case activation_timeout
  let ?s = "(mark_disconnected (dc_max_staleness config) s)\<lparr>su_pc := SU_Closing CR_Failed\<rparr>"
  have "subscription_ok selector ?s" using activation_timeout disconnected_ok[OF ok] by simp
  from subscription_ok_slot[OF this, of "SU_Closing CR_Failed" SL_Quarantined] show ?thesis
    using activation_timeout by simp
next
  case follow_cancelled
  show ?thesis unfolding follow_cancelled(1) by (rule subscription_ok_pc[OF ok]) (use follow_cancelled in auto)
next
  case (follow_changed snapshot)
  then show ?thesis using update_ok[OF ok] by simp
next
  case follow_ended
  then show ?thesis using disconnected_ok[OF ok] by simp
next
  case (close_slow reason)
  show ?thesis unfolding close_slow(1) by (rule subscription_ok_slot[OF ok]) (use close_slow in auto)
next
  case (closed reason draw)
  then show ?thesis using after_close_ok[OF ok] by auto
next
  case (close_failed reason error)
  show ?thesis unfolding close_failed(1) by (rule subscription_ok_slot[OF ok]) (use close_failed in auto)
next
  case (delay_cancelled until)
  show ?thesis unfolding delay_cancelled(1) by (rule subscription_ok_pc[OF ok]) (use delay_cancelled in auto)
next
  case (delayed until)
  show ?thesis unfolding delayed(1) by (rule subscription_ok_pc[OF retrying_ok[OF ok]]) (use delayed in auto)
next
  case (ending state)
  then show ?thesis using ending_ok[OF ok] by simp
next
  case ended
  then show ?thesis using end_subscription_ok[OF ok] by simp
qed

interpretation subscription: stepwise "subscription_step config selector" "subscription_ok selector"
  for config selector
  by unfold_locales (rule subscription_ok_step)

section \<open>The deadline of a stale directory\<close>

text \<open>What a reaction may do to the deadline.\<close>

definition deadline_kept :: "duration \<Rightarrow> supervisor \<Rightarrow> supervisor \<Rightarrow> bool" where
  "deadline_kept m s s' \<longleftrightarrow>
     (directory_state s' = DS_Stale \<longrightarrow>
        su_deadline s' = (if directory_state s = DS_Stale then su_deadline s else Some (su_now s + m)))"

lemma mark_disconnected_deadline:
  assumes "agrees selector s" and "open_directory s"
  shows "deadline_kept m s (mark_disconnected m s)"
  using assms forward_state_effect[of DS_Unavailable s]
  by (cases "directory_state s")
    (auto simp: deadline_kept_def mark_disconnected_def start_stale_deadline_def agrees_def open_directory_def)

lemma update_snapshot_deadline:
  assumes "agrees selector s" and "open_directory s"
  shows "deadline_kept m s (update_snapshot selector m snapshot s)"
proof -
  note f = forward_snapshot_effect(1)[of _ s selector "dn_instances snapshot"]
  show ?thesis
  proof (cases "dn_state snapshot = DS_Closed")
    case True
    then show ?thesis using mark_disconnected_deadline[OF assms] by (simp add: update_snapshot_def)
  next
    case False
    then show ?thesis
      using f[of DS_Ready] f[of DS_Unavailable] assms
      by (cases "dn_state snapshot")
        (auto simp: deadline_kept_def update_snapshot_def start_stale_deadline_def agrees_def open_directory_def)
  qed
qed

lemma deadline_kept_same:
  "su_deadline s' = su_deadline s \<Longrightarrow> directory_state s' = directory_state s \<or> directory_state s' \<noteq> DS_Stale \<Longrightarrow>
   agrees selector s \<Longrightarrow> deadline_kept m s s'"
  by (auto simp: deadline_kept_def)

lemma step_deadline:
  assumes step: "subscription_step config selector s s'" and ok: "subscription_ok selector s"
    and rev: "revision s < U64_MAX" and pc: "su_pc s \<noteq> SU_Done"
  shows "deadline_kept (dc_max_staleness config) s s'"
proof -
  have a: "agrees selector s" "open_directory s" using subscription_ok_agrees[OF ok rev pc] by auto
  show ?thesis
    using step
  proof cases
    case (expire deadline)
    then show ?thesis using expire_stale_agrees(2)[OF a] by (simp add: deadline_kept_def)
  next
    case (prepare_failed draw error)
    then show ?thesis
      using set_provider_failure_agrees(2)[OF a, of error] by (intro deadline_kept_same[OF _ _ a(1)]) auto
  next
    case (activated snapshot)
    let ?s = "s\<lparr>su_pc := SU_Following, su_attempt := 0\<rparr>"
    have "deadline_kept (dc_max_staleness config) ?s s'"
      unfolding activated(1) by (rule update_snapshot_deadline) (use a in \<open>simp_all add: open_directory_def\<close>)
    then show ?thesis by (simp add: deadline_kept_def)
  next
    case (activation_failed error)
    then show ?thesis
      using set_provider_failure_agrees(2)[OF a, of error] by (intro deadline_kept_same[OF _ _ a(1)]) auto
  next
    case activation_timeout
    then show ?thesis
      using mark_disconnected_deadline[OF a, of "dc_max_staleness config"] by (simp add: deadline_kept_def)
  next
    case (follow_changed snapshot)
    then show ?thesis using update_snapshot_deadline[OF a] by simp
  next
    case follow_ended
    then show ?thesis
      using mark_disconnected_deadline[OF a, of "dc_max_staleness config"] by (simp add: deadline_kept_def)
  next
    case (delayed until)
    then show ?thesis
      using set_retrying_state_agrees(2)[OF a(1)] by (intro deadline_kept_same[OF _ _ a(1)]) auto
  next
    case ended
    then show ?thesis
      by (intro deadline_kept_same[OF _ _ a(1)])
        (auto simp: end_subscription_def drop_publisher_def directory_drop_def checked_add_def send_replace_def Let_def)
  next
    case finish_shutdown
    then show ?thesis
      using pc by (intro deadline_kept_same[OF _ _ a(1)]) (auto simp: finish_slot_effect)
  qed (intro deadline_kept_same[OF _ _ a(1)]; simp)+
qed

lemma step_revision: "subscription_step config selector s s' \<Longrightarrow> revision s \<le> revision s'"
proof (induction rule: subscription_step.induct)
  case (activated s snapshot)
  show ?case
    using update_snapshot_keeps(6)[of "s\<lparr>su_pc := SU_Following, su_attempt := 0\<rparr>"] by simp
next
  case (ended s)
  show ?case
    by (simp add: end_subscription_def drop_publisher_def directory_drop_mono Let_def)
qed (simp_all add: finish_slot_effect)

section \<open>The claims\<close>


text \<open>
  C31. Stale data is served for at most \<open>max_staleness\<close>: a directory that becomes stale gets the deadline
  \<open>max_staleness\<close> from that moment, nothing the supervisor does while it stays stale moves the deadline, and
  when it is reached wherever the supervisor waits, the step that takes the directory out of use is
  enabled.
\<close>

theorem staleness_bounded:
  assumes run: "(subscription_step config selector)\<^sup>*\<^sup>* (run_subscription breakers now) s"
    and fresh: "owner_endpoints selector (eb_memberships breakers) = []"
    and live: "su_pc s \<noteq> SU_Done" and step: "subscription_step config selector s s'"
    and revisions: "dp_revision (su_publisher s') < U64_MAX" and stale: "directory_state s' = DS_Stale"
  shows "su_deadline s' =
      (if directory_state s = DS_Stale then su_deadline s else Some (su_now s + dc_max_staleness config)) \<and>
    (su_pc s' \<noteq> SU_Done \<longrightarrow> su_deadline s' \<noteq> None) \<and>
    (awaits (su_pc s') \<and> the (su_deadline s') \<le> su_now s' \<longrightarrow>
      (\<exists>t. subscription_step config selector s' t \<and> directory_state t = DS_Unavailable \<and>
           slot_outcome (su_state t) \<noteq> Some (Inr ())))"
proof -
  have ok: "subscription_ok selector s" by (rule subscription.along_runs[OF run subscription_ok_new[OF fresh]])
  have ok': "subscription_ok selector s'" using subscription_ok_step[OF step ok] .
  have rev: "revision s < U64_MAX" using step_revision[OF step] revisions by simp
  have kept: "su_deadline s' =
      (if directory_state s = DS_Stale then su_deadline s else Some (su_now s + dc_max_staleness config))"
    using step_deadline[OF step ok rev live] stale by (simp add: deadline_kept_def)
  have expires: "\<exists>t. subscription_step config selector s' t \<and> directory_state t = DS_Unavailable \<and>
      slot_outcome (su_state t) \<noteq> Some (Inr ())"
    if "awaits (su_pc s')" "the (su_deadline s') \<le> su_now s'"
  proof -
    have live': "su_pc s' \<noteq> SU_Done" using that(1) by auto
    note a = subscription_ok_agrees[OF ok' revisions live']
    then obtain d where d: "su_deadline s' = Some d" using stale by (auto simp: agrees_def)
    let ?t = "(expire_stale s')\<lparr>su_deadline := None\<rparr>"
    have step': "subscription_step config selector s' ?t" using that d by (intro expire) auto
    have un: "directory_state ?t = DS_Unavailable" and ag: "agrees selector ?t"
      using expire_stale_agrees[of selector s'] a d by auto
    have "slot_outcome (su_state ?t) \<noteq> Some (Inr ())"
      using ag un by (cases "su_state ?t") (auto simp: agrees_def)
    then show ?thesis using step' un by blast
  qed
  show ?thesis
    using kept expires subscription_ok_agrees[OF ok' revisions] stale by (auto simp: agrees_def)
qed

section \<open>Witnesses\<close>

definition sub_config :: DiscoveryConfig where
  "sub_config = \<lparr>dc_initial_timeout = 5, dc_operation_timeout = 5, dc_close_timeout = 5,
     dc_max_staleness = 30, dc_reconnect_base = 1, dc_reconnect_cap = 30, dc_max_subscriptions = 1024\<rparr>"

definition sub_selector :: ServiceSelector where
  "sub_selector = \<lparr>ss_service_id = ''orders'', ss_group = None, ss_version = None, ss_metadata = [],
     ss_identity = ''orders''\<rparr>"

definition sub_instance :: ServiceInstance where
  "sub_instance = ServiceInstance_new ''a''
     \<lparr>u_scheme = ''http'', u_cannot_be_a_base = False, u_host_str = Some ''a'', u_port_or_known_default = Some 80,
      u_username = [], u_password = None, u_query = None, u_fragment = None, u_as_str = ''http://a/''\<rparr>
     EndpointCapabilities_default \<lparr>mant = 1, expo = 0\<rparr>"

definition sub_breakers :: EndpointBreakers where
  "sub_breakers = EndpointBreakers_new (BreakerConfig_new 40 4 2 \<lparr>mant = 1, expo = 1\<rparr> 100 300 1 2) 8 10"

lemma sub_breakers_fresh: "owner_endpoints sub_selector (eb_memberships sub_breakers) = []"
  by (simp add: sub_breakers_def EndpointBreakers_new_def owner_endpoints_def)

definition sub_ready :: supervisor where
  "sub_ready = update_snapshot sub_selector (dc_max_staleness sub_config)
     \<lparr>dn_revision = 1, dn_observed_at = 0, dn_state = DS_Ready, dn_instances = [sub_instance]\<rparr>
     ((run_subscription sub_breakers 0)\<lparr>su_pc := SU_Activating, su_pc := SU_Following, su_attempt := 0\<rparr>)"

lemma sub_ready_run: "(subscription_step sub_config sub_selector)\<^sup>*\<^sup>* (run_subscription sub_breakers 0) sub_ready"
proof -
  let ?s0 = "run_subscription sub_breakers 0" let ?s1 = "?s0\<lparr>su_pc := SU_Activating\<rparr>"
  have "subscription_step sub_config sub_selector ?s0 ?s1"
    by (rule prepared) (simp_all add: run_subscription_def)
  moreover have "subscription_step sub_config sub_selector ?s1 sub_ready"
    unfolding sub_ready_def by (rule activated) simp
  ultimately show ?thesis by (meson rtranclp.rtrancl_into_rtrancl rtranclp.rtrancl_refl)
qed

lemma sub_ready_state:
  "su_state sub_ready = SL_Ready" "directory_state sub_ready = DS_Ready" "su_retained sub_ready"
  "su_pc sub_ready = SU_Following" "revision sub_ready = 1" "su_now sub_ready = 0"
  "offered sub_ready = [''http://a/'']"
  by (simp_all add: sub_ready_def update_snapshot_def record_directory_state_def forward_snapshot_def
      publish_snapshot_def directory_publish_def run_subscription_def directory_def checked_add_def
      U64_MAX_def send_replace_def Let_def sub_instance_def ServiceInstance_new_def)


theorem staleness_bounded_witness:
  "\<exists>s'. subscription_step sub_config sub_selector sub_ready s' \<and> directory_state s' = DS_Stale \<and>
        su_deadline s' = Some 30"
proof -
  let ?s = "(mark_disconnected (dc_max_staleness sub_config) sub_ready)\<lparr>su_pc := SU_Closing CR_Ended\<rparr>"
  have step: "subscription_step sub_config sub_selector sub_ready ?s"
    by (rule follow_ended) (rule sub_ready_state)
  have "snd (publish_state DS_Stale (su_now sub_ready) (su_publisher sub_ready)) = su_publisher ?s"
    by (simp add: mark_disconnected_def sub_ready_state record_directory_state_def start_stale_deadline_def
        forward_state_def)
  then have s: "directory_state ?s = DS_Stale" "revision ?s = 2"
    using directory_publish_ok[of DS_Stale "su_publisher sub_ready" None] sub_ready_state
    by (simp_all add: publish_state_def U64_MAX_def flip: \<open>_ = su_publisher ?s\<close>)
  have "su_deadline ?s = Some (su_now sub_ready + dc_max_staleness sub_config)"
    using staleness_bounded[OF sub_ready_run sub_breakers_fresh _ step] s sub_ready_state
    by (simp add: U64_MAX_def)
  then show ?thesis using step s by (intro exI[of _ ?s]) (simp add: sub_ready_state sub_config_def)
qed

end
