(* ===== verification/Selection.thy ===== *)
theory Selection
  imports Directory Breaker_Store
begin

text \<open>
  How a client picks the endpoint of an attempt (\<open>select_endpoint\<close> and the functions below it in
  \<open>fusen/src/client/invocation.rs\<close>): candidates, routers, breaker admission, load balancer.

  Routers and load balancers are the user's code: functions of the snapshot they are given, \<open>None\<close> when
  they panic, which the source catches.  One call reads the clock once.
\<close>

section \<open>Errors\<close>

definition no_instances :: error where
  "no_instances = framework EC_Unavailable ''no_instances''
     ''discovery has no currently routable service instances''"

definition no_compatible_endpoint :: error where
  "no_compatible_endpoint = framework EC_Unavailable ''no_compatible_endpoint''
     ''no endpoint is compatible with the selected HTTP binding and version policy''"

definition circuit_open :: error where
  "circuit_open = framework EC_Unavailable ''circuit_open'' ''circuit breaker rejected the attempt''"

definition invalid_router_output :: error where
  "invalid_router_output = framework EC_Internal ''invalid_router_output''
     ''instance router must return a non-duplicated subset of its input snapshot''"

definition router_panic :: error where
  "router_panic = framework EC_Internal ''router_panic'' ''router failed''"

definition invalid_load_balancer_selection :: error where
  "invalid_load_balancer_selection = framework EC_Internal ''invalid_load_balancer_selection''
     ''load balancer returned an out-of-range index''"

definition load_balancer_panic :: error where
  "load_balancer_panic = framework EC_Internal ''load_balancer_panic'' ''load balancer failed''"

section \<open>HTTP versions\<close>

definition is_secure :: "url \<Rightarrow> bool" where
  "is_secure endpoint = (u_scheme endpoint = ''https'')"

definition select_http_version ::
  "HttpVersionPolicy \<Rightarrow> url \<Rightarrow> EndpointCapabilities \<Rightarrow> http_version option" where
  "select_http_version policy endpoint capabilities =
     (let versions = ec_http_versions capabilities; secure = is_secure endpoint
      in case policy of
           VP_Auto \<Rightarrow>
             if secure \<and> vs_contains versions HTTP_2 then Some HTTP_2
             else if vs_contains versions HTTP_11 then Some HTTP_11 else None
         | VP_Http1 \<Rightarrow> if vs_contains versions HTTP_11 then Some HTTP_11 else None
         | VP_Http2 \<Rightarrow> if secure \<and> vs_contains versions HTTP_2 then Some HTTP_2 else None
         | VP_H2c \<Rightarrow> if \<not> secure \<and> vs_contains versions HTTP_2 then Some HTTP_2 else None)"

definition should_auto_negotiate :: "HttpVersionPolicy \<Rightarrow> url \<Rightarrow> EndpointCapabilities \<Rightarrow> bool" where
  "should_auto_negotiate policy endpoint capabilities =
     (let versions = ec_http_versions capabilities
      in policy = VP_Auto \<and> is_secure endpoint \<and> vs_contains versions HTTP_11 \<and> vs_contains versions HTTP_2)"

section \<open>Candidates\<close>

datatype EndpointSource =
  ES_Direct url "EndpointCapabilities option"
| ES_Discovery DirectorySnapshot

definition default_weight :: f64 where "default_weight = \<lparr>mant = 1, expo = 0\<rparr>"

definition direct_instance :: "string \<Rightarrow> url \<Rightarrow> EndpointCapabilities option \<Rightarrow> ServiceInstance" where
  "direct_instance binding_id endpoint capabilities =
     (let generic_versions = (if is_secure endpoint then VS_ALL else VS_HTTP_1_1)
      in ServiceInstance_new ''direct'' endpoint
           (case capabilities of
              Some c \<Rightarrow> c
            | None \<Rightarrow> (case EndpointCapabilities_new generic_versions [binding_id] False of Inr c \<Rightarrow> c))
           default_weight)"

fun source_instances ::
  "string \<Rightarrow> EndpointSource \<Rightarrow> error + (ServiceInstance list \<times> EndpointBreakerSource)" where
  "source_instances binding_id (ES_Direct endpoint capabilities) =
     Inr ([direct_instance binding_id endpoint capabilities], BS_Direct)"
| "source_instances binding_id (ES_Discovery snapshot) =
     (if dn_state snapshot \<noteq> DS_Ready \<and> dn_state snapshot \<noteq> DS_Stale then Inl no_instances
      else if dn_instances snapshot = [] then Inl no_instances
      else Inr (dn_instances snapshot, BS_Discovery))"

abbreviation endpoint_text :: "ServiceInstance \<Rightarrow> string" where
  "endpoint_text i \<equiv> u_as_str (si_endpoint i)"

definition is_compatible :: "HttpVersionPolicy \<Rightarrow> string \<Rightarrow> ServiceInstance \<Rightarrow> bool" where
  "is_compatible policy binding_id i =
     (supports_binding (si_capabilities i) binding_id
      \<and> select_http_version policy (si_endpoint i) (si_capabilities i) \<noteq> None)"

definition prefer_untried :: "string list \<Rightarrow> ServiceInstance list \<Rightarrow> ServiceInstance list" where
  "prefer_untried attempted instances =
     (if list_ex (\<lambda>i. endpoint_text i \<notin> set attempted) instances
      then filter (\<lambda>i. endpoint_text i \<notin> set attempted) instances
      else instances)"

section \<open>Routers\<close>

text \<open>
  \<open>same_instance\<close> compares every field.  A URL is compared by its text, which determines the record of
  its parts; a finite weight is compared as a number.
\<close>

definition same_instance :: "ServiceInstance \<Rightarrow> ServiceInstance \<Rightarrow> bool" where
  "same_instance left right =
     (si_instance_id left = si_instance_id right
      \<and> si_endpoint left = si_endpoint right
      \<and> si_capabilities left = si_capabilities right
      \<and> f64_le (si_weight left) (si_weight right) \<and> f64_le (si_weight right) (si_weight left)
      \<and> si_metadata left = si_metadata right)"

definition find_unmatched :: "ServiceInstance list \<Rightarrow> bool list \<Rightarrow> ServiceInstance \<Rightarrow> nat option" where
  "find_unmatched input matched i =
     find (\<lambda>k. \<not> matched ! k \<and> same_instance (input ! k) i) [0..<length input]"

fun match_outputs :: "ServiceInstance list \<Rightarrow> bool list \<Rightarrow> ServiceInstance list \<Rightarrow> error + unit" where
  "match_outputs input matched [] = Inr ()"
| "match_outputs input matched (i # output) =
     (case find_unmatched input matched i of
        None \<Rightarrow> Inl invalid_router_output
      | Some k \<Rightarrow> match_outputs input (matched[k := True]) output)"

definition validate_router_output :: "ServiceInstance list \<Rightarrow> ServiceInstance list \<Rightarrow> error + unit" where
  "validate_router_output input output = match_outputs input (replicate (length input) False) output"

type_synonym InstanceRouter = "ServiceInstance list \<Rightarrow> (error + ServiceInstance list) option"
type_synonym LoadBalancer = "ServiceInstance list \<Rightarrow> (error + nat) option"

fun run_routers :: "InstanceRouter list \<Rightarrow> ServiceInstance list \<Rightarrow> error + ServiceInstance list" where
  "run_routers [] routed = Inr routed"
| "run_routers (router # routers) routed =
     (case router routed of
        None \<Rightarrow> Inl router_panic
      | Some (Inl e) \<Rightarrow> Inl e
      | Some (Inr output) \<Rightarrow>
          bind_result (validate_router_output routed output) (\<lambda>_. run_routers routers output))"

section \<open>Breaker admission\<close>

text \<open>A permit with the breaker it belongs to; an \<^verbatim>\<open>UnattemptedBreakerPermit\<close> that was not taken.\<close>

type_synonym endpoint_permit = "breaker_ref \<times> PermitToken"

definition finish_permit ::
  "BreakerConfig \<Rightarrow> instant \<Rightarrow> PermitOutcome \<Rightarrow> endpoint_permit \<Rightarrow> breaker_heap \<Rightarrow> breaker_heap" where
  "finish_permit config now outcome p heap =
     heap[fst p := fst (finish config now (heap ! fst p) (Some (snd p)) outcome)]"

definition acquire_breaker ::
  "BreakerConfig \<Rightarrow> instant \<Rightarrow> breaker_ref \<Rightarrow> breaker_heap \<Rightarrow>
   (BreakerRejection + PermitToken) \<times> breaker_heap" where
  "acquire_breaker config now b heap =
     (let (r, inner, phase) = try_acquire config now (heap ! b) in (r, heap[b := inner]))"

fun acquire_eligible ::
  "string \<Rightarrow> string \<Rightarrow> EndpointBreakerSource \<Rightarrow> instant \<Rightarrow> ServiceInstance list \<Rightarrow> EndpointBreakers \<Rightarrow>
   (ServiceInstance \<times> endpoint_permit) list \<times> EndpointBreakers" where
  "acquire_eligible service binding_id source now [] eb = ([], eb)"
| "acquire_eligible service binding_id source now (i # is) eb =
     (let (b, eb) = get_or_insert_observed service binding_id source (endpoint_text i) now eb;
          (r, heap) = acquire_breaker (es_config (eb_store eb)) now b (eb_heap eb);
          (rest, eb) = acquire_eligible service binding_id source now is (eb\<lparr>eb_heap := heap\<rparr>)
      in (case r of Inr token \<Rightarrow> (i, b, token) # rest | Inl _ \<Rightarrow> rest, eb))"

definition release_unattempted ::
  "instant \<Rightarrow> endpoint_permit list \<Rightarrow> EndpointBreakers \<Rightarrow> EndpointBreakers" where
  "release_unattempted now ps eb =
     eb\<lparr>eb_heap := fold (finish_permit (es_config (eb_store eb)) now PO_Unattempted) ps (eb_heap eb)\<rparr>"

definition balance :: "LoadBalancer \<Rightarrow> ServiceInstance list \<Rightarrow> error + nat" where
  "balance load_balancer eligible =
     (case load_balancer eligible of
        None \<Rightarrow> Inl load_balancer_panic
      | Some (Inl e) \<Rightarrow> Inl e
      | Some (Inr index) \<Rightarrow>
          if index < length eligible then Inr index else Inl invalid_load_balancer_selection)"

section \<open>The selection\<close>

record service_client =
  sc_service :: string
  sc_binding_id :: string
  sc_policy :: HttpVersionPolicy
  sc_routers :: "InstanceRouter list"
  sc_load_balancer :: LoadBalancer

record SelectedEndpoint =
  se_instance :: ServiceInstance
  se_permit :: endpoint_permit
  se_http_version :: http_version
  se_auto_negotiate :: bool
  se_invocation_controls :: bool

definition selected :: "HttpVersionPolicy \<Rightarrow> ServiceInstance \<Rightarrow> endpoint_permit \<Rightarrow> SelectedEndpoint" where
  "selected policy i permit =
     (let auto = should_auto_negotiate policy (si_endpoint i) (si_capabilities i)
      in \<lparr>se_instance = i, se_permit = permit,
          se_http_version =
            (if auto then HTTP_11 else the (select_http_version policy (si_endpoint i) (si_capabilities i))),
          se_auto_negotiate = auto, se_invocation_controls = ec_invocation_controls (si_capabilities i)\<rparr>)"

text \<open>The snapshot the routers leave.\<close>

definition routed_instances ::
  "service_client \<Rightarrow> EndpointSource \<Rightarrow> string list \<Rightarrow> error + (ServiceInstance list \<times> EndpointBreakerSource)" where
  "routed_instances client source attempted =
     bind_result (source_instances (sc_binding_id client) source) (\<lambda>(instances, breaker_source).
       let instances = filter (is_compatible (sc_policy client) (sc_binding_id client)) instances
       in if instances = [] then Inl no_compatible_endpoint
          else bind_result (run_routers (sc_routers client) (prefer_untried attempted instances)) (\<lambda>routed.
                 if routed = [] then Inl no_instances else Inr (routed, breaker_source)))"

definition select_endpoint ::
  "service_client \<Rightarrow> EndpointSource \<Rightarrow> string list \<Rightarrow> instant \<Rightarrow> EndpointBreakers \<Rightarrow>
   (error + SelectedEndpoint) \<times> EndpointBreakers" where
  "select_endpoint client source attempted now eb =
     (case routed_instances client source attempted of
        Inl e \<Rightarrow> (Inl e, eb)
      | Inr (routed, breaker_source) \<Rightarrow>
          (let (candidates, eb) =
                 acquire_eligible (sc_service client) (sc_binding_id client) breaker_source now routed eb
           in if candidates = [] then (Inl circuit_open, eb)
              else (case balance (sc_load_balancer client) (map fst candidates) of
                      Inl e \<Rightarrow> (Inl e, release_unattempted now (map snd candidates) eb)
                    | Inr index \<Rightarrow>
                        (Inr (selected (sc_policy client) (fst (candidates ! index)) (snd (candidates ! index))),
                         release_unattempted now
                           (map snd (take index candidates @ drop (Suc index) candidates)) eb))))"

end
