(* ===== verification/Permits.thy ===== *)
theory Permits
  imports Breaker_Machine Breaker_Store_Theorems Selection
begin

text \<open>
  The heap of breakers with the permits that are out: every operation of the client on it is, for each
  breaker, a run of the breaker of \<open>Breaker_Machine\<close>, so what is proved of one breaker and its clients
  holds of every breaker of the heap.
\<close>

section \<open>Runs of one breaker\<close>

definition breaker_runs :: "BreakerConfig \<Rightarrow> breaker_system \<Rightarrow> breaker_system \<Rightarrow> bool" where
  "breaker_runs cfg s s' \<longleftrightarrow> (\<exists>ops. system_run cfg s ops = s')"

lemma breaker_runs_refl [simp]: "breaker_runs cfg s s"
  unfolding breaker_runs_def by (rule exI[of _ "[]"]) simp

lemma breaker_runs_trans: "breaker_runs cfg s t \<Longrightarrow> breaker_runs cfg t u \<Longrightarrow> breaker_runs cfg s u"
  unfolding breaker_runs_def using system_run_append by metis

lemma breaker_runs_step: "breaker_runs cfg s (system_step cfg s op)"
  unfolding breaker_runs_def by (rule exI[of _ "[op]"]) simp

section \<open>The heap\<close>

definition tokens_of :: "breaker_ref \<Rightarrow> endpoint_permit list \<Rightarrow> BreakerPermit list" where
  "tokens_of r ps = map (\<lambda>p. Some (snd p)) (filter (\<lambda>p. fst p = r) ps)"

lemma tokens_of_simps [simp]:
  "tokens_of r [] = []" "tokens_of r (p # ps) = (if fst p = r then Some (snd p) # tokens_of r ps else tokens_of r ps)"
  "tokens_of r (ps @ qs) = tokens_of r ps @ tokens_of r qs"
  by (simp_all add: tokens_of_def)

lemma tokens_of_unknown: "\<forall>p \<in> set ps. fst p < n \<Longrightarrow> n \<le> r \<Longrightarrow> tokens_of r ps = []"
  by (induction ps) auto

definition permit_view :: "breaker_heap \<Rightarrow> endpoint_permit list \<Rightarrow> breaker_ref \<Rightarrow> breaker_system" where
  "permit_view heap ps r = \<lparr>bs_inner = heap ! r, bs_permits = tokens_of r ps\<rparr>"

text \<open>
  From one heap with its permits to another: the old breakers run, new ones run from their initial state.
\<close>

definition heap_runs ::
  "BreakerConfig \<Rightarrow> breaker_heap \<times> endpoint_permit list \<Rightarrow> breaker_heap \<times> endpoint_permit list \<Rightarrow> bool" where
  "heap_runs cfg = (\<lambda>(heap, ps) (heap', ps').
     length heap \<le> length heap' \<and>
     (\<forall>p \<in> set ps'. fst p < length heap') \<and>
     (\<forall>r < length heap'. if r < length heap
        then breaker_runs cfg (permit_view heap ps r) (permit_view heap' ps' r)
        else \<exists>t. breaker_runs cfg (system_initial cfg t) (permit_view heap' ps' r)))"

lemma heap_runs_refl: "\<forall>p \<in> set ps. fst p < length heap \<Longrightarrow> heap_runs cfg (heap, ps) (heap, ps)"
  by (simp add: heap_runs_def)

lemma heap_runs_trans:
  assumes "heap_runs cfg (h, ps) (h', ps')" and "heap_runs cfg (h', ps') (h'', ps'')"
  shows "heap_runs cfg (h, ps) (h'', ps'')"
proof -
  have "if r < length h then breaker_runs cfg (permit_view h ps r) (permit_view h'' ps'' r)
        else \<exists>t. breaker_runs cfg (system_initial cfg t) (permit_view h'' ps'' r)" if "r < length h''" for r
  proof (cases "r < length h'")
    case True
    then have "breaker_runs cfg (permit_view h' ps' r) (permit_view h'' ps'' r)"
      using assms(2) that by (auto simp: heap_runs_def)
    moreover have "if r < length h then breaker_runs cfg (permit_view h ps r) (permit_view h' ps' r)
        else \<exists>t. breaker_runs cfg (system_initial cfg t) (permit_view h' ps' r)"
      using assms(1) True by (simp add: heap_runs_def)
    ultimately show ?thesis by (auto intro: breaker_runs_trans split: if_splits)
  next
    case False
    then show ?thesis using assms that by (auto simp: heap_runs_def)
  qed
  then show ?thesis using assms by (auto simp: heap_runs_def)
qed

lemma heap_runs_update:
  assumes refs: "\<forall>p \<in> set ps'. fst p < length heap" and b: "b < length heap"
    and run: "breaker_runs cfg (permit_view heap ps b) \<lparr>bs_inner = inner, bs_permits = tokens_of b ps'\<rparr>"
    and others: "\<And>r. r \<noteq> b \<Longrightarrow> tokens_of r ps' = tokens_of r ps"
  shows "heap_runs cfg (heap, ps) (heap[b := inner], ps')"
proof -
  have "breaker_runs cfg (permit_view heap ps r) (permit_view (heap[b := inner]) ps' r)" if "r < length heap" for r
    using run others[of r] b that by (cases "r = b") (simp_all add: permit_view_def)
  then show ?thesis using refs by (simp add: heap_runs_def)
qed

section \<open>The operations\<close>

lemma acquire_breaker_runs:
  assumes refs: "\<forall>p \<in> set ps. fst p < length heap" and b: "b < length heap"
    and acq: "acquire_breaker cfg now b heap = (r, heap')"
  shows "heap_runs cfg (heap, ps) (heap', case r of Inr token \<Rightarrow> ps @ [(b, token)] | Inl _ \<Rightarrow> ps)"
proof -
  obtain inner phase where t: "try_acquire cfg now (heap ! b) = (r, inner, phase)" "heap' = heap[b := inner]"
    using acq by (auto simp: acquire_breaker_def Let_def split: prod.splits)
  have "system_step cfg (permit_view heap ps b) (Op_Acquire now) =
    \<lparr>bs_inner = inner, bs_permits = tokens_of b (case r of Inr token \<Rightarrow> ps @ [(b, token)] | Inl _ \<Rightarrow> ps)\<rparr>"
    using t by (cases r) (simp_all add: permit_view_def)
  then have "breaker_runs cfg (permit_view heap ps b)
    \<lparr>bs_inner = inner, bs_permits = tokens_of b (case r of Inr token \<Rightarrow> ps @ [(b, token)] | Inl _ \<Rightarrow> ps)\<rparr>"
    using breaker_runs_step by metis
  then show ?thesis
    unfolding t(2) using refs b by (intro heap_runs_update) (auto split: sum.splits)
qed

lemma finish_permit_runs:
  assumes refs: "\<forall>q \<in> set (xs @ p # ys). fst q < length heap"
  shows "heap_runs cfg (heap, xs @ p # ys) (finish_permit cfg now outcome p heap, xs @ ys)"
proof -
  obtain b token where p: "p = (b, token)" by (cases p)
  let ?n = "length (tokens_of b xs)"
  have "system_step cfg (permit_view heap (xs @ p # ys) b) (Op_Finish now ?n outcome) =
    \<lparr>bs_inner = fst (finish cfg now (heap ! b) (Some token) outcome), bs_permits = tokens_of b (xs @ ys)\<rparr>"
    by (simp add: permit_view_def p)
  then have "breaker_runs cfg (permit_view heap (xs @ p # ys) b)
    \<lparr>bs_inner = fst (finish cfg now (heap ! b) (Some token) outcome), bs_permits = tokens_of b (xs @ ys)\<rparr>"
    using breaker_runs_step by metis
  then show ?thesis
    unfolding finish_permit_def p using refs p
    by (intro heap_runs_update) auto
qed

lemma length_finish_permit [simp]: "length (finish_permit cfg now outcome p heap) = length heap"
  by (simp add: finish_permit_def)

lemma finish_permits_run:
  assumes "\<forall>q \<in> set (xs @ ps @ ys). fst q < length heap"
  shows "heap_runs cfg (heap, xs @ ps @ ys) (fold (finish_permit cfg now outcome) ps heap, xs @ ys)"
  using assms
proof (induction ps arbitrary: heap)
  case Nil
  then show ?case by (simp add: heap_runs_refl)
next
  case (Cons p ps)
  have "heap_runs cfg (heap, xs @ p # (ps @ ys)) (finish_permit cfg now outcome p heap, xs @ (ps @ ys))"
    using Cons.prems by (intro finish_permit_runs) auto
  moreover have "heap_runs cfg (finish_permit cfg now outcome p heap, xs @ ps @ ys)
    (fold (finish_permit cfg now outcome) ps (finish_permit cfg now outcome p heap), xs @ ys)"
    using Cons.prems by (intro Cons.IH) auto
  ultimately show ?case by (auto intro: heap_runs_trans)
qed

section \<open>The cache over the heap\<close>

definition refs_ok :: "EndpointBreakers \<Rightarrow> bool" where
  "refs_ok eb \<longleftrightarrow> (\<forall>(k, e) \<in> set (es_entries (eb_store eb)). ee_breaker e < length (eb_heap eb))"

lemma heap_runs_new:
  assumes "\<forall>p \<in> set ps. fst p < length heap"
  shows "heap_runs cfg (heap, ps) (heap @ [breaker_initial cfg now], ps)"
proof -
  have "tokens_of (length heap) ps = []" using tokens_of_unknown[OF assms] by simp
  then have new: "permit_view (heap @ [breaker_initial cfg now]) ps (length heap) = system_initial cfg now"
    by (simp add: permit_view_def system_initial_def)
  have old: "permit_view (heap @ [breaker_initial cfg now]) ps r = permit_view heap ps r" if "r < length heap" for r
    using that by (simp add: permit_view_def nth_append)
  show ?thesis
    unfolding heap_runs_def prod.case
  proof (intro conjI allI impI)
    fix r
    assume "r < length (heap @ [breaker_initial cfg now])"
    then consider "r < length heap" | "r = length heap" by fastforce
    then show "if r < length heap
        then breaker_runs cfg (permit_view heap ps r) (permit_view (heap @ [breaker_initial cfg now]) ps r)
        else \<exists>t. breaker_runs cfg (system_initial cfg t) (permit_view (heap @ [breaker_initial cfg now]) ps r)"
    proof cases
      case 1
      then show ?thesis using old by simp
    next
      case 2
      then have "breaker_runs cfg (system_initial cfg now) (permit_view (heap @ [breaker_initial cfg now]) ps r)"
        using new by simp
      then show ?thesis using 2 by auto
    qed
  qed (use assms in \<open>auto simp: less_SucI\<close>)
qed

lemma get_or_insert_refs:
  assumes "\<forall>(k, e) \<in> set (es_entries s). ee_breaker e < length heap"
    and "get_or_insert key now s heap = (b, s', heap')"
  shows "b < length heap' \<and> (\<forall>(k, e) \<in> set (es_entries s'). ee_breaker e < length heap') \<and>
    es_config s' = es_config s \<and> (heap' = heap \<or> heap' = heap @ [breaker_initial (es_config s) now])"
proof -
  define es where "es = evict_idle_locked (es_entries s) now (es_idle_eviction s)"
  have es: "set es \<subseteq> set (es_entries s)" using evict_idle_facts(1) by (simp add: es_def)
  show ?thesis
  proof (cases "map_of es key")
    case (Some e)
    then have "(key, e) \<in> set (es_entries s)" using es by (auto dest: map_of_SomeD)
    then have "ee_breaker e < length heap" using assms(1) by auto
    moreover have "set (AList.update key (e\<lparr>ee_last_used := now\<rparr>) es) \<subseteq>
        insert (key, e\<lparr>ee_last_used := now\<rparr>) (set (es_entries s))"
      using set_alist_update_subset[of key "e\<lparr>ee_last_used := now\<rparr>" es] es by auto
    ultimately show ?thesis
      using assms Some by (auto simp: get_or_insert_cases es_def[symmetric] Let_def)
  next
    case None
    let ?e = "\<lparr>ee_breaker = length heap, ee_last_used = now\<rparr>"
    have "set (AList.update key ?e (room_for (es_max_entries s) es)) \<subseteq> insert (key, ?e) (set (es_entries s))"
      using set_alist_update_subset[of key ?e "room_for (es_max_entries s) es"]
        room_for_subset[of "es_max_entries s" es] es by auto
    then have "ee_breaker e < Suc (length heap)"
      if "(k, e) \<in> set (AList.update key ?e (room_for (es_max_entries s) es))" for k e
      using that assms(1) by fastforce
    then show ?thesis
      using assms None by (auto simp: get_or_insert_cases es_def[symmetric] Let_def)
  qed
qed

lemma get_or_insert_observed_runs:
  assumes refs: "refs_ok eb" "\<forall>p \<in> set ps. fst p < length (eb_heap eb)"
    and get: "get_or_insert_observed service binding source endpoint now eb = (b, eb')"
  shows "refs_ok eb' \<and> b < length (eb_heap eb') \<and> es_config (eb_store eb') = es_config (eb_store eb) \<and>
    heap_runs (es_config (eb_store eb)) (eb_heap eb, ps) (eb_heap eb', ps)"
proof -
  let ?key = "\<lparr>bk_service = service, bk_binding_id = binding, bk_source = source, bk_endpoint = endpoint\<rparr>"
  let ?new = "eb_heap eb @ [breaker_initial (es_config (eb_store eb)) now]"
  have new: "heap_runs (es_config (eb_store eb)) (eb_heap eb, ps) (?new, ps)" by (rule heap_runs_new[OF refs(2)])
  have same: "heap_runs (es_config (eb_store eb)) (eb_heap eb, ps) (eb_heap eb, ps)" by (rule heap_runs_refl[OF refs(2)])
  show ?thesis
  proof (cases "source = BS_Direct \<or>
      map_of (dm_references (eb_memberships eb)) \<lparr>de_service = service, de_endpoint = endpoint\<rparr> \<noteq> None")
    case True
    obtain b' s' heap' where g: "get_or_insert ?key now (eb_store eb) (eb_heap eb) = (b', s', heap')"
      by (cases "get_or_insert ?key now (eb_store eb) (eb_heap eb)") auto
    then have "b = b'" "eb' = eb\<lparr>eb_store := s', eb_heap := heap'\<rparr>"
      using get True by (auto simp: get_or_insert_observed_def Let_def)
    moreover note get_or_insert_refs[OF refs(1)[unfolded refs_ok_def] g]
    ultimately show ?thesis using new same by (auto simp: refs_ok_def)
  next
    case False
    then have "b = length (eb_heap eb)" "eb' = eb\<lparr>eb_heap := ?new\<rparr>"
      using get by (auto simp: get_or_insert_observed_def untracked_def new_breaker_def Let_def)
    then show ?thesis using new refs(1) by (auto simp: refs_ok_def less_SucI)
  qed
qed

lemma heap_runs_refs: "heap_runs cfg (h, ps) (h', ps') \<Longrightarrow> \<forall>p \<in> set ps'. fst p < length h'"
  by (simp add: heap_runs_def)

text \<open>Asking every candidate's breaker: the new permits are those of the candidates admitted.\<close>

lemma acquire_eligible_runs:
  assumes "refs_ok eb" and "\<forall>p \<in> set ps. fst p < length (eb_heap eb)"
    and "acquire_eligible service binding source now is eb = (cs, eb')"
  shows "refs_ok eb' \<and> es_config (eb_store eb') = es_config (eb_store eb) \<and>
    heap_runs (es_config (eb_store eb)) (eb_heap eb, ps) (eb_heap eb', ps @ map snd cs) \<and>
    set (map fst cs) \<subseteq> set is"
  using assms
proof (induction "is" arbitrary: eb ps cs eb')
  case Nil
  then show ?case by (simp add: heap_runs_refl)
next
  case (Cons i "is")
  let ?cfg = "es_config (eb_store eb)"
  obtain b eb1 where g: "get_or_insert_observed service binding source (endpoint_text i) now eb = (b, eb1)"
    by fastforce
  note run1 = get_or_insert_observed_runs[OF Cons.prems(1,2) g]
  obtain r heap where a: "acquire_breaker ?cfg now b (eb_heap eb1) = (r, heap)" by fastforce
  have refs1: "\<forall>p \<in> set ps. fst p < length (eb_heap eb1)" using run1 heap_runs_refs by blast
  define ps1 where "ps1 = (case r of Inr token \<Rightarrow> ps @ [(b, token)] | Inl _ \<Rightarrow> ps)"
  have run2: "heap_runs ?cfg (eb_heap eb1, ps) (heap, ps1)"
    unfolding ps1_def using acquire_breaker_runs[OF refs1 _ a] run1 by blast
  let ?eb2 = "eb1\<lparr>eb_heap := heap\<rparr>"
  have len: "length heap = length (eb_heap eb1)"
    using a by (auto simp: acquire_breaker_def Let_def split: prod.splits)
  obtain rest eb3 where e: "acquire_eligible service binding source now is ?eb2 = (rest, eb3)" by fastforce
  have out: "eb' = eb3" "cs = (case r of Inr token \<Rightarrow> (i, b, token) # rest | Inl _ \<Rightarrow> rest)"
    using Cons.prems(3) g a e run1 by (auto simp: Let_def)
  have "refs_ok ?eb2" using run1 len by (simp add: refs_ok_def)
  moreover have "\<forall>p \<in> set ps1. fst p < length (eb_heap ?eb2)" using heap_runs_refs[OF run2] by simp
  ultimately have run3: "refs_ok eb3" "es_config (eb_store eb3) = ?cfg"
    "heap_runs ?cfg (heap, ps1) (eb_heap eb3, ps1 @ map snd rest)" "set (map fst rest) \<subseteq> set is"
    using Cons.IH[of ?eb2 ps1 rest eb3] e run1 by auto
  moreover have "ps1 @ map snd rest = ps @ map snd cs"
    by (cases r) (simp_all add: ps1_def out)
  moreover have "heap_runs ?cfg (eb_heap eb, ps) (eb_heap eb3, ps1 @ map snd rest)"
    using run1 run2 run3(3) heap_runs_trans by blast
  moreover have "set (map fst cs) \<subseteq> set (i # is)" using run3(4) out(2) by (cases r) auto
  ultimately show ?case using out(1) by auto
qed

lemma release_unattempted_runs:
  assumes "refs_ok eb" and "\<forall>q \<in> set (xs @ ps @ ys). fst q < length (eb_heap eb)"
  shows "refs_ok (release_unattempted now ps eb) \<and>
    es_config (eb_store (release_unattempted now ps eb)) = es_config (eb_store eb) \<and>
    heap_runs (es_config (eb_store eb)) (eb_heap eb, xs @ ps @ ys) (eb_heap (release_unattempted now ps eb), xs @ ys)"
proof -
  have "length (fold (finish_permit (es_config (eb_store eb)) now PO_Unattempted) ps heap) = length heap" for heap
    by (induction ps arbitrary: heap) simp_all
  then show ?thesis
    using assms finish_permits_run[OF assms(2)] by (simp add: release_unattempted_def refs_ok_def)
qed

text \<open>Releasing every candidate but the one at \<open>index\<close>.\<close>

lemma release_others_runs:
  fixes now :: instant
  assumes "refs_ok eb" and "\<forall>q \<in> set (ps @ map snd cs). fst q < length (eb_heap eb)" and "index < length cs"
  defines "eb' \<equiv> release_unattempted now (map snd (take index cs @ drop (Suc index) cs)) eb"
  shows "refs_ok eb' \<and> es_config (eb_store eb') = es_config (eb_store eb) \<and>
    heap_runs (es_config (eb_store eb)) (eb_heap eb, ps @ map snd cs) (eb_heap eb', ps @ [snd (cs ! index)])"
proof -
  let ?chosen = "snd (cs ! index)"
  let ?before = "map snd (take index cs)" and ?after = "map snd (drop (Suc index) cs)"
  let ?cfg = "es_config (eb_store eb)"
  let ?eb2 = "release_unattempted now ?before eb" let ?eb3 = "release_unattempted now ?after ?eb2"
  have split: "map snd cs = ?before @ ?chosen # ?after"
    using id_take_nth_drop[OF assms(3)] by (metis (no_types) list.simps(9) map_append)
  have two: "eb' = ?eb3" by (simp add: eb'_def release_unattempted_def)
  have run1: "refs_ok ?eb2" "es_config (eb_store ?eb2) = ?cfg"
      "heap_runs ?cfg (eb_heap eb, ps @ map snd cs) (eb_heap ?eb2, ps @ ?chosen # ?after)"
    using release_unattempted_runs[of eb ps ?before "?chosen # ?after" now] assms(1,2) split by simp_all
  have "\<forall>q \<in> set (ps @ ?chosen # ?after). fst q < length (eb_heap ?eb2)" using heap_runs_refs[OF run1(3)] .
  then have run2: "refs_ok ?eb3" "es_config (eb_store ?eb3) = ?cfg"
      "heap_runs ?cfg (eb_heap ?eb2, ps @ ?chosen # ?after) (eb_heap ?eb3, ps @ [?chosen])"
    using release_unattempted_runs[of ?eb2 "ps @ [?chosen]" ?after "[]" now] run1 by simp_all
  show ?thesis unfolding two using run2(1,2) heap_runs_trans[OF run1(3) run2(3)] by simp
qed

text \<open>The three ways a selection can go once the routers left something.\<close>

lemma select_endpoint_cases:
  assumes "select_endpoint client source attempted now eb = (r, eb')"
  obtains (unrouted) e where "routed_instances client source attempted = Inl e" "r = Inl e" "eb' = eb"
  | (refused) rs bsrc where "routed_instances client source attempted = Inr (rs, bsrc)" "r = Inl circuit_open"
      "acquire_eligible (sc_service client) (sc_binding_id client) bsrc now rs eb = ([], eb')"
  | (unbalanced) rs bsrc cs eb1 e where "routed_instances client source attempted = Inr (rs, bsrc)" "r = Inl e"
      "acquire_eligible (sc_service client) (sc_binding_id client) bsrc now rs eb = (cs, eb1)"
      "eb' = release_unattempted now (map snd cs) eb1"
  | (chosen) rs bsrc cs eb1 index where "routed_instances client source attempted = Inr (rs, bsrc)"
      "acquire_eligible (sc_service client) (sc_binding_id client) bsrc now rs eb = (cs, eb1)"
      "index < length cs" "r = Inr (selected (sc_policy client) (fst (cs ! index)) (snd (cs ! index)))"
      "eb' = release_unattempted now (map snd (take index cs @ drop (Suc index) cs)) eb1"
proof (cases "routed_instances client source attempted")
  case (Inl e)
  then show ?thesis using assms unrouted by (simp add: select_endpoint_def)
next
  case (Inr routed)
  obtain rs bsrc where routed: "routed = (rs, bsrc)" by (cases routed)
  obtain cs eb1 where a: "acquire_eligible (sc_service client) (sc_binding_id client) bsrc now rs eb = (cs, eb1)"
    by fastforce
  show ?thesis
  proof (cases "cs = []")
    case True
    then show ?thesis using assms refused Inr routed a by (simp add: select_endpoint_def)
  next
    case False
    then show ?thesis
    proof (cases "balance (sc_load_balancer client) (map fst cs)")
      case Inl': (Inl e)
      then have "r = Inl e" "eb' = release_unattempted now (map snd cs) eb1"
        using assms Inr routed a False by (simp_all add: select_endpoint_def)
      then show ?thesis using unbalanced Inr routed a by blast
    next
      case Inr': (Inr index)
      then have "index < length cs"
        by (auto simp: balance_def split: option.splits sum.splits if_splits)
      moreover have "r = Inr (selected (sc_policy client) (fst (cs ! index)) (snd (cs ! index)))"
        "eb' = release_unattempted now (map snd (take index cs @ drop (Suc index) cs)) eb1"
        using assms Inr routed a False Inr' by (simp_all add: select_endpoint_def)
      ultimately show ?thesis using chosen Inr routed a by blast
    qed
  qed
qed

text \<open>A selection keeps exactly the permit it returns.\<close>

definition kept_permits :: "endpoint_permit list \<Rightarrow> error + SelectedEndpoint \<Rightarrow> endpoint_permit list" where
  "kept_permits ps r = (case r of Inr s \<Rightarrow> ps @ [se_permit s] | Inl _ \<Rightarrow> ps)"

lemma select_endpoint_runs:
  assumes refs: "refs_ok eb" "\<forall>p \<in> set ps. fst p < length (eb_heap eb)"
    and sel: "select_endpoint client source attempted now eb = (r, eb')"
  shows "refs_ok eb' \<and> es_config (eb_store eb') = es_config (eb_store eb) \<and>
    heap_runs (es_config (eb_store eb)) (eb_heap eb, ps) (eb_heap eb', kept_permits ps r)"
  using sel
proof (cases rule: select_endpoint_cases)
  case (unrouted e)
  then show ?thesis using refs by (simp add: kept_permits_def heap_runs_refl)
next
  case (refused rs bsrc)
  show ?thesis using acquire_eligible_runs[OF refs refused(3)] refused(2) by (simp add: kept_permits_def)
next
  case (unbalanced rs bsrc cs eb1 e)
  note run1 = acquire_eligible_runs[OF refs unbalanced(3)]
  then have "\<forall>q \<in> set (ps @ map snd cs @ []). fst q < length (eb_heap eb1)" using heap_runs_refs by fastforce
  from release_unattempted_runs[OF _ this, of now] show ?thesis
    using run1 unbalanced heap_runs_trans by (auto simp: kept_permits_def)
next
  case (chosen rs bsrc cs eb1 index)
  note run1 = acquire_eligible_runs[OF refs chosen(2)]
  then have "\<forall>q \<in> set (ps @ map snd cs). fst q < length (eb_heap eb1)" using heap_runs_refs by blast
  from release_others_runs[OF _ this chosen(3), of now] show ?thesis
    using run1 chosen heap_runs_trans[of "es_config (eb_store eb)" "eb_heap eb" ps "eb_heap eb1" "ps @ map snd cs"]
    by (simp add: kept_permits_def selected_def Let_def)
qed

end
