(* ===== verification/Attempts.thy ===== *)
theory Attempts
  imports Selection Retry Wire_Body Wire_Headers Client_Config
begin

text \<open>
  The attempts of one invocation (\<open>execute_attempts\<close>, \<open>execute\<close>, \<open>AttemptTerminal::call\<close> and
  \<open>finish_result_failure\<close> of \<open>fusen/src/client/invocation.rs\<close>): endpoint after endpoint is selected, tried,
  reported to its breaker and retried while every guard allows it.

  What one attempt meets outside the client is a script: the discovery snapshot, the interceptors, the
  transport, the clock, the draw of the backoff, the retry policy and the forced shutdown.  The encoder
  and the decoder are modelled in \<open>Wire_Request\<close> and \<open>Wire_Body\<close>; a script holds their results.  A \<open>Next\<close>
  is consumed by its call, so interceptors reach the transport at most once.
\<close>

section \<open>Errors\<close>

definition closed_invocation :: error where
  "closed_invocation = framework EC_Unavailable ''client_closed'' ''client runtime is draining or closed''"

definition cancelled :: error where
  "cancelled = framework EC_Cancelled ''cancelled'' ''service invocation was cancelled''"

definition deadline_exceeded :: error where
  "deadline_exceeded = framework EC_DeadlineExceeded ''deadline_exceeded'' ''service invocation deadline elapsed''"

definition endpoint_overloaded :: error where
  "endpoint_overloaded = framework EC_ResourceExhausted ''endpoint_overloaded''
     ''selected endpoint concurrency is exhausted''"

definition retry_policy_panic :: error where
  "retry_policy_panic = framework EC_Internal ''retry_policy_panic'' ''retry policy failed''"

definition transport_failed :: "string \<Rightarrow> error" where
  "transport_failed src = with_retry_hint (Error_internal ''HTTP transport failed'' src) RH_Retryable"

section \<open>One transport call\<close>

datatype TransportFailureKind = TF_Connect | TF_Io

datatype decode_result = DR_Elapsed | DR_Failed error | DR_Response Response

datatype send_result =
  SR_Cancelled
| SR_Elapsed
| SR_Failed TransportFailureKind string
| SR_Response http_version decode_result

record AttemptObservation =
  ao_failure :: "FailureClass option"
  ao_retry_after :: "duration option"
  ao_transport_succeeded :: bool
  ao_http_version :: "http_version option"

definition AttemptObservation_default :: AttemptObservation where
  "AttemptObservation_default =
     \<lparr>ao_failure = None, ao_retry_after = None, ao_transport_succeeded = False, ao_http_version = None\<rparr>"

record attempt_script =
  as_source :: EndpointSource
  as_selected_at :: instant
  as_calls :: bool
  as_bulkhead :: bool
  as_request :: "error + unit"
  as_sent :: send_result
  as_intercept :: "(error + Response) option \<Rightarrow> error + Response"
  as_finished_at :: instant
  as_draw :: "nat \<Rightarrow> nat"
  as_remaining :: duration
  as_policy :: "RetryDecisionContext \<Rightarrow> RetryDecision option"
  as_cancelled :: bool

fun transport_failure_class :: "TransportFailureKind \<Rightarrow> FailureClass" where
  "transport_failure_class TF_Connect = FC_Connect"
| "transport_failure_class TF_Io = FC_Transport"

fun observe_sent :: "send_result \<Rightarrow> (error + Response) \<times> AttemptObservation" where
  "observe_sent SR_Cancelled = (Inl cancelled, AttemptObservation_default)"
| "observe_sent SR_Elapsed =
     (Inl deadline_exceeded, AttemptObservation_default\<lparr>ao_failure := Some FC_Timeout\<rparr>)"
| "observe_sent (SR_Failed kind src) =
     (Inl (transport_failed src),
      AttemptObservation_default\<lparr>ao_failure := Some (transport_failure_class kind)\<rparr>)"
| "observe_sent (SR_Response version decoded) =
     (let seen = AttemptObservation_default\<lparr>ao_http_version := Some version\<rparr>
      in case decoded of
           DR_Elapsed \<Rightarrow> (Inl deadline_exceeded, seen\<lparr>ao_failure := Some FC_Timeout\<rparr>)
         | DR_Failed e \<Rightarrow>
             (Inl e, seen\<lparr>ao_failure := Some (classify_error e), ao_retry_after := retry_after (e_retry_hint e)\<rparr>)
         | DR_Response response \<Rightarrow> (Inr response, seen\<lparr>ao_transport_succeeded := True\<rparr>))"

text \<open>
  \<open>AttemptTerminal::call\<close>: its result, what it observed, and whether it stored its attempt number, which
  is when a request goes out.
\<close>

definition attempt_terminal :: "attempt_script \<Rightarrow> (error + Response) \<times> AttemptObservation \<times> bool" where
  "attempt_terminal w =
     (if \<not> as_bulkhead w then (Inl endpoint_overloaded, AttemptObservation_default, False)
      else (case as_request w of
              Inl e \<Rightarrow> (Inl e, AttemptObservation_default, False)
            | Inr _ \<Rightarrow> (let (result, seen) = observe_sent (as_sent w) in (result, seen, True))))"

text \<open>The interceptors around it.\<close>

definition run_attempt :: "attempt_script \<Rightarrow> (error + Response) \<times> AttemptObservation \<times> bool" where
  "run_attempt w =
     (if as_calls w
      then (let (result, seen, started) = attempt_terminal w in (as_intercept w (Some result), seen, started))
      else (as_intercept w None, AttemptObservation_default, False))"

section \<open>The loop\<close>

record AttemptSuccess =
  sx_response :: Response
  sx_endpoint_permit :: "endpoint_permit option"
  sx_service_failure :: "FailureClass option"

text \<open>\<open>at_sent\<close> lists the endpoints requests were sent to, \<open>at_metrics\<close> the failed attempts reported.\<close>

record attempts_state =
  at_breakers :: EndpointBreakers
  at_budget :: RetryBudget
  at_started :: nat
  at_attempted :: "string list"
  at_sent :: "string list"
  at_metrics :: "(nat \<times> FailureClass) list"

definition finish_endpoint :: "instant \<Rightarrow> PermitOutcome \<Rightarrow> endpoint_permit \<Rightarrow> attempts_state \<Rightarrow> attempts_state" where
  "finish_endpoint now outcome p s =
     s\<lparr>at_breakers := (at_breakers s)
         \<lparr>eb_heap := finish_permit (es_config (eb_store (at_breakers s))) now outcome p (eb_heap (at_breakers s))\<rparr>\<rparr>"

definition report_attempt :: "nat \<Rightarrow> FailureClass \<Rightarrow> attempts_state \<Rightarrow> attempts_state" where
  "report_attempt attempt failure s = s\<lparr>at_metrics := at_metrics s @ [(attempt, failure)]\<rparr>"

text \<open>A response: the transport failure behind it, if there was one, decides what happens to the permit.\<close>

definition accept_response ::
  "nat \<Rightarrow> attempt_script \<Rightarrow> endpoint_permit \<Rightarrow> AttemptObservation \<Rightarrow> Response \<Rightarrow> attempts_state \<Rightarrow>
   AttemptSuccess \<times> attempts_state" where
  "accept_response attempt w permit seen response s =
     (let response = response\<lparr>rs_attempts := at_started s\<rparr>
      in case ao_failure seen of
           Some failure \<Rightarrow>
             (\<lparr>sx_response = response, sx_endpoint_permit = None, sx_service_failure = Some failure\<rparr>,
              finish_endpoint (as_finished_at w) (PO_Failure failure) permit (report_attempt attempt failure s))
         | None \<Rightarrow>
             (if attempt \<le> at_started s
              then (\<lparr>sx_response = response, sx_endpoint_permit = Some permit, sx_service_failure = None\<rparr>, s)
              else (\<lparr>sx_response = response, sx_endpoint_permit = None, sx_service_failure = None\<rparr>,
                    finish_endpoint (as_finished_at w) PO_Unattempted permit s)))"

definition failed_outcome :: "nat \<Rightarrow> AttemptObservation \<Rightarrow> nat \<Rightarrow> PermitOutcome" where
  "failed_outcome attempt seen started =
     (case ao_failure seen of
        Some failure \<Rightarrow> PO_Failure failure
      | None \<Rightarrow>
          if ao_transport_succeeded seen then PO_Success
          else if started < attempt then PO_Unattempted else PO_Abandoned)"

text \<open>The guards before the policy is asked, as \<open>decide_with_guards\<close> has them.\<close>

definition policy_asked :: "RetryDecisionContext \<Rightarrow> bool" where
  "policy_asked context =
     (rc_remaining context \<noteq> 0
      \<and> has_next_attempt (rc_completed_attempts context) (rc_max_attempts context)
      \<and> rc_method_allows_retries context \<and> is_retryable (rc_failure context))"

text \<open>
  After a failed attempt: \<open>None\<close> is another attempt.  The delay is the larger of the backoff and what the
  server asked for, and a delay that reaches the deadline ends the invocation.
\<close>

definition decide_retry ::
  "RetryConfig \<Rightarrow> bool \<Rightarrow> nat \<Rightarrow> attempt_script \<Rightarrow> AttemptObservation \<Rightarrow> FailureClass \<Rightarrow> error \<Rightarrow> attempts_state \<Rightarrow>
   ClassifiedError option \<times> attempts_state" where
  "decide_retry config allows attempt w seen failure e s =
     (let asked_delay = (if ao_failure seen \<noteq> None then ao_retry_after seen else retry_after (e_retry_hint e));
          delay = full_jitter_backoff (rt_backoff_base config) (rt_backoff_cap config) attempt (as_draw w);
          delay = (case asked_delay of Some d \<Rightarrow> max delay d | None \<Rightarrow> delay);
          remaining = as_remaining w
      in if remaining \<le> delay then (Some \<lparr>ce_error = e, ce_class = failure\<rparr>, s)
         else (let context = RetryDecisionContext_new attempt (rt_max_attempts config) allows failure remaining
               in if policy_asked context \<and> as_policy w context = None
                  then (Some \<lparr>ce_error = with_attempts retry_policy_panic (at_started s), ce_class = failure\<rparr>, s)
                  else (let (decision, budget) =
                              decide_with_guards (\<lambda>c. case as_policy w c of Some d \<Rightarrow> d | None \<Rightarrow> RD_Stop)
                                context (at_budget s) (as_finished_at w);
                            s = s\<lparr>at_budget := budget\<rparr>
                        in if decision \<noteq> RD_Retry then (Some \<lparr>ce_error = e, ce_class = failure\<rparr>, s)
                           else if as_cancelled w
                           then (Some (ClassifiedError_classify (with_attempts cancelled (at_started s))), s)
                           else (None, s))))"

definition reject_attempt ::
  "RetryConfig \<Rightarrow> bool \<Rightarrow> nat \<Rightarrow> attempt_script \<Rightarrow> endpoint_permit \<Rightarrow> AttemptObservation \<Rightarrow> error \<Rightarrow> attempts_state \<Rightarrow>
   ClassifiedError option \<times> attempts_state" where
  "reject_attempt config allows attempt w permit seen e s =
     (let failure = (case ao_failure seen of Some f \<Rightarrow> f | None \<Rightarrow> classify_error e);
          s = finish_endpoint (as_finished_at w) (failed_outcome attempt seen (at_started s)) permit s;
          s = (if attempt \<le> at_started s then report_attempt attempt failure s else s)
      in decide_retry config allows attempt w seen failure (with_attempts e (at_started s)) s)"

text \<open>One turn of the loop.\<close>

definition try_attempt ::
  "service_client \<Rightarrow> RetryConfig \<Rightarrow> bool \<Rightarrow> nat \<Rightarrow> attempt_script \<Rightarrow> attempts_state \<Rightarrow>
   (ClassifiedError + AttemptSuccess) option \<times> attempts_state" where
  "try_attempt client config allows attempt w s =
     (case select_endpoint client (as_source w) (at_attempted s) (as_selected_at w) (at_breakers s) of
        (Inl e, eb) \<Rightarrow> (Some (Inl (ClassifiedError_classify e)), s\<lparr>at_breakers := eb\<rparr>)
      | (Inr chosen, eb) \<Rightarrow>
          (let key = endpoint_text (se_instance chosen);
               (result, seen, started) = run_attempt w;
               s = s\<lparr>at_breakers := eb, at_attempted := key # at_attempted s,
                     at_started := (if started then attempt else at_started s),
                     at_sent := (if started then at_sent s @ [key] else at_sent s)\<rparr>
           in case result of
                Inr response \<Rightarrow>
                  (let (success, s) = accept_response attempt w (se_permit chosen) seen response s
                   in (Some (Inr success), s))
              | Inl e \<Rightarrow>
                  (let (outcome, s) = reject_attempt config allows attempt w (se_permit chosen) seen e s
                   in (map_option Inl outcome, s))))"

lemma decide_retry_again:
  assumes "decide_retry config allows attempt w seen failure e s = (None, s')"
  shows "allows \<and> is_retryable failure \<and> max attempt 1 < hard_attempt_limit (rt_max_attempts config) \<and>
    fst (budget_try_acquire (at_budget s) (as_finished_at w)) \<and>
    s' = s\<lparr>at_budget := snd (budget_try_acquire (at_budget s) (as_finished_at w))\<rparr>"
  using assms
  by (auto simp: decide_retry_def Let_def decide_with_guards_def RetryDecisionContext_new_def
      has_next_attempt_def hard_attempt_limit_def HARD_MAX_ATTEMPTS_def split: if_splits prod.splits)

lemma reject_attempt_again:
  "reject_attempt config allows attempt w permit seen e s = (None, s') \<Longrightarrow>
   allows \<and> max attempt 1 < hard_attempt_limit (rt_max_attempts config)"
  unfolding reject_attempt_def Let_def by (drule decide_retry_again) blast

lemma try_attempt_again:
  assumes "try_attempt client config allows attempt w s = (None, s')"
  shows "allows \<and> max attempt 1 < hard_attempt_limit (rt_max_attempts config)"
  using assms
  by (auto simp: try_attempt_def Let_def dest: reject_attempt_again split: prod.splits sum.splits)

lemma hard_attempt_limit_le: "hard_attempt_limit n \<le> 3"
  by (simp add: hard_attempt_limit_def HARD_MAX_ATTEMPTS_def)

function execute_attempts ::
  "service_client \<Rightarrow> RetryConfig \<Rightarrow> bool \<Rightarrow> (nat \<Rightarrow> attempt_script) \<Rightarrow> nat \<Rightarrow> attempts_state \<Rightarrow>
   (ClassifiedError + AttemptSuccess) \<times> attempts_state" where
  "execute_attempts client config allows world attempt s =
     (case try_attempt client config allows attempt (world attempt) s of
        (Some result, s) \<Rightarrow> (result, s)
      | (None, s) \<Rightarrow> execute_attempts client config allows world (saturating_add 255 attempt 1) s)"
  by pat_completeness auto
termination
proof (relation "measure (\<lambda>(client, config, allows, world, attempt, s). 3 - attempt)", goal_cases)
  case (2 client config allows world attempt s r s')
  then have "max attempt 1 < hard_attempt_limit (rt_max_attempts config)"
    using try_attempt_again by metis
  then have "attempt < 3" using hard_attempt_limit_le[of "rt_max_attempts config"] by simp
  then show ?case by (simp add: saturating_add_def)
qed simp

declare execute_attempts.simps [simp del]

section \<open>The invocation around the attempts\<close>

text \<open>The breaker of the service, and the two permits a response may carry to its decoding.\<close>

record invocation_state =
  iv_config :: BreakerConfig
  iv_service :: BreakerInner
  iv_attempts :: attempts_state

record held_response =
  hr_response :: Response
  hr_endpoint :: "endpoint_permit option"
  hr_service :: "PermitToken option"

definition finish_service :: "instant \<Rightarrow> PermitOutcome \<Rightarrow> PermitToken \<Rightarrow> invocation_state \<Rightarrow> invocation_state" where
  "finish_service now outcome token s =
     s\<lparr>iv_service := fst (finish (iv_config s) now (iv_service s) (Some token) outcome)\<rparr>"

text \<open>\<open>execute\<close> once the service breaker admitted it: what its permit becomes.\<close>

definition settle_service ::
  "instant \<Rightarrow> PermitToken \<Rightarrow> ClassifiedError + AttemptSuccess \<Rightarrow> invocation_state \<Rightarrow>
   (error + held_response) \<times> invocation_state" where
  "settle_service now token result s =
     (case result of
        Inr success \<Rightarrow>
          (let bare = \<lparr>hr_response = sx_response success, hr_endpoint = None, hr_service = None\<rparr>
           in case sx_service_failure success of
                Some failure \<Rightarrow> (Inr bare, finish_service now (PO_Failure failure) token s)
              | None \<Rightarrow>
                  (case sx_endpoint_permit success of
                     Some permit \<Rightarrow> (Inr (bare\<lparr>hr_endpoint := Some permit, hr_service := Some token\<rparr>), s)
                   | None \<Rightarrow>
                       (Inr bare,
                        finish_service now
                          (if at_started (iv_attempts s) = 0 then PO_Unattempted else PO_Abandoned) token s)))
      | Inl classified \<Rightarrow>
          (Inl (ce_error classified),
           finish_service now
             (if at_started (iv_attempts s) = 0 then PO_Unattempted else PO_Failure (ce_class classified)) token s))"

definition execute ::
  "service_client \<Rightarrow> RetryConfig \<Rightarrow> bool \<Rightarrow> (nat \<Rightarrow> attempt_script) \<Rightarrow> instant \<Rightarrow> instant \<Rightarrow> invocation_state \<Rightarrow>
   (error + held_response) \<times> invocation_state" where
  "execute client config allows world now later s =
     (let (admitted, inner, phase) = try_acquire (iv_config s) now (iv_service s);
          s = s\<lparr>iv_service := inner\<rparr>
      in case admitted of
           Inl _ \<Rightarrow> (Inl circuit_open, s)
         | Inr token \<Rightarrow>
             (let (result, a) = execute_attempts client config allows world 1 (iv_attempts s)
              in settle_service later token result (s\<lparr>iv_attempts := a\<rparr>)))"

text \<open>
  What the call interceptors hand back: an error, or a response that is or is not the one the terminal
  made (\<open>fr_tracks\<close>), that still holds the service permit or lost it (\<open>fr_keeps\<close>), whose body is or is not
  the peer's (\<open>fr_wire_origin\<close>), with the outcome of its decoding.
\<close>

datatype decoded_value = DV_Value | DV_Mismatch string | DV_Panicked

record final_response =
  fr_response :: Response
  fr_tracks :: bool
  fr_keeps :: bool
  fr_wire_origin :: bool
  fr_decoded :: decoded_value

definition invalid_result_message :: string where
  "invalid_result_message = ''invocation result does not match the generated return type''"

definition result_error :: "string \<Rightarrow> bool \<Rightarrow> decoded_value \<Rightarrow> error" where
  "result_error request_id remote decoded =
     (case decoded of
        DV_Mismatch src \<Rightarrow>
          if remote then with_source (remote_protocol_error ''invalid_result'' invalid_result_message request_id) src
          else Error_invalid_result invalid_result_message src
      | _ \<Rightarrow>
          if remote then remote_protocol_error ''invalid_result'' invalid_result_message request_id
          else framework EC_DataLoss ''invalid_result'' invalid_result_message)"

text \<open>\<open>finish_result_failure\<close>: only a peer that sent the result is blamed for it.\<close>

definition result_outcome :: "bool \<Rightarrow> decoded_value \<Rightarrow> PermitOutcome" where
  "result_outcome remote decoded =
     (if decoded = DV_Value \<or> \<not> remote then PO_Success else PO_Failure FC_Protocol)"

definition endpoint_outcome :: "error + final_response \<Rightarrow> PermitOutcome" where
  "endpoint_outcome final =
     (case final of
        Inl _ \<Rightarrow> PO_Success
      | Inr r \<Rightarrow> if fr_tracks r then result_outcome (fr_wire_origin r) (fr_decoded r) else PO_Success)"

definition service_outcome :: "error + final_response \<Rightarrow> PermitOutcome" where
  "service_outcome final =
     (case final of
        Inl _ \<Rightarrow> PO_Abandoned
      | Inr r \<Rightarrow> if fr_keeps r then result_outcome (fr_wire_origin r) (fr_decoded r) else PO_Abandoned)"

definition settle_held ::
  "instant \<Rightarrow> endpoint_permit option \<Rightarrow> PermitToken option \<Rightarrow> error + final_response \<Rightarrow> invocation_state \<Rightarrow>
   invocation_state" where
  "settle_held now endpoint service final s =
     (let s = (case endpoint of
                 Some p \<Rightarrow> s\<lparr>iv_attempts := finish_endpoint now (endpoint_outcome final) p (iv_attempts s)\<rparr>
               | None \<Rightarrow> s)
      in case service of Some token \<Rightarrow> finish_service now (service_outcome final) token s | None \<Rightarrow> s)"

text \<open>
  The error or response the caller sees: attempts are never fewer than the requests sent, and every
  error names the request.
\<close>

definition conclude :: "string \<Rightarrow> nat \<Rightarrow> error + final_response \<Rightarrow> error + Response" where
  "conclude request_id started final =
     (let result = (case final of
             Inl e \<Rightarrow> Inl e
           | Inr r \<Rightarrow>
               (let response = (fr_response r)\<lparr>rs_attempts := max (rs_attempts (fr_response r)) started\<rparr>
                in if fr_decoded r = DV_Value then Inr response
                   else Inl (with_attempts (result_error request_id (fr_wire_origin r) (fr_decoded r))
                               (rs_attempts response))))
      in map_err (\<lambda>e. with_request_id (with_attempts e (max (e_attempts e) started)) request_id) result)"

text \<open>
  The logical invocation of an admitted call whose arguments encoded: the call interceptors run around
  \<open>execute\<close> or answer themselves.
\<close>

record call_script =
  cw_calls :: bool
  cw_world :: "nat \<Rightarrow> attempt_script"
  cw_started_at :: instant
  cw_settled_at :: instant
  cw_intercept :: "(error + held_response) option \<Rightarrow> error + final_response"
  cw_decoded_at :: instant

definition invocation ::
  "service_client \<Rightarrow> RetryConfig \<Rightarrow> bool \<Rightarrow> string \<Rightarrow> call_script \<Rightarrow> invocation_state \<Rightarrow>
   (error + Response) \<times> invocation_state" where
  "invocation client config allows request_id w s =
     (let (executed, s) =
            (if cw_calls w
             then (let (r, s) = execute client config allows (cw_world w) (cw_started_at w) (cw_settled_at w) s
                   in (Some r, s))
             else (None, s));
          final = cw_intercept w executed;
          (endpoint, service) =
            (case executed of Some (Inr held) \<Rightarrow> (hr_endpoint held, hr_service held) | _ \<Rightarrow> (None, None));
          s = settle_held (cw_decoded_at w) endpoint service final s
      in (conclude request_id (at_started (iv_attempts s)) final, s))"

end
