(* ===== verification/Attempts_Theorems.thy ===== *)
theory Attempts_Theorems
  imports Permits Attempts
begin

text \<open>
  What the attempts of an invocation guarantee: a selected endpoint is one the client may use, requests
  are repeated only as far as every guard allows, and no breaker permit is lost on any path.
\<close>

section \<open>Routers\<close>

definition alike :: "ServiceInstance \<Rightarrow> ServiceInstance \<Rightarrow> bool" where
  "alike i j \<longleftrightarrow> si_instance_id i = si_instance_id j \<and> si_endpoint i = si_endpoint j \<and>
     si_capabilities i = si_capabilities j \<and> si_metadata i = si_metadata j"

lemma alike_refl [simp]: "alike i i"
  by (simp add: alike_def)

lemma alike_trans: "alike i j \<Longrightarrow> alike j k \<Longrightarrow> alike i k"
  by (simp add: alike_def)

lemma alike_compatible: "alike i j \<Longrightarrow> is_compatible policy binding i \<longleftrightarrow> is_compatible policy binding j"
  by (simp add: alike_def is_compatible_def)

lemma match_outputs_sound:
  "match_outputs input matched outs = Inr () \<Longrightarrow> i \<in> set outs \<Longrightarrow> \<exists>j \<in> set input. alike j i"
proof (induction input matched outs rule: match_outputs.induct)
  case (2 input matched o' outs)
  then obtain k where k: "find_unmatched input matched o' = Some k"
    "match_outputs input (matched[k := True]) outs = Inr ()"
    by (auto split: option.splits)
  then have "k < length input" "same_instance (input ! k) o'"
    by (auto simp: find_unmatched_def find_Some_iff)
  then have "\<exists>j \<in> set input. alike j o'" by (auto simp: same_instance_def alike_def)
  then show ?case using 2 k by auto
qed simp

lemma run_routers_sound:
  "run_routers routers routed = Inr out \<Longrightarrow> i \<in> set out \<Longrightarrow> \<exists>j \<in> set routed. alike j i"
proof (induction routers routed rule: run_routers.induct)
  case (2 router routers routed)
  then obtain outs where o: "router routed = Some (Inr outs)" "validate_router_output routed outs = Inr ()"
    "run_routers routers outs = Inr out"
    by (auto simp: bind_result_Inr_iff split: option.splits sum.splits)
  then obtain j where "j \<in> set outs" "alike j i" using 2 by blast
  moreover have "\<exists>k \<in> set routed. alike k j"
    using o(2) calculation(1) match_outputs_sound unfolding validate_router_output_def by blast
  ultimately show ?case using alike_trans by blast
next
  case (1 routed)
  then show ?case by (intro bexI[of _ i]) simp_all
qed

section \<open>Selection\<close>

lemma prefer_untried_sound:
  assumes "i \<in> set (prefer_untried attempted instances)"
  shows "i \<in> set instances \<and>
    ((\<exists>j \<in> set instances. endpoint_text j \<notin> set attempted) \<longrightarrow> endpoint_text i \<notin> set attempted)"
  using assms by (auto simp: prefer_untried_def list_ex_iff split: if_splits)

lemma selected_version:
  assumes "is_compatible policy binding i"
  shows "vs_contains (ec_http_versions (si_capabilities i)) (se_http_version (selected policy i p))"
  using assms
  by (auto simp: is_compatible_def selected_def should_auto_negotiate_def select_http_version_def Let_def
      split: HttpVersionPolicy.splits if_splits)

lemma selected_fields [simp]:
  "se_instance (selected policy i p) = i" "se_permit (selected policy i p) = p"
  by (simp_all add: selected_def Let_def)

text \<open>
  C19. A selected endpoint is one the client may use: it is, up to its weight, an instance of the source,
  speaks the binding of the client, its HTTP version is one it advertises and one the policy allows, and
  it was not tried before in this invocation as long as some compatible instance was not.
\<close>

theorem selection_sound:
  assumes "select_endpoint client source attempted now eb = (Inr s, eb')"
  shows "\<exists>instances breaker_source.
    source_instances (sc_binding_id client) source = Inr (instances, breaker_source) \<and>
    (\<exists>i \<in> set instances. alike i (se_instance s)) \<and>
    supports_binding (si_capabilities (se_instance s)) (sc_binding_id client) \<and>
    vs_contains (ec_http_versions (si_capabilities (se_instance s))) (se_http_version s) \<and>
    (if se_auto_negotiate s then sc_policy client = VP_Auto \<and> is_secure (si_endpoint (se_instance s))
     else select_http_version (sc_policy client) (si_endpoint (se_instance s)) (si_capabilities (se_instance s)) =
       Some (se_http_version s)) \<and>
    ((\<exists>i \<in> set instances. is_compatible (sc_policy client) (sc_binding_id client) i \<and>
         endpoint_text i \<notin> set attempted) \<longrightarrow> endpoint_text (se_instance s) \<notin> set attempted)"
  using assms
proof (cases rule: select_endpoint_cases)
  case (chosen rs bsrc cs eb1 index)
  let ?ok = "is_compatible (sc_policy client) (sc_binding_id client)"
  from chosen(1) obtain instances where src: "source_instances (sc_binding_id client) source = Inr (instances, bsrc)"
    and routed: "run_routers (sc_routers client) (prefer_untried attempted (filter ?ok instances)) = Inr rs"
    by (auto simp: routed_instances_def bind_result_Inr_iff Let_def split: if_splits)
  let ?i = "fst (cs ! index)"
  have "set (map fst cs) \<subseteq> set rs"
    using chosen(2) by (induction rs arbitrary: eb cs) (fastforce simp: Let_def split: prod.splits sum.splits)+
  then have "?i \<in> set rs" using chosen(3) by (metis image_set nth_mem subset_eq imageI)
  then obtain j where j: "j \<in> set (prefer_untried attempted (filter ?ok instances))" "alike j ?i"
    using run_routers_sound[OF routed] by blast
  note pj = prefer_untried_sound[OF j(1)]
  then have ok: "?ok ?i" using alike_compatible[OF j(2)] by auto
  have same: "endpoint_text j = endpoint_text ?i" using j(2) by (simp add: alike_def)
  have s: "s = selected (sc_policy client) ?i (snd (cs ! index))" using chosen by simp
  have version: "if se_auto_negotiate s then sc_policy client = VP_Auto \<and> is_secure (si_endpoint ?i)
     else select_http_version (sc_policy client) (si_endpoint ?i) (si_capabilities ?i) = Some (se_http_version s)"
    using ok by (auto simp: s selected_def should_auto_negotiate_def is_compatible_def Let_def)
  show ?thesis
    using src pj j(2) ok same version selected_version[OF ok] s
    by (intro exI[of _ instances] exI[of _ bsrc]) (auto simp: is_compatible_def)
qed auto

section \<open>How often a request is sent\<close>

lemma finish_endpoint_keeps [simp]:
  "at_sent (finish_endpoint now out p s) = at_sent s" "at_started (finish_endpoint now out p s) = at_started s"
  "at_budget (finish_endpoint now out p s) = at_budget s" "at_metrics (finish_endpoint now out p s) = at_metrics s"
  by (simp_all add: finish_endpoint_def)

lemma report_attempt_keeps [simp]:
  "at_sent (report_attempt n f s) = at_sent s" "at_started (report_attempt n f s) = at_started s"
  "at_budget (report_attempt n f s) = at_budget s" "at_breakers (report_attempt n f s) = at_breakers s"
  by (simp_all add: report_attempt_def)

lemma decide_retry_keeps:
  assumes "decide_retry config allows attempt w seen failure e s = (r, s')"
  shows "at_sent s' = at_sent s \<and> at_started s' = at_started s \<and> at_breakers s' = at_breakers s"
  using assms by (auto simp: decide_retry_def Let_def split: if_splits prod.splits)

lemma try_attempt_sent:
  assumes "try_attempt client config allows attempt w s = (r, s')"
  shows "length (at_sent s') \<le> Suc (length (at_sent s)) \<and> at_started s' \<in> {at_started s, attempt}"
proof -
  obtain c eb where sel: "select_endpoint client (as_source w) (at_attempted s) (as_selected_at w) (at_breakers s) = (c, eb)"
    by fastforce
  show ?thesis
  proof (cases c)
    case (Inl e)
    then show ?thesis using assms sel by (auto simp: try_attempt_def)
  next
    case (Inr chosen)
    obtain result seen started where run: "run_attempt w = (result, seen, started)" by (cases "run_attempt w") auto
    let ?key = "endpoint_text (se_instance chosen)"
    let ?s = "s\<lparr>at_breakers := eb, at_attempted := ?key # at_attempted s,
       at_started := (if started then attempt else at_started s),
       at_sent := (if started then at_sent s @ [?key] else at_sent s)\<rparr>"
    show ?thesis
    proof (cases result)
      case (Inr response)
      then show ?thesis
        using assms sel run \<open>c = Inr chosen\<close>
        by (auto simp: try_attempt_def accept_response_def Let_def split: option.splits if_splits)
    next
      case (Inl e)
      obtain o' where "reject_attempt config allows attempt w (se_permit chosen) seen e ?s = (o', s')"
        using assms sel run Inl \<open>c = Inr chosen\<close> by (auto simp: try_attempt_def Let_def split: prod.splits)
      then show ?thesis by (auto simp: reject_attempt_def Let_def dest!: decide_retry_keeps)
    qed
  qed
qed

lemma execute_attempts_sent:
  "\<lbrakk>execute_attempts client config allows world attempt s = (r, s'); 1 \<le> attempt\<rbrakk> \<Longrightarrow>
   length (at_sent s') \<le> length (at_sent s) +
     (if allows then max 1 (Suc (hard_attempt_limit (rt_max_attempts config)) - attempt) else 1)"
proof (induction client config allows world attempt s rule: execute_attempts.induct)
  case (1 client config allows world attempt s)
  obtain o' s1 where t: "try_attempt client config allows attempt (world attempt) s = (o', s1)" by fastforce
  note sent = try_attempt_sent[OF t]
  show ?case
  proof (cases o')
    case (Some result)
    then show ?thesis using 1(2) t sent by (auto simp: execute_attempts.simps[of client config allows world attempt s])
  next
    case None
    then have again: "allows" "attempt < hard_attempt_limit (rt_max_attempts config)"
      using try_attempt_again t 1(3) by (metis max.absorb1)+
    have "attempt < 3" using again(2) hard_attempt_limit_le[of "rt_max_attempts config"] by simp
    then have nxt: "saturating_add 255 attempt 1 = Suc attempt" by (simp add: saturating_add_def)
    have run: "execute_attempts client config allows world (Suc attempt) s1 = (r, s')"
      using 1(2) t None nxt by (simp add: execute_attempts.simps[of client config allows world attempt s])
    have "length (at_sent s') \<le> length (at_sent s1) +
        max 1 (Suc (hard_attempt_limit (rt_max_attempts config)) - Suc attempt)"
      using 1(1)[OF t[symmetric] None] run again(1) nxt by simp
    then show ?thesis using conjunct1[OF sent] again by simp
  qed
qed

text \<open>
  C15. A request is never repeated behind the caller's back: whatever the interceptors, the transport, the
  retry policy and the servers do, an invocation sends at most one request when its method does not allow
  retries, and at most the configured number of attempts, never more than three, when it does.
\<close>

theorem requests_bounded:
  assumes "execute_attempts client config allows world 1 s = (r, s')" and "at_sent s = []"
  shows "length (at_sent s') \<le> (if allows then hard_attempt_limit (rt_max_attempts config) else 1) \<and>
    hard_attempt_limit (rt_max_attempts config) \<le> 3"
proof -
  have "1 \<le> hard_attempt_limit (rt_max_attempts config)"
    by (simp add: hard_attempt_limit_def HARD_MAX_ATTEMPTS_def)
  then show ?thesis
    using execute_attempts_sent[OF assms(1)] assms(2) hard_attempt_limit_le by auto
qed

section \<open>No permit is lost\<close>

definition attempts_ok :: "endpoint_permit list \<Rightarrow> attempts_state \<Rightarrow> bool" where
  "attempts_ok ps s \<longleftrightarrow>
     refs_ok (at_breakers s) \<and> (\<forall>p \<in> set ps. fst p < length (eb_heap (at_breakers s)))"

abbreviation attempts_config :: "attempts_state \<Rightarrow> BreakerConfig" where
  "attempts_config s \<equiv> es_config (eb_store (at_breakers s))"

definition attempts_run :: "endpoint_permit list \<Rightarrow> attempts_state \<Rightarrow> endpoint_permit list \<Rightarrow> attempts_state \<Rightarrow> bool" where
  "attempts_run ps s ps' s' \<longleftrightarrow>
     refs_ok (at_breakers s') \<and> attempts_config s' = attempts_config s \<and>
     heap_runs (attempts_config s) (eb_heap (at_breakers s), ps) (eb_heap (at_breakers s'), ps')"

lemma attempts_run_ok: "attempts_run ps s ps' s' \<Longrightarrow> attempts_ok ps' s'"
  unfolding attempts_run_def attempts_ok_def using heap_runs_refs by blast

lemma attempts_run_trans: "attempts_run ps s qs t \<Longrightarrow> attempts_run qs t rs u \<Longrightarrow> attempts_run ps s rs u"
  using heap_runs_trans by (auto simp: attempts_run_def)

lemma attempts_run_refl: "attempts_ok ps s \<Longrightarrow> attempts_run ps s ps s"
  by (simp add: attempts_ok_def attempts_run_def heap_runs_refl)

lemma attempts_run_cong:
  "at_breakers s' = at_breakers s \<Longrightarrow> attempts_run ps t qs s \<Longrightarrow> attempts_run ps t qs s'"
  by (simp add: attempts_run_def)

lemma finish_endpoint_run:
  assumes "attempts_ok (ps @ [p]) s"
  shows "attempts_run (ps @ [p]) s ps (finish_endpoint now outcome p s)"
  using assms finish_permit_runs[of ps p "[]" "eb_heap (at_breakers s)" "attempts_config s" now outcome]
  by (simp add: attempts_run_def attempts_ok_def finish_endpoint_def refs_ok_def)

definition success_permits :: "ClassifiedError + AttemptSuccess \<Rightarrow> endpoint_permit list" where
  "success_permits r =
     (case r of Inr x \<Rightarrow> (case sx_endpoint_permit x of Some p \<Rightarrow> [p] | None \<Rightarrow> []) | Inl _ \<Rightarrow> [])"

lemma success_permits_simps [simp]:
  "success_permits (Inl e) = []"
  "sx_endpoint_permit x = None \<Longrightarrow> success_permits (Inr x) = []"
  "sx_endpoint_permit x = Some p \<Longrightarrow> success_permits (Inr x) = [p]"
  by (simp_all add: success_permits_def)

lemma accept_response_run:
  assumes ok: "attempts_ok (ps @ [p]) s" and acc: "accept_response attempt w p seen response s = (x, s')"
  shows "attempts_run (ps @ [p]) s (ps @ success_permits (Inr x)) s'"
proof -
  have fin: "attempts_run (ps @ [p]) s ps (finish_endpoint now outcome p t)" if "at_breakers t = at_breakers s" for now outcome t
    using finish_endpoint_run[OF ok, of now outcome] that by (simp add: attempts_run_def finish_endpoint_def)
  show ?thesis
    using acc fin attempts_run_refl[OF ok]
    by (auto simp: accept_response_def Let_def split: option.splits if_splits)
qed

lemma try_attempt_run:
  assumes ok: "attempts_ok ps s" and turn: "try_attempt client config allows attempt w s = (r, s')"
  shows "attempts_run ps s (ps @ (case r of Some r \<Rightarrow> success_permits r | None \<Rightarrow> [])) s'"
proof -
  obtain c eb where sel: "select_endpoint client (as_source w) (at_attempted s) (as_selected_at w) (at_breakers s) = (c, eb)"
    by fastforce
  have run1: "attempts_run ps s (kept_permits ps c) (s\<lparr>at_breakers := eb\<rparr>)"
    using select_endpoint_runs[OF _ _ sel, of ps] ok by (simp add: attempts_ok_def attempts_run_def)
  show ?thesis
  proof (cases c)
    case (Inl e)
    then show ?thesis using turn sel run1 by (auto simp: try_attempt_def kept_permits_def)
  next
    case (Inr chosen)
    obtain result seen started where run: "run_attempt w = (result, seen, started)" by (cases "run_attempt w") auto
    let ?p = "se_permit chosen" let ?key = "endpoint_text (se_instance chosen)"
    let ?s = "s\<lparr>at_breakers := eb, at_attempted := ?key # at_attempted s,
       at_started := (if started then attempt else at_started s),
       at_sent := (if started then at_sent s @ [?key] else at_sent s)\<rparr>"
    have run2: "attempts_run ps s (ps @ [?p]) ?s"
      by (rule attempts_run_cong[OF _ run1[unfolded Inr kept_permits_def sum.case]]) simp
    note ok2 = attempts_run_ok[OF run2]
    show ?thesis
    proof (cases result)
      case (Inr response)
      obtain x where x: "accept_response attempt w ?p seen response ?s = (x, s')" "r = Some (Inr x)"
        using turn sel run Inr \<open>c = Inr chosen\<close> by (auto simp: try_attempt_def Let_def split: prod.splits)
      show ?thesis using attempts_run_trans[OF run2 accept_response_run[OF ok2 x(1)]] x(2) by simp
    next
      case (Inl e)
      obtain o' where rej: "reject_attempt config allows attempt w ?p seen e ?s = (o', s')" "r = map_option Inl o'"
        using turn sel run Inl \<open>c = Inr chosen\<close> by (auto simp: try_attempt_def Let_def split: prod.splits)
      let ?fin = "finish_endpoint (as_finished_at w) (failed_outcome attempt seen (at_started ?s)) ?p ?s"
      have "at_breakers s' = at_breakers ?fin"
        using rej(1) by (auto simp: reject_attempt_def Let_def dest!: decide_retry_keeps)
      from attempts_run_cong[OF this finish_endpoint_run[OF ok2]]
      have "attempts_run (ps @ [?p]) ?s ps s'" .
      then show ?thesis using attempts_run_trans[OF run2] rej(2) by (cases o') auto
    qed
  qed
qed

lemma execute_attempts_run:
  "execute_attempts client config allows world attempt s = (r, s') \<Longrightarrow> attempts_ok ps s \<Longrightarrow>
   attempts_run ps s (ps @ success_permits r) s'"
proof (induction client config allows world attempt s rule: execute_attempts.induct)
  case (1 client config allows world attempt s)
  obtain o' s1 where t: "try_attempt client config allows attempt (world attempt) s = (o', s1)" by fastforce
  note run1 = try_attempt_run[OF 1(3) t]
  show ?case
  proof (cases o')
    case (Some result)
    then show ?thesis
      using 1(2) t run1 by (simp add: execute_attempts.simps[of client config allows world attempt s])
  next
    case None
    then have run1': "attempts_run ps s ps s1" using run1 by simp
    have "execute_attempts client config allows world (saturating_add 255 attempt 1) s1 = (r, s')"
      using 1(2) t None by (simp add: execute_attempts.simps[of client config allows world attempt s])
    then have "attempts_run ps s1 (ps @ success_permits r) s'"
      using 1(1)[OF t[symmetric] None] attempts_run_ok[OF run1'] by blast
    then show ?thesis using attempts_run_trans[OF run1'] by blast
  qed
qed

section \<open>The whole invocation\<close>

abbreviation service_view :: "BreakerPermit list \<Rightarrow> PermitToken list \<Rightarrow> invocation_state \<Rightarrow> breaker_system" where
  "service_view ps tokens s \<equiv> \<lparr>bs_inner = iv_service s, bs_permits = ps @ map Some tokens\<rparr>"

lemma acquire_service_runs:
  assumes "try_acquire cfg now inner = (r, inner', phase)"
  shows "breaker_runs cfg \<lparr>bs_inner = inner, bs_permits = ps\<rparr>
    \<lparr>bs_inner = inner', bs_permits = (case r of Inr token \<Rightarrow> ps @ [Some token] | Inl _ \<Rightarrow> ps)\<rparr>"
  using assms breaker_runs_step[of cfg "\<lparr>bs_inner = inner, bs_permits = ps\<rparr>" "Op_Acquire now"]
  by (cases r) simp_all

lemma finish_service_runs:
  "breaker_runs (iv_config s) (service_view ps [token] s) (service_view ps [] (finish_service now outcome token s))"
  using breaker_runs_step[of "iv_config s" "service_view ps [token] s" "Op_Finish now (length ps) outcome"]
  by (simp add: finish_service_def)

lemma finish_service_keeps [simp]:
  "iv_attempts (finish_service now outcome token s) = iv_attempts s"
  "iv_config (finish_service now outcome token s) = iv_config s"
  by (simp_all add: finish_service_def)

definition held_endpoint :: "error + held_response \<Rightarrow> endpoint_permit list" where
  "held_endpoint r = (case r of Inr h \<Rightarrow> (case hr_endpoint h of Some p \<Rightarrow> [p] | None \<Rightarrow> []) | Inl _ \<Rightarrow> [])"

definition held_service :: "error + held_response \<Rightarrow> PermitToken list" where
  "held_service r = (case r of Inr h \<Rightarrow> (case hr_service h of Some t \<Rightarrow> [t] | None \<Rightarrow> []) | Inl _ \<Rightarrow> [])"

definition success_wf :: "ClassifiedError + AttemptSuccess \<Rightarrow> bool" where
  "success_wf r = (case r of Inr x \<Rightarrow> sx_service_failure x \<noteq> None \<longrightarrow> sx_endpoint_permit x = None | Inl _ \<Rightarrow> True)"

lemma try_attempt_success_wf: "try_attempt client config allows attempt w s = (Some r, s') \<Longrightarrow> success_wf r"
  by (auto simp: try_attempt_def accept_response_def success_wf_def Let_def
      split: prod.splits sum.splits option.splits if_splits)

lemma execute_attempts_success_wf:
  "execute_attempts client config allows world attempt s = (r, s') \<Longrightarrow> success_wf r"
proof (induction client config allows world attempt s rule: execute_attempts.induct)
  case (1 client config allows world attempt s)
  obtain o' s1 where t: "try_attempt client config allows attempt (world attempt) s = (o', s1)" by fastforce
  show ?case
  proof (cases o')
    case (Some result)
    then show ?thesis
      using 1(2) t try_attempt_success_wf by (simp add: execute_attempts.simps[of client config allows world attempt s])
  next
    case None
    then have "execute_attempts client config allows world (saturating_add 255 attempt 1) s1 = (r, s')"
      using 1(2) t by (simp add: execute_attempts.simps[of client config allows world attempt s])
    then show ?thesis using 1(1)[OF t[symmetric] None] by blast
  qed
qed

lemma settle_service_runs:
  assumes "settle_service now token result s = (r, s')" and "success_wf result"
  shows "iv_config s' = iv_config s \<and> iv_attempts s' = iv_attempts s \<and>
    held_endpoint r = success_permits result \<and>
    breaker_runs (iv_config s) (service_view ps [token] s) (service_view ps (held_service r) s')"
proof (cases result)
  case (Inl classified)
  then show ?thesis
    using assms finish_service_runs[of s ps token now]
    by (auto simp: settle_service_def held_endpoint_def held_service_def)
next
  case (Inr success)
  then show ?thesis
    using assms finish_service_runs[of s ps token now]
    by (cases "sx_service_failure success"; cases "sx_endpoint_permit success")
      (auto simp: settle_service_def held_endpoint_def held_service_def success_permits_def success_wf_def Let_def)
qed

lemma execute_runs:
  assumes run: "execute client config allows world now later s = (r, s')" and ok: "attempts_ok ps (iv_attempts s)"
  shows "iv_config s' = iv_config s \<and> attempts_run ps (iv_attempts s) (ps @ held_endpoint r) (iv_attempts s') \<and>
    breaker_runs (iv_config s) (service_view sps [] s) (service_view sps (held_service r) s')"
proof -
  obtain admitted inner phase where acq: "try_acquire (iv_config s) now (iv_service s) = (admitted, inner, phase)"
    by (metis prod.exhaust)
  note acquired = acquire_service_runs[OF acq, of sps]
  show ?thesis
  proof (cases admitted)
    case (Inl rejection)
    then have "r = Inl circuit_open" "s' = s\<lparr>iv_service := inner\<rparr>"
      using run acq by (auto simp: execute_def Let_def)
    then show ?thesis
      using acquired Inl attempts_run_refl[OF ok] by (simp add: held_endpoint_def held_service_def)
  next
    case (Inr token)
    obtain result a where exec: "execute_attempts client config allows world 1 (iv_attempts s) = (result, a)" by fastforce
    let ?s = "s\<lparr>iv_service := inner, iv_attempts := a\<rparr>"
    have set: "settle_service later token result ?s = (r, s')"
      using run acq Inr exec by (simp add: execute_def Let_def)
    note settled = settle_service_runs[OF set execute_attempts_success_wf[OF exec], of sps]
    have "breaker_runs (iv_config s) (service_view sps [] s) (service_view sps [token] ?s)"
      using acquired Inr by simp
    then show ?thesis
      using settled execute_attempts_run[OF exec ok] breaker_runs_trans by auto
  qed
qed

lemma settle_held_runs:
  assumes ok: "attempts_ok (ps @ (case e of Some p \<Rightarrow> [p] | None \<Rightarrow> [])) (iv_attempts s)"
  shows "iv_config (settle_held now e t final s) = iv_config s \<and>
    attempts_run (ps @ (case e of Some p \<Rightarrow> [p] | None \<Rightarrow> [])) (iv_attempts s) ps (iv_attempts (settle_held now e t final s)) \<and>
    breaker_runs (iv_config s) (service_view sps (case t of Some k \<Rightarrow> [k] | None \<Rightarrow> []) s)
      (service_view sps [] (settle_held now e t final s))"
proof -
  define s1 where "s1 = (case e of
      Some p \<Rightarrow> s\<lparr>iv_attempts := finish_endpoint now (endpoint_outcome final) p (iv_attempts s)\<rparr> | None \<Rightarrow> s)"
  have s1: "iv_config s1 = iv_config s" "iv_service s1 = iv_service s"
    "attempts_run (ps @ (case e of Some p \<Rightarrow> [p] | None \<Rightarrow> [])) (iv_attempts s) ps (iv_attempts s1)"
    using ok finish_endpoint_run[of ps _ "iv_attempts s"] attempts_run_refl[of ps "iv_attempts s"]
    by (cases e; simp add: s1_def)+
  have "settle_held now e t final s =
      (case t of Some token \<Rightarrow> finish_service now (service_outcome final) token s1 | None \<Rightarrow> s1)"
    unfolding settle_held_def s1_def Let_def by (cases t) simp_all
  then show ?thesis
    using s1 finish_service_runs[of s1 sps _ now "service_outcome final"] by (cases t) simp_all
qed

text \<open>
  C14. No breaker permit is lost: whatever happens to an invocation that runs to its end (selections that
  fail after some breakers admitted the call, transports that fail, interceptors that answer themselves,
  replace the response or fail, results that do not decode), every breaker of the endpoint cache and the
  breaker of the service go through a run of their own operations that ends with exactly the permits that
  were out before.
\<close>

theorem invocation_returns_permits:
  assumes "invocation client config allows request_id w s = (r, s')"
    and "refs_ok (at_breakers (iv_attempts s))"
    and "\<forall>p \<in> set ps. fst p < length (eb_heap (at_breakers (iv_attempts s)))"
  shows "heap_runs (es_config (eb_store (at_breakers (iv_attempts s))))
      (eb_heap (at_breakers (iv_attempts s)), ps) (eb_heap (at_breakers (iv_attempts s')), ps) \<and>
    breaker_runs (iv_config s) \<lparr>bs_inner = iv_service s, bs_permits = sps\<rparr> \<lparr>bs_inner = iv_service s', bs_permits = sps\<rparr>"
proof -
  have ok: "attempts_ok ps (iv_attempts s)" using assms(2,3) by (simp add: attempts_ok_def)
  show ?thesis
  proof (cases "cw_calls w")
    case False
    then have "s' = s" using assms(1) by (auto simp: invocation_def settle_held_def Let_def)
    then show ?thesis using attempts_run_refl[OF ok] by (simp add: attempts_run_def)
  next
    case True
    obtain x s1 where x: "execute client config allows (cw_world w) (cw_started_at w) (cw_settled_at w) s = (x, s1)"
      by fastforce
    define e where "e = (case x of Inr h \<Rightarrow> hr_endpoint h | Inl _ \<Rightarrow> None)"
    define t where "t = (case x of Inr h \<Rightarrow> hr_service h | Inl _ \<Rightarrow> None)"
    have held: "held_endpoint x = (case e of Some p \<Rightarrow> [p] | None \<Rightarrow> [])"
      "held_service x = (case t of Some k \<Rightarrow> [k] | None \<Rightarrow> [])"
      by (auto simp: held_endpoint_def held_service_def e_def t_def split: sum.splits)
    note run1 = execute_runs[OF x ok, of sps]
    have s': "s' = settle_held (cw_decoded_at w) e t (cw_intercept w (Some x)) s1"
      using assms(1) True x by (cases x) (auto simp: invocation_def e_def t_def Let_def)
    have run1': "attempts_run ps (iv_attempts s) (ps @ (case e of Some p \<Rightarrow> [p] | None \<Rightarrow> [])) (iv_attempts s1)"
      "breaker_runs (iv_config s) (service_view sps [] s) (service_view sps (case t of Some k \<Rightarrow> [k] | None \<Rightarrow> []) s1)"
      "iv_config s1 = iv_config s"
      using run1 unfolding held by blast+
    note run2 = settle_held_runs[OF attempts_run_ok[OF run1'(1)], of "cw_decoded_at w" t "cw_intercept w (Some x)" sps, folded s', unfolded run1'(3)]
    have "attempts_run ps (iv_attempts s) ps (iv_attempts s')"
      by (rule attempts_run_trans[OF run1'(1)]) (use run2 in blast)
    moreover have "breaker_runs (iv_config s) (service_view sps [] s) (service_view sps [] s')"
      by (rule breaker_runs_trans[OF run1'(2)]) (use run2 in blast)
    ultimately show ?thesis by (simp add: attempts_run_def)
  qed
qed

section \<open>A concrete invocation\<close>

definition demo_url :: "string \<Rightarrow> url" where
  "demo_url text = \<lparr>u_scheme = ''http'', u_cannot_be_a_base = False, u_host_str = Some ''a'', u_port_or_known_default = Some 80,
      u_username = [], u_password = None, u_query = None, u_fragment = None, u_as_str = text\<rparr>"

definition demo_instance :: "string \<Rightarrow> ServiceInstance" where
  "demo_instance text = ServiceInstance_new text (demo_url text) EndpointCapabilities_default default_weight"

definition demo_directory :: EndpointSource where
  "demo_directory = ES_Discovery \<lparr>dn_revision = 1, dn_observed_at = 0, dn_state = DS_Ready,
     dn_instances = [demo_instance ''http://a/'', demo_instance ''http://b/'']\<rparr>"

definition demo_client :: service_client where
  "demo_client = \<lparr>sc_service = ''orders'', sc_binding_id = HTTP_JSON_V1, sc_policy = VP_Auto, sc_routers = [],
     sc_load_balancer = (\<lambda>is. Some (Inr 0))\<rparr>"

definition demo_script :: "send_result \<Rightarrow> attempt_script" where
  "demo_script sent = \<lparr>as_source = demo_directory, as_selected_at = 1, as_calls = True, as_bulkhead = True,
     as_request = Inr (), as_sent = sent, as_intercept = the, as_finished_at = 2, as_draw = (\<lambda>_. 0), as_remaining = 9,
     as_policy = (\<lambda>c. Some (StandardRetryPolicy_decide c)), as_cancelled = False\<rparr>"

definition demo_world :: "nat \<Rightarrow> attempt_script" where
  "demo_world n = demo_script (if n = 1 then SR_Failed TF_Connect ''refused''
     else SR_Response HTTP_11 (DR_Response (from_json_bytes ''1'')))"

definition demo_breaker :: BreakerConfig where
  "demo_breaker = BreakerConfig_new 40 4 2 \<lparr>mant = 1, expo = 1\<rparr> 100 300 1 2"

definition demo_state :: attempts_state where
  "demo_state = \<lparr>at_breakers = EndpointBreakers_new demo_breaker 8 10,
     at_budget = RetryBudget_new 2 1 0, at_started = 0, at_attempted = [], at_sent = [], at_metrics = []\<rparr>"

definition demo_retry :: RetryConfig where
  "demo_retry = \<lparr>rt_max_attempts = 3, rt_backoff_base = 1, rt_backoff_cap = 4, rt_budget_capacity = 2,
     rt_budget_refill_per_second = 1\<rparr>"


definition demo_invocation :: invocation_state where
  "demo_invocation = \<lparr>iv_config = demo_breaker, iv_service = breaker_initial demo_breaker 0, iv_attempts = demo_state\<rparr>"

definition demo_call :: call_script where
  "demo_call = \<lparr>cw_calls = True, cw_world = demo_world, cw_started_at = 1, cw_settled_at = 3,
     cw_intercept = (\<lambda>r. case r of
        Some (Inr held) \<Rightarrow> Inr \<lparr>fr_response = hr_response held, fr_tracks = True, fr_keeps = True, fr_wire_origin = True,
            fr_decoded = DV_Value\<rparr>
      | Some (Inl e) \<Rightarrow> Inl e | None \<Rightarrow> Inl cancelled),
     cw_decoded_at = 4\<rparr>"

lemma demo_compatible: "is_compatible VP_Auto HTTP_JSON_V1 (demo_instance text)"
  "select_http_version VP_Auto (demo_url text) EndpointCapabilities_default = Some HTTP_11"
  "should_auto_negotiate VP_Auto (demo_url text) EndpointCapabilities_default = False"
  by (simp_all add: is_compatible_def demo_instance_def ServiceInstance_new_def demo_url_def is_secure_def
      select_http_version_def EndpointCapabilities_default_def supports_binding_def vs_contains_def VS_HTTP_1_1_def
      HTTP_1_1_BIT_def should_auto_negotiate_def binary_search.simps)

lemma demo_text [simp]: "endpoint_text (demo_instance text) = text"
  by (simp add: demo_instance_def ServiceInstance_new_def demo_url_def)

lemma demo_routed:
  "routed_instances demo_client demo_directory [] =
     Inr ([demo_instance ''http://a/'', demo_instance ''http://b/''], BS_Discovery)"
  "routed_instances demo_client demo_directory [''http://a/''] = Inr ([demo_instance ''http://b/''], BS_Discovery)"
  by (simp_all add: routed_instances_def demo_client_def demo_directory_def demo_compatible prefer_untried_def demo_text)


lemma demo_permit_acquired:
  "fst (acquire_eligible service binding BS_Discovery now [i] (EndpointBreakers_new config n idle)) =
     [(i, 0, \<lparr>pt_epoch = 0, pt_phase = PP_Closed\<rparr>)]"
  by (simp add: get_or_insert_observed_def EndpointBreakers_new_def untracked_def new_breaker_def EndpointBreakerStore_new_def
      acquire_breaker_def try_acquire_def acquire_loop.simps breaker_initial_def)

lemma demo_selection:
  "fst (select_endpoint demo_client demo_directory [''http://a/''] 1 (EndpointBreakers_new config n idle)) =
     Inr (selected VP_Auto (demo_instance ''http://b/'') (0, \<lparr>pt_epoch = 0, pt_phase = PP_Closed\<rparr>))"
proof -
  obtain cs eb where a: "acquire_eligible (sc_service demo_client) (sc_binding_id demo_client) BS_Discovery 1
      [demo_instance ''http://b/''] (EndpointBreakers_new config n idle) = (cs, eb)" by fastforce
  then have "cs = [(demo_instance ''http://b/'', 0, \<lparr>pt_epoch = 0, pt_phase = PP_Closed\<rparr>)]"
    using demo_permit_acquired by (metis fst_conv)
  then show ?thesis
    using a by (simp add: select_endpoint_def demo_routed(2) balance_def) (simp add: demo_client_def)
qed

theorem selection_sound_witness:
  "\<exists>s. fst (select_endpoint demo_client demo_directory [''http://a/''] 1 (EndpointBreakers_new demo_breaker 8 10)) = Inr s \<and>
    supports_binding (si_capabilities (se_instance s)) HTTP_JSON_V1 \<and> endpoint_text (se_instance s) \<notin> {''http://a/''}"
proof -
  let ?s = "selected VP_Auto (demo_instance ''http://b/'') (0, \<lparr>pt_epoch = 0, pt_phase = PP_Closed\<rparr>)"
  let ?run = "select_endpoint demo_client demo_directory [''http://a/''] 1 (EndpointBreakers_new demo_breaker 8 10)"
  have run: "?run = (Inr ?s, snd ?run)" using demo_selection by (metis prod.collapse)
  then have ok: "fst ?run = Inr ?s" by (metis fst_conv)
  have "sc_binding_id demo_client = HTTP_JSON_V1" by (simp add: demo_client_def)
  then have "supports_binding (si_capabilities (demo_instance ''http://b/'')) HTTP_JSON_V1"
    using selection_sound[OF run] by auto
  then show ?thesis using ok by (intro exI[of _ ?s]) simp
qed

theorem requests_bounded_witness:
  "length (at_sent (snd (execute_attempts demo_client demo_retry True demo_world 1 demo_state))) \<le> 3"
  using requests_bounded[of demo_client demo_retry True demo_world demo_state, OF prod.collapse[symmetric]]
  by (simp add: demo_state_def)

theorem invocation_returns_permits_witness:
  "heap_runs demo_breaker ([], []) (eb_heap (at_breakers (iv_attempts (snd
     (invocation demo_client demo_retry True ''r1'' demo_call demo_invocation)))), [])"
  using invocation_returns_permits[of demo_client demo_retry True "''r1''" demo_call demo_invocation, OF prod.collapse[symmetric], of "[]"]
  by (simp add: demo_invocation_def demo_state_def EndpointBreakers_new_def EndpointBreakerStore_new_def refs_ok_def)

end
