(* ===== verification/Projection.thy ===== *)
theory Projection
  imports Errors Ordered_Map Contract
begin

text \<open>
  Diagnostic projections of arguments and results: the sensitivity metadata of
  \<open>fusen-contract/src/sensitivity.rs\<close>, the policies of \<open>fusen/src/sensitive.rs\<close> and the projector of
  \<open>fusen/src/projection.rs\<close>.

  A shape is resolved lazily through function pointers, so it may be infinite: it is a codatatype, and a
  resolver is the shape it returns.  The projector threads the number of visited nodes; it stops with a
  failure, a panic of the sanitizer (which \<open>fail_closed\<close> catches), or, in the model, for lack of fuel.  The
  fuel bounds the \<^verbatim>\<open>Optional\<close> shapes unwrapped without consuming a value.
\<close>

section \<open>Sensitivity metadata\<close>

type_synonym SensitivityKind = string

definition MAX_SENSITIVITY_KIND_BYTES :: nat where "MAX_SENSITIVITY_KIND_BYTES = 64"

definition SK_PUBLIC :: SensitivityKind where "SK_PUBLIC = ''public''"
definition SK_CREDENTIAL :: SensitivityKind where "SK_CREDENTIAL = ''credential''"
definition SK_TOKEN :: SensitivityKind where "SK_TOKEN = ''token''"
definition SK_PHONE :: SensitivityKind where "SK_PHONE = ''phone''"
definition SK_EMAIL :: SensitivityKind where "SK_EMAIL = ''email''"
definition SK_IDENTIFIER :: SensitivityKind where "SK_IDENTIFIER = ''identifier''"
definition SK_SECRET :: SensitivityKind where "SK_SECRET = ''secret''"

definition is_valid_kind :: "string \<Rightarrow> bool" where
  "is_valid_kind text =
     (text \<noteq> [] \<and> length text \<le> MAX_SENSITIVITY_KIND_BYTES
      \<and> list_all (\<lambda>c. is_ascii_alphanumeric c \<or> c \<in> {CHR ''.'', CHR ''_'', CHR ''-''}) text)"

definition SensitivityKind_new :: "string \<Rightarrow> SensitivityKind option" where
  "SensitivityKind_new label = (if is_valid_kind label then Some label else None)"

codatatype SensitiveShape =
  SS_Opaque
| SS_Kind SensitivityKind
| SS_Fields "(string \<times> SensitiveShape) list" "(string \<times> SensitiveShape) list"
| SS_Optional SensitiveShape
| SS_Sequence SensitiveShape
| SS_FixedSequence SensitiveShape nat

record MethodSensitivity =
  ms_arguments :: "(string \<times> SensitiveShape) list"
  ms_response :: "SensitiveShape option"

section \<open>Policies\<close>

datatype SanitizationTarget = ST_Arguments | ST_Response

record SanitizationContext =
  sn_target :: SanitizationTarget
  sn_path :: string
  sn_kind :: SensitivityKind
  sn_value :: json

datatype Sanitization = SZ_Omit | SZ_Redact | SZ_Reveal | SZ_Replace json

record ProjectionLimits =
  pl_max_input_bytes :: nat
  pl_max_depth :: nat
  pl_max_nodes :: nat
  pl_max_array_items :: nat
  pl_max_string_bytes :: nat
  pl_max_output_bytes :: nat

definition ProjectionLimits_default :: ProjectionLimits where
  "ProjectionLimits_default =
     \<lparr>pl_max_input_bytes = 64 * 1024, pl_max_depth = 8, pl_max_nodes = 256, pl_max_array_items = 32,
      pl_max_string_bytes = 512, pl_max_output_bytes = 16 * 1024\<rparr>"

text \<open>A sanitizer is the user's code: \<open>None\<close> when it panics.\<close>

record Sanitizer =
  sz_sanitize :: "SanitizationContext \<Rightarrow> Sanitization option"
  sz_limits :: ProjectionLimits

record PolicySanitizer =
  ps_rules :: "(string \<times> Sanitization) list"
  ps_limits :: ProjectionLimits

definition PolicySanitizer_default :: PolicySanitizer where
  "PolicySanitizer_default =
     \<lparr>ps_rules =
        fold (\<lambda>k. bt_insert k SZ_Redact)
          [SK_CREDENTIAL, SK_TOKEN, SK_PHONE, SK_EMAIL, SK_IDENTIFIER, SK_SECRET]
          (bt_insert SK_PUBLIC SZ_Reveal []),
      ps_limits = ProjectionLimits_default\<rparr>"

definition with_limits :: "ProjectionLimits \<Rightarrow> PolicySanitizer \<Rightarrow> PolicySanitizer" where
  "with_limits limits p = p\<lparr>ps_limits := limits\<rparr>"

definition with_rule :: "SensitivityKind \<Rightarrow> Sanitization \<Rightarrow> PolicySanitizer \<Rightarrow> PolicySanitizer" where
  "with_rule kind action p = p\<lparr>ps_rules := bt_insert kind action (ps_rules p)\<rparr>"

definition policy_sanitizer :: "PolicySanitizer \<Rightarrow> Sanitizer" where
  "policy_sanitizer p =
     \<lparr>sz_sanitize = (\<lambda>context. Some (case map_of (ps_rules p) (sn_kind context) of Some action \<Rightarrow> action | None \<Rightarrow> SZ_Omit)),
      sz_limits = ps_limits p\<rparr>"

text \<open>The result, and its text: JSON or a marker.\<close>

type_synonym SanitizedValue = "json option"

definition sanitized_text :: "(json \<Rightarrow> string option) \<Rightarrow> SanitizedValue \<Rightarrow> string" where
  "sanitized_text to_string value =
     (case value of
        None \<Rightarrow> ''<omitted>''
      | Some v \<Rightarrow> (case to_string v of Some text \<Rightarrow> text | None \<Rightarrow> ''<omitted>''))"

section \<open>Checking values against the limits\<close>

datatype projection_stop = PS_Failure | PS_Panic | PS_Diverges

definition visit :: "ProjectionLimits \<Rightarrow> nat \<Rightarrow> nat \<Rightarrow> projection_stop + nat" where
  "visit limits depth nodes =
     (if pl_max_depth limits < depth then Inl PS_Failure
      else (case checked_add USIZE_MAX nodes 1 of
              None \<Rightarrow> Inl PS_Failure
            | Some nodes \<Rightarrow> if pl_max_nodes limits < nodes then Inl PS_Failure else Inr nodes))"

fun validate_descendants :: "ProjectionLimits \<Rightarrow> nat \<Rightarrow> json \<Rightarrow> nat \<Rightarrow> projection_stop + nat"
  and validate_items :: "ProjectionLimits \<Rightarrow> nat \<Rightarrow> json list \<Rightarrow> nat \<Rightarrow> projection_stop + nat"
  and validate_entries :: "ProjectionLimits \<Rightarrow> nat \<Rightarrow> (string \<times> json) list \<Rightarrow> nat \<Rightarrow> projection_stop + nat" where
  "validate_descendants limits depth JNull nodes = Inr nodes"
| "validate_descendants limits depth (JBool b) nodes = Inr nodes"
| "validate_descendants limits depth (JNumber x) nodes = Inr nodes"
| "validate_descendants limits depth (JString text) nodes =
     (if pl_max_string_bytes limits < length text then Inl PS_Failure else Inr nodes)"
| "validate_descendants limits depth (JArray values) nodes =
     (if pl_max_array_items limits < length values then Inl PS_Failure
      else validate_items limits (Suc depth) values nodes)"
| "validate_descendants limits depth (JObject entries) nodes = validate_entries limits (Suc depth) entries nodes"
| "validate_items limits depth [] nodes = Inr nodes"
| "validate_items limits depth (v # vs) nodes =
     bind_result (visit limits depth nodes) (\<lambda>nodes.
       bind_result (validate_descendants limits depth v nodes) (\<lambda>nodes.
         validate_items limits depth vs nodes))"
| "validate_entries limits depth [] nodes = Inr nodes"
| "validate_entries limits depth ((name, v) # es) nodes =
     (if pl_max_string_bytes limits < length name then Inl PS_Failure
      else bind_result (visit limits depth nodes) (\<lambda>nodes.
             bind_result (validate_descendants limits depth v nodes) (\<lambda>nodes.
               validate_entries limits depth es nodes)))"

definition validate_value :: "ProjectionLimits \<Rightarrow> nat \<Rightarrow> json \<Rightarrow> nat \<Rightarrow> projection_stop + nat" where
  "validate_value limits depth v nodes =
     bind_result (visit limits depth nodes) (\<lambda>nodes. validate_descendants limits depth v nodes)"

text \<open>
  \<open>validate_shape_visited\<close>.  The fuel is spent on \<^verbatim>\<open>Optional\<close> and filled up again for each element.
\<close>

abbreviation shape_fuel :: "ProjectionLimits \<Rightarrow> nat" where
  "shape_fuel limits \<equiv> Suc (pl_max_depth limits)"

function (sequential) validate_shape ::
  "ProjectionLimits \<Rightarrow> nat \<Rightarrow> json \<Rightarrow> SensitiveShape \<Rightarrow> nat \<Rightarrow> nat \<Rightarrow> projection_stop + nat"
  and validate_elements ::
  "ProjectionLimits \<Rightarrow> json list \<Rightarrow> SensitiveShape \<Rightarrow> nat \<Rightarrow> nat \<Rightarrow> projection_stop + nat" where
  "validate_shape limits fuel v shape depth nodes =
     (case shape of
        SS_Opaque \<Rightarrow> Inr nodes
      | SS_Kind kind \<Rightarrow> validate_descendants limits depth v nodes
      | SS_Optional inner \<Rightarrow>
          if v = JNull then Inr nodes
          else (case fuel of
                  0 \<Rightarrow> Inl PS_Diverges
                | Suc fuel \<Rightarrow> validate_shape limits fuel v inner depth nodes)
      | SS_Sequence element \<Rightarrow>
          (case v of
             JArray values \<Rightarrow>
               if pl_max_array_items limits < length values then Inl PS_Failure
               else validate_elements limits values element (Suc depth) nodes
           | _ \<Rightarrow> Inl PS_Failure)
      | SS_FixedSequence element len \<Rightarrow>
          (case v of
             JArray values \<Rightarrow>
               if pl_max_array_items limits < length values \<or> length values \<noteq> len then Inl PS_Failure
               else validate_elements limits values element (Suc depth) nodes
           | _ \<Rightarrow> Inl PS_Failure)
      | SS_Fields serialize deserialize \<Rightarrow> (case v of JObject es \<Rightarrow> Inr nodes | _ \<Rightarrow> Inl PS_Failure))"
| "validate_elements limits [] element depth nodes = Inr nodes"
| "validate_elements limits (v # vs) element depth nodes =
     bind_result (visit limits depth nodes) (\<lambda>nodes.
       bind_result (validate_shape limits (shape_fuel limits) v element depth nodes) (\<lambda>nodes.
         validate_elements limits vs element depth nodes))"
  by pat_completeness auto
termination
  by (relation "measures
      [\<lambda>x. case x of Inl (limits, fuel, v, _) \<Rightarrow> size v | Inr (limits, vs, _) \<Rightarrow> size_list size vs,
       \<lambda>x. case x of Inl (limits, fuel, v, _) \<Rightarrow> fuel | Inr (limits, vs, _) \<Rightarrow> length vs]") auto

declare validate_shape.simps [simp del]

section \<open>Classification\<close>

datatype InheritedClassification = IC_Opaque | IC_Kind SensitivityKind

datatype ProjectionDirection = PD_Serialize | PD_Deserialize

fun direction_fields :: "ProjectionDirection \<Rightarrow> 'a \<Rightarrow> 'a \<Rightarrow> 'a" where
  "direction_fields PD_Serialize serialize deserialize = serialize"
| "direction_fields PD_Deserialize serialize deserialize = deserialize"

function inherited_classification ::
  "ProjectionLimits \<Rightarrow> SensitiveShape \<Rightarrow> nat \<Rightarrow> projection_stop + InheritedClassification option" where
  "inherited_classification limits shape schema_depth =
     (if pl_max_depth limits < schema_depth then Inl PS_Failure
      else (case shape of
              SS_Opaque \<Rightarrow> Inr (Some IC_Opaque)
            | SS_Kind kind \<Rightarrow> Inr (Some (IC_Kind kind))
            | SS_Fields serialize deserialize \<Rightarrow> Inr None
            | SS_Optional inner \<Rightarrow> inherited_classification limits inner (Suc schema_depth)
            | SS_Sequence element \<Rightarrow> inherited_classification limits element (Suc schema_depth)
            | SS_FixedSequence element len \<Rightarrow> inherited_classification limits element (Suc schema_depth)))"
  by pat_completeness auto
termination
  by (relation "measure (\<lambda>(limits, shape, depth). Suc (pl_max_depth limits) - depth)") auto

declare inherited_classification.simps [simp del]

function (sequential) has_classified_value ::
  "ProjectionLimits \<Rightarrow> ProjectionDirection \<Rightarrow> SensitiveShape \<Rightarrow> nat \<Rightarrow> projection_stop + bool"
  and any_classified_field ::
  "ProjectionLimits \<Rightarrow> ProjectionDirection \<Rightarrow> (string \<times> SensitiveShape) list \<Rightarrow> nat \<Rightarrow> projection_stop + bool" where
  "has_classified_value limits direction shape schema_depth =
     (if pl_max_depth limits < schema_depth then Inl PS_Failure
      else (case shape of
              SS_Opaque \<Rightarrow> Inr False
            | SS_Kind kind \<Rightarrow> Inr True
            | SS_Fields serialize deserialize \<Rightarrow>
                any_classified_field limits direction (direction_fields direction serialize deserialize) schema_depth
            | SS_Optional inner \<Rightarrow> has_classified_value limits direction inner (Suc schema_depth)
            | SS_Sequence element \<Rightarrow> has_classified_value limits direction element (Suc schema_depth)
            | SS_FixedSequence element len \<Rightarrow> has_classified_value limits direction element (Suc schema_depth)))"
| "any_classified_field limits direction [] schema_depth = Inr False"
| "any_classified_field limits direction ((name, shape) # rest) schema_depth =
     bind_result (has_classified_value limits direction shape (Suc schema_depth)) (\<lambda>found.
       if found then Inr True else any_classified_field limits direction rest schema_depth)"
  by pat_completeness auto
termination
  by (relation "measures
      [\<lambda>x. case x of
          Inl (limits, _, _, depth) \<Rightarrow>
            if depth \<le> pl_max_depth limits then 2 * (Suc (pl_max_depth limits) - depth) + 2 else 0
        | Inr (limits, _, _, depth) \<Rightarrow> 2 * (Suc (pl_max_depth limits) - depth) + 1,
       \<lambda>x. case x of Inl _ \<Rightarrow> 0 | Inr (_, _, rest, _) \<Rightarrow> length rest]") auto

declare has_classified_value.simps [simp del]

section \<open>The projector\<close>

datatype projected = PJ_Omit | PJ_Value json

record projector =
  pj_sanitizer :: Sanitizer
  pj_target :: SanitizationTarget
  pj_direction :: ProjectionDirection

abbreviation pj_limits :: "projector \<Rightarrow> ProjectionLimits" where
  "pj_limits p \<equiv> sz_limits (pj_sanitizer p)"

definition REDACTED :: string where "REDACTED = ''<redacted>''"

definition push_path_segment :: "string \<Rightarrow> string \<Rightarrow> string" where
  "push_path_segment path segment =
     path @ ''/'' @ concat (map (\<lambda>c. if c = CHR ''~'' then ''~0'' else if c = CHR ''/'' then ''~1'' else [c]) segment)"

definition sanitize_classified ::
  "projector \<Rightarrow> json \<Rightarrow> SensitivityKind \<Rightarrow> nat \<Rightarrow> string \<Rightarrow> nat \<Rightarrow> projection_stop + projected \<times> nat" where
  "sanitize_classified p v kind depth path nodes =
     (case sz_sanitize (pj_sanitizer p) \<lparr>sn_target = pj_target p, sn_path = path, sn_kind = kind, sn_value = v\<rparr> of
        None \<Rightarrow> Inl PS_Panic
      | Some SZ_Omit \<Rightarrow> Inr (PJ_Omit, nodes)
      | Some SZ_Redact \<Rightarrow> Inr (PJ_Value (JString REDACTED), nodes)
      | Some SZ_Reveal \<Rightarrow> Inr (PJ_Value v, nodes)
      | Some (SZ_Replace replacement) \<Rightarrow>
          bind_result (validate_value (pj_limits p) depth replacement nodes) (\<lambda>nodes.
            Inr (PJ_Value replacement, nodes)))"

lemma map_of_size: "map_of es name = Some v \<Longrightarrow> size v < size_list (size_prod (\<lambda>_. 0) size) es"
  by (induction es) (auto split: if_splits)

text \<open>
  \<open>project_visited\<close> with its loops: \<open>project_fields\<close> over the declared fields (with the names seen and
  the entries made so far) and \<open>project_elements\<close> over the items of an array.
\<close>

function (sequential) project_visited ::
  "projector \<Rightarrow> nat \<Rightarrow> json \<Rightarrow> SensitiveShape \<Rightarrow> nat \<Rightarrow> string \<Rightarrow> nat \<Rightarrow> projection_stop + projected \<times> nat"
  and project_sequence ::
  "projector \<Rightarrow> json \<Rightarrow> SensitiveShape \<Rightarrow> nat option \<Rightarrow> nat \<Rightarrow> string \<Rightarrow> nat \<Rightarrow> projection_stop + projected \<times> nat"
  and project_fields ::
  "projector \<Rightarrow> (string \<times> json) list \<Rightarrow> (string \<times> SensitiveShape) list \<Rightarrow> string list \<Rightarrow> (string \<times> json) list \<Rightarrow>
   nat \<Rightarrow> string \<Rightarrow> nat \<Rightarrow> projection_stop + (string \<times> json) list \<times> nat"
  and project_elements ::
  "projector \<Rightarrow> json list \<Rightarrow> SensitiveShape \<Rightarrow> nat \<Rightarrow> string \<Rightarrow> nat \<Rightarrow> projection_stop + json list \<times> nat" where
  "project_visited p fuel v shape depth path nodes =
     (case shape of
        SS_Opaque \<Rightarrow> Inr (PJ_Omit, nodes)
      | SS_Kind kind \<Rightarrow>
          bind_result (validate_descendants (pj_limits p) depth v nodes) (\<lambda>nodes.
            sanitize_classified p v kind depth path nodes)
      | SS_Fields serialize deserialize \<Rightarrow>
          (case v of
             JObject values \<Rightarrow>
               bind_result
                 (project_fields p values (direction_fields (pj_direction p) serialize deserialize) [] []
                    (Suc depth) path nodes)
                 (\<lambda>(projected, nodes).
                    Inr (if projected = [] then PJ_Omit else PJ_Value (JObject projected), nodes))
           | _ \<Rightarrow> Inl PS_Failure)
      | SS_Optional inner \<Rightarrow>
          bind_result (inherited_classification (pj_limits p) inner 0) (\<lambda>c.
            case c of
              Some IC_Opaque \<Rightarrow> Inr (PJ_Omit, nodes)
            | Some (IC_Kind kind) \<Rightarrow>
                bind_result (validate_shape (pj_limits p) (shape_fuel (pj_limits p)) v shape depth nodes) (\<lambda>nodes.
                  sanitize_classified p v kind depth path nodes)
            | None \<Rightarrow>
                if v = JNull then Inr (PJ_Omit, nodes)
                else (case fuel of
                        0 \<Rightarrow> Inl PS_Diverges
                      | Suc fuel \<Rightarrow> project_visited p fuel v inner depth path nodes))
      | SS_Sequence element \<Rightarrow> project_sequence p v element None depth path nodes
      | SS_FixedSequence element len \<Rightarrow> project_sequence p v element (Some len) depth path nodes)"
| "project_sequence p v element required_length depth path nodes =
     (case v of
        JArray values \<Rightarrow>
          if pl_max_array_items (pj_limits p) < length values
             \<or> (required_length \<noteq> None \<and> required_length \<noteq> Some (length values)) then Inl PS_Failure
          else bind_result (inherited_classification (pj_limits p) element 0) (\<lambda>c.
            case c of
              Some IC_Opaque \<Rightarrow> Inr (PJ_Omit, nodes)
            | Some (IC_Kind kind) \<Rightarrow>
                bind_result (validate_elements (pj_limits p) values element (Suc depth) nodes) (\<lambda>nodes.
                  sanitize_classified p v kind depth path nodes)
            | None \<Rightarrow>
                bind_result (project_elements p values element (Suc depth) path nodes) (\<lambda>(projected, nodes).
                  if projected = []
                  then (if values \<noteq> [] then Inr (PJ_Omit, nodes)
                        else bind_result (has_classified_value (pj_limits p) (pj_direction p) element 0) (\<lambda>found.
                               Inr (if found then PJ_Value (JArray projected) else PJ_Omit, nodes)))
                  else Inr (PJ_Value (JArray projected), nodes)))
      | _ \<Rightarrow> Inl PS_Failure)"
| "project_fields p values [] declared projected depth path nodes = Inr (projected, nodes)"
| "project_fields p values ((name, shape) # rest) declared projected depth path nodes =
     (if name \<in> set declared then Inl PS_Failure
      else (case map_of values name of
              None \<Rightarrow> project_fields p values rest (name # declared) projected depth path nodes
            | Some v \<Rightarrow>
                bind_result (visit (pj_limits p) depth nodes) (\<lambda>nodes.
                  bind_result
                    (project_visited p (shape_fuel (pj_limits p)) v shape depth (push_path_segment path name) nodes)
                    (\<lambda>(result, nodes).
                       project_fields p values rest (name # declared)
                         (case result of PJ_Omit \<Rightarrow> projected | PJ_Value x \<Rightarrow> bt_insert name x projected)
                         depth path nodes))))"
| "project_elements p [] element depth path nodes = Inr ([], nodes)"
| "project_elements p (v # vs) element depth path nodes =
     bind_result (visit (pj_limits p) depth nodes) (\<lambda>nodes.
       bind_result (project_visited p (shape_fuel (pj_limits p)) v element depth path nodes) (\<lambda>(result, nodes).
         bind_result (project_elements p vs element depth path nodes) (\<lambda>(projected, nodes).
           Inr (case result of PJ_Omit \<Rightarrow> projected | PJ_Value x \<Rightarrow> x # projected, nodes))))"
  by pat_completeness auto
termination
  by (relation "measures
      [\<lambda>x. case x of
          Inl (Inl (p, fuel, v, _)) \<Rightarrow> size v
        | Inl (Inr (p, v, _)) \<Rightarrow> size v
        | Inr (Inl (p, values, _)) \<Rightarrow> size_list (size_prod (\<lambda>_. 0) size) values
        | Inr (Inr (p, vs, _)) \<Rightarrow> size_list size vs,
       \<lambda>x. case x of
          Inl (Inl (p, fuel, v, _)) \<Rightarrow> Suc fuel
        | Inl (Inr _) \<Rightarrow> 0
        | Inr (Inl (p, values, rest, _)) \<Rightarrow> length rest
        | Inr (Inr (p, vs, _)) \<Rightarrow> 0]")
    (auto dest: map_of_size)

declare project_visited.simps [simp del] project_sequence.simps [simp del]

section \<open>Whole values\<close>

text \<open>
  \<open>fail_closed\<close>: a failure and a panic both give the omitted value; \<open>None\<close> would be a projection that
  does not end.
\<close>

definition fail_closed :: "projection_stop + SanitizedValue \<Rightarrow> SanitizedValue option" where
  "fail_closed r =
     (case r of Inr value \<Rightarrow> Some value | Inl PS_Diverges \<Rightarrow> None | Inl _ \<Rightarrow> Some None)"

definition finish_projection ::
  "(json \<Rightarrow> string option) \<Rightarrow> ProjectionLimits \<Rightarrow> projected \<Rightarrow> projection_stop + SanitizedValue" where
  "finish_projection to_vec limits projected =
     (case projected of
        PJ_Omit \<Rightarrow> Inr None
      | PJ_Value v \<Rightarrow>
          (case to_vec v of
             None \<Rightarrow> Inl PS_Failure
           | Some encoded \<Rightarrow>
               if pl_max_output_bytes limits < length encoded then Inl PS_Failure else Inr (Some v)))"

text \<open>\<open>project\<close>: a visit and the projection.\<close>

definition project ::
  "projector \<Rightarrow> json \<Rightarrow> SensitiveShape \<Rightarrow> nat \<Rightarrow> string \<Rightarrow> nat \<Rightarrow> projection_stop + projected \<times> nat" where
  "project p v shape depth path nodes =
     bind_result (visit (pj_limits p) depth nodes) (\<lambda>nodes.
       project_visited p (shape_fuel (pj_limits p)) v shape depth path nodes)"

definition sanitize_arguments ::
  "(json \<Rightarrow> string option) \<Rightarrow> MethodSensitivity option \<Rightarrow> (string \<times> json) list \<Rightarrow> ProjectionDirection \<Rightarrow> Sanitizer \<Rightarrow>
   SanitizedValue option" where
  "sanitize_arguments to_vec sensitivity arguments direction sanitizer =
     fail_closed
       (case sensitivity of
          None \<Rightarrow> Inl PS_Failure
        | Some s \<Rightarrow>
            (let p = \<lparr>pj_sanitizer = sanitizer, pj_target = ST_Arguments, pj_direction = direction\<rparr>
             in bind_result (project_fields p arguments (ms_arguments s) [] [] 0 [] 0) (\<lambda>(projected, nodes).
                  finish_projection to_vec (sz_limits sanitizer)
                    (if projected = [] then PJ_Omit else PJ_Value (JObject projected)))))"

definition sanitize_response ::
  "(json \<Rightarrow> string option) \<Rightarrow> (string \<Rightarrow> json option) \<Rightarrow> MethodSensitivity option \<Rightarrow> string \<Rightarrow>
   ProjectionDirection option \<Rightarrow> Sanitizer \<Rightarrow> SanitizedValue option" where
  "sanitize_response to_vec from_slice sensitivity bytes direction sanitizer =
     (case direction of
        None \<Rightarrow> Some None
      | Some direction \<Rightarrow>
          fail_closed
            (case Option.bind sensitivity ms_response of
               None \<Rightarrow> Inl PS_Failure
             | Some shape \<Rightarrow>
                 if shape = SS_Opaque then Inr None
                 else (let p = \<lparr>pj_sanitizer = sanitizer, pj_target = ST_Response, pj_direction = direction\<rparr>
                       in if pl_max_input_bytes (sz_limits sanitizer) < length bytes then Inl PS_Failure
                          else (case from_slice bytes of
                                  None \<Rightarrow> Inl PS_Failure
                                | Some v \<Rightarrow>
                                    bind_result (project p v shape 0 [] 0) (\<lambda>(projected, nodes).
                                      finish_projection to_vec (sz_limits sanitizer) projected)))))"

text \<open>
  Where a body's schema comes from (\<open>fusen/src/context.rs\<close>): a method is its descriptor's address, and
  only a body marked for the very method asked about has a direction.
\<close>

datatype ('m) ResponseSchemaOrigin = RO_Unclassified | RO_Declared 'm ProjectionDirection

fun declared_schema_direction :: "'m ResponseSchemaOrigin \<Rightarrow> 'm \<Rightarrow> ProjectionDirection option" where
  "declared_schema_direction RO_Unclassified asked = None"
| "declared_schema_direction (RO_Declared origin direction) asked =
     (if origin = asked then Some direction else None)"

definition sanitized_body ::
  "(json \<Rightarrow> string option) \<Rightarrow> (string \<Rightarrow> json option) \<Rightarrow> ('m \<Rightarrow> MethodSensitivity option) \<Rightarrow> 'm \<Rightarrow>
   'm ResponseSchemaOrigin \<Rightarrow> string \<Rightarrow> Sanitizer \<Rightarrow> SanitizedValue option" where
  "sanitized_body to_vec from_slice sensitivity asked origin bytes sanitizer =
     sanitize_response to_vec from_slice (sensitivity asked) bytes (declared_schema_direction origin asked) sanitizer"

datatype Side = SD_Client | SD_Server

definition sanitized_arguments ::
  "(json \<Rightarrow> string option) \<Rightarrow> Side \<Rightarrow> MethodSensitivity option \<Rightarrow> (string \<times> json) list option \<Rightarrow> Sanitizer \<Rightarrow>
   SanitizedValue option" where
  "sanitized_arguments to_vec side sensitivity arguments sanitizer =
     (let direction = (case side of SD_Client \<Rightarrow> PD_Serialize | SD_Server \<Rightarrow> PD_Deserialize)
      in case arguments of
           None \<Rightarrow> Some None
         | Some arguments \<Rightarrow> sanitize_arguments to_vec sensitivity arguments direction sanitizer)"

end
