(* ===== verification/Projection_Theorems.thy ===== *)
theory Projection_Theorems
  imports Projection
begin

text \<open>
  What a diagnostic projection guarantees: it ends, it stays within the limits of its policy, and it does
  not depend on what the schema and the policy hide.
\<close>

section \<open>Classification of shapes\<close>

inductive classified :: "SensitiveShape \<Rightarrow> InheritedClassification option \<Rightarrow> bool" where
  opaque: "classified SS_Opaque (Some IC_Opaque)"
| kind: "classified (SS_Kind k) (Some (IC_Kind k))"
| fields: "classified (SS_Fields ser de) None"
| optional: "classified inner c \<Longrightarrow> classified (SS_Optional inner) c"
| sequence: "classified element c \<Longrightarrow> classified (SS_Sequence element) c"
| fixed: "classified element c \<Longrightarrow> classified (SS_FixedSequence element len) c"

inductive_simps classified_simps [simp]:
  "classified SS_Opaque c"
  "classified (SS_Kind k) c"
  "classified (SS_Fields ser de) c"
  "classified (SS_Optional inner) c"
  "classified (SS_Sequence element) c"
  "classified (SS_FixedSequence element len) c"

lemma classified_unique: "classified shape c \<Longrightarrow> classified shape d \<Longrightarrow> c = d"
  by (induction arbitrary: d rule: classified.induct) auto

lemma inherited_classified: "inherited_classification limits shape depth = Inr c \<Longrightarrow> classified shape c"
  by (induction limits shape depth rule: inherited_classification.induct)
    (subst (asm) (2) inherited_classification.simps, auto split: if_splits SensitiveShape.splits)

section \<open>Projections end\<close>

primrec unwraps :: "nat \<Rightarrow> SensitiveShape \<Rightarrow> bool" where
  "unwraps 0 shape = (case shape of SS_Optional inner \<Rightarrow> False | _ \<Rightarrow> True)"
| "unwraps (Suc n) shape = (case shape of SS_Optional inner \<Rightarrow> unwraps n inner | _ \<Rightarrow> True)"

primrec spine :: "nat \<Rightarrow> SensitiveShape \<Rightarrow> bool" where
  "spine 0 shape =
     (case shape of SS_Optional _ \<Rightarrow> False | SS_Sequence _ \<Rightarrow> False | SS_FixedSequence _ _ \<Rightarrow> False | _ \<Rightarrow> True)"
| "spine (Suc n) shape =
     (case shape of
        SS_Optional inner \<Rightarrow> spine n inner | SS_Sequence element \<Rightarrow> spine n element
      | SS_FixedSequence element _ \<Rightarrow> spine n element | _ \<Rightarrow> True)"

lemma unwraps_mono: "unwraps n shape \<Longrightarrow> n \<le> m \<Longrightarrow> unwraps m shape"
proof (induction n arbitrary: m shape)
  case 0
  then show ?case by (cases m) (auto split: SensitiveShape.splits)
next
  case (Suc n)
  then obtain k where "m = Suc k" "n \<le> k" by (cases m) auto
  then show ?case using Suc by (auto split: SensitiveShape.splits)
qed

lemma spine_unwraps: "spine n shape \<Longrightarrow> unwraps n shape"
  by (induction n arbitrary: shape) (auto split: SensitiveShape.splits)

lemma inherited_spine:
  "inherited_classification limits shape depth = Inr c \<Longrightarrow>
   depth \<le> pl_max_depth limits \<and> spine (pl_max_depth limits - depth) shape"
proof (induction limits shape depth rule: inherited_classification.induct)
  case (1 limits shape depth)
  have le: "depth \<le> pl_max_depth limits"
    using 1(4) by (subst (asm) inherited_classification.simps) (auto split: if_splits)
  have rec: "spine (pl_max_depth limits - depth) shape"
    if "inherited_classification limits inner (Suc depth) = Inr c"
      "Suc depth \<le> pl_max_depth limits \<and> spine (pl_max_depth limits - Suc depth) inner"
      "shape = SS_Optional inner \<or> shape = SS_Sequence inner \<or> (\<exists>len. shape = SS_FixedSequence inner len)" for inner
  proof -
    have "pl_max_depth limits - depth = Suc (pl_max_depth limits - Suc depth)"
      using that(2) by (metis Suc_diff_le diff_Suc_Suc)
    then show ?thesis using that by auto
  qed
  show ?case
  proof (cases shape)
    case SS_Opaque
    then show ?thesis using le by (cases "pl_max_depth limits - depth") auto
  next
    case (SS_Kind k)
    then show ?thesis using le by (cases "pl_max_depth limits - depth") auto
  next
    case (SS_Fields ser de)
    then show ?thesis using le by (cases "pl_max_depth limits - depth") auto
  next
    case (SS_Optional inner)
    then have "inherited_classification limits inner (Suc depth) = Inr c"
      using 1(4) le by (subst (asm) inherited_classification.simps) simp
    then show ?thesis using 1(1)[OF _ SS_Optional] rec SS_Optional le by auto
  next
    case (SS_Sequence inner)
    then have "inherited_classification limits inner (Suc depth) = Inr c"
      using 1(4) le by (subst (asm) inherited_classification.simps) simp
    then show ?thesis using 1(2)[OF _ SS_Sequence] rec SS_Sequence le by auto
  next
    case (SS_FixedSequence inner len)
    then have "inherited_classification limits inner (Suc depth) = Inr c"
      using 1(4) le by (subst (asm) inherited_classification.simps) simp
    then show ?thesis using 1(3)[OF _ SS_FixedSequence] rec SS_FixedSequence le by auto
  qed
qed

lemma visit_returns [simp]: "visit limits depth nodes \<noteq> Inl PS_Diverges"
  by (simp add: visit_def split: option.splits)

lemma validate_returns [simp]:
  "validate_descendants limits depth v nodes \<noteq> Inl PS_Diverges"
  "validate_items limits depth vs nodes \<noteq> Inl PS_Diverges"
  "validate_entries limits depth es nodes \<noteq> Inl PS_Diverges"
  by (induction limits depth v nodes and limits depth vs nodes and limits depth es nodes
      rule: validate_descendants_validate_items_validate_entries.induct)
    (auto simp: bind_result_Inl_iff)

lemma sanitize_classified_returns [simp]: "sanitize_classified p v kind depth path nodes \<noteq> Inl PS_Diverges"
  by (auto simp: sanitize_classified_def validate_value_def bind_result_Inl_iff
      split: option.splits Sanitization.splits)

lemma inherited_returns [simp]: "inherited_classification limits shape depth \<noteq> Inl PS_Diverges"
  by (induction limits shape depth rule: inherited_classification.induct)
    (subst inherited_classification.simps, auto split: SensitiveShape.splits)

lemma has_classified_returns [simp]:
  "has_classified_value limits direction shape depth \<noteq> Inl PS_Diverges"
  "any_classified_field limits direction rest depth \<noteq> Inl PS_Diverges"
proof (induction limits direction shape depth and limits direction rest depth
    rule: has_classified_value_any_classified_field.induct)
  case (1 limits direction shape schema_depth)
  then show ?case by (subst has_classified_value.simps) (auto split: SensitiveShape.splits)
qed (auto simp: bind_result_Inl_iff)

lemma validate_shape_returns:
  "unwraps fuel shape \<Longrightarrow> spine n shape \<Longrightarrow> n \<le> Suc (pl_max_depth limits) \<Longrightarrow>
   validate_shape limits fuel v shape depth nodes \<noteq> Inl PS_Diverges"
  "spine n element \<Longrightarrow> n \<le> Suc (pl_max_depth limits) \<Longrightarrow>
   validate_elements limits vs element depth nodes \<noteq> Inl PS_Diverges"
proof (induction limits fuel v shape depth nodes and limits vs element depth nodes arbitrary: n and n
    rule: validate_shape_validate_elements.induct)
  case (1 limits fuel v shape depth nodes)
  show ?case
  proof (cases shape)
    case (SS_Optional inner)
    then obtain f m where "fuel = Suc f" "unwraps f inner" "n = Suc m" "spine m inner"
      using 1(4,5) by (cases fuel; cases n) auto
    then show ?thesis using 1(1)[OF SS_Optional _ \<open>fuel = Suc f\<close>, of m] 1(6) SS_Optional
      by (subst validate_shape.simps) auto
  next
    case (SS_Sequence element)
    then obtain m where "n = Suc m" "spine m element" using 1(5) by (cases n) auto
    then show ?thesis using 1(2)[OF SS_Sequence] 1(6) SS_Sequence
      by (subst validate_shape.simps) (auto split: json.splits)
  next
    case (SS_FixedSequence element len)
    then obtain m where "n = Suc m" "spine m element" using 1(5) by (cases n) auto
    then show ?thesis using 1(3)[OF SS_FixedSequence] 1(6) SS_FixedSequence
      by (subst validate_shape.simps) (auto split: json.splits)
  next
    case (SS_Kind kind)
    then show ?thesis by (subst validate_shape.simps) simp
  next
    case (SS_Fields serialize deserialize)
    then show ?thesis by (subst validate_shape.simps) (simp split: json.splits)
  next
    case SS_Opaque
    then show ?thesis by (subst validate_shape.simps) simp
  qed
next
  case (3 limits v vs element depth nodes)
  have "unwraps (Suc (pl_max_depth limits)) element"
    using spine_unwraps[OF 3(3)] unwraps_mono 3(4) by blast
  then show ?case using 3 by (auto simp: bind_result_Inl_iff)
qed auto


lemma project_returns:
  "fuel = shape_fuel (pj_limits p) \<or> unwraps fuel shape \<Longrightarrow>
   project_visited p fuel v shape depth path nodes \<noteq> Inl PS_Diverges"
  "project_sequence p v element required depth path nodes \<noteq> Inl PS_Diverges"
  "project_fields p es rest declared projected depth path nodes \<noteq> Inl PS_Diverges"
  "project_elements p vs element depth path nodes \<noteq> Inl PS_Diverges"
proof (induction p fuel v shape depth path nodes and p v element required depth path nodes
    and p es rest declared projected depth path nodes and p vs element depth path nodes
    rule: project_visited_project_sequence_project_fields_project_elements.induct)
  case (1 p fuel v shape depth path nodes)
  show ?case
  proof (cases shape)
    case (SS_Optional inner)
    show ?thesis
    proof (cases "inherited_classification (pj_limits p) inner 0")
      case (Inl e)
      then show ?thesis using SS_Optional inherited_returns[of "pj_limits p" inner 0]
        by (subst project_visited.simps) auto
    next
      case (Inr c)
      have spine: "spine (pl_max_depth (pj_limits p)) inner" using inherited_spine[OF Inr] by simp
      then have shape: "spine (Suc (pl_max_depth (pj_limits p))) shape"
        "unwraps (shape_fuel (pj_limits p)) shape" using SS_Optional spine_unwraps by auto
      obtain f where f: "fuel = Suc f" "unwraps f inner"
        using 1(5) SS_Optional spine_unwraps[OF spine] by (cases fuel) auto
      have "validate_shape (pj_limits p) (shape_fuel (pj_limits p)) v shape depth nodes \<noteq> Inl PS_Diverges"
        using validate_shape_returns(1)[OF shape(2,1)] by simp
      moreover have "project_visited p f v inner depth path nodes \<noteq> Inl PS_Diverges"
        if "c = None" "v \<noteq> JNull"
        using 1(2)[OF SS_Optional _ f(1)] f(2) that by blast
      ultimately show ?thesis using SS_Optional Inr f(1)
        by (subst project_visited.simps)
          (auto simp: bind_result_Inl_iff split: option.splits InheritedClassification.splits)
    qed
  next
    case (SS_Fields ser de)
    then show ?thesis using 1(1)[OF SS_Fields]
      by (subst project_visited.simps) (auto simp: bind_result_Inl_iff split: json.splits)
  next
    case (SS_Sequence element)
    then show ?thesis using 1(3)[OF SS_Sequence] by (subst project_visited.simps) simp
  next
    case (SS_FixedSequence element len)
    then show ?thesis using 1(4)[OF SS_FixedSequence] by (subst project_visited.simps) simp
  next
    case (SS_Kind kind)
    then show ?thesis by (subst project_visited.simps) (auto simp: bind_result_Inl_iff)
  next
    case SS_Opaque
    then show ?thesis by (subst project_visited.simps) simp
  qed
next
  case (2 p v element required depth path nodes)
  show ?case
  proof (cases v)
    case (JArray vs)
    show ?thesis
    proof (cases "inherited_classification (pj_limits p) element 0")
      case (Inl e)
      then show ?thesis using JArray inherited_returns[of "pj_limits p" element 0]
        by (subst project_sequence.simps) auto
    next
      case (Inr c)
      have "spine (pl_max_depth (pj_limits p)) element" using inherited_spine[OF Inr] by simp
      then have "validate_elements (pj_limits p) vs element (Suc depth) nodes \<noteq> Inl PS_Diverges"
        using validate_shape_returns(2) by (meson le_SucI order_refl)
      moreover have "project_elements p vs element (Suc depth) path nodes \<noteq> Inl PS_Diverges"
        if "\<not> (pl_max_array_items (pj_limits p) < length vs
             \<or> (required \<noteq> None \<and> required \<noteq> Some (length vs)))"
        using 2[OF JArray that] .
      ultimately show ?thesis using JArray Inr
        by (subst project_sequence.simps)
          (auto simp: bind_result_Inl_iff split: option.splits InheritedClassification.splits)
    qed
  qed (subst project_sequence.simps, simp)+
next
  case (4 p es name shape rest declared projected depth path nodes)
  then show ?case by (auto simp: bind_result_Inl_iff split: option.splits)
next
  case (6 p v vs element depth path nodes)
  then show ?case by (auto simp: bind_result_Inl_iff)
qed simp_all


section \<open>What is hidden does not show\<close>

text \<open>
  A policy is blind at a path and a kind when it never reveals there and never looks at the value.  Two
  values are indistinct under a shape when they differ only below an opaque shape or where the policy is
  blind.
\<close>

definition blind :: "projector \<Rightarrow> string \<Rightarrow> SensitivityKind \<Rightarrow> bool" where
  "blind p path kind \<longleftrightarrow>
     (\<exists>action. action \<noteq> SZ_Reveal \<and>
        (\<forall>v. sz_sanitize (pj_sanitizer p)
               \<lparr>sn_target = pj_target p, sn_path = path, sn_kind = kind, sn_value = v\<rparr> = Some action))"

inductive indistinct :: "projector \<Rightarrow> SensitiveShape \<Rightarrow> string \<Rightarrow> json \<Rightarrow> json \<Rightarrow> bool" for p where
  opaque: "classified shape (Some IC_Opaque) \<Longrightarrow> indistinct p shape path v w"
| masked: "classified shape (Some (IC_Kind kind)) \<Longrightarrow> v = w \<or> blind p path kind \<Longrightarrow> indistinct p shape path v w"
| null: "classified inner None \<Longrightarrow> indistinct p (SS_Optional inner) path JNull JNull"
| optional: "classified inner None \<Longrightarrow> v \<noteq> JNull \<Longrightarrow> w \<noteq> JNull \<Longrightarrow> indistinct p inner path v w \<Longrightarrow>
    indistinct p (SS_Optional inner) path v w"
| sequence: "classified element None \<Longrightarrow> list_all2 (indistinct p element path) vs ws \<Longrightarrow>
    indistinct p (SS_Sequence element) path (JArray vs) (JArray ws)"
| fixed: "classified element None \<Longrightarrow> list_all2 (indistinct p element path) vs ws \<Longrightarrow>
    indistinct p (SS_FixedSequence element len) path (JArray vs) (JArray ws)"
| fields: "(\<And>name shape. (name, shape) \<in> set (direction_fields (pj_direction p) ser de) \<Longrightarrow>
      rel_option (indistinct p shape (push_path_segment path name)) (map_of es name) (map_of fs name)) \<Longrightarrow>
    indistinct p (SS_Fields ser de) path (JObject es) (JObject fs)"
monos option.rel_mono

lemma sanitize_classified_indistinct:
  assumes "v = w \<or> blind p path kind"
    and "sanitize_classified p v kind depth path n = Inr (r, n1)"
    and "sanitize_classified p w kind depth path m = Inr (s, m1)"
  shows "r = s"
  using assms
  by (auto simp: sanitize_classified_def blind_def bind_result_Inr_iff split: option.splits Sanitization.splits)

lemmas project_visited_simps [simp] =
  project_visited.simps[of _ _ _ SS_Opaque, simplified]
  project_visited.simps[of _ _ _ "SS_Kind _", simplified]
  project_visited.simps[of _ _ _ "SS_Fields _ _", simplified]
  project_visited.simps[of _ _ _ "SS_Sequence _", simplified]
  project_visited.simps[of _ _ _ "SS_FixedSequence _ _", simplified]

lemma project_optional:
  assumes "project_visited p fuel v (SS_Optional inner) depth path n = Inr (r, n1)"
  obtains (opaque) "classified inner (Some IC_Opaque)" "r = PJ_Omit" "n1 = n"
  | (kind) kind n0 where "classified inner (Some (IC_Kind kind))"
      "validate_shape (pj_limits p) (shape_fuel (pj_limits p)) v (SS_Optional inner) depth n = Inr n0"
      "sanitize_classified p v kind depth path n0 = Inr (r, n1)"
  | (null) "classified inner None" "v = JNull" "r = PJ_Omit" "n1 = n"
  | (inner) f where "classified inner None" "v \<noteq> JNull" "fuel = Suc f"
      "project_visited p f v inner depth path n = Inr (r, n1)"
proof -
  obtain c where c: "inherited_classification (pj_limits p) inner 0 = Inr c"
    using assms by (subst (asm) project_visited.simps) (auto simp: bind_result_Inr_iff)
  note run = assms[unfolded project_visited.simps[of _ _ _ "SS_Optional _"], simplified, unfolded c]
  show ?thesis
  proof (cases c)
    case None
    show ?thesis
    proof (cases "v = JNull")
      case False
      then obtain f where "fuel = Suc f" using run None by (cases fuel) auto
      then show ?thesis using run None inherited_classified[OF c] False inner by simp
    qed (use run None inherited_classified[OF c] null in simp)
  next
    case (Some k)
    then show ?thesis using run inherited_classified[OF c] opaque kind
      by (cases k) (auto simp: bind_result_Inr_iff)
  qed
qed

lemma project_sequence_cases:
  assumes "project_sequence p v element required depth path n = Inr (r, n1)"
  obtains (opaque) "classified element (Some IC_Opaque)" "r = PJ_Omit" "n1 = n"
  | (kind) kind vs n0 where "classified element (Some (IC_Kind kind))" "v = JArray vs"
      "length vs \<le> pl_max_array_items (pj_limits p)"
      "validate_elements (pj_limits p) vs element (Suc depth) n = Inr n0"
      "sanitize_classified p v kind depth path n0 = Inr (r, n1)"
  | (elements) vs xs where "classified element None" "v = JArray vs"
      "length vs \<le> pl_max_array_items (pj_limits p)" "required = None \<or> required = Some (length vs)"
      "project_elements p vs element (Suc depth) path n = Inr (xs, n1)"
      "xs \<noteq> [] \<Longrightarrow> r = PJ_Value (JArray xs)" "xs = [] \<Longrightarrow> vs \<noteq> [] \<Longrightarrow> r = PJ_Omit"
      "xs = [] \<Longrightarrow> vs = [] \<Longrightarrow> \<exists>found. has_classified_value (pj_limits p) (pj_direction p) element 0 = Inr found \<and>
         r = (if found then PJ_Value (JArray []) else PJ_Omit)"
proof -
  obtain vs where v: "v = JArray vs" using assms by (cases v) (simp_all add: project_sequence.simps)
  note run = assms[unfolded v project_sequence.simps json.case]
  have len: "length vs \<le> pl_max_array_items (pj_limits p)" "required = None \<or> required = Some (length vs)"
    using run by (simp_all split: if_split_asm)
  have fits: "(pl_max_array_items (pj_limits p) < length vs
      \<or> (required \<noteq> None \<and> required \<noteq> Some (length vs))) = False"
    using len by simp
  note run = run[unfolded fits if_False]
  obtain c where c: "inherited_classification (pj_limits p) element 0 = Inr c"
    using run by (cases "inherited_classification (pj_limits p) element 0") simp_all
  note cls = inherited_classified[OF c] and run = run[unfolded c bind_result_simps]
  consider (none) "c = None" | (opaque) "c = Some IC_Opaque" | (kind) k where "c = Some (IC_Kind k)"
    by (metis InheritedClassification.exhaust option.exhaust)
  then show ?thesis
  proof cases
    case none
    note run = run[unfolded none option.case]
    obtain xs n0 where x: "project_elements p vs element (Suc depth) path n = Inr (xs, n0)"
      using run by (cases "project_elements p vs element (Suc depth) path n") auto
    note run = run[unfolded x bind_result_simps prod.case]
    have "project_elements p vs element (Suc depth) path n = Inr (xs, n1)"
      using run x by (cases "xs = []"; cases "vs = []") (auto simp: bind_result_Inr_iff)
    moreover have "xs \<noteq> [] \<Longrightarrow> r = PJ_Value (JArray xs)" "xs = [] \<Longrightarrow> vs \<noteq> [] \<Longrightarrow> r = PJ_Omit"
      using run by simp_all
    moreover have "\<exists>found. has_classified_value (pj_limits p) (pj_direction p) element 0 = Inr found \<and>
         r = (if found then PJ_Value (JArray []) else PJ_Omit)" if nil: "xs = []" "vs = []"
    proof -
      obtain found where "has_classified_value (pj_limits p) (pj_direction p) element 0 = Inr found"
        using run nil by (cases "has_classified_value (pj_limits p) (pj_direction p) element 0") simp_all
      then show ?thesis using run nil by (cases found) auto
    qed
    ultimately show ?thesis using that(3)[OF _ v len] cls none by simp
  next
    case opaque
    then show ?thesis using run cls that(1) by simp
  next
    case (kind k)
    then obtain n0 where "validate_elements (pj_limits p) vs element (Suc depth) n = Inr n0"
      "sanitize_classified p v k depth path n0 = Inr (r, n1)"
      using run v by (auto simp: bind_result_Inr_iff)
    then show ?thesis using that(2)[OF _ v len(1)] cls kind by simp
  qed
qed

text \<open>A shape that is classified as a whole is omitted or left to the policy.\<close>

lemma project_classified:
  assumes "project_visited p fuel v shape depth path n = Inr (r, n1)" and "classified shape (Some c)"
  shows "case c of IC_Opaque \<Rightarrow> r = PJ_Omit
    | IC_Kind kind \<Rightarrow> \<exists>n0. sanitize_classified p v kind depth path n0 = Inr (r, n1)"
proof -
  have sequence: ?thesis
    if "project_sequence p v element required depth path n = Inr (r, n1)" "classified element (Some c)" for element required
    using that(1) by (cases rule: project_sequence_cases) (auto dest!: classified_unique[OF that(2)])
  show ?thesis
  proof (cases shape)
    case (SS_Optional inner)
    then have "project_visited p fuel v (SS_Optional inner) depth path n = Inr (r, n1)" "classified inner (Some c)"
      using assms by simp_all
    then show ?thesis
      by (cases rule: project_optional) (auto dest!: classified_unique[OF \<open>classified inner (Some c)\<close>])
  qed (use assms sequence in \<open>auto simp: bind_result_Inr_iff\<close>)
qed


lemma project_indistinct_classified:
  assumes "classified shape (Some c)" and "indistinct p shape path v w"
    and "project_visited p fuel v shape depth path n = Inr (r, n1)"
    and "project_visited p fuel' w shape depth path m = Inr (s, m1)"
  shows "r = s"
proof (cases c)
  case IC_Opaque
  then show ?thesis
    using project_classified[OF assms(3,1)] project_classified[OF assms(4,1)] by simp
next
  case (IC_Kind kind)
  obtain n0 m0 where runs: "sanitize_classified p v kind depth path n0 = Inr (r, n1)"
    "sanitize_classified p w kind depth path m0 = Inr (s, m1)"
    using project_classified[OF assms(3,1)] project_classified[OF assms(4,1)] IC_Kind by auto
  have "v = w \<or> blind p path kind"
    using assms(2) IC_Kind assms(1)
    by (cases rule: indistinct.cases) (auto dest: classified_unique)
  then show ?thesis using sanitize_classified_indistinct runs by blast
qed

lemma classified_shape_cases:
  obtains c where "classified shape (Some c)"
  | "\<And>c. \<not> classified shape (Some c)"
  by blast

lemma indistinct_unclassified:
  assumes "indistinct p shape path v w" and "\<And>c. \<not> classified shape (Some c)"
  obtains (null) inner where "shape = SS_Optional inner" "v = JNull" "w = JNull"
  | (optional) inner where "shape = SS_Optional inner" "v \<noteq> JNull" "w \<noteq> JNull" "indistinct p inner path v w"
  | (sequence) element vs ws where "shape = SS_Sequence element \<or> (\<exists>len. shape = SS_FixedSequence element len)"
      "v = JArray vs" "w = JArray ws" "list_all2 (indistinct p element path) vs ws"
  | (fields) ser de es fs where "shape = SS_Fields ser de" "v = JObject es" "w = JObject fs"
      "\<And>name shape. (name, shape) \<in> set (direction_fields (pj_direction p) ser de) \<Longrightarrow>
        rel_option (indistinct p shape (push_path_segment path name)) (map_of es name) (map_of fs name)"
  using assms(1)
proof (cases rule: indistinct.cases)
  case (fields ser de es fs)
  then show ?thesis by (rule that(4))
next
  case opaque
  then show ?thesis using assms(2) by blast
next
  case (masked kind)
  then show ?thesis using assms(2) by blast
next
  case (null inner)
  then show ?thesis using that(1) by blast
next
  case (optional inner)
  then show ?thesis using that(2) by blast
next
  case (sequence element vs ws)
  then show ?thesis using that(3) by blast
next
  case (fixed element vs ws len)
  then show ?thesis using that(3) by blast
qed

lemma project_indistinct:
  "indistinct p shape path v w \<Longrightarrow>
   project_visited p fuel v shape depth path n = Inr (r, n1) \<Longrightarrow>
   project_visited p fuel w shape depth path m = Inr (s, m1) \<Longrightarrow> r = s"
  "v = JArray vs \<Longrightarrow> w = JArray ws \<Longrightarrow> list_all2 (indistinct p element path) vs ws \<Longrightarrow>
   (\<And>c. \<not> classified element (Some c)) \<Longrightarrow>
   project_sequence p v element required depth path n = Inr (r, n1) \<Longrightarrow>
   project_sequence p w element required depth path m = Inr (s, m1) \<Longrightarrow> r = s"
  "(\<And>name shape. (name, shape) \<in> set rest \<Longrightarrow>
      rel_option (indistinct p shape (push_path_segment path name)) (map_of es name) (map_of fs name)) \<Longrightarrow>
   project_fields p es rest declared projected depth path n = Inr (xs, n1) \<Longrightarrow>
   project_fields p fs rest declared projected depth path m = Inr (ys, m1) \<Longrightarrow> xs = ys"
  "list_all2 (indistinct p element path) vs ws \<Longrightarrow>
   project_elements p vs element depth path n = Inr (js, n1) \<Longrightarrow>
   project_elements p ws element depth path m = Inr (ks, m1) \<Longrightarrow> js = ks"
proof (induction p fuel v shape depth path n and p v element required depth path n
    and p es rest declared projected depth path n and p vs element depth path n
    arbitrary: w m r s n1 m1 and vs w ws m r s n1 m1 and fs m xs ys n1 m1 and ws m js ks n1 m1
    rule: project_visited_project_sequence_project_fields_project_elements.induct)
  case (1 p fuel v shape depth path n)
  note IH = 1(1-4) and run = 1(6,7)
  show ?case
  proof (cases rule: classified_shape_cases[of shape])
    case (1 c)
    then show ?thesis using project_indistinct_classified \<open>indistinct p shape path v w\<close> run by blast
  next
    case 2
    with \<open>indistinct p shape path v w\<close> show ?thesis
    proof (cases rule: indistinct_unclassified)
      case (null inner)
      then show ?thesis using run 2 by (auto elim!: project_optional)
    next
      case (optional inner)
      obtain f where f: "fuel = Suc f" "project_visited p f v inner depth path n = Inr (r, n1)"
        using run(1) 2 optional by (auto elim!: project_optional)
      obtain f' where "fuel = Suc f'" "project_visited p f' w inner depth path m = Inr (s, m1)"
        using run(2) 2 optional by (auto elim!: project_optional)
      then show ?thesis using IH(2)[OF optional(1) _ f(1)] f optional by auto
    next
      case (sequence element vs ws)
      have nc: "\<And>c. \<not> classified element (Some c)" using 2 sequence(1) by auto
      show ?thesis
      proof (cases shape)
        case (SS_Sequence e)
        then show ?thesis
          using IH(3)[OF SS_Sequence sequence(2,3)] sequence nc run by simp
      next
        case (SS_FixedSequence e len)
        then show ?thesis
          using IH(4)[OF SS_FixedSequence sequence(2,3)] sequence nc run by simp
      qed (use sequence in auto)
    next
      case (fields ser de es fs)
      let ?fields = "direction_fields (pj_direction p) ser de"
      obtain xs where xs: "project_fields p es ?fields [] [] (Suc depth) path n = Inr (xs, n1)"
        "r = (if xs = [] then PJ_Omit else PJ_Value (JObject xs))"
        using run(1) fields by (auto simp: bind_result_Inr_iff)
      obtain ys where ys: "project_fields p fs ?fields [] [] (Suc depth) path m = Inr (ys, m1)"
        "s = (if ys = [] then PJ_Omit else PJ_Value (JObject ys))"
        using run(2) fields by (auto simp: bind_result_Inr_iff)
      have "xs = ys" using IH(1)[OF fields(1,2) fields(4) xs(1) ys(1)] .
      then show ?thesis using xs ys by simp
    qed
  qed
next
  case (2 p v element required depth path n)
  have len: "length vs = length ws" using 2(4) by (rule list_all2_lengthD)
  obtain xs where xs: "project_elements p vs element (Suc depth) path n = Inr (xs, n1)"
    "length vs \<le> pl_max_array_items (pj_limits p)" "required = None \<or> required = Some (length vs)"
    "xs \<noteq> [] \<Longrightarrow> r = PJ_Value (JArray xs)" "xs = [] \<Longrightarrow> vs \<noteq> [] \<Longrightarrow> r = PJ_Omit"
    "xs = [] \<Longrightarrow> vs = [] \<Longrightarrow> \<exists>found. has_classified_value (pj_limits p) (pj_direction p) element 0 = Inr found \<and>
       r = (if found then PJ_Value (JArray []) else PJ_Omit)"
    using 2(6) by (cases rule: project_sequence_cases) (use 2(2,5) in auto)
  obtain ys where ys: "project_elements p ws element (Suc depth) path m = Inr (ys, m1)"
    "ys \<noteq> [] \<Longrightarrow> s = PJ_Value (JArray ys)" "ys = [] \<Longrightarrow> ws \<noteq> [] \<Longrightarrow> s = PJ_Omit"
    "ys = [] \<Longrightarrow> ws = [] \<Longrightarrow> \<exists>found. has_classified_value (pj_limits p) (pj_direction p) element 0 = Inr found \<and>
       s = (if found then PJ_Value (JArray []) else PJ_Omit)"
    using 2(7) by (cases rule: project_sequence_cases) (use 2(3,5) in auto)
  have "\<not> (pl_max_array_items (pj_limits p) < length vs \<or> (required \<noteq> None \<and> required \<noteq> Some (length vs)))"
    using xs(2,3) by auto
  from 2(1)[OF 2(2) this 2(4) xs(1) ys(1)] have same: "xs = ys" .
  consider "xs \<noteq> []" | "xs = []" "vs \<noteq> []" "ws \<noteq> []" | "xs = []" "vs = []" "ws = []"
    using len by (cases vs; cases ws) auto
  then show ?case
  proof cases
    case 1
    then show ?thesis using xs(4) ys(2) same by simp
  next
    case 2
    then show ?thesis using xs(5) ys(3) same by simp
  next
    case 3
    then show ?thesis using xs(6) ys(4) same by auto
  qed
next
  case (3 p es declared projected depth path n)
  then show ?case by simp
next
  case (4 p es name shape rest declared projected depth path n)
  have rest: "rel_option (indistinct p sh (push_path_segment path k)) (map_of es k) (map_of fs k)"
    if "(k, sh) \<in> set rest" for k sh
    using 4(4) that by simp
  have fresh: "name \<notin> set declared" using 4(5) by (auto split: if_splits)
  show ?case
  proof (cases "map_of es name")
    case None
    then have "map_of fs name = None" using 4(4)[of name shape] by (cases "map_of fs name") auto
    then show ?thesis using 4(1)[OF fresh None rest] 4(5,6) None fresh by simp
  next
    case (Some v)
    then obtain w where w: "map_of fs name = Some w" "indistinct p shape (push_path_segment path name) v w"
      using 4(4)[of name shape] by (cases "map_of fs name") auto
    obtain k1 x k2 where x: "visit (pj_limits p) depth n = Inr k1"
      "project_visited p (shape_fuel (pj_limits p)) v shape depth (push_path_segment path name) k1 = Inr (x, k2)"
      "project_fields p es rest (name # declared)
         (case x of PJ_Omit \<Rightarrow> projected | PJ_Value j \<Rightarrow> bt_insert name j projected) depth path k2 = Inr (xs, n1)"
      using 4(5) Some fresh by (auto simp: bind_result_Inr_iff)
    obtain l1 y l2 where y: "visit (pj_limits p) depth m = Inr l1"
      "project_visited p (shape_fuel (pj_limits p)) w shape depth (push_path_segment path name) l1 = Inr (y, l2)"
      "project_fields p fs rest (name # declared)
         (case y of PJ_Omit \<Rightarrow> projected | PJ_Value j \<Rightarrow> bt_insert name j projected) depth path l2 = Inr (ys, m1)"
      using 4(6) w fresh by (auto simp: bind_result_Inr_iff)
    have "x = y" using 4(2)[OF fresh Some w(2) x(2) y(2)] .
    then show ?thesis using 4(3)[OF fresh Some rest x(3)] y(3) by simp
  qed
next
  case (5 p element depth path n)
  then show ?case by simp
next
  case (6 p v vs element depth path n)
  obtain w ws' where w: "ws = w # ws'" "indistinct p element path v w" "list_all2 (indistinct p element path) vs ws'"
    using 6(3) by (auto simp: list_all2_Cons1)
  obtain k1 x k2 xs k3 where x: "visit (pj_limits p) depth n = Inr k1"
    "project_visited p (shape_fuel (pj_limits p)) v element depth path k1 = Inr (x, k2)"
    "project_elements p vs element depth path k2 = Inr (xs, k3)"
    "js = (case x of PJ_Omit \<Rightarrow> xs | PJ_Value j \<Rightarrow> j # xs)"
    using 6(4) by (auto simp: bind_result_Inr_iff)
  obtain l1 y l2 ys l3 where y: "visit (pj_limits p) depth m = Inr l1"
    "project_visited p (shape_fuel (pj_limits p)) w element depth path l1 = Inr (y, l2)"
    "project_elements p ws' element depth path l2 = Inr (ys, l3)"
    "ks = (case y of PJ_Omit \<Rightarrow> ys | PJ_Value j \<Rightarrow> j # ys)"
    using 6(5) w(1) by (auto simp: bind_result_Inr_iff)
  have "x = y" using 6(1)[OF w(2) x(2) y(2)] .
  moreover have "xs = ys" using 6(2)[OF w(3) x(3) y(3)] .
  ultimately show ?case using x(4) y(4) by blast
qed

section \<open>Limits\<close>

fun json_nodes :: "json \<Rightarrow> nat" where
  "json_nodes (JArray vs) = Suc (sum_list (map json_nodes vs))"
| "json_nodes (JObject es) = Suc (sum_list (map (\<lambda>e. json_nodes (snd e)) es))"
| "json_nodes v = 1"

text \<open>A value at a depth within the limits; the marker of a redaction may be longer than a revealed string.\<close>

fun within :: "ProjectionLimits \<Rightarrow> nat \<Rightarrow> json \<Rightarrow> bool" where
  "within l d (JArray vs) \<longleftrightarrow>
     d \<le> pl_max_depth l \<and> length vs \<le> pl_max_array_items l \<and> list_all (within l (Suc d)) vs"
| "within l d (JObject es) \<longleftrightarrow> d \<le> pl_max_depth l \<and> list_all (\<lambda>e. within l (Suc d) (snd e)) es"
| "within l d (JString t) \<longleftrightarrow> d \<le> pl_max_depth l \<and> (length t \<le> pl_max_string_bytes l \<or> t = REDACTED)"
| "within l d v \<longleftrightarrow> d \<le> pl_max_depth l"

lemma visit_Inr: "visit l d n = Inr n' \<Longrightarrow> n' = Suc n \<and> d \<le> pl_max_depth l \<and> n' \<le> pl_max_nodes l"
  by (auto simp: visit_def checked_add_def split: if_splits option.splits)

lemma validate_within:
  "validate_descendants l d v n = Inr n' \<Longrightarrow> d \<le> pl_max_depth l \<Longrightarrow> within l d v \<and> Suc n' = n + json_nodes v"
  "validate_items l d vs n = Inr n' \<Longrightarrow>
   list_all (within l d) vs \<and> n' = n + sum_list (map json_nodes vs)"
  "validate_entries l d es n = Inr n' \<Longrightarrow>
   list_all (\<lambda>e. within l d (snd e)) es \<and> n' = n + sum_list (map (\<lambda>e. json_nodes (snd e)) es)"
proof (induction l d v n and l d vs n and l d es n arbitrary: n' and n' and n'
    rule: validate_descendants_validate_items_validate_entries.induct)
  case (8 l d v vs n)
  then show ?case by (fastforce simp: bind_result_Inr_iff dest: visit_Inr)
next
  case (10 l d name v es n)
  then show ?case by (fastforce simp: bind_result_Inr_iff dest: visit_Inr split: if_splits)
qed (auto split: if_splits)

lemmas validate_shape_simps [simp] =
  validate_shape.simps[of _ _ _ SS_Opaque, simplified]
  validate_shape.simps[of _ _ _ "SS_Kind _", simplified]
  validate_shape.simps[of _ _ _ "SS_Fields _ _", simplified]
  validate_shape.simps[of _ _ _ "SS_Optional _", simplified]
  validate_shape.simps[of _ _ _ "SS_Sequence _", simplified]
  validate_shape.simps[of _ _ _ "SS_FixedSequence _ _", simplified]

lemma validate_shape_within:
  "validate_shape l fuel v shape d n = Inr n' \<Longrightarrow> classified shape (Some (IC_Kind k)) \<Longrightarrow> d \<le> pl_max_depth l \<Longrightarrow>
   within l d v \<and> Suc n' = n + json_nodes v"
  "validate_elements l vs element d n = Inr n' \<Longrightarrow> classified element (Some (IC_Kind k)) \<Longrightarrow>
   list_all (within l d) vs \<and> n' = n + sum_list (map json_nodes vs)"
proof (induction l fuel v shape d n and l vs element d n arbitrary: n' and n'
    rule: validate_shape_validate_elements.induct)
  case (1 l fuel v shape d n)
  show ?case
  proof (cases shape)
    case (SS_Optional inner)
    then show ?thesis using 1(1)[OF SS_Optional] 1(4-6) by (auto split: if_splits nat.splits)
  next
    case (SS_Sequence element)
    then show ?thesis using 1(2)[OF SS_Sequence] 1(4-6) by (auto split: if_splits json.splits)
  next
    case (SS_FixedSequence element len)
    then show ?thesis using 1(3)[OF SS_FixedSequence] 1(4-6) by (auto split: if_splits json.splits)
  next
    case (SS_Kind kind)
    then show ?thesis using 1(4,6) validate_within(1) by simp
  qed (use 1(5) in simp_all)
next
  case (3 l v vs element d n)
  then show ?case by (fastforce simp: bind_result_Inr_iff dest: visit_Inr)
qed simp


lemma sanitize_classified_within:
  assumes "sanitize_classified p v kind depth path n = Inr (PJ_Value x, n1)" and "depth \<le> pl_max_depth (pj_limits p)"
    and "within (pj_limits p) depth v" and "Suc n = n0 + json_nodes v"
  shows "within (pj_limits p) depth x \<and> n0 + json_nodes x \<le> Suc n1"
proof -
  have "1 \<le> json_nodes v" by (cases v) auto
  then show ?thesis
    using assms
    by (auto simp: sanitize_classified_def validate_value_def bind_result_Inr_iff
        split: option.splits Sanitization.splits dest!: visit_Inr dest: validate_within(1))
qed

lemma sanitize_classified_mono: "sanitize_classified p v kind depth path n = Inr (r, n1) \<Longrightarrow> n \<le> n1"
  by (fastforce simp: sanitize_classified_def validate_value_def bind_result_Inr_iff
      split: option.splits Sanitization.splits dest!: visit_Inr
      dest: validate_within(1))

definition entry_nodes :: "(string \<times> json) list \<Rightarrow> nat" where
  "entry_nodes es = sum_list (map (\<lambda>e. json_nodes (snd e)) es)"

lemma entry_nodes_insert: "entry_nodes (bt_insert k x es) \<le> entry_nodes es + json_nodes x"
  by (induction k x es rule: bt_insert.induct) (auto simp: entry_nodes_def)

lemma bt_insert_all: "list_all P es \<Longrightarrow> P (k, x) \<Longrightarrow> list_all P (bt_insert k x es)"
  by (induction k x es rule: bt_insert.induct) auto

text \<open>\<open>spent\<close>: the nodes of what was projected were all visited.\<close>

definition spent :: "ProjectionLimits \<Rightarrow> nat \<Rightarrow> nat \<Rightarrow> projected \<Rightarrow> nat \<Rightarrow> bool" where
  "spent l d n r n1 \<longleftrightarrow>
     n \<le> n1 \<and> (case r of PJ_Omit \<Rightarrow> True | PJ_Value x \<Rightarrow> within l d x \<and> n + json_nodes x \<le> Suc n1)"

lemma spent_simps [simp]:
  "spent l d n PJ_Omit n1 \<longleftrightarrow> n \<le> n1"
  "spent l d n (PJ_Value x) n1 \<longleftrightarrow> n \<le> n1 \<and> within l d x \<and> n + json_nodes x \<le> Suc n1"
  by (auto simp: spent_def)

lemma classified_spent:
  assumes "sanitize_classified p v kind d path n0 = Inr (r, n1)" and "d \<le> pl_max_depth (pj_limits p)"
    and "within (pj_limits p) d v" and "Suc n0 = n + json_nodes v"
  shows "spent (pj_limits p) d n r n1"
proof -
  have "1 \<le> json_nodes v" by (cases v) auto
  then have "n \<le> n1" using sanitize_classified_mono[OF assms(1)] assms(4) by simp
  then show ?thesis using sanitize_classified_within assms by (cases r) auto
qed


lemma project_spent:
  "project_visited p fuel v shape d path n = Inr (r, n1) \<Longrightarrow> d \<le> pl_max_depth (pj_limits p) \<Longrightarrow>
   spent (pj_limits p) d n r n1"
  "project_sequence p v element required d path n = Inr (r, n1) \<Longrightarrow> d \<le> pl_max_depth (pj_limits p) \<Longrightarrow>
   spent (pj_limits p) d n r n1"
  "project_fields p es rest declared projected d path n = Inr (xs, n1) \<Longrightarrow>
   list_all (\<lambda>e. within (pj_limits p) d (snd e)) projected \<Longrightarrow>
   n \<le> n1 \<and> list_all (\<lambda>e. within (pj_limits p) d (snd e)) xs \<and> n + entry_nodes xs \<le> n1 + entry_nodes projected"
  "project_elements p vs element d path n = Inr (js, n1) \<Longrightarrow>
   n \<le> n1 \<and> list_all (within (pj_limits p) d) js \<and> length js \<le> length vs \<and> n + sum_list (map json_nodes js) \<le> n1"
proof (induction p fuel v shape d path n and p v element required d path n
    and p es rest declared projected d path n and p vs element d path n
    arbitrary: r n1 and r n1 and xs n1 and js n1
    rule: project_visited_project_sequence_project_fields_project_elements.induct)
  case (1 p fuel v shape d path n)
  show ?case
  proof (cases shape)
    case (SS_Kind kind)
    then show ?thesis
      using 1(5,6) classified_spent by (auto simp: bind_result_Inr_iff dest!: validate_within(1))
  next
    case (SS_Fields ser de)
    then obtain es where v: "v = JObject es" using 1(5) by (cases v) auto
    obtain xs where xs: "project_fields p es (direction_fields (pj_direction p) ser de) [] [] (Suc d) path n = Inr (xs, n1)"
      "r = (if xs = [] then PJ_Omit else PJ_Value (JObject xs))"
      using 1(5) SS_Fields v by (auto simp: bind_result_Inr_iff)
    then show ?thesis using 1(1)[OF SS_Fields v xs(1)] 1(6) by (simp add: entry_nodes_def)
  next
    case (SS_Optional inner)
    note run = 1(5)[unfolded SS_Optional]
    from run show ?thesis
    proof (cases rule: project_optional)
      case (kind k n0)
      have "classified (SS_Optional inner) (Some (IC_Kind k))" using kind(1) by simp
      then show ?thesis using classified_spent kind(2,3) validate_shape_within(1) 1(6) by blast
    next
      case (inner f)
      then show ?thesis using 1(2)[OF SS_Optional inner(2,3,4) 1(6)] by blast
    qed simp_all
  next
    case (SS_Sequence element)
    then show ?thesis using 1(3)[OF SS_Sequence] 1(5,6) by simp
  next
    case (SS_FixedSequence element len)
    then show ?thesis using 1(4)[OF SS_FixedSequence] 1(5,6) by simp
  qed (use 1 in simp)
next
  case (2 p v element required d path n)
  from 2(2) show ?case
  proof (cases rule: project_sequence_cases)
    case (kind k vs n0)
    have "within (pj_limits p) d v \<and> Suc n0 = n + json_nodes v"
      using validate_shape_within(2)[OF kind(4,1)] kind(2,3) 2(3) by simp
    then show ?thesis using classified_spent[OF kind(5) 2(3)] by blast
  next
    case (elements vs xs)
    have "\<not> (pl_max_array_items (pj_limits p) < length vs \<or> (required \<noteq> None \<and> required \<noteq> Some (length vs)))"
      using elements(3,4) by auto
    note IH = 2(1)[OF elements(2) this elements(5)]
    have r: "r = PJ_Omit \<or> r = PJ_Value (JArray xs)"
      using elements(6-8) by (cases "xs = []"; cases "vs = []") auto
    then show ?thesis using IH elements(3) 2(3) by auto
  qed simp
next
  case (3 p es declared projected d path n)
  then show ?case by simp
next
  case (4 p es name shape rest declared projected d path n)
  have fresh: "name \<notin> set declared" using 4(4) by (auto split: if_splits)
  show ?case
  proof (cases "map_of es name")
    case None
    then show ?thesis using 4(1)[OF fresh None _ 4(5)] 4(4) fresh by simp
  next
    case (Some v)
    obtain k1 x k2 where x: "visit (pj_limits p) d n = Inr k1"
      "project_visited p (shape_fuel (pj_limits p)) v shape d (push_path_segment path name) k1 = Inr (x, k2)"
      "project_fields p es rest (name # declared)
         (case x of PJ_Omit \<Rightarrow> projected | PJ_Value j \<Rightarrow> bt_insert name j projected) d path k2 = Inr (xs, n1)"
      using 4(4) Some fresh by (auto simp: bind_result_Inr_iff)
    note visited = visit_Inr[OF x(1)]
    have spent: "spent (pj_limits p) d k1 x k2" using 4(2)[OF fresh Some x(2)] visited by blast
    have "list_all (\<lambda>e. within (pj_limits p) d (snd e))
        (case x of PJ_Omit \<Rightarrow> projected | PJ_Value j \<Rightarrow> bt_insert name j projected)"
      using spent 4(5) by (cases x) (auto intro: bt_insert_all)
    note rest = 4(3)[OF fresh Some x(3) this]
    show ?thesis
    proof (cases x)
      case PJ_Omit
      then show ?thesis using rest spent visited by simp
    next
      case (PJ_Value j)
      then show ?thesis using rest spent visited entry_nodes_insert[of name j projected] by simp
    qed
  qed
next
  case (5 p element d path n)
  then show ?case by simp
next
  case (6 p v vs element d path n)
  obtain k1 x k2 xs where x: "visit (pj_limits p) d n = Inr k1"
    "project_visited p (shape_fuel (pj_limits p)) v element d path k1 = Inr (x, k2)"
    "project_elements p vs element d path k2 = Inr (xs, n1)"
    "js = (case x of PJ_Omit \<Rightarrow> xs | PJ_Value j \<Rightarrow> j # xs)"
    using 6(3) by (auto simp: bind_result_Inr_iff)
  note visited = visit_Inr[OF x(1)]
  have "spent (pj_limits p) d k1 x k2" using 6(1)[OF x(2)] visited by blast
  then show ?case using 6(2)[OF x(3)] visited x(4) by (cases x) auto
qed

text \<open>The visited nodes never pass their limit.\<close>

abbreviation node_limit :: "ProjectionLimits \<Rightarrow> nat \<Rightarrow> nat" where
  "node_limit l n \<equiv> max n (pl_max_nodes l)"

lemma validate_node_limit:
  "validate_descendants l d v n = Inr n' \<Longrightarrow> n' \<le> node_limit l n"
  "validate_items l d vs n = Inr n' \<Longrightarrow> n' \<le> node_limit l n"
  "validate_entries l d es n = Inr n' \<Longrightarrow> n' \<le> node_limit l n"
proof (induction l d v n and l d vs n and l d es n arbitrary: n' and n' and n'
    rule: validate_descendants_validate_items_validate_entries.induct)
  case (8 l d v vs n)
  then show ?case by (fastforce simp: bind_result_Inr_iff dest: visit_Inr)
next
  case (10 l d name v es n)
  then show ?case by (fastforce simp: bind_result_Inr_iff dest: visit_Inr split: if_splits)
qed (auto split: if_splits)

lemma validate_shape_node_limit:
  "validate_shape l fuel v shape d n = Inr n' \<Longrightarrow> n' \<le> node_limit l n"
  "validate_elements l vs element d n = Inr n' \<Longrightarrow> n' \<le> node_limit l n"
proof (induction l fuel v shape d n and l vs element d n arbitrary: n' and n'
    rule: validate_shape_validate_elements.induct)
  case (1 l fuel v shape d n)
  show ?case
  proof (cases shape)
    case (SS_Kind kind)
    then show ?thesis using 1(4) validate_node_limit(1) by simp
  qed (use 1 in \<open>auto split: if_splits json.splits nat.splits\<close>)
next
  case (3 l v vs element d n)
  then show ?case by (fastforce simp: bind_result_Inr_iff dest: visit_Inr)
qed simp

lemma sanitize_classified_node_limit:
  "sanitize_classified p v kind d path n = Inr (r, n1) \<Longrightarrow> n1 \<le> node_limit (pj_limits p) n"
  by (fastforce simp: sanitize_classified_def validate_value_def bind_result_Inr_iff
      split: option.splits Sanitization.splits dest!: visit_Inr dest: validate_node_limit(1))

lemma project_node_limit:
  "project_visited p fuel v shape d path n = Inr (r, n1) \<Longrightarrow> n1 \<le> node_limit (pj_limits p) n"
  "project_sequence p v element required d path n = Inr (r, n1) \<Longrightarrow> n1 \<le> node_limit (pj_limits p) n"
  "project_fields p es rest declared projected d path n = Inr (xs, n1) \<Longrightarrow> n1 \<le> node_limit (pj_limits p) n"
  "project_elements p vs element d path n = Inr (js, n1) \<Longrightarrow> n1 \<le> node_limit (pj_limits p) n"
proof (induction p fuel v shape d path n and p v element required d path n
    and p es rest declared projected d path n and p vs element d path n
    arbitrary: r n1 and r n1 and xs n1 and js n1
    rule: project_visited_project_sequence_project_fields_project_elements.induct)
  case (1 p fuel v shape d path n)
  show ?case
  proof (cases shape)
    case (SS_Kind kind)
    then obtain k where "validate_descendants (pj_limits p) d v n = Inr k" "sanitize_classified p v kind d path k = Inr (r, n1)"
      using 1(5) by (auto simp: bind_result_Inr_iff)
    from validate_node_limit(1)[OF this(1)] sanitize_classified_node_limit[OF this(2)] show ?thesis by simp
  next
    case (SS_Fields ser de)
    then show ?thesis using 1(1)[OF SS_Fields] 1(5) by (auto simp: bind_result_Inr_iff split: json.splits)
  next
    case (SS_Optional inner)
    note run = 1(5)[unfolded SS_Optional]
    from run show ?thesis
    proof (cases rule: project_optional)
      case (kind k n0)
      from validate_shape_node_limit(1)[OF kind(2)] sanitize_classified_node_limit[OF kind(3)] show ?thesis by simp
    next
      case (inner f)
      then show ?thesis using 1(2)[OF SS_Optional inner(2,3,4)] by blast
    qed simp_all
  next
    case (SS_Sequence element)
    then show ?thesis using 1(3)[OF SS_Sequence] 1(5) by simp
  next
    case (SS_FixedSequence element len)
    then show ?thesis using 1(4)[OF SS_FixedSequence] 1(5) by simp
  qed (use 1 in simp)
next
  case (2 p v element required d path n)
  from 2(2) show ?case
  proof (cases rule: project_sequence_cases)
    case (kind k vs n0)
    from validate_shape_node_limit(2)[OF kind(4)] sanitize_classified_node_limit[OF kind(5)] show ?thesis by simp
  next
    case (elements vs xs)
    have "\<not> (pl_max_array_items (pj_limits p) < length vs \<or> (required \<noteq> None \<and> required \<noteq> Some (length vs)))"
      using elements(3,4) by auto
    from 2(1)[OF elements(2) this elements(5)] show ?thesis .
  qed simp
next
  case (4 p es name shape rest declared projected d path n)
  have fresh: "name \<notin> set declared" using 4(4) by (auto split: if_splits)
  show ?case
  proof (cases "map_of es name")
    case None
    then show ?thesis using 4(1)[OF fresh None] 4(4) fresh by simp
  next
    case (Some v)
    obtain k1 x k2 where x: "visit (pj_limits p) d n = Inr k1"
      "project_visited p (shape_fuel (pj_limits p)) v shape d (push_path_segment path name) k1 = Inr (x, k2)"
      "project_fields p es rest (name # declared)
         (case x of PJ_Omit \<Rightarrow> projected | PJ_Value j \<Rightarrow> bt_insert name j projected) d path k2 = Inr (xs, n1)"
      using 4(4) Some fresh by (auto simp: bind_result_Inr_iff)
    show ?thesis using visit_Inr[OF x(1)] 4(2)[OF fresh Some x(2)] 4(3)[OF fresh Some x(3)] by simp
  qed
next
  case (6 p v vs element d path n)
  obtain k1 x k2 xs where x: "visit (pj_limits p) d n = Inr k1"
    "project_visited p (shape_fuel (pj_limits p)) v element d path k1 = Inr (x, k2)"
    "project_elements p vs element d path k2 = Inr (xs, n1)"
    using 6(3) by (auto simp: bind_result_Inr_iff)
  show ?case using visit_Inr[OF x(1)] 6(1)[OF x(2)] 6(2)[OF x(3)] by simp
qed simp_all

section \<open>Properties\<close>

lemma fail_closed_Some: "fail_closed r = Some (Some x) \<longleftrightarrow> r = Inr (Some x)"
  by (auto simp: fail_closed_def split: sum.splits projection_stop.splits)

lemma fail_closed_ends: "r \<noteq> Inl PS_Diverges \<Longrightarrow> fail_closed r \<noteq> None"
  by (auto simp: fail_closed_def split: sum.splits projection_stop.splits)

lemma finish_projection_Some:
  "finish_projection to_vec limits projected = Inr (Some x) \<longleftrightarrow>
   projected = PJ_Value x \<and> (\<exists>e. to_vec x = Some e \<and> length e \<le> pl_max_output_bytes limits)"
  by (auto simp: finish_projection_def split: projected.splits option.splits)

lemma finish_projection_ends [simp]: "finish_projection to_vec limits projected \<noteq> Inl PS_Diverges"
  by (auto simp: finish_projection_def split: projected.splits option.splits)

abbreviation argument_projector :: "Side \<Rightarrow> Sanitizer \<Rightarrow> projector" where
  "argument_projector side sanitizer \<equiv> \<lparr>pj_sanitizer = sanitizer, pj_target = ST_Arguments,
     pj_direction = (case side of SD_Client \<Rightarrow> PD_Serialize | SD_Server \<Rightarrow> PD_Deserialize)\<rparr>"

abbreviation response_projector :: "ProjectionDirection \<Rightarrow> Sanitizer \<Rightarrow> projector" where
  "response_projector direction sanitizer \<equiv>
     \<lparr>pj_sanitizer = sanitizer, pj_target = ST_Response, pj_direction = direction\<rparr>"

lemma sanitized_arguments_Some:
  assumes "sanitized_arguments to_vec side (Some s) (Some arguments) sanitizer = Some (Some x)"
  obtains projected nodes e where
    "project_fields (argument_projector side sanitizer) arguments (ms_arguments s) [] [] 0 [] 0 = Inr (projected, nodes)"
    "x = JObject projected" "to_vec x = Some e" "length e \<le> pl_max_output_bytes (sz_limits sanitizer)"
  using assms
  by (auto simp: sanitized_arguments_def sanitize_arguments_def Let_def fail_closed_Some bind_result_Inr_iff
      finish_projection_Some split: if_splits)

lemma sanitized_body_Some:
  assumes "sanitized_body to_vec from_slice sensitivity asked origin bytes sanitizer = Some (Some x)"
  obtains direction shape v nodes e where
    "declared_schema_direction origin asked = Some direction"
    "Option.bind (sensitivity asked) ms_response = Some shape" "from_slice bytes = Some v"
    "length bytes \<le> pl_max_input_bytes (sz_limits sanitizer)"
    "project (response_projector direction sanitizer) v shape 0 [] 0 = Inr (PJ_Value x, nodes)"
    "to_vec x = Some e" "length e \<le> pl_max_output_bytes (sz_limits sanitizer)"
  using assms
  by (auto simp: sanitized_body_def sanitize_response_def Let_def fail_closed_Some bind_result_Inr_iff
      finish_projection_Some split: option.splits if_splits)

text \<open>
  C34. Asking for a diagnostic text never hangs: however the schema is defined, even as a shape that
  contains itself for ever, and whatever the sanitizer answers or panics, a projection ends, with the
  omitted value when anything is wrong.
\<close>

theorem projections_end:
  "sanitized_arguments to_vec side sensitivity arguments sanitizer \<noteq> None \<and>
   sanitized_body to_vec from_slice sensitivities asked origin bytes sanitizer \<noteq> None"
proof -
  have args: "sanitize_arguments to_vec sensitivity es direction sanitizer \<noteq> None" for es direction
    unfolding sanitize_arguments_def
    by (rule fail_closed_ends) (auto simp: Let_def bind_result_Inl_iff project_returns split: option.splits)
  have "project p v shape 0 [] 0 \<noteq> Inl PS_Diverges" for p v shape
    by (auto simp: project_def bind_result_Inl_iff project_returns)
  then have "sanitize_response to_vec from_slice s b d sanitizer \<noteq> None" for s b d
    unfolding sanitize_response_def
    by (cases d) (auto simp: Let_def bind_result_Inl_iff split: option.splits intro!: fail_closed_ends simp del: not_None_eq)
  then show ?thesis
    using args by (auto simp: sanitized_arguments_def sanitized_body_def Let_def split: option.splits)
qed



text \<open>
  The same for the arguments of a call, field by field of its declared schema; arguments that are not
  declared never show at all.
\<close>

theorem argument_projection_hides:
  assumes "\<And>name shape. (name, shape) \<in> set (ms_arguments s) \<Longrightarrow>
      rel_option (indistinct (argument_projector side sanitizer) shape (push_path_segment [] name))
        (map_of arguments name) (map_of arguments' name)"
    and "sanitized_arguments to_vec side (Some s) (Some arguments) sanitizer = Some (Some x)"
    and "sanitized_arguments to_vec side (Some s) (Some arguments') sanitizer = Some (Some y)"
  shows "x = y"
proof -
  obtain es n where x: "project_fields (argument_projector side sanitizer) arguments (ms_arguments s) [] [] 0 [] 0 = Inr (es, n)"
    "x = JObject es"
    using assms(2) by (rule sanitized_arguments_Some)
  obtain fs m where y: "project_fields (argument_projector side sanitizer) arguments' (ms_arguments s) [] [] 0 [] 0 = Inr (fs, m)"
    "y = JObject fs"
    using assms(3) by (rule sanitized_arguments_Some)
  show ?thesis using project_indistinct(3)[OF assms(1) x(1) y(1)] x(2) y(2) by simp
qed

text \<open>The default policy is blind to every kind but the public one.\<close>

lemma default_limits: "ps_limits PolicySanitizer_default = ProjectionLimits_default"
  by (simp only: PolicySanitizer_default_def PolicySanitizer.select_convs)

lemma fold_rules:
  "bt_ok m \<Longrightarrow> map_of (fold (\<lambda>k. bt_insert k a) ks m) k = (if k \<in> set ks then Some a else map_of m k)"
  by (induction ks arbitrary: m) (auto simp: bt_ok_insert map_of_bt_insert)

lemma default_rules: "map_of (ps_rules PolicySanitizer_default) kind =
    (if kind \<in> {SK_CREDENTIAL, SK_TOKEN, SK_PHONE, SK_EMAIL, SK_IDENTIFIER, SK_SECRET} then Some SZ_Redact
     else if kind = SK_PUBLIC then Some SZ_Reveal else None)"
proof -
  have ok: "bt_ok (bt_insert SK_PUBLIC SZ_Reveal [])" by (simp add: bt_ok_def)
  show ?thesis
    unfolding PolicySanitizer_default_def PolicySanitizer.select_convs fold_rules[OF ok] by simp
qed
lemma default_policy_blind:
  assumes "kind \<noteq> SK_PUBLIC"
  shows "blind \<lparr>pj_sanitizer = policy_sanitizer PolicySanitizer_default, pj_target = t, pj_direction = d\<rparr> path kind"
  using assms unfolding blind_def policy_sanitizer_def by (auto simp: default_rules)

section \<open>A concrete schema\<close>

definition account_shape :: SensitiveShape where
  "account_shape =
     (let account = [(''id'', SS_Kind SK_PUBLIC), (''pin'', SS_Optional (SS_Kind SK_SECRET)), (''note'', SS_Opaque)]
      in SS_Fields account account)"

definition account :: "string \<Rightarrow> json" where
  "account pin = JObject [(''id'', JNumber ''7''), (''note'', JString pin), (''pin'', JString pin)]"

definition shown_account :: json where
  "shown_account = JObject [(''id'', JNumber ''7''), (''pin'', JString REDACTED)]"

abbreviation default_sanitizer :: Sanitizer where
  "default_sanitizer \<equiv> policy_sanitizer PolicySanitizer_default"

definition account_sensitivity :: MethodSensitivity where
  "account_sensitivity = \<lparr>ms_arguments = [(''account'', account_shape)], ms_response = Some account_shape\<rparr>"

lemmas inherited_kind = inherited_classification.simps[of _ "SS_Kind _", simplified]

lemma account_order: "bt_insert ''pin'' x [(''id'', y)] = [(''id'', y), (''pin'', x)]"
proof -
  have "((''pin'' :: string) < ''id'') = False" by code_simp
  then show ?thesis by simp
qed

lemma default_sanitizer_simps [simp]:
  "sz_limits default_sanitizer = ProjectionLimits_default"
  "sz_sanitize default_sanitizer \<lparr>sn_target = t, sn_path = q, sn_kind = SK_PUBLIC, sn_value = v\<rparr> = Some SZ_Reveal"
  "sz_sanitize default_sanitizer \<lparr>sn_target = t, sn_path = q, sn_kind = SK_SECRET, sn_value = v\<rparr> = Some SZ_Redact"
  by (simp_all add: policy_sanitizer_def default_limits default_rules)
    (simp add: SK_PUBLIC_def SK_CREDENTIAL_def SK_TOKEN_def SK_PHONE_def SK_EMAIL_def SK_IDENTIFIER_def SK_SECRET_def)

lemma visit_default: "visit ProjectionLimits_default d n = (if d \<le> 8 \<and> n < 256 then Inr (Suc n) else Inl PS_Failure)"
  by (auto simp: visit_def checked_add_def USIZE_MAX_def ProjectionLimits_default_def)

lemma account_projection:
  assumes p: "pj_sanitizer p = default_sanitizer" and pin: "length pin \<le> 512"
  shows "project_visited p fuel (account pin) account_shape 0 path 1 = Inr (PJ_Value shown_account, 4)"
proof -
  have "project_visited p f (JNumber ''7'') (SS_Kind SK_PUBLIC) d q n = Inr (PJ_Value (JNumber ''7''), n)" for f d q n
    by (simp add: sanitize_classified_def p)
  moreover have "project_visited p f (JString pin) (SS_Optional (SS_Kind SK_SECRET)) d q n =
      Inr (PJ_Value (JString REDACTED), n)" for f d q n
    using pin by (subst project_visited.simps)
      (simp add: p inherited_kind ProjectionLimits_default_def sanitize_classified_def)
  ultimately show ?thesis
    by (cases "pj_direction p")
      (simp_all add: p Let_def account_def account_shape_def shown_account_def visit_default account_order
        del: project_visited_simps(2) bt_insert.simps(2))
qed

lemma account_indistinct:
  assumes "pj_sanitizer p = default_sanitizer"
  shows "indistinct p account_shape path (account pin) (account pin')"
proof -
  have "SK_SECRET \<noteq> SK_PUBLIC" by (simp add: SK_SECRET_def SK_PUBLIC_def)
  then have "blind p q SK_SECRET" for q
    using default_policy_blind[of SK_SECRET "pj_target p" "pj_direction p" q] assms by (simp add: blind_def)
  then show ?thesis
    unfolding account_def account_shape_def Let_def
    by (intro indistinct.fields)
      (cases "pj_direction p"; auto intro: indistinct.opaque indistinct.masked[where kind = SK_SECRET]
        indistinct.masked[where kind = SK_PUBLIC])
qed

lemma account_body:
  assumes "length pin \<le> 512"
  shows "sanitized_body (\<lambda>_. Some []) (\<lambda>bytes. Some (account bytes)) (\<lambda>_. Some account_sensitivity) (0 :: nat)
      (RO_Declared 0 PD_Serialize) pin default_sanitizer = Some (Some shown_account)"
proof -
  have "project (response_projector PD_Serialize default_sanitizer) (account pin) account_shape 0 [] 0 =
      Inr (PJ_Value shown_account, 4)"
    using account_projection[of "response_projector PD_Serialize default_sanitizer" pin] assms
    by (simp add: project_def visit_default)
  moreover have "account_shape \<noteq> SS_Opaque" by (simp add: account_shape_def Let_def)
  ultimately show ?thesis
    using assms
    by (simp add: sanitized_body_def sanitize_response_def account_sensitivity_def fail_closed_def
        finish_projection_def ProjectionLimits_default_def)
qed

lemma account_arguments:
  assumes "length pin \<le> 512"
  shows "sanitized_arguments (\<lambda>_. Some []) SD_Client (Some account_sensitivity) (Some [(''account'', account pin)])
      default_sanitizer = Some (Some (JObject [(''account'', shown_account)]))"
proof -
  have "project_fields (argument_projector SD_Client default_sanitizer) [(''account'', account pin)]
      (ms_arguments account_sensitivity) [] [] 0 [] 0 = Inr ([(''account'', shown_account)], 4)"
    using account_projection[of "argument_projector SD_Client default_sanitizer" pin] assms
    by (simp add: account_sensitivity_def visit_default)
  then show ?thesis
    by (simp add: sanitized_arguments_def sanitize_arguments_def Let_def fail_closed_def finish_projection_def)
qed


theorem argument_projection_hides_witness:
  "\<exists>x. sanitized_arguments (\<lambda>_. Some []) SD_Client (Some account_sensitivity) (Some [(''account'', account ''1234'')])
      default_sanitizer = Some (Some x) \<and>
    sanitized_arguments (\<lambda>_. Some []) SD_Client (Some account_sensitivity) (Some [(''account'', account ''99'')])
      default_sanitizer = Some (Some x)"
proof -
  have "rel_option (indistinct (argument_projector SD_Client default_sanitizer) shape (push_path_segment [] name))
      (map_of [(''account'', account ''1234'')] name) (map_of [(''account'', account ''99'')] name)"
    if "(name, shape) \<in> set (ms_arguments account_sensitivity)" for name shape
    using that by (simp add: account_sensitivity_def account_indistinct)
  then show ?thesis
    using argument_projection_hides[OF _ account_arguments account_arguments, of "''1234''" "''99''"]
      account_arguments[of "''1234''"] account_arguments[of "''99''"] by auto
qed


end
