(* ===== verification/Server_Config.thy ===== *)
theory Server_Config
  imports Client_Config Capabilities
begin

text \<open>
  The server configuration (\<open>fusen/src/server/config.rs\<close>), in the way of \<open>Client_Config\<close>: records, their
  defaults, validation and builders.  The checks of single values are the same functions in both files.
\<close>

section \<open>Requests\<close>

record ServerRequestConfig =
  sr_timeout :: duration
  sr_max_concurrent_requests :: nat
  sr_max_request_body_bytes :: nat
  sr_max_response_body_bytes :: nat
  sr_max_inflight_request_body_bytes :: nat
  sr_max_inflight_response_body_bytes :: nat
  sr_queue_capacity :: nat
  sr_queue_max_wait :: duration

definition ServerRequestConfig_default :: ServerRequestConfig where
  "ServerRequestConfig_default =
     \<lparr>sr_timeout = from_secs 30, sr_max_concurrent_requests = 1024, sr_max_request_body_bytes = 2 * MIB,
      sr_max_response_body_bytes = 2 * MIB, sr_max_inflight_request_body_bytes = 64 * MIB,
      sr_max_inflight_response_body_bytes = 64 * MIB, sr_queue_capacity = 0, sr_queue_max_wait = from_millis 50\<rparr>"

definition validate_request :: "ServerRequestConfig \<Rightarrow> ConfigValidationError + unit" where
  "validate_request c =
     and_then (positive_duration (sr_timeout c) ''server.request.timeout'')
    (and_then (positive_usize (sr_max_concurrent_requests c) ''server.request.max_concurrent_requests'')
    (and_then (positive_usize (sr_max_request_body_bytes c) ''server.request.max_request_body_bytes'')
    (and_then (positive_usize (sr_max_response_body_bytes c) ''server.request.max_response_body_bytes'')
    (and_then (if sr_max_inflight_request_body_bytes c < sr_max_request_body_bytes c
               then Inl (inconsistent ''server.request.max_inflight_request_body_bytes''
                           ''must be at least max_request_body_bytes'') else Inr ())
    (and_then (if sr_max_inflight_response_body_bytes c < sr_max_response_body_bytes c
               then Inl (inconsistent ''server.request.max_inflight_response_body_bytes''
                           ''must be at least max_response_body_bytes'') else Inr ())
       (if 0 < sr_queue_capacity c \<and> sr_queue_max_wait c = 0
        then Inl (inconsistent ''server.request.queue_max_wait'' ''must be positive when queue_capacity is non-zero'')
        else Inr ()))))))"

datatype request_setting =
  SR_timeout duration
| SR_max_concurrent_requests nat
| SR_max_request_body_bytes nat
| SR_max_response_body_bytes nat
| SR_max_inflight_request_body_bytes nat
| SR_max_inflight_response_body_bytes nat
| SR_queue_capacity nat
| SR_queue_max_wait duration

fun set_request :: "request_setting \<Rightarrow> ServerRequestConfig \<Rightarrow> ServerRequestConfig" where
  "set_request (SR_timeout v) c = c\<lparr>sr_timeout := v\<rparr>"
| "set_request (SR_max_concurrent_requests v) c = c\<lparr>sr_max_concurrent_requests := v\<rparr>"
| "set_request (SR_max_request_body_bytes v) c = c\<lparr>sr_max_request_body_bytes := v\<rparr>"
| "set_request (SR_max_response_body_bytes v) c = c\<lparr>sr_max_response_body_bytes := v\<rparr>"
| "set_request (SR_max_inflight_request_body_bytes v) c = c\<lparr>sr_max_inflight_request_body_bytes := v\<rparr>"
| "set_request (SR_max_inflight_response_body_bytes v) c = c\<lparr>sr_max_inflight_response_body_bytes := v\<rparr>"
| "set_request (SR_queue_capacity v) c = c\<lparr>sr_queue_capacity := v\<rparr>"
| "set_request (SR_queue_max_wait v) c = c\<lparr>sr_queue_max_wait := v\<rparr>"

definition ServerRequestConfig_build :: "request_setting list \<Rightarrow> ConfigValidationError + ServerRequestConfig" where
  "ServerRequestConfig_build settings =
     (let c = fold set_request settings ServerRequestConfig_default in and_then (validate_request c) (Inr c))"

section \<open>HTTP\<close>

record HttpServerConfig =
  hs_max_connections :: nat
  hs_max_uri_bytes :: nat
  hs_max_query_pairs :: nat
  hs_max_headers :: nat
  hs_max_header_bytes :: nat
  hs_http1_header_read_timeout :: duration
  hs_http2_max_concurrent_streams :: nat
  hs_http2_keep_alive_interval :: "duration option"
  hs_http2_keep_alive_timeout :: duration

definition HttpServerConfig_default :: HttpServerConfig where
  "HttpServerConfig_default =
     \<lparr>hs_max_connections = 2048, hs_max_uri_bytes = 8 * 1024, hs_max_query_pairs = 128, hs_max_headers = 64,
      hs_max_header_bytes = 32 * 1024, hs_http1_header_read_timeout = from_secs 10,
      hs_http2_max_concurrent_streams = 128, hs_http2_keep_alive_interval = Some (from_secs 30),
      hs_http2_keep_alive_timeout = from_secs 10\<rparr>"

definition validate_server_http :: "HttpServerConfig \<Rightarrow> ConfigValidationError + unit" where
  "validate_server_http c =
     and_then (positive_usize (hs_max_connections c) ''server.http.max_connections'')
    (and_then (positive_usize (hs_max_uri_bytes c) ''server.http.max_uri_bytes'')
    (and_then (positive_usize (hs_max_query_pairs c) ''server.http.max_query_pairs'')
    (and_then (positive_usize (hs_max_headers c) ''server.http.max_headers'')
    (and_then (positive_usize (hs_max_header_bytes c) ''server.http.max_header_bytes'')
    (and_then (positive_duration (hs_http1_header_read_timeout c) ''server.http.http1_header_read_timeout'')
    (and_then (if hs_http2_max_concurrent_streams c = 0
               then Inl (out_of_range ''server.http.http2_max_concurrent_streams'' ''must be greater than zero'')
               else Inr ())
    (and_then (if hs_http2_keep_alive_interval c = Some 0
               then Inl (out_of_range ''server.http.http2_keep_alive_interval'' ''must be positive when configured'')
               else Inr ())
       (positive_duration (hs_http2_keep_alive_timeout c) ''server.http.http2_keep_alive_timeout''))))))))"

datatype server_http_setting =
  HS_max_connections nat
| HS_max_uri_bytes nat
| HS_max_query_pairs nat
| HS_max_headers nat
| HS_max_header_bytes nat
| HS_http1_header_read_timeout duration
| HS_http2_max_concurrent_streams nat
| HS_http2_keep_alive_interval "duration option"
| HS_http2_keep_alive_timeout duration

fun set_server_http :: "server_http_setting \<Rightarrow> HttpServerConfig \<Rightarrow> HttpServerConfig" where
  "set_server_http (HS_max_connections v) c = c\<lparr>hs_max_connections := v\<rparr>"
| "set_server_http (HS_max_uri_bytes v) c = c\<lparr>hs_max_uri_bytes := v\<rparr>"
| "set_server_http (HS_max_query_pairs v) c = c\<lparr>hs_max_query_pairs := v\<rparr>"
| "set_server_http (HS_max_headers v) c = c\<lparr>hs_max_headers := v\<rparr>"
| "set_server_http (HS_max_header_bytes v) c = c\<lparr>hs_max_header_bytes := v\<rparr>"
| "set_server_http (HS_http1_header_read_timeout v) c = c\<lparr>hs_http1_header_read_timeout := v\<rparr>"
| "set_server_http (HS_http2_max_concurrent_streams v) c = c\<lparr>hs_http2_max_concurrent_streams := v\<rparr>"
| "set_server_http (HS_http2_keep_alive_interval v) c = c\<lparr>hs_http2_keep_alive_interval := v\<rparr>"
| "set_server_http (HS_http2_keep_alive_timeout v) c = c\<lparr>hs_http2_keep_alive_timeout := v\<rparr>"

definition HttpServerConfig_build :: "server_http_setting list \<Rightarrow> ConfigValidationError + HttpServerConfig" where
  "HttpServerConfig_build settings =
     (let c = fold set_server_http settings HttpServerConfig_default in and_then (validate_server_http c) (Inr c))"

section \<open>Registry\<close>

record ServerRegistryConfig =
  sg_startup_timeout :: duration
  sg_operation_timeout :: duration
  sg_max_concurrent_operations :: nat

definition ServerRegistryConfig_default :: ServerRegistryConfig where
  "ServerRegistryConfig_default =
     \<lparr>sg_startup_timeout = from_secs 30, sg_operation_timeout = from_secs 5, sg_max_concurrent_operations = 8\<rparr>"

definition validate_registry :: "ServerRegistryConfig \<Rightarrow> ConfigValidationError + unit" where
  "validate_registry c =
     and_then (positive_duration (sg_startup_timeout c) ''server.registry.startup_timeout'')
    (and_then (positive_duration (sg_operation_timeout c) ''server.registry.operation_timeout'')
       (positive_usize (sg_max_concurrent_operations c) ''server.registry.max_concurrent_operations''))"

datatype registry_setting =
  SG_startup_timeout duration
| SG_operation_timeout duration
| SG_max_concurrent_operations nat

fun set_registry :: "registry_setting \<Rightarrow> ServerRegistryConfig \<Rightarrow> ServerRegistryConfig" where
  "set_registry (SG_startup_timeout v) c = c\<lparr>sg_startup_timeout := v\<rparr>"
| "set_registry (SG_operation_timeout v) c = c\<lparr>sg_operation_timeout := v\<rparr>"
| "set_registry (SG_max_concurrent_operations v) c = c\<lparr>sg_max_concurrent_operations := v\<rparr>"

definition ServerRegistryConfig_build :: "registry_setting list \<Rightarrow> ConfigValidationError + ServerRegistryConfig" where
  "ServerRegistryConfig_build settings =
     (let c = fold set_registry settings ServerRegistryConfig_default in and_then (validate_registry c) (Inr c))"

section \<open>The whole configuration\<close>

record ServerConfig =
  sf_capabilities :: EndpointCapabilities
  sf_request :: ServerRequestConfig
  sf_http :: HttpServerConfig
  sf_registry :: ServerRegistryConfig
  sf_graceful_shutdown_timeout :: duration

definition ServerConfig_default :: ServerConfig where
  "ServerConfig_default =
     \<lparr>sf_capabilities = (case EndpointCapabilities_new VS_ALL [HTTP_JSON_V1] True of Inr c \<Rightarrow> c),
      sf_request = ServerRequestConfig_default, sf_http = HttpServerConfig_default,
      sf_registry = ServerRegistryConfig_default, sf_graceful_shutdown_timeout = from_secs 30\<rparr>"

definition ServerConfig_validate :: "ServerConfig \<Rightarrow> ConfigValidationError + unit" where
  "ServerConfig_validate c =
     and_then (if ec_bindings (sf_capabilities c) \<noteq> [HTTP_JSON_V1]
               then Inl (inconsistent ''server.capabilities.bindings'' ''built-in server supports only http-json-v1'')
               else Inr ())
    (and_then (validate_request (sf_request c))
    (and_then (validate_server_http (sf_http c))
    (and_then (validate_registry (sf_registry c))
       (positive_duration (sf_graceful_shutdown_timeout c) ''server.graceful_shutdown_timeout''))))"

datatype server_setting =
  SF_capabilities EndpointCapabilities
| SF_request ServerRequestConfig
| SF_http HttpServerConfig
| SF_registry ServerRegistryConfig
| SF_graceful_shutdown_timeout duration

fun set_server :: "server_setting \<Rightarrow> ServerConfig \<Rightarrow> ServerConfig" where
  "set_server (SF_capabilities v) c = c\<lparr>sf_capabilities := v\<rparr>"
| "set_server (SF_request v) c = c\<lparr>sf_request := v\<rparr>"
| "set_server (SF_http v) c = c\<lparr>sf_http := v\<rparr>"
| "set_server (SF_registry v) c = c\<lparr>sf_registry := v\<rparr>"
| "set_server (SF_graceful_shutdown_timeout v) c = c\<lparr>sf_graceful_shutdown_timeout := v\<rparr>"

definition ServerConfig_build :: "server_setting list \<Rightarrow> ConfigValidationError + ServerConfig" where
  "ServerConfig_build settings =
     (let c = fold set_server settings ServerConfig_default in and_then (ServerConfig_validate c) (Inr c))"

end
