(* ===== verification/Config_Theorems.thy ===== *)
theory Config_Theorems
  imports Server_Config Attempts Wire_Body_Theorems
begin

text \<open>
  What a configuration that was accepted guarantees: the validations are equivalent to explicit
  well-formedness predicates, the builders accept exactly the well-formed values, and a well-formed
  configuration gives the components what their own theorems assume of it.
\<close>

section \<open>Sequences of checks\<close>

named_theorems validation \<open>facts that turn a validation into the condition it accepts\<close>

lemma and_then_accepts [validation]: "and_then r s = Inr x \<longleftrightarrow> r = Inr () \<and> s = Inr x"
  by (cases r) auto

lemma check_accepts [validation]: "(if c then Inl e else Inr ()) = Inr u \<longleftrightarrow> \<not> c"
  by simp

lemma positive_accepts [validation]:
  "positive_duration v p = Inr u \<longleftrightarrow> 0 < v"
  "positive_usize v p = Inr u \<longleftrightarrow> 0 < v"
  "positive_u32 v p = Inr u \<longleftrightarrow> 0 < v"
  by (simp_all add: positive_duration_def positive_usize_def positive_u32_def)

section \<open>The client\<close>

definition queue_wf :: "QueueConfig \<Rightarrow> bool" where
  "queue_wf c \<longleftrightarrow> 0 < qc_capacity c \<longrightarrow> 0 < qc_max_wait c"

definition admission_wf :: "ClientAdmissionConfig \<Rightarrow> bool" where
  "admission_wf c \<longleftrightarrow>
     0 < ca_max_in_flight c \<and> 0 < ca_max_in_flight_per_endpoint c
   \<and> 0 < ca_max_request_body_bytes c \<and> ca_max_request_body_bytes c \<le> ca_max_inflight_request_body_bytes c
   \<and> 0 < ca_max_response_body_bytes c \<and> ca_max_response_body_bytes c \<le> ca_max_inflight_response_body_bytes c
   \<and> queue_wf (ca_queue c)"

definition discovery_wf :: "DiscoveryConfig \<Rightarrow> bool" where
  "discovery_wf c \<longleftrightarrow>
     0 < dc_initial_timeout c \<and> 0 < dc_operation_timeout c \<and> 0 < dc_close_timeout c
   \<and> 0 < dc_reconnect_base c \<and> dc_reconnect_base c \<le> dc_reconnect_cap c \<and> 0 < dc_max_subscriptions c"

definition retry_wf :: "RetryConfig \<Rightarrow> bool" where
  "retry_wf c \<longleftrightarrow>
     1 \<le> rt_max_attempts c \<and> rt_max_attempts c \<le> 3
   \<and> 0 < rt_backoff_base c \<and> rt_backoff_base c \<le> rt_backoff_cap c
   \<and> 0 < rt_budget_capacity c \<and> 0 < rt_budget_refill_per_second c"

definition threshold_wf :: "BreakerThreshold \<Rightarrow> bool" where
  "threshold_wf c \<longleftrightarrow>
     0 < bt_window c \<and> 0 < bt_buckets c \<and> 0 < bt_minimum_samples c \<and> ratio_in_range (bt_failure_ratio c)
   \<and> 0 < bt_open_duration c \<and> 0 < bt_half_open_probes c \<and> 0 < bt_close_successes c"

definition circuit_breaker_wf :: "CircuitBreakerConfig \<Rightarrow> bool" where
  "circuit_breaker_wf c \<longleftrightarrow>
     threshold_wf (cb_endpoint c) \<and> threshold_wf (cb_service c) \<and> 0 < cb_max_open_duration c
   \<and> 0 < cb_max_endpoint_entries c \<and> 0 < cb_idle_eviction c"

definition client_http_wf :: "ClientHttpConfig \<Rightarrow> bool" where
  "client_http_wf c \<longleftrightarrow>
     ch_pool_idle_timeout c \<noteq> Some 0 \<and> 0 < ch_http2_connections_per_host c
   \<and> ch_http2_keep_alive_interval c \<noteq> Some 0 \<and> 0 < ch_http2_keep_alive_timeout c"

definition client_config_wf :: "ClientConfig \<Rightarrow> bool" where
  "client_config_wf c \<longleftrightarrow>
     0 < cc_request_timeout c \<and> 0 < cc_connect_timeout c \<and> 0 < cc_shutdown_timeout c
   \<and> admission_wf (cc_admission c) \<and> discovery_wf (cc_discovery c) \<and> retry_wf (cc_retry c)
   \<and> circuit_breaker_wf (cc_circuit_breaker c) \<and> client_http_wf (cc_http c)"

lemma validate_queue_iff [validation]: "validate_queue c = Inr u \<longleftrightarrow> queue_wf c"
  by (auto simp: validate_queue_def queue_wf_def)

lemma validate_admission_iff [validation]: "validate_admission c = Inr u \<longleftrightarrow> admission_wf c"
  unfolding validate_admission_def admission_wf_def validation by auto

lemma validate_discovery_iff [validation]: "validate_discovery c = Inr u \<longleftrightarrow> discovery_wf c"
  unfolding validate_discovery_def discovery_wf_def validation by auto

lemma validate_retry_iff [validation]: "validate_retry c = Inr u \<longleftrightarrow> retry_wf c"
  unfolding validate_retry_def retry_wf_def validation by auto

lemma validate_threshold_iff [validation]: "validate_threshold c scope = Inr u \<longleftrightarrow> threshold_wf c"
  unfolding validate_threshold_def threshold_wf_def validation by auto

lemma validate_circuit_breaker_iff [validation]: "validate_circuit_breaker c = Inr u \<longleftrightarrow> circuit_breaker_wf c"
  unfolding validate_circuit_breaker_def circuit_breaker_wf_def validation by auto

lemma validate_client_http_iff [validation]: "validate_client_http c = Inr u \<longleftrightarrow> client_http_wf c"
  unfolding validate_client_http_def client_http_wf_def validation by auto

lemma client_validate_iff [validation]: "ClientConfig_validate c = Inr u \<longleftrightarrow> client_config_wf c"
  unfolding ClientConfig_validate_def client_config_wf_def validation by auto

lemma ClientConfig_build_iff:
  "ClientConfig_build settings = Inr c \<longleftrightarrow> c = fold set_client settings ClientConfig_default \<and> client_config_wf c"
  unfolding ClientConfig_build_def Let_def validation by auto

section \<open>The server\<close>

definition request_wf :: "ServerRequestConfig \<Rightarrow> bool" where
  "request_wf c \<longleftrightarrow>
     0 < sr_timeout c \<and> 0 < sr_max_concurrent_requests c
   \<and> 0 < sr_max_request_body_bytes c \<and> sr_max_request_body_bytes c \<le> sr_max_inflight_request_body_bytes c
   \<and> 0 < sr_max_response_body_bytes c \<and> sr_max_response_body_bytes c \<le> sr_max_inflight_response_body_bytes c
   \<and> (sr_queue_capacity c = 0 \<or> 0 < sr_queue_max_wait c)"

definition server_http_wf :: "HttpServerConfig \<Rightarrow> bool" where
  "server_http_wf c \<longleftrightarrow>
     0 < hs_max_connections c \<and> 0 < hs_max_uri_bytes c \<and> 0 < hs_max_query_pairs c \<and> 0 < hs_max_headers c
   \<and> 0 < hs_max_header_bytes c \<and> 0 < hs_http1_header_read_timeout c \<and> 0 < hs_http2_max_concurrent_streams c
   \<and> hs_http2_keep_alive_interval c \<noteq> Some 0 \<and> 0 < hs_http2_keep_alive_timeout c"

definition registry_wf :: "ServerRegistryConfig \<Rightarrow> bool" where
  "registry_wf c \<longleftrightarrow>
     0 < sg_startup_timeout c \<and> 0 < sg_operation_timeout c \<and> 0 < sg_max_concurrent_operations c"

definition server_config_wf :: "ServerConfig \<Rightarrow> bool" where
  "server_config_wf c \<longleftrightarrow>
     ec_bindings (sf_capabilities c) = [HTTP_JSON_V1] \<and> request_wf (sf_request c) \<and> server_http_wf (sf_http c)
   \<and> registry_wf (sf_registry c) \<and> 0 < sf_graceful_shutdown_timeout c"

lemma validate_request_iff [validation]: "validate_request c = Inr u \<longleftrightarrow> request_wf c"
  unfolding validate_request_def request_wf_def validation by auto

lemma validate_server_http_iff [validation]: "validate_server_http c = Inr u \<longleftrightarrow> server_http_wf c"
  unfolding validate_server_http_def server_http_wf_def validation by auto

lemma validate_registry_iff [validation]: "validate_registry c = Inr u \<longleftrightarrow> registry_wf c"
  unfolding validate_registry_def registry_wf_def validation by auto

lemma server_validate_iff [validation]: "ServerConfig_validate c = Inr u \<longleftrightarrow> server_config_wf c"
  unfolding ServerConfig_validate_def server_config_wf_def validation by auto

lemma ServerConfig_build_iff:
  "ServerConfig_build settings = Inr c \<longleftrightarrow> c = fold set_server settings ServerConfig_default \<and> server_config_wf c"
  unfolding ServerConfig_build_def Let_def validation by auto

section \<open>Defaults\<close>

lemma client_default_wf: "client_config_wf ClientConfig_default"
  unfolding ClientConfig_default_def client_config_wf_def admission_wf_def queue_wf_def discovery_wf_def
    retry_wf_def circuit_breaker_wf_def threshold_wf_def client_http_wf_def
    ClientAdmissionConfig_default_def QueueConfig_default_def DiscoveryConfig_default_def
    RetryConfig_default_def CircuitBreakerConfig_default_def endpoint_default_def service_default_def
    ClientHttpConfig_default_def
  by (simp add: from_secs_def from_millis_def MIB_def f64_le_def f64_one_def DEFAULT_ENDPOINT_IDLE_EVICTION_def
      NANOS_PER_SEC_def)

lemma default_capabilities:
  "\<exists>c. EndpointCapabilities_new VS_ALL [HTTP_JSON_V1] True = Inr c \<and> ec_bindings c = [HTTP_JSON_V1]"
  by (simp add: EndpointCapabilities_new_def bt_collect_set_def bt_collect_def)

lemma server_default_wf: "server_config_wf ServerConfig_default"
  using default_capabilities
  unfolding ServerConfig_default_def server_config_wf_def request_wf_def server_http_wf_def registry_wf_def
    ServerRequestConfig_default_def HttpServerConfig_default_def ServerRegistryConfig_default_def
  by (auto simp: from_secs_def from_millis_def MIB_def NANOS_PER_SEC_def)

section \<open>What the components rely on\<close>

lemma ratio_in_range_le_one: "ratio_in_range r \<Longrightarrow> f64_le (case r of F_Finite _ x \<Rightarrow> x) f64_one"
  by (cases r) (auto simp: f64_le_def f64_one_def split: if_splits)

lemma threshold_config_ok:
  assumes "threshold_wf t" "0 < longest"
  shows "config_ok (breaker_config t longest)"
  using assms ratio_in_range_le_one [of "bt_failure_ratio t"]
  by (auto simp: config_ok_def breaker_config_def BreakerConfig_new_def threshold_wf_def
      HARD_MAX_OPEN_DURATION_def from_secs_def NANOS_PER_SEC_def)

lemma retry_wf_limit: "retry_wf c \<Longrightarrow> hard_attempt_limit (rt_max_attempts c) = rt_max_attempts c"
  by (auto simp: retry_wf_def hard_attempt_limit_def HARD_MAX_ATTEMPTS_def)

lemma fresh_budget_grants:
  assumes "0 < capacity"
  shows "fst (budget_try_acquire (RetryBudget_new capacity refill_per_second t0) now)"
proof -
  have "1 * TOKEN_SCALE \<le> capacity * TOKEN_SCALE"
    using assms by (intro mult_right_mono) auto
  then have "TOKEN_SCALE \<le> capacity * TOKEN_SCALE" by simp
  then have "TOKEN_SCALE \<le> scaled_tokens (refill (RetryBudget_new capacity refill_per_second t0)
      (rb_state (RetryBudget_new capacity refill_per_second t0)) now)"
    by (auto simp: refill_def RetryBudget_new_def Let_def saturating_add_def U128_MAX_def TOKEN_SCALE_def)
  then show ?thesis by (simp add: budget_try_acquire_def Let_def)
qed

text \<open>With the whole length reserved in advance the budget is not asked again.\<close>

lemma read_frames_reserved:
  assumes "complete_frames frames" "length bytes + length (frame_data frames) \<le> reserved"
    "reserved \<le> max_body" "reserved \<le> USIZE_MAX"
  shows "read_frames role max_body frames permit reserved bytes b = (Inr (bytes @ frame_data frames, permit), b)"
  using assms
proof (induction frames arbitrary: bytes)
  case (Cons f frames)
  then show ?case by (cases f) (auto simp: checked_add_def)
qed simp

lemma declared_body_fits:
  assumes "complete_frames frames" "length (frame_data frames) \<le> max_body" "max_body \<le> limit" "limit \<le> USIZE_MAX"
  shows "fst (read_body_with_role role frames (Some (length (frame_data frames))) max_body (ByteBudget_new limit))
           = Inr (frame_data frames, length (frame_data frames))"
proof -
  let ?n = "length (frame_data frames)"
  obtain r b where r: "try_reserve ?n (ByteBudget_new limit) = (r, b)" by fastforce
  have "budget_ok (ByteBudget_new limit)" using assms(4) by (simp add: budget_ok_def ByteBudget_new_def)
  then have "r = Some ?n"
    using try_reserve_spec [of "ByteBudget_new limit" ?n r b] r assms by (simp add: ByteBudget_new_def)
  then show ?thesis
    using r assms read_frames_reserved [of frames "[]" ?n max_body role ?n b]
    by (simp add: read_body_with_role_def)
qed

section \<open>Acceptance\<close>

text \<open>
   The builder of the client configuration applies its calls in order to the defaults and accepts the
  result exactly when it is well formed: the named limits are positive, each base is at most its cap, each
  single-body limit is at most the budget it is taken from, failure ratios are finite numbers in [0, 1].
\<close>
theorem client_config_accepted_iff:
  "case ClientConfig_build settings of
     Inr c \<Rightarrow> c = fold set_client settings ClientConfig_default \<and> client_config_wf c
   | Inl e \<Rightarrow> \<not> client_config_wf (fold set_client settings ClientConfig_default)"
  by (cases "ClientConfig_build settings")
    (use ClientConfig_build_iff [of settings] in \<open>auto simp: ClientConfig_build_def Let_def client_validate_iff
      split: sum.splits\<close>)


lemma default_build: "ClientConfig_build [] = Inr ClientConfig_default"
  by (simp add: ClientConfig_build_iff client_default_wf)


text \<open>
   The builder of the server configuration applies its calls in order to the defaults and accepts the
  result exactly when it is well formed; an accepted server speaks the built-in binding and no other.
\<close>
theorem server_config_accepted_iff:
  "case ServerConfig_build settings of
     Inr c \<Rightarrow> c = fold set_server settings ServerConfig_default \<and> server_config_wf c
              \<and> (\<forall>b. supports_binding (sf_capabilities c) b \<longleftrightarrow> b = HTTP_JSON_V1)
   | Inl e \<Rightarrow> \<not> server_config_wf (fold set_server settings ServerConfig_default)"
proof (cases "ServerConfig_build settings")
  case (Inl e)
  then show ?thesis using ServerConfig_build_iff [of settings] by auto
next
  case (Inr c)
  then have wf: "server_config_wf c" and c: "c = fold set_server settings ServerConfig_default"
    using ServerConfig_build_iff by blast+
  then have "ec_bindings (sf_capabilities c) = [HTTP_JSON_V1]" by (simp add: server_config_wf_def)
  then have "supports_binding (sf_capabilities c) b \<longleftrightarrow> b = HTTP_JSON_V1" for b
    by (auto simp: supports_binding_def binary_search.simps)
  then show ?thesis using Inr wf c by simp
qed

section \<open>Where the limits are not enough\<close>

text \<open>
  A body whose length was not declared is reserved in chunks of 4 KiB, so a body within the body limit can be
  refused by an unused budget that is as large as the limit.
\<close>

lemma undeclared_body_refused:
  "admission_wf (ClientAdmissionConfig_default\<lparr>ca_max_response_body_bytes := 5000,
                                               ca_max_inflight_response_body_bytes := 5000\<rparr>)
   \<and> fst (read_body_with_role (BR_Response request_id) [BF_Data (replicate 4097 c)] None 5000 (ByteBudget_new 5000))
       = Inl (role_budget_exhausted (BR_Response request_id))"
proof
  show "admission_wf (ClientAdmissionConfig_default\<lparr>ca_max_response_body_bytes := 5000,
                                               ca_max_inflight_response_body_bytes := 5000\<rparr>)"
    by (simp add: admission_wf_def queue_wf_def ClientAdmissionConfig_default_def QueueConfig_default_def MIB_def)
  have g: "chunk_growth 4097 = 8192" by (simp add: chunk_growth_def div_ceil_def CHUNK_RESERVATION_def)
  have ok: "budget_ok (ByteBudget_new 5000)" by (simp add: budget_ok_def ByteBudget_new_def USIZE_MAX_def)
  obtain r b where r: "try_reserve 0 (ByteBudget_new 5000) = (r, b)" by fastforce
  then have b: "r = Some 0" "budget_ok b" "bb_limit b = 5000"
    using try_reserve_spec [OF ok r] by (simp_all add: ByteBudget_new_def)
  obtain grown p b' where grow: "permit_grow 8192 0 b = (grown, p, b')" by (cases "permit_grow 8192 0 b") auto
  then have "\<not> grown" using permit_grow_spec [OF b(2) _ grow] b(3) by (auto split: if_splits)
  then show "fst (read_body_with_role (BR_Response request_id) [BF_Data (replicate 4097 c)] None 5000
      (ByteBudget_new 5000)) = Inl (role_budget_exhausted (BR_Response request_id))"
    using r b grow g by (simp add: read_body_with_role_def checked_add_def USIZE_MAX_def)
qed

text \<open>A window shorter than its buckets is accepted although a bucket then has no width.\<close>

lemma zero_width_threshold_accepted:
  "validate_threshold (endpoint_default\<lparr>bt_window := 9, bt_buckets := 10\<rparr>) TS_Standalone = Inr ()
   \<and> bc_window (breaker_config (endpoint_default\<lparr>bt_window := 9, bt_buckets := 10\<rparr>) d)
       div bc_buckets (breaker_config (endpoint_default\<lparr>bt_window := 9, bt_buckets := 10\<rparr>) d) = 0"
  by (simp add: validation threshold_wf_def endpoint_default_def breaker_config_def BreakerConfig_new_def
      f64_le_def f64_one_def from_secs_def NANOS_PER_SEC_def)

end
