(* ===== verification/Nacos.thy ===== *)
theory Nacos
  imports Hot_Config Wire_Headers
begin

text \<open>
  The Nacos adapters, except the registry (\<open>fusen-nacos/src/lib.rs\<close>, \<open>config.rs\<close>): the connection
  settings with their validation, and the hot configuration source with its change listener.  The
  SDK is outside: its errors are a datatype of the constructors the adapters distinguish, with the text they
  print, and the operations of its clients are arguments that answer.
\<close>

section \<open>Connection settings\<close>

datatype NacosConfigValidationErrorKind = NK_InvalidValue | NK_Inconsistent

record NacosConfigValidationError =
  nv_kind :: NacosConfigValidationErrorKind
  nv_field_path :: string
  nv_reason :: string

definition nacos_kind_text :: "NacosConfigValidationErrorKind \<Rightarrow> string" where
  "nacos_kind_text kind = (case kind of NK_InvalidValue \<Rightarrow> ''invalid value'' | NK_Inconsistent \<Rightarrow> ''inconsistent'')"

definition nacos_error_text :: "NacosConfigValidationError \<Rightarrow> string" where
  "nacos_error_text e =
     ''invalid Nacos configuration at '' @ nv_field_path e @ '' ('' @ nacos_kind_text (nv_kind e) @ ''): ''
     @ nv_reason e"

record NacosConfig =
  nf_server_addr :: string
  nf_namespace :: "string option"
  nf_username :: "string option"
  nf_password :: "string option"

definition NacosConfig_default :: NacosConfig where
  "NacosConfig_default =
     \<lparr>nf_server_addr = ''127.0.0.1:8848'', nf_namespace = None, nf_username = None, nf_password = None\<rparr>"

definition validate_nacos :: "NacosConfig \<Rightarrow> NacosConfigValidationError + unit" where
  "validate_nacos c =
     (if trim_chars (chars (nf_server_addr c)) = []
      then Inl \<lparr>nv_kind = NK_InvalidValue, nv_field_path = ''nacos.server_addr'', nv_reason = ''must not be empty''\<rparr>
      else if trim_chars (chars (nf_server_addr c)) \<noteq> chars (nf_server_addr c)
      then Inl \<lparr>nv_kind = NK_InvalidValue, nv_field_path = ''nacos.server_addr'',
                nv_reason = ''must not contain surrounding whitespace''\<rparr>
      else if (nf_username c \<noteq> None) \<noteq> (nf_password c \<noteq> None)
      then Inl \<lparr>nv_kind = NK_Inconsistent, nv_field_path = ''nacos.credentials'',
                nv_reason = ''username and password must be configured together''\<rparr>
      else Inr ())"

datatype nacos_setting =
  NS_server_addr string
| NS_namespace string
| NS_username string
| NS_password string

fun set_nacos :: "nacos_setting \<Rightarrow> NacosConfig \<Rightarrow> NacosConfig" where
  "set_nacos (NS_server_addr v) c = c\<lparr>nf_server_addr := v\<rparr>"
| "set_nacos (NS_namespace v) c = c\<lparr>nf_namespace := Some v\<rparr>"
| "set_nacos (NS_username v) c = c\<lparr>nf_username := Some v\<rparr>"
| "set_nacos (NS_password v) c = c\<lparr>nf_password := Some v\<rparr>"

definition NacosConfig_build :: "nacos_setting list \<Rightarrow> NacosConfigValidationError + NacosConfig" where
  "NacosConfig_build settings =
     (let c = fold set_nacos settings NacosConfig_default in bind_result (validate_nacos c) (\<lambda>_. Inr c))"

definition validate_application_name :: "string \<Rightarrow> string + unit" where
  "validate_application_name v =
     (if v = [] \<or> 128 < length v \<or> trim_chars (chars v) \<noteq> chars v \<or> list_ex is_ascii_control v
      then Inl ''Nacos application name must be 1-128 bytes without surrounding whitespace or control characters''
      else Inr ())"

text \<open>What the SDK's client properties are set to.\<close>

record client_properties =
  np_env_first :: bool
  np_server_addr :: string
  np_namespace :: string
  np_app_name :: string
  np_auth :: "(string \<times> string) option"

definition client_props :: "NacosConfig \<Rightarrow> string \<Rightarrow> client_properties" where
  "client_props c application_name =
     \<lparr>np_env_first = False, np_server_addr = nf_server_addr c,
      np_namespace = (case nf_namespace c of Some n \<Rightarrow> n | None \<Rightarrow> []), np_app_name = application_name,
      np_auth = (case (nf_username c, nf_password c) of (Some u, Some p) \<Rightarrow> Some (u, p) | _ \<Rightarrow> None)\<rparr>"

section \<open>The hot configuration source\<close>

datatype nacos_error =
  NE_InvalidParam string
| NE_WrongServerAddress string
| NE_Serialization string
| NE_Other string

definition nacos_error_source :: "nacos_error \<Rightarrow> string" where
  "nacos_error_source e =
     (case e of NE_InvalidParam t \<Rightarrow> t | NE_WrongServerAddress t \<Rightarrow> t | NE_Serialization t \<Rightarrow> t | NE_Other t \<Rightarrow> t)"

definition config_provider_error :: "ConfigOperation \<Rightarrow> nacos_error \<Rightarrow> ConfigError" where
  "config_provider_error operation e =
     ConfigError_new operation
       (case e of NE_InvalidParam _ \<Rightarrow> CK_InvalidInput | NE_WrongServerAddress _ \<Rightarrow> CK_InvalidInput
                | NE_Serialization _ \<Rightarrow> CK_InvalidData | NE_Other _ \<Rightarrow> CK_Unavailable)
       (nacos_error_source e)"

text \<open>
  \<open>NacosConfigSource::connect\<close>: \<open>build\<close> is the SDK, given the properties and whether authentication is
  enabled.
\<close>

definition connect_config ::
  "(client_properties \<Rightarrow> bool \<Rightarrow> nacos_error + 'client) \<Rightarrow> string \<Rightarrow> NacosConfig \<Rightarrow> ConfigError + 'client" where
  "connect_config build application_name c =
     bind_result (map_err (\<lambda>e. ConfigError_new CO_Prepare CK_InvalidInput (nacos_error_text e)) (validate_nacos c)) (\<lambda>_.
     bind_result (map_err (\<lambda>m. ConfigError_message CO_Prepare CK_InvalidInput m)
                    (validate_application_name application_name)) (\<lambda>_.
       map_err (config_provider_error CO_Prepare)
         (build (client_props c application_name) (nf_username c \<noteq> None))))"

text \<open>
  \<^verbatim>\<open>Path::extension\<close> of the standard library on a Unix path: the last normal component, then the text after
  its last dot unless the dot is its first byte.
\<close>

definition path_file_name :: "string \<Rightarrow> string option" where
  "path_file_name p =
     (case rev (filter (\<lambda>s. s \<noteq> [] \<and> s \<noteq> ''.'') (split_on (\<lambda>c. c = CHR ''/'') p)) of
        [] \<Rightarrow> None
      | s # _ \<Rightarrow> if s = ''..'' then None else Some s)"

definition path_extension :: "string \<Rightarrow> string option" where
  "path_extension p =
     (case path_file_name p of
        None \<Rightarrow> None
      | Some s \<Rightarrow>
          (case rsplit_once (CHR ''.'') s of
             None \<Rightarrow> None
           | Some (before, after) \<Rightarrow> if before = [] then None else Some after))"

record config_response =
  nr_content_type :: string
  nr_content :: string

text \<open>\<open>debug\<close> is the \<^verbatim>\<open>Debug\<close> format of a string.\<close>

definition document_from_response ::
  "(string \<Rightarrow> string) \<Rightarrow> config_response \<Rightarrow> string \<Rightarrow> ConfigOperation \<Rightarrow> ConfigError + ConfigDocument" where
  "document_from_response debug response data_id operation =
     (case (case from_name (nr_content_type response) of
              Some f \<Rightarrow> Some f
            | None \<Rightarrow> (case path_extension data_id of Some x \<Rightarrow> from_name x | None \<Rightarrow> None)) of
        None \<Rightarrow> Inl (ConfigError_message operation CK_UnsupportedFormat
                  (''Nacos resource '' @ debug data_id @ '' uses unsupported content type ''
                   @ debug (nr_content_type response)))
      | Some format \<Rightarrow> Inr \<lparr>cd_format = format, cd_content = nr_content response\<rparr>)"

text \<open>The listener: a response that is no document, or that the publisher refuses, is only logged.\<close>

definition config_notify :: "(string \<Rightarrow> string) \<Rightarrow> string \<Rightarrow> config_response \<Rightarrow> PublisherState \<Rightarrow> PublisherState" where
  "config_notify debug data_id response p =
     (case document_from_response debug response data_id CO_Publish of
        Inl e \<Rightarrow> p
      | Inr document \<Rightarrow> snd (publish document p))"

definition DEFAULT_GROUP :: string where "DEFAULT_GROUP = ''DEFAULT_GROUP''"

definition config_group :: "ConfigKey \<Rightarrow> string" where
  "config_group key = (case ck_group key of Some g \<Rightarrow> g | None \<Rightarrow> DEFAULT_GROUP)"

text \<open>
  The activation \<open>prepare\<close> hands to the lifecycle: add the listener, then fetch the document; \<open>add\<close> and
  \<open>get\<close> are the answers of the SDK for the data id and the group.
\<close>

definition config_activation ::
  "(string \<Rightarrow> string) \<Rightarrow> (string \<Rightarrow> string \<Rightarrow> nacos_error + unit) \<Rightarrow>
   (string \<Rightarrow> string \<Rightarrow> nacos_error + config_response) \<Rightarrow> ConfigKey \<Rightarrow> ConfigError + ConfigDocument" where
  "config_activation debug add get key =
     bind_result (map_err (config_provider_error CO_Activate) (add (ck_name key) (config_group key))) (\<lambda>_.
     bind_result (map_err (config_provider_error CO_Activate) (get (ck_name key) (config_group key))) (\<lambda>response.
       document_from_response debug response (ck_name key) CO_Activate))"

definition config_cleanup :: "(string \<Rightarrow> string \<Rightarrow> nacos_error + unit) \<Rightarrow> ConfigKey \<Rightarrow> ConfigError + unit" where
  "config_cleanup remove key = map_err (config_provider_error CO_Close) (remove (ck_name key) (config_group key))"

section \<open>Facts\<close>

lemma nacos_accepted_iff:
  "NacosConfig_build settings = Inr c \<longleftrightarrow>
     c = fold set_nacos settings NacosConfig_default
   \<and> chars (nf_server_addr c) \<noteq> [] \<and> trim_chars (chars (nf_server_addr c)) = chars (nf_server_addr c)
   \<and> (nf_username c = None \<longleftrightarrow> nf_password c = None)"
  by (auto simp: NacosConfig_build_def validate_nacos_def Let_def bind_result_def split: if_splits)

lemma accepted_credentials:
  assumes "NacosConfig_build settings = Inr c"
  shows "np_auth (client_props c name) = None \<longleftrightarrow> nf_username c = None"
  using assms by (auto simp: nacos_accepted_iff client_props_def split: option.splits)

text \<open>Invalid settings never reach the SDK, and the name of the settings' error is kept.\<close>

lemma connect_config_validates:
  assumes "connect_config build name c = Inr client"
  shows "validate_nacos c = Inr () \<and> validate_application_name name = Inr ()
       \<and> build (client_props c name) (nf_username c \<noteq> None) = Inr client"
  using assms
  by (auto simp: connect_config_def bind_result_def map_err_def split: sum.splits)

end
