(* ===== verification/Nacos_Registry.thy ===== *)
theory Nacos_Registry
  imports Nacos Directory
begin

text \<open>
  The Nacos registry (\<open>fusen-nacos/src/register.rs\<close>): how a registration becomes an instance of the SDK and
  an instance of the SDK becomes a discovered one, the selection of instances, and the gate between the
  snapshot that is fetched and the changes that arrive meanwhile.

  A \<^verbatim>\<open>HashMap\<close> of metadata is an association list.  The URL and percent-coding libraries are the argument
  \<open>nacos_lib\<close>, and \<open>base\<close> is the SDK's default instance.
\<close>

section \<open>Conventions\<close>

definition META_SCHEME :: string where "META_SCHEME = ''fusen.scheme''"
definition META_BASE_PATH :: string where "META_BASE_PATH = ''fusen.base_path''"
definition META_SERVICE_ID :: string where "META_SERVICE_ID = ''fusen.service_id''"
definition META_VERSION :: string where "META_VERSION = ''fusen.version''"
definition META_GROUP :: string where "META_GROUP = ''fusen.group''"
definition META_INSTANCE_ID :: string where "META_INSTANCE_ID = ''fusen.instance_id''"
definition META_HTTP_BINDINGS :: string where "META_HTTP_BINDINGS = ''fusen.http.bindings''"
definition META_HTTP_VERSIONS :: string where "META_HTTP_VERSIONS = ''fusen.http.versions''"
definition META_INVOCATION_CONTROLS :: string where "META_INVOCATION_CONTROLS = ''fusen.invocation-controls''"
definition INVOCATION_CONTROLS_V1 :: string where "INVOCATION_CONTROLS_V1 = ''v1''"

lemmas meta_defs = META_SCHEME_def META_BASE_PATH_def META_SERVICE_ID_def META_VERSION_def META_GROUP_def
  META_INSTANCE_ID_def META_HTTP_BINDINGS_def META_HTTP_VERSIONS_def META_INVOCATION_CONTROLS_def

datatype NacosConvention = NC_Canonical | NC_SpringCloud

record NacosInstance =
  nw_instance_id :: "string option"
  nw_ip :: string
  nw_port :: int
  nw_weight :: float64
  nw_healthy :: bool
  nw_enabled :: bool
  nw_metadata :: "(string \<times> string) list"

text \<open>
  What the adapter uses of the \<^verbatim>\<open>url\<close> and \<^verbatim>\<open>percent_encoding\<close> crates: parsing, the path, replacing the
  path's segments, and decoding a segment to text.
\<close>

record nacos_lib =
  nl_parse :: "string \<Rightarrow> url option"
  nl_path :: "url \<Rightarrow> string"
  nl_set_segments :: "string list \<Rightarrow> url \<Rightarrow> url option"
  nl_decode :: "string \<Rightarrow> string option"

section \<open>IPv6 addresses\<close>

text \<open>
  The grammar of \<^verbatim>\<open>Ipv6Addr::from_str\<close>: eight groups of one to four hexadecimal digits, of which the last two
  may be written as an IPv4 address, or at most seven around one \<open>::\<close>.
\<close>

definition is_ipv4_octet :: "string \<Rightarrow> bool" where
  "is_ipv4_octet s \<longleftrightarrow>
     s \<noteq> [] \<and> length s \<le> 3 \<and> list_all is_ascii_digit s \<and> (hd s = CHR ''0'' \<longrightarrow> length s = 1)
   \<and> foldl (\<lambda>a c. a * 10 + digit_value c) 0 s \<le> 255"

definition is_ipv4 :: "string \<Rightarrow> bool" where
  "is_ipv4 s \<longleftrightarrow> (let parts = split_on (\<lambda>c. c = CHR ''.'') s in length parts = 4 \<and> list_all is_ipv4_octet parts)"

definition is_hex_group :: "string \<Rightarrow> bool" where
  "is_hex_group s \<longleftrightarrow> s \<noteq> [] \<and> length s \<le> 4 \<and> list_all is_ascii_hexdigit s"

fun groups_count :: "bool \<Rightarrow> string list \<Rightarrow> nat option" where
  "groups_count v4 [] = Some 0"
| "groups_count v4 (g # gs) =
     (if is_hex_group g then map_option Suc (groups_count v4 gs)
      else if v4 \<and> gs = [] \<and> is_ipv4 g then Some 2
      else None)"

definition groups_of :: "bool \<Rightarrow> string \<Rightarrow> nat option" where
  "groups_of v4 s = (if s = [] then Some 0 else groups_count v4 (split_on (\<lambda>c. c = CHR '':'') s))"

fun split_double_colon :: "string \<Rightarrow> (string \<times> string) option" where
  "split_double_colon (a # b # s) =
     (if a = CHR '':'' \<and> b = CHR '':'' then Some ([], s)
      else map_option (\<lambda>(x, y). (a # x, y)) (split_double_colon (b # s)))"
| "split_double_colon _ = None"

definition is_ipv6 :: "string \<Rightarrow> bool" where
  "is_ipv6 s =
     (case split_double_colon s of
        None \<Rightarrow> groups_of True s = Some 8
      | Some (head, tail) \<Rightarrow>
          (case (groups_of False head, groups_of True tail) of
             (Some h, Some t) \<Rightarrow> h + t \<le> 7
           | _ \<Rightarrow> False))"

section \<open>Encoding\<close>

definition service_name :: "ServiceSelector \<Rightarrow> string" where
  "service_name s = ss_service_id s"

definition service_group :: "ServiceSelector \<Rightarrow> string option" where
  "service_group s = Some (case ss_group s of Some g \<Rightarrow> g | None \<Rightarrow> DEFAULT_GROUP)"

definition encode_http_versions :: "HttpVersionSet \<Rightarrow> string" where
  "encode_http_versions versions =
     (if versions = VS_HTTP_1_1 then ''1.1'' else if versions = VS_HTTP_2 then ''2'' else ''1.1,2'')"

fun join_comma :: "string list \<Rightarrow> string" where
  "join_comma [] = []"
| "join_comma [s] = s"
| "join_comma (s # ss) = s @ CHR '','' # join_comma ss"

definition invalid_endpoint :: "string \<Rightarrow> RegistryError" where
  "invalid_endpoint message = RegistryError_message RO_PrepareRegistration RK_InvalidResource message"

definition strip_brackets :: "string \<Rightarrow> string" where
  "strip_brackets host =
     (case strip_prefix ''['' host of
        None \<Rightarrow> host
      | Some v \<Rightarrow> (case strip_suffix '']'' v of None \<Rightarrow> host | Some v \<Rightarrow> v))"

definition instance_metadata :: "nacos_lib \<Rightarrow> ServiceRegistration \<Rightarrow> (string \<times> string) list" where
  "instance_metadata lib r =
     (let sel = rg_selector r;
          insert = (\<lambda>k v m. AList.update k v m);
          extend = (\<lambda>kvs m. fold (\<lambda>(k, v). AList.update k v) kvs m);
          when = (\<lambda>k v m. case v of Some v \<Rightarrow> AList.update k v m | None \<Rightarrow> m);
          m = extend (rg_metadata r) (extend (ss_metadata sel) []);
          m = insert META_SCHEME (u_scheme (rg_endpoint r)) m;
          m = insert META_SERVICE_ID (ss_service_id sel) m;
          m = insert META_INSTANCE_ID (rg_instance_id r) m;
          m = insert META_HTTP_BINDINGS (join_comma (ec_bindings (rg_capabilities r))) m;
          m = insert META_HTTP_VERSIONS (encode_http_versions (ec_http_versions (rg_capabilities r))) m;
          m = (if ec_invocation_controls (rg_capabilities r)
               then insert META_INVOCATION_CONTROLS INVOCATION_CONTROLS_V1 m else m);
          path = nl_path lib (rg_endpoint r);
          m = (if path \<noteq> ''/'' \<and> path \<noteq> [] then insert META_BASE_PATH path m else m)
      in when META_GROUP (ss_group sel) (when META_VERSION (ss_version sel) m))"

definition build_instance ::
  "nacos_lib \<Rightarrow> NacosInstance \<Rightarrow> ServiceRegistration \<Rightarrow> RegistryError + NacosInstance" where
  "build_instance lib base r =
     (case u_host_str (rg_endpoint r) of
        None \<Rightarrow> Inl (invalid_endpoint ''advertised endpoint has no host'')
      | Some host \<Rightarrow>
          (case u_port_or_known_default (rg_endpoint r) of
             None \<Rightarrow> Inl (invalid_endpoint ''advertised endpoint has no port'')
           | Some port \<Rightarrow>
               Inr (base\<lparr>nw_instance_id := Some (rg_instance_id r), nw_ip := strip_brackets host,
                         nw_port := int port, nw_weight := F_Finite False (rg_weight r),
                         nw_metadata := instance_metadata lib r\<rparr>)))"

section \<open>Decoding\<close>

fun collect_bindings :: "string list \<Rightarrow> string list \<Rightarrow> string list option" where
  "collect_bindings seen [] = Some []"
| "collect_bindings seen (v # vs) =
     (case HttpBindingId_new v of
        Inl _ \<Rightarrow> None
      | Inr binding \<Rightarrow>
          if binding \<in> set seen then None
          else map_option ((#) binding) (collect_bindings (binding # seen) vs))"

definition decode_bindings :: "string \<Rightarrow> string list option" where
  "decode_bindings v =
     (case collect_bindings [] (split_on (\<lambda>c. c = CHR '','') v) of
        None \<Rightarrow> None
      | Some bindings \<Rightarrow> if bindings \<noteq> [] then Some bindings else None)"

fun scan_versions :: "string list \<Rightarrow> bool \<Rightarrow> bool \<Rightarrow> (bool \<times> bool) option" where
  "scan_versions [] http1 http2 = Some (http1, http2)"
| "scan_versions (v # vs) http1 http2 =
     (if v = ''1.1'' then (if http1 then None else scan_versions vs True http2)
      else if v = ''2'' then (if http2 then None else scan_versions vs http1 True)
      else None)"

definition decode_http_versions :: "string \<Rightarrow> HttpVersionSet option" where
  "decode_http_versions v =
     (case scan_versions (split_on (\<lambda>c. c = CHR '','') v) False False of
        None \<Rightarrow> None
      | Some (True, True) \<Rightarrow> Some VS_ALL
      | Some (True, False) \<Rightarrow> Some VS_HTTP_1_1
      | Some (False, True) \<Rightarrow> Some VS_HTTP_2
      | Some (False, False) \<Rightarrow> None)"

definition decode_capabilities ::
  "(string \<times> string) list \<Rightarrow> NacosConvention \<Rightarrow> EndpointCapabilities option" where
  "decode_capabilities m convention =
     (let bindings = map_of m META_HTTP_BINDINGS;
          versions = map_of m META_HTTP_VERSIONS;
          controls = map_of m META_INVOCATION_CONTROLS
      in if bindings = None \<and> versions = None \<and> controls = None
         then (if convention = NC_SpringCloud then Some EndpointCapabilities_default else None)
         else (case Option.bind bindings decode_bindings of
                 None \<Rightarrow> None
               | Some bindings \<Rightarrow>
                   (case Option.bind versions decode_http_versions of
                      None \<Rightarrow> None
                    | Some versions \<Rightarrow>
                        (if controls = None \<or> controls = Some INVOCATION_CONTROLS_V1
                         then (case EndpointCapabilities_new versions bindings (controls \<noteq> None) of
                                 Inl _ \<Rightarrow> None | Inr c \<Rightarrow> Some c)
                         else None))))"

fun decode_segments :: "nacos_lib \<Rightarrow> string list \<Rightarrow> string list option" where
  "decode_segments lib [] = Some []"
| "decode_segments lib (s # ss) =
     (if s = [] then decode_segments lib ss
      else (case nl_decode lib s of
              None \<Rightarrow> None
            | Some t \<Rightarrow> map_option ((#) t) (decode_segments lib ss)))"

definition base_path_segments :: "nacos_lib \<Rightarrow> string \<Rightarrow> string list option" where
  "base_path_segments lib path =
     decode_segments lib (split_on (\<lambda>c. c = CHR ''/'') (trim_matches (CHR ''/'') path))"

text \<open>Segments are pushed only after \<^verbatim>\<open>path_segments_mut\<close> succeeded, so a failure of either gives nothing.\<close>

definition with_base_path :: "nacos_lib \<Rightarrow> (string \<times> string) list \<Rightarrow> url \<Rightarrow> url option" where
  "with_base_path lib m u =
     (case map_of m META_BASE_PATH of
        None \<Rightarrow> Some u
      | Some path \<Rightarrow> Option.bind (base_path_segments lib path) (\<lambda>segments. nl_set_segments lib segments u))"

definition origin_text :: "string \<Rightarrow> string \<Rightarrow> nat \<Rightarrow> string" where
  "origin_text scheme ip port =
     scheme @ ''://'' @ (if is_ipv6 ip then ''['' @ ip @ '']'' else ip) @ '':'' @ nat_to_string port"

definition discovered_id :: "NacosInstance \<Rightarrow> nat \<Rightarrow> string option" where
  "discovered_id n port =
     (case (case map_of (nw_metadata n) META_INSTANCE_ID of Some v \<Rightarrow> Some v | None \<Rightarrow> nw_instance_id n) of
        Some v \<Rightarrow>
          (case InstanceId_new v of
             Inr i \<Rightarrow> Some i
           | Inl _ \<Rightarrow> (case InstanceId_new (''nacos:'' @ nw_ip n @ '':'' @ nat_to_string port) of
                        Inr i \<Rightarrow> Some i | Inl _ \<Rightarrow> None))
      | None \<Rightarrow> (case InstanceId_new (''nacos:'' @ nw_ip n @ '':'' @ nat_to_string port) of
                   Inr i \<Rightarrow> Some i | Inl _ \<Rightarrow> None))"

abbreviation ok_of :: "'e + 'a \<Rightarrow> 'a option" where
  "ok_of r \<equiv> (case r of Inl _ \<Rightarrow> None | Inr x \<Rightarrow> Some x)"

definition user_metadata :: "(string \<times> string) list \<Rightarrow> metadata" where
  "user_metadata m = bt_collect (filter (\<lambda>(k, v). \<not> starts_with ''fusen.'' k) m)"

definition valid_port :: "int \<Rightarrow> nat option" where
  "valid_port p = (if 0 < p \<and> p \<le> 65535 then Some (nat p) else None)"

definition to_service_instance :: "nacos_lib \<Rightarrow> NacosInstance \<Rightarrow> NacosConvention \<Rightarrow> ServiceInstance option" where
  "to_service_instance lib n convention =
     Option.bind (valid_port (nw_port n)) (\<lambda>port.
       let scheme = (case map_of (nw_metadata n) META_SCHEME of Some s \<Rightarrow> s | None \<Rightarrow> ''http'')
       in if scheme \<noteq> ''http'' \<and> scheme \<noteq> ''https'' then None
          else Option.bind (nl_parse lib (origin_text scheme (nw_ip n) port)) (\<lambda>u.
               Option.bind (with_base_path lib (nw_metadata n) u) (\<lambda>u.
               Option.bind (discovered_id n port) (\<lambda>instance_id.
               Option.bind (ok_of (ServiceEndpoint_new u)) (\<lambda>endpoint.
               Option.bind (decode_capabilities (nw_metadata n) convention) (\<lambda>capabilities.
               Option.bind (ok_of (ServiceWeight_new (nw_weight n))) (\<lambda>weight.
                 ok_of (instance_with_metadata (ServiceInstance_new instance_id endpoint capabilities weight)
                          (user_metadata (nw_metadata n))))))))))"

definition matches_selector :: "NacosInstance \<Rightarrow> ServiceSelector \<Rightarrow> NacosConvention \<Rightarrow> bool" where
  "matches_selector n selector convention =
     (if map_of (nw_metadata n) META_VERSION \<noteq> ss_version selector then False
      else (case map_of (nw_metadata n) META_SERVICE_ID of
              Some service_id \<Rightarrow> service_id = ss_service_id selector
            | None \<Rightarrow> convention = NC_SpringCloud))"

fun positive_weight :: "float64 \<Rightarrow> bool" where
  "positive_weight F_NaN = False"
| "positive_weight (F_Infinite negative) = (\<not> negative)"
| "positive_weight (F_Finite negative x) = (\<not> negative \<and> 0 < mant x)"

definition to_service_instances ::
  "nacos_lib \<Rightarrow> NacosInstance list \<Rightarrow> ServiceSelector \<Rightarrow> NacosConvention \<Rightarrow> ServiceInstance list" where
  "to_service_instances lib ns selector convention =
     List.map_filter (\<lambda>n. to_service_instance lib n convention)
       (filter (\<lambda>n. matches_selector n selector convention)
         (filter (\<lambda>n. nw_healthy n \<and> nw_enabled n \<and> positive_weight (nw_weight n)) ns))"

section \<open>The snapshot gate\<close>

definition registry_provider_error :: "RegistryOperation \<Rightarrow> nacos_error \<Rightarrow> RegistryError" where
  "registry_provider_error operation e =
     RegistryError_new operation
       (case e of NE_InvalidParam _ \<Rightarrow> RK_InvalidResource | NE_WrongServerAddress _ \<Rightarrow> RK_InvalidResource
                | NE_Serialization _ \<Rightarrow> RK_Internal | NE_Other _ \<Rightarrow> RK_Unavailable)
       (nacos_error_source e)"

record SnapshotGate =
  sg_publisher :: DirectoryPublisher
  sg_initialized :: bool
  sg_pending :: "ServiceInstance list option"
  sg_poisoned :: bool

definition SnapshotGate_new :: "DirectoryPublisher \<Rightarrow> SnapshotGate" where
  "SnapshotGate_new p = \<lparr>sg_publisher = p, sg_initialized = False, sg_pending = None, sg_poisoned = False\<rparr>"

definition gate_poisoned :: RegistryError where
  "gate_poisoned = RegistryError_message RO_Directory RK_Internal ''Nacos snapshot gate lock was poisoned''"

definition gate_initialize ::
  "ServiceInstance list \<Rightarrow> instant \<Rightarrow> SnapshotGate \<Rightarrow> (RegistryError + unit) \<times> SnapshotGate" where
  "gate_initialize initial now g =
     (if sg_poisoned g then (Inl gate_poisoned, g)
      else (let snapshot = (case sg_pending g of Some instances \<Rightarrow> instances | None \<Rightarrow> initial);
                g = g\<lparr>sg_pending := None\<rparr>
            in case publish_ready snapshot now (sg_publisher g) of
                 (Inl e, p) \<Rightarrow> (Inl e, g\<lparr>sg_publisher := p\<rparr>)
               | (Inr _, p) \<Rightarrow> (Inr (), g\<lparr>sg_publisher := p, sg_initialized := True\<rparr>)))"

definition gate_update ::
  "ServiceInstance list \<Rightarrow> instant \<Rightarrow> SnapshotGate \<Rightarrow> (RegistryError + unit) \<times> SnapshotGate" where
  "gate_update instances now g =
     (if sg_poisoned g then (Inl gate_poisoned, g)
      else if sg_initialized g
      then (case publish_ready instances now (sg_publisher g) of
              (Inl e, p) \<Rightarrow> (Inl e, g\<lparr>sg_publisher := p\<rparr>)
            | (Inr _, p) \<Rightarrow> (Inr (), g\<lparr>sg_publisher := p\<rparr>))
      else (Inr (), g\<lparr>sg_pending := Some instances\<rparr>))"

text \<open>The listener: an event without instances is an empty list, and a refused update is only logged.\<close>

type_synonym naming_event = "NacosInstance list option \<times> instant"

definition change_event ::
  "nacos_lib \<Rightarrow> ServiceSelector \<Rightarrow> NacosConvention \<Rightarrow> naming_event \<Rightarrow> SnapshotGate \<Rightarrow> SnapshotGate" where
  "change_event lib selector convention event g =
     snd (gate_update
       (case fst event of Some ns \<Rightarrow> to_service_instances lib ns selector convention | None \<Rightarrow> [])
       (snd event) g)"

section \<open>Handles\<close>

text \<open>What \<open>prepare_registration\<close> keeps for activation and cleanup, and what both do with the SDK's answer.\<close>

record prepared_registration =
  pr_service_name :: string
  pr_group :: "string option"
  pr_instance :: NacosInstance

definition prepare_registration ::
  "nacos_lib \<Rightarrow> NacosInstance \<Rightarrow> ServiceRegistration \<Rightarrow> RegistryError + prepared_registration" where
  "prepare_registration lib base r =
     bind_result (build_instance lib base r) (\<lambda>n.
       Inr \<lparr>pr_service_name = service_name (rg_selector r), pr_group = service_group (rg_selector r),
            pr_instance = n\<rparr>)"

text \<open>The operations of the SDK with their errors as registry errors (\<open>SdkNamingOperations\<close>).\<close>

type_synonym ('a, 'b) naming_call = "string \<Rightarrow> string option \<Rightarrow> 'a \<Rightarrow> nacos_error + 'b"

definition sdk_register ::
  "(NacosInstance, unit) naming_call \<Rightarrow> (string \<Rightarrow> string option \<Rightarrow> NacosInstance \<Rightarrow> RegistryError + unit)" where
  "sdk_register call name grp n = map_err (registry_provider_error RO_ActivateRegistration) (call name grp n)"

definition sdk_deregister ::
  "(NacosInstance, unit) naming_call \<Rightarrow> (string \<Rightarrow> string option \<Rightarrow> NacosInstance \<Rightarrow> RegistryError + unit)" where
  "sdk_deregister call name grp n = map_err (registry_provider_error RO_CloseRegistration) (call name grp n)"

definition sdk_subscribe ::
  "(string list, unit) naming_call \<Rightarrow> (string \<Rightarrow> string option \<Rightarrow> string list \<Rightarrow> RegistryError + unit)" where
  "sdk_subscribe call name grp clusters =
     map_err (registry_provider_error RO_ActivateSubscription) (call name grp clusters)"

definition sdk_unsubscribe ::
  "(string list, unit) naming_call \<Rightarrow> (string \<Rightarrow> string option \<Rightarrow> string list \<Rightarrow> RegistryError + unit)" where
  "sdk_unsubscribe call name grp clusters =
     map_err (registry_provider_error RO_CloseSubscription) (call name grp clusters)"

definition sdk_select ::
  "(string list, NacosInstance list) naming_call \<Rightarrow>
   (string \<Rightarrow> string option \<Rightarrow> string list \<Rightarrow> RegistryError + NacosInstance list)" where
  "sdk_select call name grp clusters =
     map_err (registry_provider_error RO_ActivateSubscription) (call name grp clusters)"

definition activate_registration ::
  "(NacosInstance, unit) naming_call \<Rightarrow> prepared_registration \<Rightarrow> RegistryError + unit" where
  "activate_registration call r = sdk_register call (pr_service_name r) (pr_group r) (pr_instance r)"

definition close_registration ::
  "(NacosInstance, unit) naming_call \<Rightarrow> prepared_registration \<Rightarrow> RegistryError + unit" where
  "close_registration call r = sdk_deregister call (pr_service_name r) (pr_group r) (pr_instance r)"

text \<open>
  The activation of a subscription: subscribe, fetch the instances, initialise the gate.  \<open>arrived\<close> are the
  changes the listener saw since it was subscribed.
\<close>

definition activate_subscription ::
  "nacos_lib \<Rightarrow> (string list, unit) naming_call \<Rightarrow> (string list, NacosInstance list) naming_call \<Rightarrow>
   naming_event list \<Rightarrow> ServiceSelector \<Rightarrow> NacosConvention \<Rightarrow> instant \<Rightarrow> SnapshotGate \<Rightarrow>
   (RegistryError + unit) \<times> SnapshotGate" where
  "activate_subscription lib subscribe select arrived selector convention now g =
     (case sdk_subscribe subscribe (service_name selector) (service_group selector) [] of
        Inl e \<Rightarrow> (Inl e, g)
      | Inr _ \<Rightarrow>
          (let g = fold (change_event lib selector convention) arrived g
           in case sdk_select select (service_name selector) (service_group selector) [] of
                Inl e \<Rightarrow> (Inl e, g)
              | Inr ns \<Rightarrow> gate_initialize (to_service_instances lib ns selector convention) now g))"

definition close_subscription :: "(string list, unit) naming_call \<Rightarrow> ServiceSelector \<Rightarrow> RegistryError + unit" where
  "close_subscription call selector = sdk_unsubscribe call (service_name selector) (service_group selector) []"

definition connect_registry ::
  "(client_properties \<Rightarrow> bool \<Rightarrow> nacos_error + 'client) \<Rightarrow> string \<Rightarrow> NacosConfig \<Rightarrow>
   RegistryError + ('client \<times> NacosConvention)" where
  "connect_registry build application_name c =
     bind_result (map_err (\<lambda>e. RegistryError_new RO_PrepareRegistration RK_InvalidResource (nacos_error_text e))
                    (validate_nacos c)) (\<lambda>_.
     bind_result (map_err (\<lambda>m. RegistryError_message RO_PrepareRegistration RK_InvalidResource m)
                    (validate_application_name application_name)) (\<lambda>_.
     bind_result (map_err (registry_provider_error RO_PrepareRegistration)
                    (build (client_props c application_name) (nf_username c \<noteq> None))) (\<lambda>client.
       Inr (client, NC_Canonical))))"

end
