(* ===== verification/Nacos_Theorems.thy ===== *)
theory Nacos_Theorems
  imports Nacos_Registry
begin

text \<open>
  What a registration becomes in the registry and what a discovery makes of it again, and that discovery
  gives valid instances only, whatever the registry holds.
\<close>

section \<open>Metadata\<close>

lemma filter_update_other:
  "\<not> p k \<Longrightarrow> filter (\<lambda>(k, v). p k) (AList.update k v m) = filter (\<lambda>(k, v). p k) m"
  by (induction m) auto

lemma map_of_update [simp]: "map_of (AList.update k v m) k' = (if k' = k then Some v else map_of m k')"
  by (simp add: update_conv')

lemma map_of_user: "map_of (filter (\<lambda>(k, v). p k) m) k = (if p k then map_of m k else None)"
  by (induction m) auto

lemma keys_user: "fst ` set (user_metadata m) = {k \<in> fst ` set m. \<not> starts_with ''fusen.'' k}"
  using fold_bt_insert_keys [of "filter (\<lambda>(k, v). \<not> starts_with ''fusen.'' k) m" "[]"]
  by (auto simp: user_metadata_def bt_collect_def)

lemma find_check: "(case find p xs of None \<Rightarrow> Inr () | Some k \<Rightarrow> Inl (f k)) = Inr u \<longleftrightarrow> (\<forall>x \<in> set xs. \<not> p x)"
proof (cases "find p xs")
  case None
  then have "\<forall>x \<in> set xs. \<not> p x" unfolding find_None_iff by blast
  then show ?thesis unfolding None by simp
next
  case (Some x)
  then have "x \<in> set xs \<and> p x" by (auto simp: find_Some_iff)
  then show ?thesis using Some by auto
qed

lemma valid_user_metadata_iff:
  "validate_user_metadata m = Inr u \<longleftrightarrow> (\<forall>k \<in> fst ` set m. \<not> bad_metadata_key k \<and> \<not> starts_with ''fusen.'' k)"
  unfolding validate_user_metadata_def validate_metadata_keys_def bind_result_Inr_iff find_check set_map by blast

lemma map_of_user_metadata:
  assumes "distinct (map fst m)"
  shows "map_of (user_metadata m) k = (if starts_with ''fusen.'' k then None else map_of m k)"
proof -
  have "distinct (map fst (filter (\<lambda>(k, v). \<not> starts_with ''fusen.'' k) m))"
    using assms by (simp add: distinct_map_filter)
  then have "map_of (user_metadata m) k = map_of (filter (\<lambda>(k, v). \<not> starts_with ''fusen.'' k) m) k"
    unfolding user_metadata_def bt_collect_def by (rule bt.lookup_collect_distinct)
  then show ?thesis using map_of_user [of "\<lambda>k. \<not> starts_with ''fusen.'' k" m k] by simp
qed

section \<open>Bindings and versions\<close>

lemma binding_no_comma:
  assumes "valid_binding_id v"
  shows "CHR '','' \<notin> set v"
proof
  assume "CHR '','' \<in> set v"
  have "\<exists>seg \<in> set (split_on p v). c \<in> set seg" if "c \<in> set v" "\<not> p c" for c p
    using that by (induction v) (auto split: list.splits)
  from this [OF \<open>CHR '','' \<in> set v\<close>, of "\<lambda>c. c = CHR ''-'' \<or> c = CHR ''.''"]
  obtain seg where "seg \<in> set (split_on (\<lambda>c. c = CHR ''-'' \<or> c = CHR ''.'') v)" "CHR '','' \<in> set seg" by auto
  then have "is_ascii_lowercase (CHR '','') \<or> is_ascii_digit (CHR '','')"
    using assms by (auto simp: valid_binding_id_def list_all_iff)
  then show False by (simp add: ascii_defs byte_def)
qed

lemma split_join_comma:
  "ss \<noteq> [] \<Longrightarrow> \<forall>s \<in> set ss. CHR '','' \<notin> set s \<Longrightarrow> split_on (\<lambda>c. c = CHR '','') (join_comma ss) = ss"
proof (induction ss rule: join_comma.induct)
  case (2 s)
  then show ?case by (auto intro: split_on_absent)
next
  case (3 s t ss)
  then have "split_on (\<lambda>c. c = CHR '','') (s @ CHR '','' # join_comma (t # ss)) = s # t # ss"
    by (subst split_on_append_sep) auto
  then show ?case by simp
qed simp

lemma collect_bindings_Some_iff:
  "collect_bindings seen vs = Some bs \<longleftrightarrow>
     bs = vs \<and> list_all valid_binding_id vs \<and> distinct vs \<and> set vs \<inter> set seen = {}"
proof (induction vs arbitrary: seen bs)
  case (Cons v vs)
  show ?case
  proof (cases "valid_binding_id v \<and> v \<notin> set seen")
    case True
    then have "collect_bindings seen (v # vs) = map_option ((#) v) (collect_bindings (v # seen) vs)"
      by (simp add: HttpBindingId_new_def)
    moreover have "map_option ((#) v) (collect_bindings (v # seen) vs) = Some bs \<longleftrightarrow>
        (\<exists>rest. bs = v # rest \<and> collect_bindings (v # seen) vs = Some rest)" by auto
    ultimately show ?thesis using True Cons.IH by auto
  next
    case False
    then have "collect_bindings seen (v # vs) = None" by (auto simp: HttpBindingId_new_def)
    then show ?thesis using False by auto
  qed
qed auto

lemma decode_bindings_join:
  assumes "bs \<noteq> []" "list_all valid_binding_id bs" "distinct bs"
  shows "decode_bindings (join_comma bs) = Some bs"
proof -
  have "split_on (\<lambda>c. c = CHR '','') (join_comma bs) = bs"
    using assms binding_no_comma by (intro split_join_comma) (auto simp: list_all_iff)
  moreover have "collect_bindings [] bs = Some bs" using assms by (simp add: collect_bindings_Some_iff)
  ultimately show ?thesis using assms(1) by (simp add: decode_bindings_def)
qed

lemma version_sets_distinct: "VS_HTTP_1_1 \<noteq> VS_HTTP_2" "VS_ALL \<noteq> VS_HTTP_1_1" "VS_ALL \<noteq> VS_HTTP_2"
  by (simp_all add: VS_HTTP_1_1_def VS_HTTP_2_def VS_ALL_def HTTP_1_1_BIT_def HTTP_2_BIT_def)

lemma decode_http_versions_encode:
  assumes "vs \<in> {VS_HTTP_1_1, VS_HTTP_2, VS_ALL}"
  shows "decode_http_versions (encode_http_versions vs) = Some vs"
  using assms version_sets_distinct
  by (auto simp: encode_http_versions_def decode_http_versions_def)

lemma decode_http_versions_valid:
  "decode_http_versions v = Some vs \<Longrightarrow> vs \<in> {VS_HTTP_1_1, VS_HTTP_2, VS_ALL}"
  by (auto simp: decode_http_versions_def split: option.splits prod.splits bool.splits)

lemma collect_set_sorted:
  assumes "sorted bs" "distinct bs"
  shows "bt_collect_set bs = bs"
  using assms by (intro sorted_distinct_set_unique) simp_all

text \<open>What \<open>EndpointCapabilities\<close> can hold: a non-empty set of versions, and bindings in order.\<close>

definition capabilities_ok :: "EndpointCapabilities \<Rightarrow> bool" where
  "capabilities_ok c \<longleftrightarrow>
     ec_http_versions c \<in> {VS_HTTP_1_1, VS_HTTP_2, VS_ALL} \<and> ec_bindings c \<noteq> []
   \<and> list_all valid_binding_id (ec_bindings c) \<and> sorted (ec_bindings c) \<and> distinct (ec_bindings c)"

lemma capabilities_new_sorted:
  assumes "capabilities_ok c"
  shows "EndpointCapabilities_new (ec_http_versions c) (ec_bindings c) (ec_invocation_controls c) = Inr c"
  using assms collect_set_sorted [of "ec_bindings c"]
  by (simp add: EndpointCapabilities_new_def capabilities_ok_def)

lemma json_binding_valid: "valid_binding_id HTTP_JSON_V1"
  by (simp add: valid_binding_id_def HTTP_JSON_V1_def ascii_defs byte_def)

lemma capabilities_default_ok: "capabilities_ok EndpointCapabilities_default"
  using json_binding_valid by (simp add: capabilities_ok_def EndpointCapabilities_default_def)

lemma decode_capabilities_ok:
  assumes "decode_capabilities m convention = Some c"
  shows "capabilities_ok c"
proof (cases "map_of m META_HTTP_BINDINGS = None \<and> map_of m META_HTTP_VERSIONS = None
    \<and> map_of m META_INVOCATION_CONTROLS = None")
  case True
  then show ?thesis
    using assms capabilities_default_ok by (auto simp: decode_capabilities_def Let_def split: if_splits)
next
  case False
  then obtain bs vs where d: "Option.bind (map_of m META_HTTP_BINDINGS) decode_bindings = Some bs"
      "Option.bind (map_of m META_HTTP_VERSIONS) decode_http_versions = Some vs"
      "EndpointCapabilities_new vs bs (map_of m META_INVOCATION_CONTROLS \<noteq> None) = Inr c"
    using assms unfolding decode_capabilities_def Let_def
    by (auto simp only: if_False option.simps sum.inject split: option.splits if_splits sum.splits)
  have "list_all valid_binding_id bs" "bs \<noteq> []"
    using d(1) by (auto simp: decode_bindings_def collect_bindings_Some_iff bind_eq_Some_conv
        split: option.splits if_splits)
  moreover have "vs \<in> {VS_HTTP_1_1, VS_HTTP_2, VS_ALL}"
    using d(2) decode_http_versions_valid by (fastforce simp: bind_eq_Some_conv)
  ultimately show ?thesis
    using d(3) by (auto simp: EndpointCapabilities_new_def capabilities_ok_def Let_def list_all_iff
        split: if_splits)
qed

section \<open>Valid registrations and instances\<close>

text \<open>What the constructors of the contract guarantee of the parts of a registration.\<close>

definition registration_ok :: "ServiceRegistration \<Rightarrow> bool" where
  "registration_ok r \<longleftrightarrow>
     is_instance_id (rg_instance_id r)
   \<and> ServiceEndpoint_new (rg_endpoint r) = Inr (rg_endpoint r)
   \<and> (case u_port_or_known_default (rg_endpoint r) of Some p \<Rightarrow> p \<le> 65535 | None \<Rightarrow> False)
   \<and> capabilities_ok (rg_capabilities r) \<and> 0 < mant (rg_weight r)
   \<and> validate_user_metadata (ss_metadata (rg_selector r)) = Inr () \<and> bt_ok (ss_metadata (rg_selector r))
   \<and> validate_user_metadata (rg_metadata r) = Inr () \<and> bt_ok (rg_metadata r)"

definition instance_ok :: "ServiceInstance \<Rightarrow> bool" where
  "instance_ok i \<longleftrightarrow>
     is_instance_id (si_instance_id i) \<and> ServiceEndpoint_new (si_endpoint i) = Inr (si_endpoint i)
   \<and> capabilities_ok (si_capabilities i) \<and> 0 < mant (si_weight i)
   \<and> validate_user_metadata (si_metadata i) = Inr () \<and> bt_ok (si_metadata i)"

lemma InstanceId_new_Inr: "InstanceId_new v = Inr i \<longleftrightarrow> i = v \<and> is_instance_id v"
  by (auto simp: InstanceId_new_def)

lemma ServiceEndpoint_new_same: "ServiceEndpoint_new u = Inr e \<Longrightarrow> e = u"
  by (auto simp: ServiceEndpoint_new_def split: if_splits)

lemma ServiceWeight_new_Inr: "ServiceWeight_new w = Inr x \<longleftrightarrow> w = F_Finite False x \<and> 0 < mant x"
  by (cases w rule: ServiceWeight_new.cases) auto

lemma ok_of_Some [simp]: "ok_of r = Some x \<longleftrightarrow> r = Inr x"
  by (cases r) auto

lemma to_service_instance_cases:
  assumes "to_service_instance lib n convention = Some i"
  obtains port o' u instance_id capabilities weight where
    "valid_port (nw_port n) = Some port"
    "with_base_path lib (nw_metadata n) o' = Some u"
    "discovered_id n port = Some instance_id" "ServiceEndpoint_new u = Inr u"
    "decode_capabilities (nw_metadata n) convention = Some capabilities"
    "ServiceWeight_new (nw_weight n) = Inr weight"
    "instance_with_metadata (ServiceInstance_new instance_id u capabilities weight)
       (user_metadata (nw_metadata n)) = Inr i"
proof -
  obtain port o' u instance_id e capabilities weight where parts:
    "valid_port (nw_port n) = Some port" "with_base_path lib (nw_metadata n) o' = Some u"
    "discovered_id n port = Some instance_id" "ServiceEndpoint_new u = Inr e"
    "decode_capabilities (nw_metadata n) convention = Some capabilities"
    "ServiceWeight_new (nw_weight n) = Inr weight"
    "instance_with_metadata (ServiceInstance_new instance_id e capabilities weight)
       (user_metadata (nw_metadata n)) = Inr i"
    using assms unfolding to_service_instance_def Let_def bind_eq_Some_conv ok_of_Some
    by (auto simp only: bind_eq_Some_conv ok_of_Some option.distinct split: if_splits; blast)
  then have "e = u" by (simp add: ServiceEndpoint_new_same)
  then show thesis using parts by (intro that) simp_all
qed

lemma discovered_id_valid: "discovered_id n port = Some i \<Longrightarrow> is_instance_id i"
  by (auto simp: discovered_id_def InstanceId_new_Inr split: option.splits sum.splits)

lemma to_service_instance_ok:
  assumes "to_service_instance lib n convention = Some i"
  shows "instance_ok i"
  using assms
proof (cases rule: to_service_instance_cases)
  case (1 port o' u instance_id capabilities weight)
  let ?m = "user_metadata (nw_metadata n)"
  have m: "validate_user_metadata ?m = Inr ()"
    and i: "i = ServiceInstance_new instance_id u capabilities weight\<lparr>si_metadata := ?m\<rparr>"
    using 1(7) by (auto simp: instance_with_metadata_def bind_result_Inr_iff)
  have "bt_ok ?m" by (simp add: user_metadata_def)
  then show ?thesis
    using 1 m i discovered_id_valid decode_capabilities_ok
    by (simp add: instance_ok_def ServiceInstance_new_def ServiceWeight_new_Inr)
qed

text \<open>
  C36.  Discovery never hands on an invalid instance, whatever instances the registry answers with: each has a
  valid id, endpoint, weight, capabilities and user metadata, and comes from a healthy, enabled instance that
  matches the selector.
\<close>
theorem discovered_instances_valid:
  assumes "i \<in> set (to_service_instances lib ns selector convention)"
  shows "instance_ok i \<and> (\<exists>n \<in> set ns. nw_healthy n \<and> nw_enabled n \<and> matches_selector n selector convention
           \<and> to_service_instance lib n convention = Some i)"
  using assms to_service_instance_ok [of lib _ convention i]
  by (auto simp: to_service_instances_def map_filter_def)

section \<open>The metadata of an instance\<close>

lemma starts_with_meta [simp]:
  "starts_with ''fusen.'' META_SCHEME" "starts_with ''fusen.'' META_BASE_PATH" "starts_with ''fusen.'' META_SERVICE_ID"
  "starts_with ''fusen.'' META_VERSION" "starts_with ''fusen.'' META_GROUP" "starts_with ''fusen.'' META_INSTANCE_ID"
  "starts_with ''fusen.'' META_HTTP_BINDINGS" "starts_with ''fusen.'' META_HTTP_VERSIONS"
  "starts_with ''fusen.'' META_INVOCATION_CONTROLS"
  by (simp_all add: meta_defs starts_with_def)

text \<open>The user's entries, before the framework's own are added.\<close>

definition given_metadata :: "ServiceRegistration \<Rightarrow> (string \<times> string) list" where
  "given_metadata r =
     fold (\<lambda>(k, v). AList.update k v) (rg_metadata r)
       (fold (\<lambda>(k, v). AList.update k v) (ss_metadata (rg_selector r)) [])"

lemma given_metadata_distinct: "distinct (map fst (given_metadata r))"
  unfolding given_metadata_def by (intro hm.ok_collect hm.ok_empty)

lemma instance_metadata_distinct: "distinct (map fst (instance_metadata lib r))"
  unfolding instance_metadata_def Let_def given_metadata_def [symmetric]
  by (auto simp: given_metadata_distinct distinct_update split: option.split)

lemma given_metadata_lookup:
  assumes "bt_ok (rg_metadata r)" "bt_ok (ss_metadata (rg_selector r))"
  shows "map_of (given_metadata r) = map_of (ss_metadata (rg_selector r)) ++ map_of (rg_metadata r)"
proof
  fix k
  have d: "distinct (map fst (rg_metadata r))" "distinct (map fst (ss_metadata (rg_selector r)))"
    using assms by (simp_all add: bt_ok_def)
  have rev: "map_of (rev m) = map_of m" if "distinct (map fst m)" for m :: metadata
    using that by (simp add: map_of_inject_set rev_map [symmetric])
  let ?base = "fold (\<lambda>(k, v). AList.update k v) (ss_metadata (rg_selector r)) []"
  have "map_of ?base k = map_of (ss_metadata (rg_selector r)) k"
    using hm.lookup_collect_distinct [OF d(2)] by simp
  moreover have "distinct (map fst ?base)" by (intro hm.ok_collect hm.ok_empty)
  ultimately show "map_of (given_metadata r) k = (map_of (ss_metadata (rg_selector r)) ++ map_of (rg_metadata r)) k"
    unfolding given_metadata_def
    by (simp add: hm.lookup_collect rev [OF d(1)] map_add_def split: option.split)
qed

lemma given_metadata_user:
  assumes "registration_ok r" "k \<in> fst ` set (given_metadata r)"
  shows "\<not> bad_metadata_key k \<and> \<not> starts_with ''fusen.'' k"
proof -
  have ok: "bt_ok (rg_metadata r)" "bt_ok (ss_metadata (rg_selector r))"
    "validate_user_metadata (rg_metadata r) = Inr ()" "validate_user_metadata (ss_metadata (rg_selector r)) = Inr ()"
    using assms(1) by (auto simp: registration_ok_def)
  have "k \<in> dom (map_of (given_metadata r))" using assms(2) by (simp add: dom_map_of_conv_image_fst)
  then have "k \<in> fst ` set (rg_metadata r) \<union> fst ` set (ss_metadata (rg_selector r))"
    unfolding given_metadata_lookup [OF ok(1,2)] by (simp add: dom_map_of_conv_image_fst)
  then show ?thesis using ok(3,4) unfolding valid_user_metadata_iff by blast
qed

lemma instance_metadata_user_part:
  assumes "registration_ok r"
  shows "filter (\<lambda>(k, v). \<not> starts_with ''fusen.'' k) (instance_metadata lib r) = given_metadata r"
proof -
  have "filter (\<lambda>(k, v). \<not> starts_with ''fusen.'' k) (given_metadata r) = given_metadata r"
    using given_metadata_user [OF assms] by (intro filter_True) force
  then show ?thesis
    unfolding instance_metadata_def Let_def given_metadata_def [symmetric]
    by (simp add: filter_update_other split: option.split)
qed

lemma given_no_meta:
  assumes "registration_ok r" "starts_with ''fusen.'' k"
  shows "map_of (given_metadata r) k = None"
  using given_metadata_user [OF assms(1), of k] assms(2) by (force simp: map_of_eq_None_iff)

lemma instance_metadata_lookup:
  fixes lib
  assumes "registration_ok r"
  defines "m \<equiv> instance_metadata lib r"
  shows "map_of m META_SCHEME = Some (u_scheme (rg_endpoint r))"
    "map_of m META_SERVICE_ID = Some (ss_service_id (rg_selector r))"
    "map_of m META_INSTANCE_ID = Some (rg_instance_id r)"
    "map_of m META_HTTP_BINDINGS = Some (join_comma (ec_bindings (rg_capabilities r)))"
    "map_of m META_HTTP_VERSIONS = Some (encode_http_versions (ec_http_versions (rg_capabilities r)))"
    "map_of m META_INVOCATION_CONTROLS =
       (if ec_invocation_controls (rg_capabilities r) then Some INVOCATION_CONTROLS_V1 else None)"
    "map_of m META_VERSION = ss_version (rg_selector r)"
    "map_of m META_BASE_PATH =
       (if nl_path lib (rg_endpoint r) \<noteq> ''/'' \<and> nl_path lib (rg_endpoint r) \<noteq> []
        then Some (nl_path lib (rg_endpoint r)) else None)"
  unfolding m_def instance_metadata_def Let_def given_metadata_def [symmetric]
  using given_no_meta [OF assms(1)]
  by (simp_all add: meta_defs starts_with_def split: option.split)

section \<open>From a registration to a discovered instance\<close>

text \<open>
  How a URL prints its host: an IPv6 address in brackets, anything else without.  The libraries then give the
  endpoint back: the origin parses, and setting the decoded segments of its path restores the URL (which a path
  with an empty segment does not have).
\<close>

definition host_form :: "string \<Rightarrow> bool" where
  "host_form h \<longleftrightarrow> (if starts_with ''['' h then \<exists>ip. h = ''['' @ ip @ '']'' \<and> is_ipv6 ip else \<not> is_ipv6 h)"

definition url_restored :: "nacos_lib \<Rightarrow> url \<Rightarrow> bool" where
  "url_restored lib u \<longleftrightarrow>
     (\<exists>h port start. u_host_str u = Some h \<and> host_form h \<and> u_port_or_known_default u = Some port
        \<and> nl_parse lib (u_scheme u @ ''://'' @ h @ '':'' @ nat_to_string port) = Some start
        \<and> (if nl_path lib u = ''/'' \<or> nl_path lib u = [] then start = u
           else Option.bind (base_path_segments lib (nl_path lib u)) (\<lambda>segments. nl_set_segments lib segments start)
                  = Some u))"

lemma strip_brackets_origin:
  assumes "host_form h"
  shows "(if is_ipv6 (strip_brackets h) then ''['' @ strip_brackets h @ '']'' else strip_brackets h) = h"
proof (cases "starts_with ''['' h")
  case True
  then obtain ip where ip: "h = ''['' @ ip @ '']''" "is_ipv6 ip" using assms by (auto simp: host_form_def)
  have "strip_suffix '']'' (ip @ '']'') = Some ip" by (simp add: strip_suffix_Some_iff)
  then have "strip_brackets h = ip"
    unfolding strip_brackets_def ip(1) strip_prefix_append by simp
  then show ?thesis using ip by simp
next
  case False
  then have "strip_prefix ''['' h = None" by (simp add: starts_with_def)
  then show ?thesis using False assms by (simp add: strip_brackets_def host_form_def)
qed

lemma endpoint_scheme:
  "ServiceEndpoint_new u = Inr u \<Longrightarrow> u_scheme u = ''http'' \<or> u_scheme u = ''https''"
  by (auto simp: ServiceEndpoint_new_def split: if_splits)

lemma endpoint_port:
  "ServiceEndpoint_new u = Inr u \<Longrightarrow> u_port_or_known_default u = Some p \<Longrightarrow> 0 < p"
  by (auto simp: ServiceEndpoint_new_def split: if_splits)

lemma registered_capabilities:
  assumes "registration_ok r"
  shows "decode_capabilities (instance_metadata lib r) convention = Some (rg_capabilities r)"
proof -
  note look = instance_metadata_lookup [OF assms, where lib = lib]
  have c: "capabilities_ok (rg_capabilities r)" using assms by (simp add: registration_ok_def)
  then have "decode_bindings (join_comma (ec_bindings (rg_capabilities r))) = Some (ec_bindings (rg_capabilities r))"
    "decode_http_versions (encode_http_versions (ec_http_versions (rg_capabilities r)))
       = Some (ec_http_versions (rg_capabilities r))"
    unfolding capabilities_ok_def by (simp_all add: decode_bindings_join decode_http_versions_encode)
  then show ?thesis
    using capabilities_new_sorted [OF c] by (auto simp: decode_capabilities_def look)
qed

lemma registered_metadata:
  assumes "registration_ok r"
  shows "map_of (user_metadata (instance_metadata lib r))
           = map_of (ss_metadata (rg_selector r)) ++ map_of (rg_metadata r)"
    and "validate_user_metadata (user_metadata (instance_metadata lib r)) = Inr ()"
proof -
  have eq: "user_metadata (instance_metadata lib r) = bt_collect (given_metadata r)"
    unfolding user_metadata_def instance_metadata_user_part [OF assms] ..
  have ok: "bt_ok (rg_metadata r)" "bt_ok (ss_metadata (rg_selector r))"
    using assms by (simp_all add: registration_ok_def)
  show "map_of (user_metadata (instance_metadata lib r))
           = map_of (ss_metadata (rg_selector r)) ++ map_of (rg_metadata r)"
  proof
    fix k
    show "map_of (user_metadata (instance_metadata lib r)) k
           = (map_of (ss_metadata (rg_selector r)) ++ map_of (rg_metadata r)) k"
      unfolding eq bt_collect_def given_metadata_lookup [OF ok, symmetric]
      by (rule bt.lookup_collect_distinct [OF given_metadata_distinct])
  qed
  have "fst ` set (bt_collect (given_metadata r)) = fst ` set (given_metadata r)"
    using fold_bt_insert_keys [of "given_metadata r" "[]"] by (simp add: bt_collect_def)
  then show "validate_user_metadata (user_metadata (instance_metadata lib r)) = Inr ()"
    unfolding eq valid_user_metadata_iff using given_metadata_user [OF assms] by simp
qed

lemma registered_instance:
  assumes ok: "registration_ok r" and url: "url_restored lib (rg_endpoint r)"
    and built: "build_instance lib base r = Inr n"
  shows "to_service_instance lib n convention =
    Some (ServiceInstance_new (rg_instance_id r) (rg_endpoint r) (rg_capabilities r) (rg_weight r)
            \<lparr>si_metadata := user_metadata (instance_metadata lib r)\<rparr>)"
proof -
  obtain h port start where u: "u_host_str (rg_endpoint r) = Some h" "host_form h"
    "u_port_or_known_default (rg_endpoint r) = Some port"
    "nl_parse lib (u_scheme (rg_endpoint r) @ ''://'' @ h @ '':'' @ nat_to_string port) = Some start"
    and path: "if nl_path lib (rg_endpoint r) = ''/'' \<or> nl_path lib (rg_endpoint r) = [] then start = rg_endpoint r
           else Option.bind (base_path_segments lib (nl_path lib (rg_endpoint r)))
                  (\<lambda>segments. nl_set_segments lib segments start) = Some (rg_endpoint r)"
    using url unfolding url_restored_def by blast
  have n: "nw_ip n = strip_brackets h" "nw_port n = int port" "nw_weight n = F_Finite False (rg_weight r)"
    "nw_metadata n = instance_metadata lib r"
    using built u by (auto simp: build_instance_def)
  have e: "ServiceEndpoint_new (rg_endpoint r) = Inr (rg_endpoint r)" and p: "port \<le> 65535"
    using ok u(3) by (auto simp: registration_ok_def)
  note look = instance_metadata_lookup [OF ok, where lib = lib]
  have port: "valid_port (nw_port n) = Some port"
    using n p endpoint_port [OF e u(3)] by (simp add: valid_port_def)
  have origin: "origin_text (u_scheme (rg_endpoint r)) (nw_ip n) port
      = u_scheme (rg_endpoint r) @ ''://'' @ h @ '':'' @ nat_to_string port"
    unfolding origin_text_def n(1) strip_brackets_origin [OF u(2)] ..
  have base: "with_base_path lib (nw_metadata n) start = Some (rg_endpoint r)"
    using path by (auto simp: with_base_path_def n look split: if_splits)
  have id: "discovered_id n port = Some (rg_instance_id r)"
    using ok by (simp add: discovered_id_def n look InstanceId_new_def registration_ok_def)
  have weight: "ServiceWeight_new (nw_weight n) = Inr (rg_weight r)"
    using ok by (simp add: n registration_ok_def)
  have caps: "decode_capabilities (nw_metadata n) convention = Some (rg_capabilities r)"
    unfolding n by (rule registered_capabilities [OF ok])
  have meta: "validate_user_metadata (user_metadata (nw_metadata n)) = Inr ()"
    unfolding n by (rule registered_metadata [OF ok])
  have scheme: "(case map_of (nw_metadata n) META_SCHEME of Some s \<Rightarrow> s | None \<Rightarrow> ''http'') = u_scheme (rg_endpoint r)"
    by (simp add: n look)
  have parse: "nl_parse lib (origin_text (u_scheme (rg_endpoint r)) (nw_ip n) port) = Some start"
    unfolding origin by (rule u(4))
  have known: "(u_scheme (rg_endpoint r) \<noteq> ''http'' \<and> u_scheme (rg_endpoint r) \<noteq> ''https'') = False"
    using endpoint_scheme [OF e] by auto
  show ?thesis
    unfolding n(4) [symmetric]
    by (simp only: to_service_instance_def Let_def port scheme known if_False Option.bind.bind_lunit parse base id e caps
        weight instance_with_metadata_def meta bind_result_simps sum.case)
qed

lemma registered_matches:
  assumes "registration_ok r" "build_instance lib base r = Inr n"
  shows "matches_selector n selector convention \<longleftrightarrow>
    ss_service_id selector = ss_service_id (rg_selector r) \<and> ss_version selector = ss_version (rg_selector r)"
proof -
  have "nw_metadata n = instance_metadata lib r"
    using assms(2) by (auto simp: build_instance_def split: option.splits)
  then show ?thesis
    by (auto simp: matches_selector_def instance_metadata_lookup [OF assms(1), where lib = lib])
qed


text \<open>A library on one address, which prints an origin with a closing slash.\<close>

definition demo_endpoint :: url where
  "demo_endpoint =
     \<lparr>u_scheme = ''http'', u_cannot_be_a_base = False, u_host_str = Some ''[::1]'',
      u_port_or_known_default = Some 8080, u_username = [], u_password = None, u_query = None, u_fragment = None,
      u_as_str = ''http://[::1]:8080/api/v1''\<rparr>"

definition demo_nacos :: nacos_lib where
  "demo_nacos =
     \<lparr>nl_parse = \<lambda>t. if t = ''http://[::1]:8080'' then Some (demo_endpoint\<lparr>u_as_str := t @ ''/''\<rparr>) else None,
      nl_path = \<lambda>u. (case strip_prefix ''http://[::1]:8080'' (u_as_str u) of Some p \<Rightarrow> p | None \<Rightarrow> []),
      nl_set_segments = \<lambda>ss u. Some (u\<lparr>u_as_str := ''http://[::1]:8080'' @ concat (map ((#) (CHR ''/'')) ss)\<rparr>),
      nl_decode = Some\<rparr>"

definition demo_registration :: ServiceRegistration where
  "demo_registration =
     \<lparr>rg_instance_id = ''i1'',
      rg_descriptor = \<lparr>sd_selector = \<lparr>ss_service_id = ''orders'', ss_group = None, ss_version = Some ''v1'',
                                     ss_metadata = [(''zone'', ''a'')], ss_identity = ''orders@v1''\<rparr>, sd_methods = []\<rparr>,
      rg_endpoint = demo_endpoint, rg_capabilities = EndpointCapabilities_default,
      rg_weight = \<lparr>mant = 3, expo = 0\<rparr>, rg_metadata = [(''zone'', ''b'')]\<rparr>"

definition demo_base :: NacosInstance where
  "demo_base = \<lparr>nw_instance_id = None, nw_ip = [], nw_port = 0, nw_weight = F_Finite False \<lparr>mant = 1, expo = 0\<rparr>,
                nw_healthy = True, nw_enabled = True, nw_metadata = []\<rparr>"

lemma demo_path: "nl_path demo_nacos demo_endpoint = ''/api/v1''"
  by (simp add: demo_nacos_def demo_endpoint_def)

definition demo_origin :: url where
  "demo_origin = demo_endpoint\<lparr>u_as_str := ''http://[::1]:8080/''\<rparr>"

lemma demo_segments: "base_path_segments demo_nacos ''/api/v1'' = Some [''api'', ''v1'']"
  by (simp add: base_path_segments_def trim_matches_def demo_nacos_def)

lemma demo_parse: "nl_parse demo_nacos ''http://[::1]:8080'' = Some demo_origin"
  by (simp add: demo_nacos_def demo_origin_def)

lemma demo_set_segments: "nl_set_segments demo_nacos [''api'', ''v1''] demo_origin = Some demo_endpoint"
  by (simp add: demo_nacos_def demo_endpoint_def demo_origin_def)

lemma demo_host: "host_form ''[::1]''"
proof -
  have "is_ipv6 ''::1''" by (simp add: is_ipv6_def groups_of_def is_hex_group_def ascii_defs byte_def)
  then show ?thesis by (simp add: host_form_def starts_with_def)
qed

lemma demo_origin_text: "u_scheme demo_endpoint @ ''://'' @ ''[::1]'' @ '':'' @ nat_to_string 8080 = ''http://[::1]:8080''"
proof -
  have "nat_to_string 8080 = ''8080''" by (simp add: nat_to_string.simps char_of_def bit_iff_odd)
  then show ?thesis by (simp add: demo_endpoint_def)
qed

lemma demo_restored: "url_restored demo_nacos demo_endpoint"
proof -
  have parts: "u_host_str demo_endpoint = Some ''[::1]''" "u_port_or_known_default demo_endpoint = Some 8080"
    by (simp_all add: demo_endpoint_def)
  have path: "(''/api/v1'' = ''/'' \<or> ''/api/v1'' = []) = False" by simp
  show ?thesis
    unfolding url_restored_def demo_path path if_False
    by (rule exI [of _ "''[::1]''"], rule exI [of _ 8080], rule exI [of _ demo_origin], intro conjI)
      (simp_all only: parts demo_host demo_origin_text demo_parse demo_segments demo_set_segments Option.bind.bind_lunit)
qed

lemma demo_registration_ok: "registration_ok demo_registration"
proof -
  have "is_instance_id ''i1''" "\<not> bad_metadata_key ''zone''" by code_simp+
  then show ?thesis
    using capabilities_default_ok
    by (simp add: registration_ok_def demo_registration_def demo_endpoint_def ServiceEndpoint_new_def rg_selector_def
        valid_user_metadata_iff bt_ok_def starts_with_def)
qed

lemma demo_built: "\<exists>n. build_instance demo_nacos demo_base demo_registration = Inr n"
  by (simp add: build_instance_def demo_registration_def demo_endpoint_def)


lemma demo_discovered:
  "\<exists>n i. i \<in> set (to_service_instances demo_nacos [n] (rg_selector demo_registration) NC_Canonical)"
proof -
  obtain n where n: "build_instance demo_nacos demo_base demo_registration = Inr n" using demo_built by blast
  then have "nw_healthy n" "nw_enabled n" "positive_weight (nw_weight n)"
    by (auto simp: build_instance_def demo_base_def demo_registration_def demo_endpoint_def)
  then have "to_service_instances demo_nacos [n] (rg_selector demo_registration) NC_Canonical \<noteq> []"
    using registered_instance [OF demo_registration_ok _ n] demo_restored registered_matches [OF demo_registration_ok n]
    by (simp add: to_service_instances_def map_filter_def demo_registration_def)
  then show ?thesis using hd_in_set by blast
qed

theorem discovered_instances_valid_witness: "\<exists>i. instance_ok i"
  using demo_discovered discovered_instances_valid by blast

section \<open>The snapshot gate\<close>

definition event_instances :: "nacos_lib \<Rightarrow> ServiceSelector \<Rightarrow> NacosConvention \<Rightarrow> naming_event \<Rightarrow> ServiceInstance list" where
  "event_instances lib selector convention event =
     (case fst event of Some ns \<Rightarrow> to_service_instances lib ns selector convention | None \<Rightarrow> [])"

lemma change_event_closed:
  "\<not> sg_initialized g \<Longrightarrow> \<not> sg_poisoned g \<Longrightarrow>
   change_event lib selector convention event g
     = g\<lparr>sg_pending := Some (event_instances lib selector convention event)\<rparr>"
  by (simp add: change_event_def gate_update_def event_instances_def)

lemma change_events_closed:
  assumes "\<not> sg_initialized g" "\<not> sg_poisoned g"
  shows "fold (change_event lib selector convention) events g =
    (if events = [] then g else g\<lparr>sg_pending := Some (event_instances lib selector convention (last events))\<rparr>)"
  using assms by (induction events arbitrary: g) (auto simp: change_event_closed)

text \<open>The gate is open and its directory is ready with these instances, with room for \<open>n\<close> revisions.\<close>

definition gate_shows :: "ServiceInstance list \<Rightarrow> nat \<Rightarrow> SnapshotGate \<Rightarrow> bool" where
  "gate_shows instances n g \<longleftrightarrow>
     sg_initialized g \<and> \<not> sg_poisoned g \<and> dp_revision (sg_publisher g) + n \<le> U64_MAX
   \<and> dn_state (directory_snapshot (sg_publisher g)) = DS_Ready
   \<and> dn_instances (directory_snapshot (sg_publisher g)) = instances"

lemma publish_ready_shows:
  assumes "dp_revision p < U64_MAX" "publish_ready instances now p = (r, p')"
  shows "(\<exists>s. r = Inr s) \<and> dn_state (directory_snapshot p') = DS_Ready
       \<and> dn_instances (directory_snapshot p') = instances \<and> dp_revision p' = Suc (dp_revision p)"
  using assms by (auto simp: publish_ready_def directory_publish_def checked_add_def send_replace_def Let_def)

lemma change_event_open:
  assumes "gate_shows instances (Suc n) g"
  shows "gate_shows (event_instances lib selector convention event) n (change_event lib selector convention event g)"
proof -
  obtain r p where r: "publish_ready (event_instances lib selector convention event) (snd event) (sg_publisher g) = (r, p)"
    by fastforce
  have "dp_revision (sg_publisher g) < U64_MAX" using assms by (simp add: gate_shows_def)
  from publish_ready_shows [OF this r] show ?thesis
    using assms r by (auto simp: gate_shows_def change_event_def gate_update_def event_instances_def)
qed

lemma change_events_open:
  assumes "gate_shows instances (length events) g"
  shows "gate_shows (if events = [] then instances else event_instances lib selector convention (last events)) 0
    (fold (change_event lib selector convention) events g)"
  using assms
proof (induction events arbitrary: instances g)
  case (Cons e events)
  from Cons.IH [OF change_event_open [of instances "length events" g lib selector convention e]] Cons.prems
  show ?case by (auto split: if_splits)
qed simp

lemma initialize_shows:
  assumes "\<not> sg_poisoned g" "dp_revision (sg_publisher g) + Suc n \<le> U64_MAX"
  shows "fst (gate_initialize initial now g) = Inr ()
       \<and> gate_shows (case sg_pending g of Some is \<Rightarrow> is | None \<Rightarrow> initial) n (snd (gate_initialize initial now g))"
proof -
  let ?is = "case sg_pending g of Some is \<Rightarrow> is | None \<Rightarrow> initial"
  obtain r p where r: "publish_ready ?is now (sg_publisher g) = (r, p)" by fastforce
  have "dp_revision (sg_publisher g) < U64_MAX" using assms(2) by simp
  from publish_ready_shows [OF this r] show ?thesis
    using assms r by (auto simp: gate_shows_def gate_initialize_def Let_def)
qed

text \<open>
  C37.  The gate never lets an older snapshot win: nothing is published before the activation, and whatever changes
  arrive before and after the fetched instances are handed over, the directory is then ready with the newest of
  them, the fetched instances only if no change arrived.
\<close>
theorem snapshot_gate_newest:
  assumes "subscribe (service_name selector) (service_group selector) [] = Inr ()"
    and "select (service_name selector) (service_group selector) [] = Inr ns"
    and "Suc (length later) \<le> U64_MAX"
    and "g0 = SnapshotGate_new (directory t0)"
    and "activate_subscription lib subscribe select arrived selector convention now g0 = (r, g)"
  shows "sg_publisher (fold (change_event lib selector convention) arrived g0) = directory t0
       \<and> r = Inr ()
       \<and> dn_state (directory_snapshot (sg_publisher (fold (change_event lib selector convention) later g))) = DS_Ready
       \<and> dn_instances (directory_snapshot (sg_publisher (fold (change_event lib selector convention) later g))) =
           (if arrived @ later = [] then to_service_instances lib ns selector convention
            else event_instances lib selector convention (last (arrived @ later)))"
proof -
  let ?g = "fold (change_event lib selector convention) arrived g0"
  have start: "\<not> sg_initialized g0" "\<not> sg_poisoned g0" "sg_pending g0 = None" "sg_publisher g0 = directory t0"
    using assms(4) by (simp_all add: SnapshotGate_new_def)
  note closed = change_events_closed [OF start(1,2), of lib selector convention arrived]
  have pub: "sg_publisher ?g = directory t0" "\<not> sg_poisoned ?g" using closed start by simp_all
  have "gate_initialize (to_service_instances lib ns selector convention) now ?g = (r, g)"
    using assms(1,2,5) by (simp add: activate_subscription_def sdk_subscribe_def sdk_select_def map_err_def Let_def)
  moreover have "dp_revision (sg_publisher ?g) + Suc (length later) \<le> U64_MAX"
    using assms(3) unfolding pub by (simp add: directory_def)
  ultimately have "r = Inr ()" and
    shown: "gate_shows (case sg_pending ?g of Some is \<Rightarrow> is | None \<Rightarrow> to_service_instances lib ns selector convention)
       (length later) g"
    using initialize_shows [OF pub(2), of "length later" "to_service_instances lib ns selector convention" now] by auto
  moreover have "(case sg_pending ?g of Some is \<Rightarrow> is | None \<Rightarrow> to_service_instances lib ns selector convention) =
      (if arrived = [] then to_service_instances lib ns selector convention
       else event_instances lib selector convention (last arrived))"
    unfolding closed using start by simp
  ultimately show ?thesis
    using change_events_open [OF shown, of lib selector convention] pub by (auto simp: gate_shows_def)
qed

theorem snapshot_gate_newest_witness:
  "\<exists>r g. activate_subscription demo_nacos (\<lambda>_ _ _. Inr ()) (\<lambda>_ _ _. Inr [demo_base]) [(None, 3)]
           (rg_selector demo_registration) NC_Canonical 5 (SnapshotGate_new (directory 0)) = (r, g)
       \<and> dn_instances (directory_snapshot (sg_publisher g)) = []"
proof -
  obtain r g where g: "activate_subscription demo_nacos (\<lambda>_ _ _. Inr ()) (\<lambda>_ _ _. Inr [demo_base]) [(None, 3)]
           (rg_selector demo_registration) NC_Canonical 5 (SnapshotGate_new (directory 0)) = (r, g)"
    by fastforce
  show ?thesis
    using snapshot_gate_newest [OF refl refl _ refl g, of "[]"] g
    by (simp add: U64_MAX_def event_instances_def)
qed

end
