(* ===== verification/Server_Http.thy ===== *)
theory Server_Http
  imports Wire_Body Server_Config Admission
begin

text \<open>
  The request pipeline of the server (\<open>fusen/src/server/http.rs\<close>): from the head of a request to its response.

  What a request meets on its way is the script \<open>server_script\<close>: the times at which the deadline is looked at,
  the readiness, the answers of the admission gate (whose own interleavings are in \<open>Admission\<close>), and what the
  interceptors and the handler do.  An elapsed deadline drops the work in progress, and a panic is an outcome.
  The state is the two byte budgets and the events recorded so far.
\<close>

section \<open>Errors\<close>

definition server_overloaded :: error where
  "server_overloaded = framework EC_ResourceExhausted ''overloaded'' ''server request concurrency is exhausted''"

definition draining :: error where
  "draining = with_retry_hint (framework EC_Unavailable ''draining'' ''server is draining'') RH_Retryable"

definition server_deadline_exceeded :: error where
  "server_deadline_exceeded = framework EC_DeadlineExceeded ''deadline_exceeded'' ''service invocation deadline elapsed''"

definition unexpected_body :: error where
  "unexpected_body = framework EC_InvalidArgument ''unexpected_body'' ''this HTTP route does not accept a request body''"

definition request_panicked :: error where
  "request_panicked = framework EC_Internal ''request_panic'' ''request processing failed''"

definition version_not_enabled :: error where
  "version_not_enabled = framework EC_InvalidArgument ''http_version_not_enabled''
     ''HTTP version is not enabled by this server''"

definition controls_not_supported :: error where
  "controls_not_supported = framework EC_InvalidArgument ''invocation_controls_not_supported''
     ''endpoint does not support Fusen invocation control headers''"

definition not_ready :: error where
  "not_ready = framework EC_Unavailable ''not_ready'' ''server has not completed startup''"

definition admission_queue_timeout :: error where
  "admission_queue_timeout = framework EC_ResourceExhausted ''admission_queue_timeout''
     ''request did not enter admission before the queue wait limit''"

definition invalid_json :: error where
  "invalid_json = framework EC_InvalidArgument ''invalid_json'' ''HTTP request body is invalid JSON''"

section \<open>The application and its requests\<close>

datatype Readiness = RS_NotReady | RS_Ready | RS_Draining | RS_Stopped

record server_request =
  sq_method :: http_method
  sq_uri :: string
  sq_path :: string
  sq_query :: "string option"
  sq_version :: http_version
  sq_headers :: header_map
  sq_frames :: "body_frame list"

text \<open>The outcome of a handler or of what an interceptor called: a result, a panic, or dropped by the deadline.\<close>

datatype terminal_outcome = TO_Result "error + Response" | TO_Panicked | TO_Dropped

type_synonym arguments = "(string \<times> json) list"
type_synonym dispatch = "arguments \<Rightarrow> ByteBudget \<Rightarrow> terminal_outcome \<times> ByteBudget"

record HttpApp =
  ha_routes :: "(http_method \<times> dispatch Route HttpRouteTrie) list"
  ha_http_versions :: HttpVersionSet
  ha_invocation_controls :: bool
  ha_request_timeout :: duration
  ha_max_uri_bytes :: nat
  ha_max_query_pairs :: nat
  ha_max_headers :: nat
  ha_max_header_bytes :: nat
  ha_max_request_body :: nat
  ha_max_response_body :: nat
  ha_queue_slots :: "nat option"

definition HttpApp_new ::
  "(http_method \<times> dispatch Route HttpRouteTrie) list \<Rightarrow> ServerConfig \<Rightarrow> HttpApp" where
  "HttpApp_new routes c =
     \<lparr>ha_routes = routes, ha_http_versions = ec_http_versions (sf_capabilities c),
      ha_invocation_controls = ec_invocation_controls (sf_capabilities c),
      ha_request_timeout = sr_timeout (sf_request c), ha_max_uri_bytes = hs_max_uri_bytes (sf_http c),
      ha_max_query_pairs = hs_max_query_pairs (sf_http c), ha_max_headers = hs_max_headers (sf_http c),
      ha_max_header_bytes = hs_max_header_bytes (sf_http c),
      ha_max_request_body = sr_max_request_body_bytes (sf_request c),
      ha_max_response_body = sr_max_response_body_bytes (sf_request c),
      ha_queue_slots = (if 0 < sr_queue_capacity (sf_request c) then Some (sr_queue_capacity (sf_request c)) else None)\<rparr>"

text \<open>The third-party functions the pipeline calls.\<close>

record server_lib =
  sl_wire :: wire_lib
  sl_url_decode :: "string \<Rightarrow> string option"
  sl_form_parse :: "string \<Rightarrow> (string \<times> string) list"
  sl_to_str :: "string \<Rightarrow> string option"
  sl_mime_parse :: "string \<Rightarrow> mime option"
  sl_from_json :: "string \<Rightarrow> json option"
  sl_problem_json :: "ProblemDetails \<Rightarrow> string"
  sl_canonical_reason :: "status_code \<Rightarrow> string option"

datatype MetricOutcome = MO_Success | MO_Error | MO_Timeout | MO_Cancelled | MO_Rejected

text \<open>\<open>SE_Called\<close> is no metric: it records that the handler of a route ran and with which arguments.\<close>

datatype server_event =
  SE_Started string string string
| SE_Finished string string string MetricOutcome string "string option" nat
| SE_AdmissionRejected
| SE_Called nat arguments

datatype gate_answer = GA_Entered | GA_Failed AdmissionError | GA_Elapsed

text \<open>
  \<open>sv_head\<close> and \<open>sv_call\<close> are the two chains of interceptors around what they may call; they get \<open>None\<close> when they
  did not call it, and end with \<open>TO_Dropped\<close> when the deadline elapses in an interceptor.
\<close>

record server_script =
  sv_fallback_id :: string
  sv_outer_id :: string
  sv_fresh_id :: string
  sv_parsed_at :: instant
  sv_checked_at :: instant
  sv_readiness :: Readiness
  sv_entered :: "AdmissionError option"
  sv_queue_slot :: bool
  sv_queued :: gate_answer
  sv_waited_at :: instant
  sv_head_calls :: bool
  sv_head :: "terminal_outcome option \<Rightarrow> ByteBudget \<Rightarrow> terminal_outcome \<times> ByteBudget"
  sv_body_elapsed :: bool
  sv_call_arguments :: "arguments \<Rightarrow> arguments option"
  sv_call :: "terminal_outcome option \<Rightarrow> ByteBudget \<Rightarrow> terminal_outcome \<times> ByteBudget"

record server_state =
  sx_request_budget :: ByteBudget
  sx_response_budget :: ByteBudget
  sx_events :: "server_event list"

definition push_event :: "server_event \<Rightarrow> server_state \<Rightarrow> server_state" where
  "push_event e s = s\<lparr>sx_events := sx_events s @ [e]\<rparr>"

record server_response =
  sp_status :: status_code
  sp_headers :: header_map
  sp_body :: string
  sp_permit :: "BytePermit option"

section \<open>The head of a request\<close>

fun header_bytes :: "nat \<Rightarrow> header_map \<Rightarrow> nat option" where
  "header_bytes size_total [] = Some size_total"
| "header_bytes size_total ((name, v) # headers) =
     (case Option.bind (checked_add USIZE_MAX size_total (length name)) (\<lambda>n. checked_add USIZE_MAX n (length v)) of
        None \<Rightarrow> None
      | Some n \<Rightarrow> header_bytes n headers)"

definition validate_head :: "HttpApp \<Rightarrow> server_request \<Rightarrow> error + unit" where
  "validate_head app q =
     (if ha_max_uri_bytes app < length (sq_uri q)
      then Inl (framework EC_InvalidArgument ''uri_too_large'' ''request URI exceeds the configured limit'')
      else if ha_max_headers app < length (sq_headers q)
      then Inl (framework EC_InvalidArgument ''too_many_headers'' ''request contains too many headers'')
      else if (case header_bytes 0 (sq_headers q) of None \<Rightarrow> True | Some n \<Rightarrow> ha_max_header_bytes app < n)
      then Inl (framework EC_InvalidArgument ''headers_too_large'' ''request headers exceed the configured byte limit'')
      else Inr ())"

definition has_invocation_controls :: "header_map \<Rightarrow> bool" where
  "has_invocation_controls headers =
     list_ex (contains_key headers) [REQUEST_ID, TIMEOUT_MS, ATTEMPT, SERVICE_GROUP, SERVICE_VERSION]"

definition validate_service_control ::
  "(string \<Rightarrow> string option) \<Rightarrow> header_map \<Rightarrow> string \<Rightarrow> string option \<Rightarrow> string \<Rightarrow> string \<Rightarrow> error + unit" where
  "validate_service_control to_str headers name expected code message =
     (let failure = Inl (framework EC_InvalidArgument code message)
      in case get_all headers name of
           _ # _ # _ \<Rightarrow> failure
         | [v] \<Rightarrow> (case to_str v of None \<Rightarrow> failure | Some t \<Rightarrow> if Some t \<noteq> expected then failure else Inr ())
         | [] \<Rightarrow> if expected \<noteq> None then failure else Inr ())"

definition validate_service_controls ::
  "(string \<Rightarrow> string option) \<Rightarrow> header_map \<Rightarrow> string option \<Rightarrow> string option \<Rightarrow> error + unit" where
  "validate_service_controls to_str headers expected_group expected_version =
     bind_result (validate_service_control to_str headers SERVICE_GROUP expected_group ''service_group_mismatch''
                    ''x-fusen-service-group does not match the selected service'') (\<lambda>_.
       validate_service_control to_str headers SERVICE_VERSION expected_version ''service_version_mismatch''
         ''x-fusen-service-version does not match the selected service'')"

definition application_headers :: "header_map \<Rightarrow> header_map" where
  "application_headers headers =
     remove_header KEEP_ALIVE (fold remove_header
       [ACCEPT, CONNECTION, CONTENT_TYPE, CONTENT_LENGTH, HOST, TE, TRAILER, TRANSFER_ENCODING, UPGRADE,
        REQUEST_ID, TIMEOUT_MS, ATTEMPT, SERVICE_GROUP, SERVICE_VERSION] headers)"

text \<open>
  The first part of \<open>try_handle_inner\<close>, up to the readiness, with the two values it leaves to its caller: the
  request id known so far and whether controls were negotiated.
\<close>

definition check_head ::
  "server_lib \<Rightarrow> HttpApp \<Rightarrow> server_script \<Rightarrow> server_request \<Rightarrow> (error + RequestControl) \<times> string option \<times> bool" where
  "check_head lib app w q =
     (case bind_result (validate_head app q) (\<lambda>_.
           bind_result (validate_http_version (sq_version q)) (\<lambda>_.
             if \<not> vs_contains (ha_http_versions app) (sq_version q) then Inl version_not_enabled
             else if has_invocation_controls (sq_headers q) \<and> \<not> ha_invocation_controls app
             then Inl controls_not_supported else Inr ())) of
        Inl e \<Rightarrow> (Inl e, None, False)
      | Inr _ \<Rightarrow>
          (let controls = has_invocation_controls (sq_headers q);
               known = (if controls then validated_request_id_header (sl_to_str lib) (sq_headers q) else None)
           in case parse_request_control (sl_to_str lib) (sv_fresh_id w) (sv_parsed_at w) (sq_headers q)
                     (ha_request_timeout app) of
                Inl e \<Rightarrow> (Inl e, known, controls)
              | Inr control \<Rightarrow>
                  ((if ctl_deadline control \<le> sv_checked_at w then Inl server_deadline_exceeded
                    else (case sv_readiness w of
                            RS_NotReady \<Rightarrow> Inl not_ready
                          | RS_Draining \<Rightarrow> Inl draining
                          | RS_Stopped \<Rightarrow> Inl draining
                          | RS_Ready \<Rightarrow> Inr control)),
                   Some (ctl_request_id control), controls)))"

text \<open>The route of a request and the checks that need it.\<close>

definition check_route ::
  "server_lib \<Rightarrow> HttpApp \<Rightarrow> server_request \<Rightarrow> RequestControl \<Rightarrow> error + dispatch Route MatchedRoute" where
  "check_route lib app q control =
     bind_result (match_http (sl_url_decode lib) (ha_routes app) (sq_method q) (sq_path q)) (\<lambda>matched.
       let selector = sd_selector (rt_service (mr_route matched)) in
     bind_result (if has_invocation_controls (sq_headers q)
                  then validate_service_controls (sl_to_str lib) (sq_headers q) (ss_group selector) (ss_version selector)
                  else Inr ()) (\<lambda>_.
     bind_result (validate_query_pairs (sl_form_parse lib) (sq_query q) (ha_max_query_pairs app)) (\<lambda>_.
     bind_result (validate_attempt (ctl_attempt control) (allows_retries (rt_method (mr_route matched)))) (\<lambda>_.
       Inr matched))))"

definition acquire_admission ::
  "HttpApp \<Rightarrow> server_script \<Rightarrow> RequestControl \<Rightarrow> server_state \<Rightarrow> (error + unit) \<times> server_state" where
  "acquire_admission app w control s =
     (case sv_entered w of
        None \<Rightarrow> (Inr (), s)
      | Some AE_Draining \<Rightarrow> (Inl draining, s)
      | Some AE_Overloaded \<Rightarrow>
          (case ha_queue_slots app of
             None \<Rightarrow> (Inl server_overloaded, push_event SE_AdmissionRejected s)
           | Some _ \<Rightarrow>
               (if \<not> sv_queue_slot w then (Inl server_overloaded, s)
                else (case sv_queued w of
                        GA_Entered \<Rightarrow> (Inr (), s)
                      | GA_Failed AE_Draining \<Rightarrow> (Inl draining, s)
                      | GA_Failed AE_Overloaded \<Rightarrow> (Inl server_overloaded, s)
                      | GA_Elapsed \<Rightarrow>
                          (Inl (if ctl_deadline control \<le> sv_waited_at w then server_deadline_exceeded
                                else admission_queue_timeout), s)))))"

section \<open>The body and the handler\<close>

fun validate_body_absent :: "body_frame list \<Rightarrow> error + unit" where
  "validate_body_absent [] = Inr ()"
| "validate_body_absent (BF_Failed e # frames) =
     Inl (with_retry_hint (Error_internal ''HTTP body stream failed'' e) RH_Retryable)"
| "validate_body_absent (BF_Trailers # frames) = validate_body_absent frames"
| "validate_body_absent (BF_Data chunk # frames) =
     (if chunk \<noteq> [] then Inl unexpected_body else validate_body_absent frames)"

text \<open>The arguments of a request; the permit of its body is dropped when they are decoded, or with an error.\<close>

definition body_arguments ::
  "server_lib \<Rightarrow> HttpApp \<Rightarrow> server_request \<Rightarrow> dispatch Route MatchedRoute \<Rightarrow> nat option \<Rightarrow> bool \<Rightarrow> ByteBudget \<Rightarrow>
   (error + arguments) \<times> ByteBudget" where
  "body_arguments lib app q matched content_length elapsed b =
     (if elapsed then (Inl server_deadline_exceeded, b)
      else (case read_body (sq_frames q) content_length (ha_max_request_body app) b of
              (Inl e, b) \<Rightarrow> (Inl e, b)
            | (Inr (bytes, permit), b) \<Rightarrow>
                ((case sl_from_json lib bytes of
                    None \<Rightarrow> Inl invalid_json
                  | Some body \<Rightarrow>
                      http_arguments (sl_form_parse lib) (sl_to_str lib) matched (sq_query q)
                        (application_headers (sq_headers q)) (Some body) (ha_max_query_pairs app)),
                 permit_drop permit b)))"

definition request_arguments ::
  "server_lib \<Rightarrow> HttpApp \<Rightarrow> server_request \<Rightarrow> dispatch Route MatchedRoute \<Rightarrow> nat option \<Rightarrow> bool \<Rightarrow> server_state \<Rightarrow>
   (error + arguments) option \<times> server_state" where
  "request_arguments lib app q matched content_length elapsed s =
     (if has_body matched
      then (let (r, b) = body_arguments lib app q matched content_length elapsed (sx_request_budget s)
            in (Some r, s\<lparr>sx_request_budget := b\<rparr>))
      else if elapsed then (None, s)
      else (Some (bind_result (validate_body_absent (sq_frames q)) (\<lambda>_.
                   http_arguments (sl_form_parse lib) (sl_to_str lib) matched (sq_query q)
                     (application_headers (sq_headers q)) None (ha_max_query_pairs app))), s))"

text \<open>What \<open>deadline.run(...)??\<close> makes of the outcome of a chain.\<close>

fun within_deadline :: "terminal_outcome \<Rightarrow> terminal_outcome" where
  "within_deadline TO_Dropped = TO_Result (Inl server_deadline_exceeded)"
| "within_deadline outcome = outcome"

definition run_calls ::
  "server_script \<Rightarrow> dispatch Route MatchedRoute \<Rightarrow> arguments \<Rightarrow> server_state \<Rightarrow> terminal_outcome \<times> server_state" where
  "run_calls w matched args s =
     (let (inner, s) =
            (case sv_call_arguments w args of
               None \<Rightarrow> (None, s)
             | Some args \<Rightarrow>
                 (let (outcome, b) = rt_dispatch (mr_route matched) args (sx_response_budget s)
                  in (Some outcome,
                      push_event (SE_Called (md_id (rt_method (mr_route matched))) args)
                        (s\<lparr>sx_response_budget := b\<rparr>))));
          (outcome, b) = sv_call w inner (sx_response_budget s)
      in (within_deadline (if inner = Some TO_Dropped then TO_Dropped else outcome), s\<lparr>sx_response_budget := b\<rparr>))"

definition execute_body ::
  "server_lib \<Rightarrow> HttpApp \<Rightarrow> server_script \<Rightarrow> server_request \<Rightarrow> dispatch Route MatchedRoute \<Rightarrow> nat option \<Rightarrow>
   server_state \<Rightarrow> terminal_outcome \<times> server_state" where
  "execute_body lib app w q matched content_length s =
     (case request_arguments lib app q matched content_length (sv_body_elapsed w) s of
        (None, s) \<Rightarrow> (TO_Dropped, s)
      | (Some (Inl e), s) \<Rightarrow> (TO_Result (Inl e), s)
      | (Some (Inr args), s) \<Rightarrow> run_calls w matched args s)"

definition run_head ::
  "server_lib \<Rightarrow> HttpApp \<Rightarrow> server_script \<Rightarrow> server_request \<Rightarrow> dispatch Route MatchedRoute \<Rightarrow> nat option \<Rightarrow>
   server_state \<Rightarrow> terminal_outcome \<times> server_state" where
  "run_head lib app w q matched content_length s =
     (let (inner, s) =
            (if sv_head_calls w
             then (let (outcome, s) = execute_body lib app w q matched content_length s in (Some outcome, s))
             else (None, s));
          (outcome, b) = sv_head w inner (sx_response_budget s)
      in (within_deadline (if inner = Some TO_Dropped then TO_Dropped else outcome), s\<lparr>sx_response_budget := b\<rparr>))"

text \<open>\<open>None\<close> is a panic, which the caller turns into an error.\<close>

definition execute_matched ::
  "server_lib \<Rightarrow> HttpApp \<Rightarrow> server_script \<Rightarrow> server_request \<Rightarrow> dispatch Route MatchedRoute \<Rightarrow> server_state \<Rightarrow>
   (error + wire_response) option \<times> server_state" where
  "execute_matched lib app w q matched s =
     (let operation = md_http (rt_method (mr_route matched))
      in case bind_result (parse_content_length (sl_to_str lib) (sq_headers q)) (\<lambda>content_length.
              bind_result (validate_content_type (sl_to_str lib) (sl_mime_parse lib) (sq_headers q)
                             (ho_consumes operation) (has_body matched)) (\<lambda>_.
                if \<not> has_body matched
                   \<and> ((case content_length of Some n \<Rightarrow> 0 < n | None \<Rightarrow> False)
                      \<or> contains_key (sq_headers q) TRANSFER_ENCODING)
                then Inl unexpected_body else Inr content_length)) of
           Inl e \<Rightarrow> (Some (Inl e), s)
         | Inr content_length \<Rightarrow>
             (case run_head lib app w q matched content_length s of
                (TO_Result (Inr response), s) \<Rightarrow>
                  (let (r, b) = encode_success (sl_wire lib) response (ho_produces operation)
                                  (ho_method operation = M_HEAD) (ha_max_response_body app) (sx_response_budget s)
                   in (Some r, s\<lparr>sx_response_budget := b\<rparr>))
              | (TO_Result (Inl e), s) \<Rightarrow> (Some (Inl e), s)
              | (_, s) \<Rightarrow> (None, s)))"

section \<open>The response\<close>

definition status_class :: "status_code \<Rightarrow> string" where
  "status_class status =
     (if status div 100 = 1 then ''1xx'' else if status div 100 = 2 then ''2xx''
      else if status div 100 = 3 then ''3xx'' else if status div 100 = 4 then ''4xx'' else ''5xx'')"

definition http_version_name :: "http_version \<Rightarrow> string" where
  "http_version_name v = (if v = HTTP_2 then ''2'' else ''1.1'')"

definition outcome_of :: "error \<Rightarrow> MetricOutcome" where
  "outcome_of e =
     (case e_category e of
        EC_DeadlineExceeded \<Rightarrow> MO_Timeout
      | EC_Cancelled \<Rightarrow> MO_Cancelled
      | EC_ResourceExhausted \<Rightarrow> MO_Rejected
      | _ \<Rightarrow> MO_Error)"

definition problem_reply ::
  "server_lib \<Rightarrow> error \<Rightarrow> string \<Rightarrow> string option \<Rightarrow> bool \<Rightarrow> server_response option" where
  "problem_reply lib e request_id inst controls =
     map_option (\<lambda>r. \<lparr>sp_status = pr_status r, sp_headers = pr_headers r, sp_body = pr_body r, sp_permit = None\<rparr>)
       (encode_problem (sl_problem_json lib) (sl_canonical_reason lib) e request_id inst controls)"

definition success_reply :: "wire_response \<Rightarrow> server_response" where
  "success_reply r =
     \<lparr>sp_status = wr_status r, sp_headers = wr_headers r, sp_body = wr_body r, sp_permit = Some (wr_permit r)\<rparr>"

definition with_control_id :: "bool \<Rightarrow> string \<Rightarrow> server_response \<Rightarrow> server_response" where
  "with_control_id controls request_id r =
     r\<lparr>sp_headers := (if controls then insert_header REQUEST_ID request_id (sp_headers r)
                      else remove_header REQUEST_ID (sp_headers r))\<rparr>"

text \<open>The part of \<open>try_handle_inner\<close> behind the admission; the guard is dropped at its end.\<close>

definition run_invocation ::
  "server_lib \<Rightarrow> HttpApp \<Rightarrow> server_script \<Rightarrow> server_request \<Rightarrow> dispatch Route MatchedRoute \<Rightarrow> RequestControl \<Rightarrow>
   server_state \<Rightarrow> server_response option \<times> server_state" where
  "run_invocation lib app w q matched control s =
     (let version = http_version_name (sq_version q);
          service_id = ss_service_id (sd_selector (rt_service (mr_route matched)));
          name = md_invocation_name (rt_method (mr_route matched));
          controls = has_invocation_controls (sq_headers q);
          (processed, s) = execute_matched lib app w q matched (push_event (SE_Started version service_id name) s);
          (outcome, code, reply) =
            (case (case processed of None \<Rightarrow> Inl request_panicked | Some r \<Rightarrow> r) of
               Inr response \<Rightarrow> (MO_Success, None, Some (success_reply response))
             | Inl e \<Rightarrow>
                 (outcome_of e, Some (e_code e), problem_reply lib e (ctl_request_id control) (Some (sq_path q)) controls))
      in case reply of
           None \<Rightarrow> (None, s)
         | Some reply \<Rightarrow>
             (Some (with_control_id controls (ctl_request_id control) reply),
              push_event (SE_Finished version service_id name outcome (status_class (sp_status reply)) code
                              (ctl_attempt control)) s))"

text \<open>
  \<open>try_handle\<close> and the error case of \<open>handle\<close>: an error of \<open>try_handle_inner\<close> becomes a problem document.
\<close>

definition try_handle ::
  "server_lib \<Rightarrow> HttpApp \<Rightarrow> server_script \<Rightarrow> server_request \<Rightarrow> server_state \<Rightarrow> server_response option \<times> server_state" where
  "try_handle lib app w q s =
     (let (head, known, controls) = check_head lib app w q;
          problem = (\<lambda>e. problem_reply lib e (case known of Some i \<Rightarrow> i | None \<Rightarrow> sv_fallback_id w) (Some (sq_path q)) controls)
      in case head of
           Inl e \<Rightarrow> (problem e, s)
         | Inr control \<Rightarrow>
             (case check_route lib app q control of
                Inl e \<Rightarrow> (problem e, s)
              | Inr matched \<Rightarrow>
                  (case acquire_admission app w control s of
                     (Inl e, s) \<Rightarrow> (problem e, s)
                   | (Inr _, s) \<Rightarrow> run_invocation lib app w q matched control s)))"

text \<open>Replacing the body drops the permit it held.\<close>

definition without_body :: "server_response \<Rightarrow> server_state \<Rightarrow> server_response \<times> server_state" where
  "without_body r s =
     (r\<lparr>sp_body := [], sp_permit := None\<rparr>,
      s\<lparr>sx_response_budget := drop_optional (sp_permit r) (sx_response_budget s)\<rparr>)"

text \<open>
  \<open>Service::call\<close> around \<open>handle\<close>; \<open>None\<close> is a panic that leaves it.  Both replace the body for \<^verbatim>\<open>HEAD\<close>, the
  second time without effect.
\<close>

definition serve ::
  "server_lib \<Rightarrow> HttpApp \<Rightarrow> server_script \<Rightarrow> server_request \<Rightarrow> server_state \<Rightarrow> server_response option \<times> server_state" where
  "serve lib app w q s =
     (let request_id = validated_request_id_header (sl_to_str lib) (sq_headers q);
          controls = ha_invocation_controls app \<and> has_invocation_controls (sq_headers q);
          (reply, s) = try_handle lib app w q s;
          reply = (case reply of
                     Some r \<Rightarrow> Some r
                   | None \<Rightarrow> problem_reply lib request_panicked
                               (case request_id of Some i \<Rightarrow> i | None \<Rightarrow> sv_outer_id w) None controls)
      in case reply of
           None \<Rightarrow> (None, s)
         | Some r \<Rightarrow> if sq_method q = M_HEAD then (let (r, s) = without_body r s in (Some r, s)) else (Some r, s))"

end
