(* ===== verification/Server_Http_Theorems.thy ===== *)
theory Server_Http_Theorems
  imports Server_Http Wire_Body_Theorems
begin

text \<open>
  What the request pipeline guarantees: the handler runs behind every check and gets the request's own
  arguments, the request budget is given back, the events of an invocation are paired, and the control
  headers and the body of the response follow the request.
\<close>

section \<open>Budget accounting\<close>

lemma holding_zero: "ledger.holding b 0 b' \<Longrightarrow> b' = b"
  by (cases b; cases b') (simp add: ledger.holding_def)

lemma read_body_cases:
  assumes "budget_ok b" "read_body frames content_length max_body b = (r, b')"
  obtains e where "r = Inl e" "b' = b"
  | bytes permit where "r = Inr (bytes, permit)" "bytes = frame_data frames" "complete_frames frames"
      "length bytes \<le> max_body" "permit_drop permit b' = b"
proof -
  have res: "body_result b (\<lambda>out p. out = frame_data frames \<and> complete_frames frames \<and> length out \<le> p
            \<and> length out \<le> max_body \<and> content_length \<in> {None, Some (length out)}) (r, b')"
    using read_body_result [OF assms(1), of frames max_body content_length BR_Request] assms(2)
    by (simp add: read_body_def)
  show thesis
  proof (cases r)
    case (Inl e)
    then have "b' = b" using res holding_zero by (simp add: body_result_def)
    then show thesis using that(1) Inl by simp
  next
    case (Inr x)
    obtain bytes permit where x: "x = (bytes, permit)" by fastforce
    then have h: "ledger.holding b permit b'" and post: "bytes = frame_data frames" "complete_frames frames"
        "length bytes \<le> max_body"
      using res Inr by (auto simp: body_result_def)
    have "permit_drop permit b' = b" by (rule holding_zero [OF ledger.holding_released [OF h]])
    then show thesis using that(2) Inr x post by simp
  qed
qed

lemma body_arguments_spec:
  assumes "budget_ok b" "body_arguments lib app q matched content_length elapsed b = (r, b')"
  shows "b' = b \<and> (\<forall>args. r = Inr args \<longrightarrow>
    (\<exists>body. sl_from_json lib (frame_data (sq_frames q)) = Some body \<and> complete_frames (sq_frames q)
       \<and> length (frame_data (sq_frames q)) \<le> ha_max_request_body app
       \<and> http_arguments (sl_form_parse lib) (sl_to_str lib) matched (sq_query q)
           (application_headers (sq_headers q)) (Some body) (ha_max_query_pairs app) = Inr args))"
proof (cases elapsed)
  case True
  then show ?thesis using assms(2) by (auto simp: body_arguments_def)
next
  case False
  obtain x b1 where x: "read_body (sq_frames q) content_length (ha_max_request_body app) b = (x, b1)" by fastforce
  from assms(1) x show ?thesis
  proof (cases rule: read_body_cases)
    case (1 e)
    then show ?thesis using assms(2) x False by (auto simp: body_arguments_def)
  next
    case (2 bytes permit)
    then show ?thesis
      using assms(2) x False by (auto simp: body_arguments_def split: option.splits)
  qed
qed

text \<open>The arguments the framework decodes from a request.\<close>

definition decoded_arguments ::
  "server_lib \<Rightarrow> HttpApp \<Rightarrow> server_request \<Rightarrow> dispatch Route MatchedRoute \<Rightarrow> arguments \<Rightarrow> bool" where
  "decoded_arguments lib app q matched args \<longleftrightarrow>
     (\<exists>body. http_arguments (sl_form_parse lib) (sl_to_str lib) matched (sq_query q)
           (application_headers (sq_headers q)) body (ha_max_query_pairs app) = Inr args
       \<and> (if has_body matched
          then complete_frames (sq_frames q) \<and> length (frame_data (sq_frames q)) \<le> ha_max_request_body app
             \<and> body = sl_from_json lib (frame_data (sq_frames q)) \<and> body \<noteq> None
          else frame_data (sq_frames q) = [] \<and> body = None))"

lemma validate_body_absent_Inr: "validate_body_absent frames = Inr u \<Longrightarrow> frame_data frames = []"
  by (induction frames rule: validate_body_absent.induct) (auto split: if_splits)

lemma request_arguments_spec:
  assumes "budget_ok (sx_request_budget s)" "request_arguments lib app q matched content_length elapsed s = (r, s')"
  shows "s' = s \<and> (\<forall>args. r = Some (Inr args) \<longrightarrow> decoded_arguments lib app q matched args)"
proof (cases "has_body matched")
  case True
  obtain x b where x: "body_arguments lib app q matched content_length elapsed (sx_request_budget s) = (x, b)" by fastforce
  then have "r = Some x" "s' = s\<lparr>sx_request_budget := b\<rparr>"
    using assms(2) True by (auto simp: request_arguments_def)
  then show ?thesis
    using body_arguments_spec [OF assms(1) x] True by (auto simp: decoded_arguments_def)
next
  case False
  then show ?thesis
    using assms(2) validate_body_absent_Inr
    by (auto simp: request_arguments_def decoded_arguments_def bind_result_Inr_iff split: if_splits)
qed

section \<open>What an invocation records\<close>

definition calls_only :: "server_lib \<Rightarrow> HttpApp \<Rightarrow> server_script \<Rightarrow> server_request \<Rightarrow> dispatch Route MatchedRoute \<Rightarrow>
    server_event list \<Rightarrow> bool" where
  "calls_only lib app w q matched es \<longleftrightarrow>
     es = [] \<or> (\<exists>given args. es = [SE_Called (md_id (rt_method (mr_route matched))) args]
        \<and> decoded_arguments lib app q matched given \<and> sv_call_arguments w given = Some args)"

text \<open>A step that leaves the request budget alone and records at most one call.\<close>

definition quiet :: "server_lib \<Rightarrow> HttpApp \<Rightarrow> server_script \<Rightarrow> server_request \<Rightarrow> dispatch Route MatchedRoute \<Rightarrow>
    server_state \<Rightarrow> server_state \<Rightarrow> bool" where
  "quiet lib app w q matched s s' \<longleftrightarrow>
     sx_request_budget s' = sx_request_budget s
   \<and> (\<exists>es. sx_events s' = sx_events s @ es \<and> calls_only lib app w q matched es)"

lemma quiet_refl [simp]: "quiet lib app w q matched s s"
  by (simp add: quiet_def calls_only_def)

lemma quiet_response_budget [simp]:
  "quiet lib app w q matched s (s'\<lparr>sx_response_budget := b\<rparr>) \<longleftrightarrow> quiet lib app w q matched s s'"
  by (simp add: quiet_def)

lemma run_calls_quiet:
  assumes "decoded_arguments lib app q matched given" "run_calls w matched given s = (r, s')"
  shows "quiet lib app w q matched s s'"
proof (cases "sv_call_arguments w given")
  case None
  then show ?thesis
    using assms(2) by (auto simp: run_calls_def split: prod.splits)
next
  case (Some args)
  obtain outcome b where d: "rt_dispatch (mr_route matched) args (sx_response_budget s) = (outcome, b)" by fastforce
  obtain o2 b2 where c: "sv_call w (Some outcome) b = (o2, b2)" by fastforce
  have "s' = (push_event (SE_Called (md_id (rt_method (mr_route matched))) args)
      (s\<lparr>sx_response_budget := b\<rparr>))\<lparr>sx_response_budget := b2\<rparr>"
    using assms(2) Some d c by (auto simp: run_calls_def push_event_def)
  then show ?thesis
    using Some assms(1) by (auto simp: quiet_def calls_only_def push_event_def)
qed

lemma execute_body_quiet:
  assumes "budget_ok (sx_request_budget s)" "execute_body lib app w q matched content_length s = (r, s')"
  shows "quiet lib app w q matched s s'"
proof -
  obtain a s1 where a: "request_arguments lib app q matched content_length (sv_body_elapsed w) s = (a, s1)" by fastforce
  note spec = request_arguments_spec [OF assms(1) a]
  consider "a = None" | e where "a = Some (Inl e)" | args where "a = Some (Inr args)" by (metis option.exhaust sum.exhaust)
  then show ?thesis
  proof cases
    case 3
    with assms(2) a spec show ?thesis by (auto simp: execute_body_def intro: run_calls_quiet)
  qed (use assms(2) a spec in \<open>auto simp: execute_body_def\<close>)
qed

lemma run_head_quiet:
  assumes "budget_ok (sx_request_budget s)" "run_head lib app w q matched content_length s = (r, s')"
  shows "quiet lib app w q matched s s'"
proof (cases "sv_head_calls w")
  case True
  obtain outcome s1 where b: "execute_body lib app w q matched content_length s = (outcome, s1)" by fastforce
  then have "quiet lib app w q matched s s1" by (rule execute_body_quiet [OF assms(1)])
  then show ?thesis using assms(2) b True by (auto simp: run_head_def split: prod.splits)
next
  case False
  then show ?thesis using assms(2) by (auto simp: run_head_def split: prod.splits)
qed

lemma execute_matched_quiet:
  assumes "budget_ok (sx_request_budget s)" "execute_matched lib app w q matched s = (r, s')"
  shows "quiet lib app w q matched s s'"
proof -
  let ?check = "bind_result (parse_content_length (sl_to_str lib) (sq_headers q)) (\<lambda>content_length.
      bind_result (validate_content_type (sl_to_str lib) (sl_mime_parse lib) (sq_headers q)
        (ho_consumes (md_http (rt_method (mr_route matched)))) (has_body matched)) (\<lambda>_.
        if \<not> has_body matched \<and> ((case content_length of Some n \<Rightarrow> 0 < n | None \<Rightarrow> False)
           \<or> contains_key (sq_headers q) TRANSFER_ENCODING)
        then Inl unexpected_body else Inr content_length))"
  show ?thesis
  proof (cases ?check)
    case (Inl e)
    then show ?thesis using assms(2) unfolding execute_matched_def Let_def Inl by simp
  next
    case (Inr content_length)
    obtain outcome s1 where h: "run_head lib app w q matched content_length s = (outcome, s1)" by fastforce
    then have quiet1: "quiet lib app w q matched s s1" by (rule run_head_quiet [OF assms(1)])
    from assms(2) show ?thesis
      unfolding execute_matched_def Let_def Inr
      using h quiet1 by (cases outcome rule: within_deadline.cases) (auto split: prod.splits sum.splits)
  qed
qed

section \<open>The whole request\<close>

text \<open>What the checks before the handler establish.\<close>

definition admitted :: "HttpApp \<Rightarrow> server_script \<Rightarrow> bool" where
  "admitted app w \<longleftrightarrow>
     sv_entered w = None
   \<or> sv_entered w = Some AE_Overloaded \<and> ha_queue_slots app \<noteq> None \<and> sv_queue_slot w \<and> sv_queued w = GA_Entered"

definition accepted ::
  "server_lib \<Rightarrow> HttpApp \<Rightarrow> server_script \<Rightarrow> server_request \<Rightarrow> RequestControl \<Rightarrow> dispatch Route MatchedRoute \<Rightarrow> bool" where
  "accepted lib app w q control matched \<longleftrightarrow>
     fst (check_head lib app w q) = Inr control \<and> check_route lib app q control = Inr matched \<and> admitted app w"

lemma acquire_admission_cases:
  assumes "acquire_admission app w control s = (r, s')"
  obtains "r = Inr ()" "s' = s" "admitted app w"
  | e where "r = Inl e" "s' = s \<or> s' = push_event SE_AdmissionRejected s"
  using assms
  by (auto simp: acquire_admission_def admitted_def split: option.splits AdmissionError.splits if_splits gate_answer.splits)

lemma try_handle_cases:
  assumes "try_handle lib app w q s = (r, s')"
  obtains (refused) e id controls where "r = problem_reply lib e id (Some (sq_path q)) controls"
      "s' = s \<or> s' = push_event SE_AdmissionRejected s"
      "id = (case fst (snd (check_head lib app w q)) of Some i \<Rightarrow> i | None \<Rightarrow> sv_fallback_id w)"
      "controls = snd (snd (check_head lib app w q))"
  | (ran) control matched where "accepted lib app w q control matched"
      "run_invocation lib app w q matched control s = (r, s')"
proof -
  obtain head known controls where h: "check_head lib app w q = (head, known, controls)" by (metis prod.exhaust)
  show thesis
  proof (cases head)
    case (Inl e)
    then show thesis using assms h by (intro refused) (auto simp: try_handle_def Let_def)
  next
    case head: (Inr control)
    show thesis
    proof (cases "check_route lib app q control")
      case (Inl e)
      then show thesis using assms h head by (intro refused) (auto simp: try_handle_def Let_def)
    next
      case (Inr matched)
      obtain a s1 where a: "acquire_admission app w control s = (a, s1)" by fastforce
      then show thesis
      proof (cases rule: acquire_admission_cases)
        case 1
        then show thesis
          using assms h head Inr a by (intro ran [of control matched]) (auto simp: try_handle_def Let_def accepted_def)
      next
        case (2 e)
        then show thesis using assms h head Inr a by (intro refused) (auto simp: try_handle_def Let_def)
      qed
    qed
  qed
qed

text \<open>The shape of what an invocation records, and of its reply.\<close>

definition started_event :: "server_request \<Rightarrow> dispatch Route MatchedRoute \<Rightarrow> server_event" where
  "started_event q matched =
     SE_Started (http_version_name (sq_version q)) (ss_service_id (sd_selector (rt_service (mr_route matched))))
       (md_invocation_name (rt_method (mr_route matched)))"

definition finished_events ::
  "server_request \<Rightarrow> dispatch Route MatchedRoute \<Rightarrow> RequestControl \<Rightarrow> server_response option \<Rightarrow> server_event list \<Rightarrow> bool" where
  "finished_events q matched control r es \<longleftrightarrow>
     (case r of
        None \<Rightarrow> es = []
      | Some reply \<Rightarrow> \<exists>outcome code. (outcome = MO_Success \<longleftrightarrow> code = None)
          \<and> es = [SE_Finished (http_version_name (sq_version q))
               (ss_service_id (sd_selector (rt_service (mr_route matched)))) (md_invocation_name (rt_method (mr_route matched)))
               outcome (status_class (sp_status reply)) code (ctl_attempt control)])"

lemma outcome_of_not_success [simp]: "outcome_of e \<noteq> MO_Success"
  by (simp add: outcome_of_def split: ErrorCategory.split)

lemma with_control_id_status [simp]: "sp_status (with_control_id controls i r) = sp_status r"
  by (simp add: with_control_id_def)

lemma run_invocation_spec:
  assumes "budget_ok (sx_request_budget s)" "run_invocation lib app w q matched control s = (r, s')"
  shows "sx_request_budget s' = sx_request_budget s
    \<and> (\<exists>called finished. calls_only lib app w q matched called \<and> finished_events q matched control r finished
        \<and> sx_events s' = sx_events s @ started_event q matched # called @ finished)"
proof -
  let ?s = "push_event (started_event q matched) s"
  obtain processed s1 where p: "execute_matched lib app w q matched ?s = (processed, s1)" by fastforce
  have "quiet lib app w q matched ?s s1"
    using execute_matched_quiet [OF _ p] assms(1) by (simp add: push_event_def)
  then obtain called where s1: "sx_request_budget s1 = sx_request_budget s"
      "sx_events s1 = sx_events s @ started_event q matched # called" "calls_only lib app w q matched called"
    by (auto simp: quiet_def push_event_def)
  show ?thesis
  proof (cases "case processed of None \<Rightarrow> Inl request_panicked | Some r \<Rightarrow> r")
    case (Inl e)
    let ?reply = "problem_reply lib e (ctl_request_id control) (Some (sq_path q)) (has_invocation_controls (sq_headers q))"
    show ?thesis
    proof (cases ?reply)
      case None
      then have "r = None" "s' = s1"
        using assms(2) p Inl by (simp_all add: run_invocation_def started_event_def Let_def)
      then show ?thesis using s1 by (auto simp: finished_events_def)
    next
      case (Some reply)
      then have "r = Some (with_control_id (has_invocation_controls (sq_headers q)) (ctl_request_id control) reply)"
        "s' = push_event (SE_Finished (http_version_name (sq_version q))
            (ss_service_id (sd_selector (rt_service (mr_route matched)))) (md_invocation_name (rt_method (mr_route matched)))
            (outcome_of e) (status_class (sp_status reply)) (Some (e_code e)) (ctl_attempt control)) s1"
        using assms(2) p Inl by (simp_all add: run_invocation_def started_event_def Let_def)
      then show ?thesis
        using s1 by (intro conjI exI [of _ called] exI) (auto simp: finished_events_def push_event_def)
    qed
  next
    case (Inr response)
    then have "r = Some (with_control_id (has_invocation_controls (sq_headers q)) (ctl_request_id control)
          (success_reply response))"
      "s' = push_event (SE_Finished (http_version_name (sq_version q))
          (ss_service_id (sd_selector (rt_service (mr_route matched)))) (md_invocation_name (rt_method (mr_route matched)))
          MO_Success (status_class (sp_status (success_reply response))) None (ctl_attempt control)) s1"
      using assms(2) p by (simp_all add: run_invocation_def started_event_def Let_def)
    then show ?thesis
      using s1 by (intro conjI exI [of _ called] exI) (auto simp: finished_events_def push_event_def)
  qed
qed

lemma serve_try:
  assumes "serve lib app w q s = (r, s')"
  obtains reply s1 where "try_handle lib app w q s = (reply, s1)"
    "sx_request_budget s' = sx_request_budget s1" "sx_events s' = sx_events s1"
    "\<And>out. reply = Some out \<Longrightarrow> r = Some (if sq_method q = M_HEAD then out\<lparr>sp_body := [], sp_permit := None\<rparr> else out)"
proof -
  obtain reply s1 where t: "try_handle lib app w q s = (reply, s1)" by fastforce
  show thesis
    by (rule that [OF t]) (use assms t in \<open>auto simp: serve_def Let_def without_body_def split: option.splits if_splits\<close>)
qed

text \<open>
   C3.  The handler runs only behind every check of the pipeline: the request's head is within the limits, its HTTP
  version is enabled, its deadline has not passed, the server is ready, a route matches, the control headers are
  supported and name the service, admission let it in, and what the interceptors passed on to it was decoded from
  this request, from a complete body within the limit when the route has one.
\<close>
theorem handler_runs_behind_checks:
  assumes "serve lib app w q s = (r, s')" and "budget_ok (sx_request_budget s)"
    and "SE_Called m args \<in> set (sx_events s')" and "SE_Called m args \<notin> set (sx_events s)"
  shows "\<exists>control matched given. fst (check_head lib app w q) = Inr control
    \<and> ctl_deadline control > sv_checked_at w \<and> sv_readiness w = RS_Ready
    \<and> validate_head app q = Inr () \<and> vs_contains (ha_http_versions app) (sq_version q)
    \<and> (has_invocation_controls (sq_headers q) \<longrightarrow> ha_invocation_controls app)
    \<and> check_route lib app q control = Inr matched \<and> admitted app w
    \<and> m = md_id (rt_method (mr_route matched))
    \<and> decoded_arguments lib app q matched given \<and> sv_call_arguments w given = Some args"
proof -
  from assms(1) obtain reply s1 where t: "try_handle lib app w q s = (reply, s1)" "sx_events s' = sx_events s1"
    by (rule serve_try)
  from t(1) show ?thesis
  proof (cases rule: try_handle_cases)
    case (refused e id controls)
    then show ?thesis using assms(3,4) t(2) by (auto simp: push_event_def)
  next
    case (ran control matched)
    obtain called finished where c: "calls_only lib app w q matched called" "finished_events q matched control reply finished"
        "sx_events s1 = sx_events s @ started_event q matched # called @ finished"
      using run_invocation_spec [OF assms(2) ran(2)] by blast
    have "SE_Called m args \<in> set called"
      using assms(3,4) t(2) c(2,3) by (auto simp: started_event_def finished_events_def split: option.splits)
    then have called: "m = md_id (rt_method (mr_route matched))"
        "\<exists>given. decoded_arguments lib app q matched given \<and> sv_call_arguments w given = Some args"
      using c(1) by (auto simp: calls_only_def)
    have head: "fst (check_head lib app w q) = Inr control" and rest: "check_route lib app q control = Inr matched"
        "admitted app w"
      using ran(1) by (simp_all add: accepted_def)
    from head have "ctl_deadline control > sv_checked_at w" "sv_readiness w = RS_Ready" "validate_head app q = Inr ()"
        "vs_contains (ha_http_versions app) (sq_version q)"
        "has_invocation_controls (sq_headers q) \<longrightarrow> ha_invocation_controls app"
      by (auto simp: check_head_def Let_def bind_result_def split: sum.splits if_splits Readiness.splits)
    then show ?thesis using head rest called by blast
  qed
qed

text \<open>
   C38.  Whatever a request, its interceptors and its handler do, the request body budget is afterwards exactly what it
  was: every permit of a body, complete, refused, invalid or cut off, is given back before the response is made.
\<close>
theorem request_budget_restored:
  assumes "serve lib app w q s = (r, s')" and "budget_ok (sx_request_budget s)"
  shows "sx_request_budget s' = sx_request_budget s"
proof -
  from assms(1) obtain reply s1 where t: "try_handle lib app w q s = (reply, s1)"
      "sx_request_budget s' = sx_request_budget s1"
    by (rule serve_try)
  from t(1) have "sx_request_budget s1 = sx_request_budget s"
  proof (cases rule: try_handle_cases)
    case (refused e id controls)
    then show ?thesis by (auto simp: push_event_def)
  next
    case (ran control matched)
    then show ?thesis using run_invocation_spec [OF assms(2)] by blast
  qed
  then show ?thesis using t(2) by simp
qed

text \<open>
   The events of a request are paired: either no invocation started and at most a refusal was recorded, or one
  started event is followed by at most one call of the handler and by exactly one finished event, with the status of
  the response that is sent, an error code unless it succeeded, and the same names.
\<close>
theorem invocation_events_paired:
  assumes "serve lib app w q s = (r, s')" and "budget_ok (sx_request_budget s)"
    and "\<And>e i inst controls. problem_reply lib e i inst controls \<noteq> None"
  shows "\<exists>new. sx_events s' = sx_events s @ new
    \<and> (new \<in> {[], [SE_AdmissionRejected]}
       \<or> (\<exists>control matched called reply finished. r = Some reply
            \<and> new = started_event q matched # called @ [finished]
            \<and> calls_only lib app w q matched called \<and> finished_events q matched control (Some reply) [finished]))"
proof -
  from assms(1) obtain reply s1 where t: "try_handle lib app w q s = (reply, s1)" "sx_events s' = sx_events s1"
    and out: "\<And>out. reply = Some out \<Longrightarrow>
      r = Some (if sq_method q = M_HEAD then out\<lparr>sp_body := [], sp_permit := None\<rparr> else out)"
    by (rule serve_try) blast
  from t(1) show ?thesis
  proof (cases rule: try_handle_cases)
    case (refused e id controls)
    then show ?thesis using t(2) by (auto simp: push_event_def)
  next
    case (ran control matched)
    obtain called finished where c: "calls_only lib app w q matched called" "finished_events q matched control reply finished"
        "sx_events s1 = sx_events s @ started_event q matched # called @ finished"
      using run_invocation_spec [OF assms(2) ran(2)] by blast
    have no: "problem_reply lib e i inst controls = None \<longleftrightarrow> False" for e i inst controls using assms(3) by simp
    have "reply \<noteq> None"
      using ran(2) by (auto simp: run_invocation_def Let_def no split: prod.splits sum.splits option.splits)
    then obtain o1 where o1: "reply = Some o1" by blast
    let ?r = "if sq_method q = M_HEAD then o1\<lparr>sp_body := [], sp_permit := None\<rparr> else o1"
    obtain f where f: "finished = [f]" using c(2) o1 by (auto simp: finished_events_def)
    have "finished_events q matched control (Some ?r) [f]"
      using c(2) o1 f by (simp add: finished_events_def)
    moreover have "sx_events s' = sx_events s @ (started_event q matched # called @ [f])"
      using c(3) t(2) f by simp
    ultimately show ?thesis using out [OF o1] c(1) by blast
  qed
qed

section \<open>The control headers of the response\<close>

lemma id_header_distinct [simp]:
  "RETRY_AFTER \<noteq> REQUEST_ID" "CONTENT_TYPE \<noteq> REQUEST_ID"
  by (simp_all add: RETRY_AFTER_def REQUEST_ID_def CONTENT_TYPE_def)

lemma get_all_insert [simp]: "get_all (insert_header k v h) n = (if n = k then [v] else get_all h n)"
  by (simp add: insert_header_def)

lemma no_id_without_control: "get_all (response_headers_without_control h) REQUEST_ID = []"
  by (simp add: response_headers_without_control_def)

lemma problem_id_header:
  "get_all (problem_headers e i controls) REQUEST_ID = (if controls then [i] else [])"
  using id_header_distinct [symmetric] no_id_without_control
  by (simp add: problem_headers_def Let_def split: option.split)

lemma problem_reply_id:
  "problem_reply lib e i inst controls = Some r \<Longrightarrow> get_all (sp_headers r) REQUEST_ID = (if controls then [i] else [])"
  by (auto simp: problem_reply_def encode_problem_def problem_id_header Let_def split: prod.splits)

lemma with_control_id_header:
  "get_all (sp_headers (with_control_id controls i r)) REQUEST_ID = (if controls then [i] else [])"
  by (simp add: with_control_id_def)

lemma run_invocation_id:
  assumes "run_invocation lib app w q matched control s = (Some r, s')"
  shows "get_all (sp_headers r) REQUEST_ID =
    (if has_invocation_controls (sq_headers q) then [ctl_request_id control] else [])"
  using assms
  by (auto simp: run_invocation_def Let_def with_control_id_header split: prod.splits sum.splits option.splits)

lemma parsed_id:
  assumes "validated_request_id_header to_str h = Some t"
    and "parse_request_control to_str fresh now h timeout = Inr control"
  shows "ctl_request_id control = t"
  using assms
  by (auto simp: validated_request_id_header_def parse_request_control_def parse_control_id_def one_header_def
      validate_request_id_def bind_result_Inr_iff split: list.splits option.splits if_splits)

lemma check_head_id:
  assumes "check_head lib app w q = (head, known, controls)"
  shows "(controls \<longrightarrow> has_invocation_controls (sq_headers q) \<and> ha_invocation_controls app)
    \<and> (\<forall>t. validated_request_id_header (sl_to_str lib) (sq_headers q) = Some t \<longrightarrow> controls \<longrightarrow> known = Some t)
    \<and> (\<forall>control. head = Inr control \<longrightarrow> known = Some (ctl_request_id control)
         \<and> controls = has_invocation_controls (sq_headers q))"
proof (cases "bind_result (validate_head app q) (\<lambda>_.
           bind_result (validate_http_version (sq_version q)) (\<lambda>_.
             if \<not> vs_contains (ha_http_versions app) (sq_version q) then Inl version_not_enabled
             else if has_invocation_controls (sq_headers q) \<and> \<not> ha_invocation_controls app
             then Inl controls_not_supported else Inr ()))")
  case (Inl e)
  then show ?thesis using assms by (auto simp: check_head_def)
next
  case ok: (Inr u)
  then have ctl: "has_invocation_controls (sq_headers q) \<longrightarrow> ha_invocation_controls app"
    by (auto simp: bind_result_Inr_iff split: if_splits)
  show ?thesis
  proof (cases "parse_request_control (sl_to_str lib) (sv_fresh_id w) (sv_parsed_at w) (sq_headers q)
                     (ha_request_timeout app)")
    case (Inl e)
    then show ?thesis using assms ok ctl by (auto simp: check_head_def Let_def split: if_splits)
  next
    case (Inr c)
    have head: "head = Inr control \<Longrightarrow> control = c" for control
      using assms ok Inr by (auto simp: check_head_def Let_def split: if_splits Readiness.splits)
    show ?thesis
      using assms ok ctl Inr head parsed_id [OF _ Inr] by (auto simp: check_head_def Let_def)
  qed
qed

text \<open>
  The response carries a request id exactly under negotiated controls: none when the request had no control
  header or the server does not support them, otherwise at most one, and the client's own id when it sent a valid
  one, on successes, problems and panics alike.  The response to \<open>HEAD\<close> has no body and holds no permit.
\<close>
theorem response_control_headers:
  assumes "serve lib app w q s = (Some reply, s')"
  shows "(\<exists>i. get_all (sp_headers reply) REQUEST_ID =
            (if get_all (sp_headers reply) REQUEST_ID = [] then [] else [i])
          \<and> (\<forall>t. validated_request_id_header (sl_to_str lib) (sq_headers q) = Some t \<longrightarrow> i = t))
       \<and> (get_all (sp_headers reply) REQUEST_ID \<noteq> [] \<longrightarrow>
            has_invocation_controls (sq_headers q) \<and> ha_invocation_controls app)
       \<and> (sq_method q = M_HEAD \<longrightarrow> sp_body reply = [] \<and> sp_permit reply = None)"
proof -
  let ?valid = "validated_request_id_header (sl_to_str lib) (sq_headers q)"
  let ?shape = "\<lambda>h. (\<exists>i. get_all h REQUEST_ID = (if get_all h REQUEST_ID = [] then [] else [i])
          \<and> (\<forall>t. ?valid = Some t \<longrightarrow> i = t))
       \<and> (get_all h REQUEST_ID \<noteq> [] \<longrightarrow> has_invocation_controls (sq_headers q) \<and> ha_invocation_controls app)"
  have shapeI: "?shape h" if "get_all h REQUEST_ID = (if c then [i] else [])"
    "c \<longrightarrow> has_invocation_controls (sq_headers q) \<and> ha_invocation_controls app" "\<forall>t. ?valid = Some t \<longrightarrow> c \<longrightarrow> i = t"
    for h c i
    using that by (cases c; cases ?valid) auto
  obtain r s1 where t: "try_handle lib app w q s = (r, s1)" by fastforce
  obtain head known controls where h: "check_head lib app w q = (head, known, controls)" by (metis prod.exhaust)
  note id = check_head_id [OF h]
  have tried: "?shape (sp_headers x)" if "r = Some x" for x
    using t
  proof (cases rule: try_handle_cases)
    case (refused e i c)
    then have "get_all (sp_headers x) REQUEST_ID = (if c then [i] else [])" using that problem_reply_id by metis
    then show ?thesis using refused h id by (intro shapeI) auto
  next
    case (ran control matched)
    then have head: "head = Inr control" using h by (simp add: accepted_def)
    have "get_all (sp_headers x) REQUEST_ID =
        (if has_invocation_controls (sq_headers q) then [ctl_request_id control] else [])"
      using run_invocation_id ran(2) that by metis
    then show ?thesis using id head by (intro shapeI) auto
  qed
  define out where "out = (case r of Some x \<Rightarrow> Some x
     | None \<Rightarrow> problem_reply lib request_panicked (case ?valid of Some i \<Rightarrow> i | None \<Rightarrow> sv_outer_id w) None
                 (ha_invocation_controls app \<and> has_invocation_controls (sq_headers q)))"
  have shaped: "?shape (sp_headers x)" if "out = Some x" for x
  proof (cases r)
    case None
    then have "get_all (sp_headers x) REQUEST_ID =
        (if ha_invocation_controls app \<and> has_invocation_controls (sq_headers q)
         then [case ?valid of Some i \<Rightarrow> i | None \<Rightarrow> sv_outer_id w] else [])"
      using that problem_reply_id by (simp add: out_def)
    then show ?thesis by (rule shapeI) auto
  next
    case (Some y)
    then show ?thesis using that tried by (simp add: out_def)
  qed
  obtain x where x: "out = Some x" "reply = (if sq_method q = M_HEAD then x\<lparr>sp_body := [], sp_permit := None\<rparr> else x)"
    using assms t unfolding serve_def out_def Let_def by (auto simp: without_body_def split: option.splits if_splits)
  then show ?thesis using shaped [OF x(1)] by (cases "sq_method q = M_HEAD") simp_all
qed

section \<open>A request\<close>

text \<open>\<^verbatim>\<open>GET /orders\<close> over HTTP/2, without controls, to a server with this one route.\<close>

definition demo_server_lib :: server_lib where
  "demo_server_lib =
     \<lparr>sl_wire = \<lparr>wl_url_encode = id, wl_header_name = Some, wl_header_value = Some, wl_json_to_vec = (\<lambda>_. None),
                 wl_path_and_query = (\<lambda>_. True), wl_parse_uri = Some\<rparr>,
      sl_url_decode = Some, sl_form_parse = (\<lambda>_. []), sl_to_str = Some, sl_mime_parse = (\<lambda>_. None),
      sl_from_json = (\<lambda>_. None), sl_problem_json = (\<lambda>_. ''{}''), sl_canonical_reason = (\<lambda>_. None)\<rparr>"

definition demo_dispatch :: dispatch where
  "demo_dispatch args b = (TO_Result (Inr (from_json_bytes ''7'')), b)"

definition demo_server_route :: "dispatch Route" where
  "demo_server_route =
     \<lparr>rt_service = \<lparr>sd_selector = \<lparr>ss_service_id = ''orders'', ss_group = None, ss_version = None, ss_metadata = [],
                                   ss_identity = ''orders''\<rparr>, sd_methods = []\<rparr>,
      rt_method = \<lparr>md_id = 0, md_invocation_name = ''list'',
          md_http = \<lparr>ho_method = M_GET, ho_path = ''/orders'', ho_parameters = [],
             ho_consumes = ''application/json'', ho_produces = ''application/json''\<rparr>\<rparr>,
      rt_dispatch = demo_dispatch\<rparr>"

definition demo_app :: HttpApp where
  "demo_app =
     \<lparr>ha_routes = [(M_GET, Trie [(''orders'', Trie [] None (Some \<lparr>leaf_route = demo_server_route, leaf_names = []\<rparr>))] None None)],
      ha_http_versions = VS_ALL, ha_invocation_controls = True, ha_request_timeout = 100, ha_max_uri_bytes = 64,
      ha_max_query_pairs = 4, ha_max_headers = 4, ha_max_header_bytes = 64, ha_max_request_body = 8,
      ha_max_response_body = 8, ha_queue_slots = None\<rparr>"

definition pipeline_script :: server_script where
  "pipeline_script =
     \<lparr>sv_fallback_id = ''r0'', sv_outer_id = ''r2'', sv_fresh_id = ''r1'', sv_parsed_at = 0, sv_checked_at = 1,
      sv_readiness = RS_Ready, sv_entered = None, sv_queue_slot = False, sv_queued = GA_Elapsed, sv_waited_at = 1,
      sv_head_calls = True, sv_head = (\<lambda>inner b. (case inner of Some x \<Rightarrow> x | None \<Rightarrow> TO_Panicked, b)),
      sv_body_elapsed = False, sv_call_arguments = Some,
      sv_call = (\<lambda>inner b. (case inner of Some x \<Rightarrow> x | None \<Rightarrow> TO_Panicked, b))\<rparr>"

definition demo_server_request :: server_request where
  "demo_server_request =
     \<lparr>sq_method = M_GET, sq_uri = ''/orders'', sq_path = ''/orders'', sq_query = None, sq_version = HTTP_2,
      sq_headers = [], sq_frames = []\<rparr>"

definition demo_server_state :: server_state where
  "demo_server_state = \<lparr>sx_request_budget = ByteBudget_new 8, sx_response_budget = ByteBudget_new 8, sx_events = []\<rparr>"

abbreviation demo_server_match :: "dispatch Route MatchedRoute" where
  "demo_server_match \<equiv> \<lparr>mr_route = demo_server_route, mr_path_arguments = []\<rparr>"

definition demo_control :: RequestControl where
  "demo_control = \<lparr>ctl_request_id = ''r1'', ctl_deadline = 100, ctl_attempt = 1\<rparr>"

lemma demo_check_head: "fst (check_head demo_server_lib demo_app pipeline_script demo_server_request) =
   Inr demo_control"
  by (simp add: check_head_def demo_app_def pipeline_script_def demo_server_request_def validate_head_def validate_http_version_def
   vs_contains_def VS_ALL_def HTTP_1_1_BIT_def HTTP_2_BIT_def has_invocation_controls_def contains_key_def parse_request_control_def
   parse_control_id_def parse_control_timeout_def parse_control_attempt_def one_header_def demo_control_def)
lemma demo_check_route: "check_route demo_server_lib demo_app demo_server_request demo_control = Inr demo_server_match"
  by (simp add: check_route_def demo_app_def demo_server_request_def match_http_def split_path_def demo_server_lib_def has_invocation_controls_def contains_key_def
   validate_query_pairs_def validate_attempt_def hm_collect_def path_segments_def trim_matches_def demo_control_def)

lemma demo_http_arguments: "http_arguments (sl_form_parse demo_server_lib) (sl_to_str demo_server_lib) demo_server_match None [] None 4 = Inr []"
  by (simp add: http_arguments_def demo_server_route_def demo_server_lib_def parse_cookies_def Let_def)

lemma demo_execute: "sx_events (snd (execute_matched demo_server_lib demo_app pipeline_script demo_server_request demo_server_match s)) =
   sx_events s @ [SE_Called 0 []]"
  using demo_http_arguments
  by (simp add: execute_matched_def parse_content_length_def one_header_def validate_content_type_def demo_server_request_def
    demo_server_route_def has_body_def contains_key_def run_head_def pipeline_script_def execute_body_def request_arguments_def
    application_headers_def remove_header_def run_calls_def demo_dispatch_def push_event_def demo_app_def split: prod.splits)

lemma demo_admission: "acquire_admission demo_app pipeline_script demo_control s = (Inr (), s)"
  by (simp add: acquire_admission_def pipeline_script_def)

lemma demo_serve_events:
  "\<exists>r s'. serve demo_server_lib demo_app pipeline_script demo_server_request demo_server_state = (r, s')
     \<and> SE_Called 0 [] \<in> set (sx_events s')"
proof -
  obtain r s' where r: "serve demo_server_lib demo_app pipeline_script demo_server_request demo_server_state = (r, s')"
    by fastforce
  obtain reply s1 where t: "try_handle demo_server_lib demo_app pipeline_script demo_server_request demo_server_state = (reply, s1)"
    "sx_events s' = sx_events s1"
    by (rule serve_try [OF r])
  obtain known controls where h: "check_head demo_server_lib demo_app pipeline_script demo_server_request
      = (Inr demo_control, known, controls)"
    using demo_check_head by (metis prod.collapse)
  let ?s = "push_event (SE_Started ''2'' ''orders'' ''list'') demo_server_state"
  obtain p s2 where p: "execute_matched demo_server_lib demo_app pipeline_script demo_server_request demo_server_match ?s = (p, s2)"
    by fastforce
  have "run_invocation demo_server_lib demo_app pipeline_script demo_server_request demo_server_match demo_control
      demo_server_state = (reply, s1)"
    using t(1) h by (simp add: try_handle_def demo_check_route demo_admission)
  then have "SE_Called 0 [] \<in> set (sx_events s1)"
    using p demo_execute [of ?s]
    by (auto simp: run_invocation_def demo_server_request_def demo_server_route_def http_version_name_def push_event_def
        Let_def split: prod.splits sum.splits option.splits)
  then show ?thesis using r t(2) by auto
qed

lemma demo_state_ok: "budget_ok (sx_request_budget demo_server_state)" "sx_events demo_server_state = []"
  by (simp_all add: demo_server_state_def budget_ok_def ByteBudget_new_def USIZE_MAX_def)

theorem handler_runs_behind_checks_witness:
  "\<exists>matched. check_route demo_server_lib demo_app demo_server_request demo_control = Inr matched
     \<and> decoded_arguments demo_server_lib demo_app demo_server_request matched []"
proof -
  obtain r s' where r: "serve demo_server_lib demo_app pipeline_script demo_server_request demo_server_state = (r, s')"
    "SE_Called 0 [] \<in> set (sx_events s')"
    using demo_serve_events by blast
  from handler_runs_behind_checks [OF r(1) demo_state_ok(1) r(2)] demo_check_head demo_state_ok(2)
  show ?thesis by (auto simp: pipeline_script_def)
qed

theorem request_budget_restored_witness:
  "sx_request_budget (snd (serve demo_server_lib demo_app pipeline_script demo_server_request demo_server_state))
     = ByteBudget_new 8"
proof -
  obtain r s' where r: "serve demo_server_lib demo_app pipeline_script demo_server_request demo_server_state = (r, s')"
    by fastforce
  from request_budget_restored [OF r demo_state_ok(1)] r show ?thesis by (simp add: demo_server_state_def)
qed

lemma demo_problem: "problem_reply demo_server_lib e i inst controls \<noteq> None"
  by (auto simp: problem_reply_def encode_problem_def demo_server_lib_def bounded_problem_def EMERGENCY_PROBLEM_LIMIT_def
      split: prod.splits)

theorem invocation_events_paired_witness:
  "\<exists>new. sx_events (snd (serve demo_server_lib demo_app pipeline_script demo_server_request demo_server_state)) = new
     \<and> new \<notin> {[], [SE_AdmissionRejected]} \<and> SE_Called 0 [] \<in> set new"
proof -
  obtain r s' where r: "serve demo_server_lib demo_app pipeline_script demo_server_request demo_server_state = (r, s')"
    "SE_Called 0 [] \<in> set (sx_events s')"
    using demo_serve_events by blast
  from invocation_events_paired [OF r(1) demo_state_ok(1) demo_problem] r demo_state_ok(2) show ?thesis by auto
qed

theorem response_control_headers_witness:
  "\<exists>reply s'. serve demo_server_lib demo_app pipeline_script demo_server_request demo_server_state = (Some reply, s')
     \<and> get_all (sp_headers reply) REQUEST_ID = []"
proof -
  obtain r s' where r: "serve demo_server_lib demo_app pipeline_script demo_server_request demo_server_state = (r, s')"
    by fastforce
  have no: "problem_reply demo_server_lib e i inst controls = None \<longleftrightarrow> False" for e i inst controls
    using demo_problem by simp
  have "r \<noteq> None" using r by (auto simp: serve_def Let_def no split: prod.splits option.splits if_splits; metis)
  then obtain reply where reply: "r = Some reply" by blast
  have "\<not> has_invocation_controls (sq_headers demo_server_request)"
    by (simp add: has_invocation_controls_def contains_key_def demo_server_request_def)
  with response_control_headers [OF r [unfolded reply]] r reply show ?thesis by blast
qed

end
