(* ===== verification/Server_Build.thy ===== *)
theory Server_Build
  imports Routes Wire_Headers Lifecycle_Errors Server_Config
begin

text \<open>
  Building a server (\<open>fusen/src/server/mod.rs\<close>): the validation of its parts,
  the route table over all services, and the plan of its registrations.

  \<open>'h\<close> is the dispatch of a service, \<open>'i\<close> an interceptor and \<open>'r\<close> a registry.  The address is the result of its
  parser, and \<open>mime_parse\<close> and \<open>url_decode\<close> are third-party functions as elsewhere.
\<close>

section \<open>The builder\<close>

text \<open>The outcome of the descriptor factory, and what dispatches and surrounds the methods.\<close>

record ('h, 'i) PreparedService =
  pp_descriptor :: "string + ServiceDescriptor"
  pp_dispatch :: 'h
  pp_head_interceptor :: "'i list"
  pp_interceptor :: "'i list"

record ('h, 'i) route_runtime =
  rr_dispatch :: 'h
  rr_head_interceptor :: "'i list"
  rr_interceptor :: "'i list"

record ('h, 'i, 'r) ServerBuilder =
  sb_address :: "string + string"
  sb_advertised_endpoint :: "(ContractError + url) option"
  sb_config :: ServerConfig
  sb_registries :: "(string \<times> 'r) list"
  sb_head_interceptor :: "'i list"
  sb_interceptor :: "'i list"
  sb_services :: "('h, 'i) PreparedService list"

definition builder :: "string + string \<Rightarrow> ('h, 'i, 'r) ServerBuilder" where
  "builder address =
     \<lparr>sb_address = address, sb_advertised_endpoint = None, sb_config = ServerConfig_default, sb_registries = [],
      sb_head_interceptor = [], sb_interceptor = [], sb_services = []\<rparr>"

datatype ('h, 'i, 'r) builder_setting =
  SB_config ServerConfig
| SB_advertised_endpoint "ContractError + url"
| SB_registry string 'r
| SB_interceptor 'i
| SB_head_interceptor 'i
| SB_interface "('h, 'i) PreparedService"

fun set_builder ::
  "('h, 'i, 'r) builder_setting \<Rightarrow> ('h, 'i, 'r) ServerBuilder \<Rightarrow> ('h, 'i, 'r) ServerBuilder" where
  "set_builder (SB_config c) b = b\<lparr>sb_config := c\<rparr>"
| "set_builder (SB_advertised_endpoint e) b = b\<lparr>sb_advertised_endpoint := Some e\<rparr>"
| "set_builder (SB_registry name r) b = b\<lparr>sb_registries := sb_registries b @ [(name, r)]\<rparr>"
| "set_builder (SB_interceptor i) b = b\<lparr>sb_interceptor := sb_interceptor b @ [i]\<rparr>"
| "set_builder (SB_head_interceptor i) b = b\<lparr>sb_head_interceptor := sb_head_interceptor b @ [i]\<rparr>"
| "set_builder (SB_interface s) b = b\<lparr>sb_services := sb_services b @ [s]\<rparr>"

record ('h, 'i, 'r) Server =
  srv_address :: string
  srv_advertised_endpoint :: "url option"
  srv_config :: ServerConfig
  srv_registries :: "(string \<times> 'r) list"
  srv_descriptors :: "ServiceDescriptor list"
  srv_routes :: "('h, 'i) route_runtime Route RouteTable"

section \<open>Validation\<close>

definition valid_registry_name :: "string \<Rightarrow> bool" where
  "valid_registry_name name \<longleftrightarrow>
     name \<noteq> [] \<and> length name \<le> 64
   \<and> list_all (\<lambda>b. is_ascii_alphanumeric b \<or> b = CHR ''.'' \<or> b = CHR ''_'' \<or> b = CHR ''-'') name"

text \<open>\<open>debug\<close> is the \<^verbatim>\<open>Debug\<close> format of a string.\<close>

fun validate_registry_names :: "(string \<Rightarrow> string) \<Rightarrow> string list \<Rightarrow> string list \<Rightarrow> ServerError + unit" where
  "validate_registry_names debug seen [] = Inr ()"
| "validate_registry_names debug seen (name # names) =
     (if \<not> valid_registry_name name \<or> name \<in> set seen
      then Inl (ServerError_message VK_Validation (''invalid or duplicate registry name '' @ debug name))
      else validate_registry_names debug (name # seen) names)"

definition not_json :: "(string \<Rightarrow> string) \<Rightarrow> MethodDescriptor \<Rightarrow> string \<Rightarrow> string \<Rightarrow> string" where
  "not_json debug m field v =
     ''method '' @ md_invocation_name m @ '' has '' @ field @ '' media type '' @ debug v
     @ ''; http-json-v1 requires application/json or a concrete application subtype ending in +json''"

fun validate_json_methods ::
  "(string \<Rightarrow> string) \<Rightarrow> (string \<Rightarrow> mime option) \<Rightarrow> MethodDescriptor list \<Rightarrow> string + unit" where
  "validate_json_methods debug mime_parse [] = Inr ()"
| "validate_json_methods debug mime_parse (m # ms) =
     (if \<not> is_json_media_type mime_parse (ho_consumes (md_http m))
      then Inl (not_json debug m ''consumes'' (ho_consumes (md_http m)))
      else if \<not> is_json_media_type mime_parse (ho_produces (md_http m))
      then Inl (not_json debug m ''produces'' (ho_produces (md_http m)))
      else validate_json_methods debug mime_parse ms)"

definition validate_json_service ::
  "(string \<Rightarrow> string) \<Rightarrow> (string \<Rightarrow> mime option) \<Rightarrow> ServiceDescriptor \<Rightarrow> string + unit" where
  "validate_json_service debug mime_parse d = validate_json_methods debug mime_parse (sd_methods d)"

definition identity_of :: "ServiceDescriptor \<Rightarrow> string" where
  "identity_of d = ss_identity (sd_selector d)"

definition service_routes ::
  "'i list \<Rightarrow> 'i list \<Rightarrow> ('h, 'i) PreparedService \<Rightarrow> ServiceDescriptor \<Rightarrow> ('h, 'i) route_runtime Route list" where
  "service_routes head_interceptor interceptor p d =
     map (\<lambda>m. \<lparr>rt_service = d, rt_method = m,
              rt_dispatch = \<lparr>rr_dispatch = pp_dispatch p,
                             rr_head_interceptor = head_interceptor @ pp_head_interceptor p,
                             rr_interceptor = interceptor @ pp_interceptor p\<rparr>\<rparr>)
       (sd_methods d)"

text \<open>The loop over the services: the identities seen, the routes and the descriptors so far.\<close>

fun collect_services ::
  "(string \<Rightarrow> string) \<Rightarrow> (string \<Rightarrow> mime option) \<Rightarrow> 'i list \<Rightarrow> 'i list \<Rightarrow> ('h, 'i) PreparedService list \<Rightarrow>
   ('h, 'i) route_runtime Route list \<Rightarrow> ServiceDescriptor list \<Rightarrow>
   ServerError + ('h, 'i) route_runtime Route list \<times> ServiceDescriptor list" where
  "collect_services debug mime_parse head_interceptor interceptor [] routes ds = Inr (routes, ds)"
| "collect_services debug mime_parse head_interceptor interceptor (p # ps) routes ds =
     bind_result (map_err (\<lambda>reason. ServerError_message VK_Validation (''invalid interface schema: '' @ reason))
                    (pp_descriptor p)) (\<lambda>d.
     bind_result (map_err (\<lambda>reason. ServerError_message VK_Validation (''invalid http-json-v1 interface: '' @ reason))
                    (validate_json_service debug mime_parse d)) (\<lambda>_.
       if identity_of d \<in> identity_of ` set ds
       then Inl (ServerError_message VK_Validation (''duplicate service identity '' @ identity_of d))
       else collect_services debug mime_parse head_interceptor interceptor ps
              (routes @ service_routes head_interceptor interceptor p d) (ds @ [d])))"

definition route_error_text :: "RouteBuildError \<Rightarrow> string" where
  "route_error_text e =
     (case e of
        InvalidTemplateEncoding \<Rightarrow> ''validated HTTP route contains invalid percent encoding''
      | DuplicateRoute m path \<Rightarrow> ''duplicate or ambiguous HTTP route '' @ method_as_str m @ '' '' @ path)"

definition Server_build ::
  "(string \<Rightarrow> string) \<Rightarrow> (string \<Rightarrow> mime option) \<Rightarrow> (string \<Rightarrow> string option) \<Rightarrow> ('h, 'i, 'r) ServerBuilder \<Rightarrow>
   ServerError + ('h, 'i, 'r) Server" where
  "Server_build debug mime_parse url_decode b =
     bind_result (map_err (\<lambda>t. ServerError_source VK_Validation ''invalid server socket address'' (XS_Text t))
                    (sb_address b)) (\<lambda>address.
     bind_result (case sb_advertised_endpoint b of
                    None \<Rightarrow> Inr None
                  | Some (Inl e) \<Rightarrow>
                      Inl (ServerError_source VK_Validation ''invalid advertised service endpoint'' (XS_Contract e))
                  | Some (Inr u) \<Rightarrow> Inr (Some u)) (\<lambda>advertised.
     bind_result (map_err (\<lambda>e. ServerError_source VK_Validation
                              (''invalid server configuration at '' @ cv_field_path e) (XS_Config e))
                    (ServerConfig_validate (sb_config b))) (\<lambda>_.
     bind_result (validate_registry_names debug [] (map fst (sb_registries b))) (\<lambda>_.
     bind_result (if sb_services b = []
                  then Inl (ServerError_message VK_Validation ''server must contain at least one service'')
                  else Inr ()) (\<lambda>_.
     bind_result (collect_services debug mime_parse (sb_head_interceptor b) (sb_interceptor b) (sb_services b) [] [])
       (\<lambda>(routes, ds).
     bind_result (map_err (\<lambda>e. ServerError_message VK_Validation (route_error_text e))
                    (RouteTable_build url_decode routes)) (\<lambda>table.
       Inr \<lparr>srv_address = address, srv_advertised_endpoint = advertised, srv_config = sb_config b,
            srv_registries = sb_registries b, srv_descriptors = sort_key identity_of ds, srv_routes = table\<rparr>)))))))"

section \<open>The registration plan\<close>

record 'r PlannedRegistration =
  pl_name :: string
  pl_registry :: 'r
  pl_registration :: ServiceRegistration

definition build_registration_plan ::
  "(string \<times> 'r) list \<Rightarrow> ServiceDescriptor list \<Rightarrow> ServerConfig \<Rightarrow> string \<Rightarrow> url \<Rightarrow> 'r PlannedRegistration list" where
  "build_registration_plan registries descriptors config instance_id endpoint =
     concat (map (\<lambda>(name, registry).
         map (\<lambda>d. \<lparr>pl_name = name, pl_registry = registry,
                  pl_registration = ServiceRegistration_new instance_id d endpoint (sf_capabilities config)
                                      ServiceWeight_default\<rparr>) descriptors) registries)"

end
