(* ===== verification/Server_Build_Theorems.thy ===== *)
theory Server_Build_Theorems
  imports Server_Build Config_Theorems Routes_Claims "HOL-Library.Multiset"
begin

text \<open>
  What building a server accepts: the conditions on its parts that are equivalent to \<open>build\<close> succeeding, the server it
  gives, and the registrations such a server plans.
\<close>

section \<open>The conditions\<close>

definition json_method :: "(string \<Rightarrow> mime option) \<Rightarrow> MethodDescriptor \<Rightarrow> bool" where
  "json_method mime_parse m \<longleftrightarrow>
     is_json_media_type mime_parse (ho_consumes (md_http m)) \<and> is_json_media_type mime_parse (ho_produces (md_http m))"

definition json_service :: "(string \<Rightarrow> mime option) \<Rightarrow> ServiceDescriptor \<Rightarrow> bool" where
  "json_service mime_parse d \<longleftrightarrow> list_all (json_method mime_parse) (sd_methods d)"

text \<open>The descriptors of prepared services, where their factories succeeded.\<close>

definition descriptors_of :: "('h, 'i) PreparedService list \<Rightarrow> ServiceDescriptor list" where
  "descriptors_of ps = map (projr \<circ> pp_descriptor) ps"

definition routes_of ::
  "'i list \<Rightarrow> 'i list \<Rightarrow> ('h, 'i) PreparedService list \<Rightarrow> ('h, 'i) route_runtime Route list" where
  "routes_of head_interceptor interceptor ps =
     concat (map (\<lambda>p. service_routes head_interceptor interceptor p (projr (pp_descriptor p))) ps)"

definition services_wf :: "(string \<Rightarrow> mime option) \<Rightarrow> ('h, 'i) PreparedService list \<Rightarrow> bool" where
  "services_wf mime_parse ps \<longleftrightarrow>
     list_all (\<lambda>p. \<not> isl (pp_descriptor p)) ps \<and> list_all (json_service mime_parse) (descriptors_of ps)
   \<and> distinct (map identity_of (descriptors_of ps))"

definition builder_wf ::
  "(string \<Rightarrow> mime option) \<Rightarrow> (string \<Rightarrow> string option) \<Rightarrow> ('h, 'i, 'r) ServerBuilder \<Rightarrow> bool" where
  "builder_wf mime_parse url_decode b \<longleftrightarrow>
     \<not> isl (sb_address b) \<and> (\<forall>e. sb_advertised_endpoint b \<noteq> Some (Inl e)) \<and> server_config_wf (sb_config b)
   \<and> list_all valid_registry_name (map fst (sb_registries b)) \<and> distinct (map fst (sb_registries b))
   \<and> sb_services b \<noteq> [] \<and> services_wf mime_parse (sb_services b)
   \<and> list_all (parses url_decode) (routes_of (sb_head_interceptor b) (sb_interceptor b) (sb_services b))
   \<and> distinct (map (table_key url_decode) (routes_of (sb_head_interceptor b) (sb_interceptor b) (sb_services b)))"

section \<open>The steps\<close>

named_theorems build_steps \<open>what a step of \<open>build\<close> accepts, and the kind of its errors\<close>

lemma validate_registry_names_cases [build_steps]:
  "case validate_registry_names debug seen names of
     Inr _ \<Rightarrow> list_all valid_registry_name names \<and> distinct names \<and> set names \<inter> set seen = {}
   | Inl e \<Rightarrow> ve_kind e = VK_Validation
       \<and> \<not> (list_all valid_registry_name names \<and> distinct names \<and> set names \<inter> set seen = {})"
proof (induction names arbitrary: seen)
  case (Cons name names)
  show ?case using Cons.IH [of "name # seen"]
    by (cases "\<not> valid_registry_name name \<or> name \<in> set seen")
       (auto simp: ServerError_message_def split: sum.splits)
qed simp

lemma validate_json_methods_iff:
  "validate_json_methods debug mime_parse ms = Inr () \<longleftrightarrow> list_all (json_method mime_parse) ms"
  by (induction ms) (auto simp: json_method_def)

lemma validate_json_service_iff:
  "validate_json_service debug mime_parse d = Inr u \<longleftrightarrow> json_service mime_parse d"
  by (simp add: validate_json_service_def json_service_def validate_json_methods_iff)

lemma services_wf_Nil [simp]: "services_wf mime_parse []"
  by (simp add: services_wf_def descriptors_of_def)

lemma services_wf_Cons:
  "services_wf mime_parse (p # ps) \<longleftrightarrow>
     (\<exists>d. pp_descriptor p = Inr d \<and> json_service mime_parse d \<and> identity_of d \<notin> identity_of ` set (descriptors_of ps))
   \<and> services_wf mime_parse ps"
  by (cases "pp_descriptor p") (auto simp: services_wf_def descriptors_of_def)

lemma collect_services_cases [build_steps]:
  "case collect_services debug mime_parse hi i ps routes ds of
     Inr (routes', ds') \<Rightarrow> services_wf mime_parse ps
         \<and> identity_of ` set (descriptors_of ps) \<inter> identity_of ` set ds = {}
         \<and> routes' = routes @ routes_of hi i ps \<and> ds' = ds @ descriptors_of ps
   | Inl e \<Rightarrow> ve_kind e = VK_Validation
         \<and> \<not> (services_wf mime_parse ps \<and> identity_of ` set (descriptors_of ps) \<inter> identity_of ` set ds = {})"
proof (induction ps arbitrary: routes ds)
  case Nil
  then show ?case by (simp add: routes_of_def descriptors_of_def)
next
  case (Cons p ps)
  show ?case
  proof (cases "pp_descriptor p")
    case (Inl reason)
    then show ?thesis by (simp add: services_wf_Cons ServerError_message_def map_err_def)
  next
    case (Inr d)
    show ?thesis
    proof (cases "validate_json_service debug mime_parse d")
      case (Inl reason)
      then have "\<not> json_service mime_parse d" using validate_json_service_iff by (metis sum.distinct(1))
      then show ?thesis using \<open>pp_descriptor p = Inr d\<close> Inl by (simp add: services_wf_Cons ServerError_message_def map_err_def)
    next
      case (Inr u)
      then have json: "json_service mime_parse d" using validate_json_service_iff by metis
      have ds: "descriptors_of (p # ps) = d # descriptors_of ps"
        and rs: "routes_of hi i (p # ps) = service_routes hi i p d @ routes_of hi i ps"
        using \<open>pp_descriptor p = Inr d\<close> by (simp_all add: descriptors_of_def routes_of_def)
      have step: "collect_services debug mime_parse hi i (p # ps) routes ds =
          (if identity_of d \<in> identity_of ` set ds
           then Inl (ServerError_message VK_Validation (''duplicate service identity '' @ identity_of d))
           else collect_services debug mime_parse hi i ps (routes @ service_routes hi i p d) (ds @ [d]))"
        using \<open>pp_descriptor p = Inr d\<close> Inr by (simp add: map_err_def)
      have wf: "services_wf mime_parse (p # ps) \<longleftrightarrow>
          identity_of d \<notin> identity_of ` set (descriptors_of ps) \<and> services_wf mime_parse ps"
        using \<open>pp_descriptor p = Inr d\<close> json by (simp add: services_wf_Cons)
      show ?thesis
      proof (cases "identity_of d \<in> identity_of ` set ds")
        case True
        then show ?thesis unfolding step ds by (simp add: ServerError_message_def map_err_def)
      next
        case False
        have disj: "identity_of ` set (descriptors_of (p # ps)) \<inter> identity_of ` set ds = {}
              \<and> identity_of d \<notin> identity_of ` set (descriptors_of ps) \<longleftrightarrow>
            identity_of ` set (descriptors_of ps) \<inter> identity_of ` set (ds @ [d]) = {}"
          using False ds by auto
        show ?thesis
        proof (cases "collect_services debug mime_parse hi i ps (routes @ service_routes hi i p d) (ds @ [d])")
          case (Inl e)
          then have "ve_kind e = VK_Validation"
            and "\<not> (services_wf mime_parse ps
                   \<and> identity_of ` set (descriptors_of ps) \<inter> identity_of ` set (ds @ [d]) = {})"
            using Cons.IH [where routes = "routes @ service_routes hi i p d" and ds = "ds @ [d]"] by simp_all
          then show ?thesis using False Inl disj ds unfolding step wf by auto
        next
          case (Inr r)
          obtain routes' ds' where r: "r = (routes', ds')" by (cases r)
          have "services_wf mime_parse ps
              \<and> identity_of ` set (descriptors_of ps) \<inter> identity_of ` set (ds @ [d]) = {}
              \<and> routes' = (routes @ service_routes hi i p d) @ routes_of hi i ps
              \<and> ds' = (ds @ [d]) @ descriptors_of ps"
            using Cons.IH [where routes = "routes @ service_routes hi i p d" and ds = "ds @ [d]"] Inr r by simp
          then show ?thesis using False Inr disj ds rs r unfolding step wf by simp
        qed
      qed
    qed
  qed
qed

lemma bind_result_cases:
  obtains (Left) e where "r = Inl e" "bind_result r f = Inl e"
  | (Right) x where "r = Inr x" "bind_result r f = f x"
  by (cases r) auto

text \<open>The steps of \<open>build\<close> after the address and the advertised endpoint, on the value they built.\<close>

lemma build_routes_cases:
  "case bind_result (map_err (\<lambda>e. ServerError_message VK_Validation (route_error_text e))
                       (RouteTable_build url_decode routes)) (\<lambda>table. Inr (f table)) of
     Inr s \<Rightarrow> list_all (parses url_decode) routes \<and> distinct (map (table_key url_decode) routes)
              \<and> (\<exists>table. RouteTable_build url_decode routes = Inr table \<and> s = f table)
   | Inl e \<Rightarrow> ve_kind e = VK_Validation
              \<and> \<not> (list_all (parses url_decode) routes \<and> distinct (map (table_key url_decode) routes))"
proof (cases "RouteTable_build url_decode routes")
  case (Inl e)
  then show ?thesis using build_succeeds_iff [of url_decode routes] by (simp add: ServerError_message_def map_err_def)
next
  case (Inr table)
  then have "list_all (parses url_decode) routes \<and> distinct (map (table_key url_decode) routes)"
    using build_succeeds_iff [of url_decode routes] by blast
  then show ?thesis using Inr by (simp add: map_err_def)
qed

definition built_server ::
  "('h, 'i, 'r) ServerBuilder \<Rightarrow> ('h, 'i) route_runtime Route RouteTable \<Rightarrow> ('h, 'i, 'r) Server" where
  "built_server b table =
     \<lparr>srv_address = projr (sb_address b), srv_advertised_endpoint = map_option projr (sb_advertised_endpoint b),
      srv_config = sb_config b, srv_registries = sb_registries b,
      srv_descriptors = sort_key identity_of (descriptors_of (sb_services b)), srv_routes = table\<rparr>"

lemma build_cases:
  "case Server_build debug mime_parse url_decode b of
     Inr s \<Rightarrow> builder_wf mime_parse url_decode b
            \<and> (\<exists>table. RouteTable_build url_decode
                   (routes_of (sb_head_interceptor b) (sb_interceptor b) (sb_services b)) = Inr table
                 \<and> s = built_server b table)
   | Inl e \<Rightarrow> ve_kind e = VK_Validation \<and> \<not> builder_wf mime_parse url_decode b"
proof -
  let ?routes = "routes_of (sb_head_interceptor b) (sb_interceptor b) (sb_services b)"
  note defs = map_err_def Server_build_def builder_wf_def ServerError_source_def ServerError_message_def
  show ?thesis
  proof (cases "sb_address b")
    case (Inl e)
    then show ?thesis by (simp add: defs)
  next
    case address: (Inr address)
    show ?thesis
    proof (cases "\<exists>e. sb_advertised_endpoint b = Some (Inl e)")
      case True
      then show ?thesis using address by (auto simp: defs)
    next
      case adv: False
      define advertised where "advertised = map_option projr (sb_advertised_endpoint b)"
      have adv': "(case sb_advertised_endpoint b of None \<Rightarrow> Inr None
          | Some (Inl e) \<Rightarrow> Inl (ServerError_source VK_Validation ''invalid advertised service endpoint'' (XS_Contract e))
          | Some (Inr u) \<Rightarrow> Inr (Some u)) = Inr advertised"
        using adv by (auto simp: advertised_def split: option.splits sum.splits)
      show ?thesis
      proof (cases "ServerConfig_validate (sb_config b)")
        case (Inl e)
        then have "\<not> server_config_wf (sb_config b)" using server_validate_iff by (metis sum.distinct(1))
        then show ?thesis unfolding Server_build_def adv' using Inl address by (simp add: defs)
      next
        case (Inr u)
        then have config: "ServerConfig_validate (sb_config b) = Inr ()" "server_config_wf (sb_config b)"
          using server_validate_iff by auto
        show ?thesis
        proof (cases "validate_registry_names debug [] (map fst (sb_registries b))")
          case (Inl e)
          then have "ve_kind e = VK_Validation" "\<not> builder_wf mime_parse url_decode b"
            using validate_registry_names_cases [where debug = debug and seen = "[]" and names = "map fst (sb_registries b)"]
            by (auto simp: builder_wf_def)
          then show ?thesis unfolding Server_build_def adv' using Inl address config by (simp add: map_err_def)
        next
          case (Inr v)
          then have names: "validate_registry_names debug [] (map fst (sb_registries b)) = Inr ()"
              "list_all valid_registry_name (map fst (sb_registries b))" "distinct (map fst (sb_registries b))"
            using validate_registry_names_cases [where debug = debug and seen = "[]" and names = "map fst (sb_registries b)"] by auto
          show ?thesis
          proof (cases "sb_services b = []")
            case True
            then show ?thesis unfolding Server_build_def adv' using names address config
              by (simp add: ServerError_message_def builder_wf_def map_err_def)
          next
            case False
            let ?collect = "collect_services debug mime_parse (sb_head_interceptor b) (sb_interceptor b)
              (sb_services b) [] []"
            show ?thesis
            proof (cases ?collect)
              case (Inl e)
              then have "ve_kind e = VK_Validation" "\<not> builder_wf mime_parse url_decode b"
                using collect_services_cases [where debug = debug and mime_parse = mime_parse and hi = "sb_head_interceptor b"
                    and i = "sb_interceptor b" and ps = "sb_services b" and routes = "[]" and ds = "[]"]
                by (auto simp: builder_wf_def)
              then show ?thesis unfolding Server_build_def adv' using False Inl address config names by (simp add: map_err_def)
            next
              case (Inr r)
              then have r: "r = (?routes, descriptors_of (sb_services b))" and wf: "services_wf mime_parse (sb_services b)"
                using collect_services_cases [where debug = debug and mime_parse = mime_parse and hi = "sb_head_interceptor b"
                    and i = "sb_interceptor b" and ps = "sb_services b" and routes = "[]" and ds = "[]"]
                by (cases r, simp)+
              have unf: "Server_build debug mime_parse url_decode b =
                  bind_result (map_err (\<lambda>e. ServerError_message VK_Validation (route_error_text e))
                    (RouteTable_build url_decode ?routes)) (\<lambda>table. Inr (built_server b table))"
                unfolding Server_build_def adv' using False Inr r address config names map_err_def
                by (simp add: built_server_def advertised_def map_err_def)
              have conds: "builder_wf mime_parse url_decode b \<longleftrightarrow>
                  list_all (parses url_decode) ?routes \<and> distinct (map (table_key url_decode) ?routes)"
                using address adv config names False wf by (simp add: builder_wf_def)
              show ?thesis
                using build_routes_cases [where url_decode = url_decode and routes = ?routes and f = "built_server b"] unfolding unf conds
                by (auto split: sum.splits)
            qed
          qed
        qed
      qed
    qed
  qed
qed

text \<open>
   C39.  A server is built exactly when its address and advertised endpoint parsed, its configuration is well formed, its
  registries have valid names of their own, it has a service, every service has a descriptor whose methods speak JSON,
  no two services have one identity, and the routes of all services decode and differ in method or shape.  What is
  built holds the given parts, the descriptors in the order of their identities and the routing table over all the
  services; every error is a validation error.
\<close>
theorem server_build_exact:
  "case Server_build debug mime_parse url_decode b of
     Inr s \<Rightarrow> builder_wf mime_parse url_decode b
            \<and> (\<exists>table. RouteTable_build url_decode
                   (routes_of (sb_head_interceptor b) (sb_interceptor b) (sb_services b)) = Inr table
                 \<and> s = built_server b table)
   | Inl e \<Rightarrow> ve_kind e = VK_Validation \<and> \<not> builder_wf mime_parse url_decode b"
  by (rule build_cases)

section \<open>The registration plan\<close>

text \<open>
   The registrations a built server plans are one for each pair of a registry and a service, registry by registry
  in the order they were added and services in the order of their identities, all with the instance's id, its endpoint
  and the built-in binding only.
\<close>
theorem registration_plan_exact:
  fixes instance_id :: string and endpoint :: url
  assumes built: "Server_build debug mime_parse url_decode b = Inr s"
  defines "plan \<equiv> build_registration_plan (srv_registries s) (srv_descriptors s) (srv_config s) instance_id endpoint"
  shows "map (\<lambda>p. (pl_name p, rg_descriptor (pl_registration p))) plan =
           List.product (map fst (sb_registries b)) (srv_descriptors s)
       \<and> distinct (map (\<lambda>p. (pl_name p, identity_of (rg_descriptor (pl_registration p)))) plan)
       \<and> sorted (map identity_of (srv_descriptors s))
       \<and> mset (srv_descriptors s) = mset (descriptors_of (sb_services b))
       \<and> list_all (\<lambda>p. rg_instance_id (pl_registration p) = instance_id \<and> rg_endpoint (pl_registration p) = endpoint
                    \<and> ec_bindings (rg_capabilities (pl_registration p)) = [HTTP_JSON_V1]) plan"
proof -
  have wf: "builder_wf mime_parse url_decode b" and s: "\<exists>table. s = built_server b table"
    using build_cases [where debug = debug and mime_parse = mime_parse and url_decode = url_decode and b = b] built by auto
  then have parts: "srv_registries s = sb_registries b" "srv_config s = sb_config b"
      "srv_descriptors s = sort_key identity_of (descriptors_of (sb_services b))"
    by (auto simp: built_server_def)
  let ?ds = "srv_descriptors s"
  have product: "map (\<lambda>p. (pl_name p, f (rg_descriptor (pl_registration p))))
        (build_registration_plan rs ds c instance_id endpoint) = List.product (map fst rs) (map f ds)"
      for f :: "ServiceDescriptor \<Rightarrow> 'x" and rs :: "(string \<times> 'c) list" and ds c
    by (induction rs)
       (auto simp: build_registration_plan_def product_concat_map ServiceRegistration_new_def comp_def)
  have "distinct (map identity_of ?ds)"
    using wf by (simp add: parts builder_wf_def services_wf_def distinct_map)
  then have "distinct (List.product (map fst (sb_registries b)) (map identity_of ?ds))"
    using wf by (simp add: builder_wf_def distinct_product)
  then have distinct: "distinct (map (\<lambda>p. (pl_name p, identity_of (rg_descriptor (pl_registration p)))) plan)"
    by (simp add: plan_def product parts(1))
  have fst: "map (\<lambda>p. (pl_name p, rg_descriptor (pl_registration p))) plan =
      List.product (map fst (sb_registries b)) ?ds"
    using product [of "\<lambda>d. d"] by (simp add: plan_def parts(1))
  have all: "list_all (\<lambda>p. rg_instance_id (pl_registration p) = instance_id \<and> rg_endpoint (pl_registration p) = endpoint
      \<and> ec_bindings (rg_capabilities (pl_registration p)) = [HTTP_JSON_V1]) plan"
    using wf by (auto simp: plan_def build_registration_plan_def list_all_iff ServiceRegistration_new_def parts(2)
        builder_wf_def server_config_wf_def)
  show ?thesis using distinct fst all by (simp add: parts(3))
qed

text \<open>A server of the two demo routes with two registries.\<close>

definition json_mime_parse :: "string \<Rightarrow> mime option" where
  "json_mime_parse v =
     (if v = ''application/json''
      then Some \<lparr>mime_type = ''application'', mime_subtype = ''json'', mime_suffix = None\<rparr> else None)"

definition demo_service_descriptor :: ServiceDescriptor where
  "demo_service_descriptor =
     \<lparr>sd_selector = \<lparr>ss_service_id = ''orders'', ss_group = None, ss_version = None, ss_metadata = [],
                    ss_identity = ''orders''\<rparr>,
      sd_methods = demo_methods\<rparr>"

definition demo_builder :: "(unit, unit, nat) ServerBuilder" where
  "demo_builder =
     fold set_builder
       [SB_interface \<lparr>pp_descriptor = Inr demo_service_descriptor, pp_dispatch = (), pp_head_interceptor = [],
                      pp_interceptor = []\<rparr>,
        SB_registry ''nacos'' 0, SB_registry ''backup'' 1]
       (builder (Inr ''127.0.0.1:0''))"

lemma demo_builder_services:
  "descriptors_of (sb_services demo_builder) = [demo_service_descriptor]"
  "routes_of hi i (sb_services demo_builder) =
     map (\<lambda>m. \<lparr>rt_service = demo_service_descriptor, rt_method = m,
              rt_dispatch = \<lparr>rr_dispatch = (), rr_head_interceptor = hi, rr_interceptor = i\<rparr>\<rparr>) demo_methods"
  by (simp_all add: demo_builder_def builder_def descriptors_of_def routes_of_def service_routes_def
      demo_service_descriptor_def)

lemma demo_json: "json_service json_mime_parse demo_service_descriptor"
  by (simp add: json_service_def json_method_def demo_service_descriptor_def demo_methods_def demo_method_def
      demo_operation_def is_json_media_type_def json_mime_parse_def is_json_mime_def)

lemma demo_routes_build:
  "\<exists>tbl. RouteTable_build canonical_decode (routes_of hi i (sb_services demo_builder)) = Inr tbl"
proof -
  have "ServiceDescriptor_new (sd_selector demo_service_descriptor) demo_methods = Inr demo_service_descriptor"
    unfolding demo_descriptor by (simp add: demo_service_descriptor_def)
  then show ?thesis
    unfolding demo_builder_services
    by (rule validated_descriptor_table [OF _ demo_methods_operations canonical_decode_encode])
qed

lemma demo_builder_wf: "builder_wf json_mime_parse canonical_decode demo_builder"
proof -
  have "list_all (parses canonical_decode) (routes_of hi i (sb_services demo_builder))
      \<and> distinct (map (table_key canonical_decode) (routes_of hi i (sb_services demo_builder)))" for hi i
    using demo_routes_build build_succeeds_iff by blast
  moreover have "services_wf json_mime_parse (sb_services demo_builder)"
    using demo_json by (simp add: services_wf_def demo_builder_services) (simp add: demo_builder_def builder_def)
  moreover have "list_all valid_registry_name [''nacos'', ''backup'']"
    by (simp add: valid_registry_name_def ascii_defs)
  ultimately show ?thesis
    using server_default_wf by (simp add: builder_wf_def) (simp add: demo_builder_def builder_def)
qed

theorem registration_plan_exact_witness:
  "\<exists>s. Server_build (\<lambda>t. t) json_mime_parse canonical_decode demo_builder = Inr s
     \<and> map (\<lambda>p. (pl_name p, rg_descriptor (pl_registration p)))
         (build_registration_plan (srv_registries s) (srv_descriptors s) (srv_config s) ''i1'' endpoint) =
       [(''nacos'', demo_service_descriptor), (''backup'', demo_service_descriptor)]"
proof -
  obtain s where s: "Server_build (\<lambda>t. t) json_mime_parse canonical_decode demo_builder = Inr s"
    using build_cases [where debug = "\<lambda>t. t" and mime_parse = json_mime_parse and url_decode = canonical_decode
        and b = demo_builder] demo_builder_wf
    by (auto split: sum.splits)
  have plan: "map (\<lambda>p. (pl_name p, rg_descriptor (pl_registration p)))
        (build_registration_plan (srv_registries s) (srv_descriptors s) (srv_config s) ''i1'' endpoint) =
      List.product (map fst (sb_registries demo_builder)) (srv_descriptors s)"
    and ds: "mset (srv_descriptors s) = mset (descriptors_of (sb_services demo_builder))"
    using registration_plan_exact [OF s, of "''i1''" endpoint] by blast+
  have "srv_descriptors s = [demo_service_descriptor]" using ds by (simp add: demo_builder_services)
  moreover have "map fst (sb_registries demo_builder) = [''nacos'', ''backup'']"
    by (simp add: demo_builder_def builder_def)
  ultimately show ?thesis using plan by (intro exI [of _ s]) (simp add: s)
qed

end
