(* ===== verification/Server_Lifecycle.thy ===== *)
theory Server_Lifecycle
  imports Server_Build Server_Http
begin

text \<open>
  The coordinator of a running server (\<open>coordinate\<close>, \<open>drain_runtime\<close>, \<open>close_registrations\<close> and \<open>finish\<close> of
  \<open>fusen/src/server/mod.rs\<close>) as a step relation.  A phase names the point the task has reached, so that a handle
  reading the state, a shutdown request, a failing listener or the passing of time can come between any two stores.

  Registries, the transport task and the admission gate are the environment: they answer by input steps, the outcome of
  an operation on a registration is any the operation can have, and the clock moves by any amount.  A registration
  handle is its number in the order of preparation.
\<close>

section \<open>The observable state\<close>

datatype ServerState = ST_Validated | ST_AcceptingNotReady | ST_Registering | ST_Ready | ST_Draining | ST_Stopped

fun server_state_as_u8 :: "ServerState \<Rightarrow> nat" where
  "server_state_as_u8 ST_Validated = 0"
| "server_state_as_u8 ST_AcceptingNotReady = 1"
| "server_state_as_u8 ST_Registering = 2"
| "server_state_as_u8 ST_Ready = 3"
| "server_state_as_u8 ST_Draining = 4"
| "server_state_as_u8 ST_Stopped = 5"

definition server_state_from_u8 :: "nat \<Rightarrow> ServerState" where
  "server_state_from_u8 v =
     (if v = 0 then ST_Validated else if v = 1 then ST_AcceptingNotReady else if v = 2 then ST_Registering
      else if v = 3 then ST_Ready else if v = 4 then ST_Draining else ST_Stopped)"

record AcceptOutcome =
  ao_fatal_error :: "string option"
  ao_deadline_exceeded :: bool

record CloseOutcome =
  cl_timed_out :: bool
  cl_first_error :: "RegistryError option"

text \<open>How an operation on a registration handle ended: \<open>OR_Elapsed\<close> when its own deadline came first.\<close>

datatype operation_result = OR_Ok | OR_Failed RegistryError | OR_Elapsed

definition operation_outcome :: "operation_result \<Rightarrow> MetricOutcome" where
  "operation_outcome r = (case r of OR_Ok \<Rightarrow> MO_Success | OR_Failed _ \<Rightarrow> MO_Error | OR_Elapsed \<Rightarrow> MO_Timeout)"

datatype lifecycle_event =
  LV_Operation string string MetricOutcome
| LV_Shutdown MetricOutcome

record TrackedRegistration =
  tk_name :: string
  tk_handle :: nat

section \<open>Errors\<close>

definition startup_cancelled :: ServerError where
  "startup_cancelled = ServerError_message VK_Startup ''server startup was cancelled''"

definition accept_failed_early :: ServerError where
  "accept_failed_early =
     ServerError_message VK_Accept ''HTTP accept supervisor failed before the server reached Ready''"

definition startup_deadline_elapsed :: ServerError where
  "startup_deadline_elapsed =
     ServerError_message VK_Startup ''server did not reach Ready before the startup deadline''"

definition shutdown_deadline_elapsed :: ServerError where
  "shutdown_deadline_elapsed = ServerError_message VK_Timeout ''server graceful shutdown deadline elapsed''"

definition listener_lost :: ServerError where
  "listener_lost =
     ServerError_source VK_Accept ''HTTP accept supervisor ended before confirming listener closure'' XS_Closed"

definition accept_lost :: ServerError where
  "accept_lost = ServerError_source VK_Accept ''HTTP accept supervisor ended without an outcome'' XS_Closed"

definition fatal_accept :: "string \<Rightarrow> ServerError" where
  "fatal_accept e = ServerError_source VK_Accept ''HTTP server reached a fatal accept failure'' (XS_Io e)"

definition deregistration_failed :: "RegistryError \<Rightarrow> ServerError" where
  "deregistration_failed e =
     ServerError_source VK_Registry ''one or more service deregistrations failed'' (XS_Registry e)"

definition preparation_rejected :: "string \<Rightarrow> RegistryError \<Rightarrow> ServerError" where
  "preparation_rejected name e =
     ServerError_source VK_Registry (''registry '' @ name @ '' rejected registration preparation'') (XS_Registry e)"

definition preparation_panicked :: "string \<Rightarrow> ServerError" where
  "preparation_panicked name =
     ServerError_message VK_Registry (''registry '' @ name @ '' panicked while preparing registration'')"

fun activation_error :: "string \<Rightarrow> operation_result \<Rightarrow> ServerError option" where
  "activation_error name OR_Ok = None"
| "activation_error name (OR_Failed e) =
     Some (ServerError_source VK_Registry (''registry '' @ name @ '' failed to activate registration'') (XS_Registry e))"
| "activation_error name OR_Elapsed =
     Some (ServerError_message VK_Registry (''registry '' @ name @ '' registration activation timed out''))"

section \<open>Results\<close>

text \<open>What a batch of closes adds to the outcome, in the order of the batch.\<close>

fun collect_closes :: "operation_result list \<Rightarrow> CloseOutcome \<Rightarrow> CloseOutcome" where
  "collect_closes [] out = out"
| "collect_closes (OR_Ok # rs) out = collect_closes rs out"
| "collect_closes (OR_Failed e # rs) out =
     collect_closes rs (if cl_first_error out = None then out\<lparr>cl_first_error := Some e\<rparr> else out)"
| "collect_closes (OR_Elapsed # rs) out = collect_closes rs (out\<lparr>cl_timed_out := True\<rparr>)"

definition or_else :: "'a option \<Rightarrow> 'a option \<Rightarrow> 'a option" where
  "or_else x y = (case x of Some v \<Rightarrow> Some v | None \<Rightarrow> y)"

definition resolve_shutdown_result ::
  "CloseOutcome \<Rightarrow> ServerError + AcceptOutcome \<Rightarrow> string option \<Rightarrow> ServerError option \<Rightarrow> ServerError + unit" where
  "resolve_shutdown_result registry accept fatal listener_error =
     (let (accept_deadline_exceeded, outcome_fatal, completion_error) =
            (case accept of
               Inr a \<Rightarrow> (ao_deadline_exceeded a, ao_fatal_error a, None)
             | Inl e \<Rightarrow> (False, None, Some e));
          accept_error = or_else fatal outcome_fatal
      in if cl_timed_out registry \<or> accept_deadline_exceeded then Inl shutdown_deadline_elapsed
         else case accept_error of
           Some e \<Rightarrow> Inl (fatal_accept e)
         | None \<Rightarrow>
        (case listener_error of
           Some e \<Rightarrow> Inl e
         | None \<Rightarrow>
        (case completion_error of
           Some e \<Rightarrow> Inl e
         | None \<Rightarrow>
        (case cl_first_error registry of
           Some e \<Rightarrow> Inl (deregistration_failed e)
         | None \<Rightarrow> Inr ()))))"

text \<open>The result of a failed startup, given that of its rollback.\<close>

definition rolled_back :: "ServerError \<Rightarrow> ServerError + unit \<Rightarrow> ServerError + unit" where
  "rolled_back startup_error drained =
     (case drained of
        Inr _ \<Rightarrow> Inl startup_error
      | Inl e \<Rightarrow> if ve_kind e = VK_Timeout \<or> ve_kind e = VK_Accept then Inl e else Inl startup_error)"

definition shutdown_outcome :: "ServerError + unit \<Rightarrow> MetricOutcome" where
  "shutdown_outcome r =
     (case r of Inr _ \<Rightarrow> MO_Success | Inl e \<Rightarrow> if ve_kind e = VK_Timeout then MO_Timeout else MO_Error)"

section \<open>The coordinator\<close>

text \<open>
  The activation of the registrations: the error of the preparation, the deadline, the handles not started, and those
  in flight with the deadlines of their operations (\<open>buffer_unordered\<close>).  The closing: the handles to come in reverse
  order, the batch in flight with deadlines and results, and the outcome so far.
\<close>

record activation =
  av_error :: "ServerError option"
  av_deadline :: instant
  av_pending :: "TrackedRegistration list"
  av_running :: "(TrackedRegistration \<times> instant) list"

record closing =
  cg_waiting :: "TrackedRegistration list"
  cg_batch :: "(TrackedRegistration \<times> instant \<times> operation_result option) list"
  cg_outcome :: CloseOutcome

text \<open>What a drain was called for: the error of a failed startup, and the fatal error received.\<close>

record drain_context =
  dx_startup_error :: "ServerError option"
  dx_fatal :: "string option"

datatype coordinator_phase =
  CP_Spawned
| CP_Accepting
| CP_Preparing "string list"
| CP_Startup activation
| CP_StartupFatal activation
| CP_Activating activation
| CP_Started
| CP_MarkReady
| CP_Announce
| CP_Serving
| CP_ServingFatal
| CP_Drain drain_context
| CP_DrainGate drain_context
| CP_DrainSend drain_context
| CP_AwaitListener drain_context instant
| CP_Closing drain_context instant "ServerError option" closing
| CP_Drained drain_context "ServerError + unit"
| CP_Report "ServerError + unit"
| CP_Finish "ServerError + unit"
| CP_Stopping "ServerError + unit"
| CP_Complete "ServerError + unit"
| CP_Done

record Coordinator =
  co_phase :: coordinator_phase
  co_state :: nat
  co_readiness :: Readiness
  co_shutdown :: bool
  co_fatal :: "string list"
  co_fatal_closed :: bool
  co_gate_draining :: bool
  co_gate_drained :: bool
  co_drain :: "instant option"
  co_listener_closed :: "bool option"
  co_accept :: "(ServerError + AcceptOutcome) option"
  co_force_cancel :: bool
  co_startup :: "(ServerError + unit) option"
  co_completion :: "(ServerError + unit) option"
  co_tracked :: "TrackedRegistration list"
  co_activated :: "nat list"
  co_closed :: "nat list"
  co_events :: "lifecycle_event list"
  co_now :: instant

definition set_state :: "ServerState \<Rightarrow> Coordinator \<Rightarrow> Coordinator" where
  "set_state v s = s\<lparr>co_state := server_state_as_u8 v\<rparr>"

definition observed_state :: "Coordinator \<Rightarrow> ServerState" where
  "observed_state s = server_state_from_u8 (co_state s)"

definition goto :: "coordinator_phase \<Rightarrow> Coordinator \<Rightarrow> Coordinator" where
  "goto p s = s\<lparr>co_phase := p\<rparr>"

definition coordinator_start :: "instant \<Rightarrow> Coordinator" where
  "coordinator_start now =
     \<lparr>co_phase = CP_Spawned, co_state = server_state_as_u8 ST_Validated, co_readiness = RS_NotReady,
      co_shutdown = False, co_fatal = [], co_fatal_closed = False, co_gate_draining = False, co_gate_drained = False,
      co_drain = None, co_listener_closed = None, co_accept = None, co_force_cancel = False, co_startup = None,
      co_completion = None, co_tracked = [], co_activated = [], co_closed = [], co_events = [], co_now = now\<rparr>"

text \<open>\<open>fatal_receiver.recv()\<close> is ready when an error was sent or the sender is gone; then it takes the first error.\<close>

definition fatal_ready :: "Coordinator \<Rightarrow> bool" where
  "fatal_ready s \<longleftrightarrow> co_fatal s \<noteq> [] \<or> co_fatal_closed s"

definition recv_fatal :: "Coordinator \<Rightarrow> string option" where
  "recv_fatal s = (case co_fatal s of [] \<Rightarrow> None | e # _ \<Rightarrow> Some e)"

definition after_recv :: "Coordinator \<Rightarrow> Coordinator" where
  "after_recv s = s\<lparr>co_fatal := tl (co_fatal s)\<rparr>"

definition activation_of :: "ServerConfig \<Rightarrow> ServerError option \<Rightarrow> Coordinator \<Rightarrow> activation" where
  "activation_of c e s =
     \<lparr>av_error = e, av_deadline = co_now s + sg_startup_timeout (sf_registry c), av_pending = co_tracked s,
      av_running = []\<rparr>"

definition failed_startup :: "ServerError \<Rightarrow> coordinator_phase" where
  "failed_startup e = CP_Drain \<lparr>dx_startup_error = Some e, dx_fatal = None\<rparr>"

definition closing_of :: "Coordinator \<Rightarrow> closing" where
  "closing_of s =
     \<lparr>cg_waiting = rev (co_tracked s), cg_batch = [],
      cg_outcome = \<lparr>cl_timed_out = False, cl_first_error = None\<rparr>\<rparr>"

definition close_batch :: "ServerConfig \<Rightarrow> instant \<Rightarrow> instant \<Rightarrow> closing \<Rightarrow> closing" where
  "close_batch c now deadline g =
     (let n = sg_max_concurrent_operations (sf_registry c) in
      g\<lparr>cg_waiting := drop n (cg_waiting g),
        cg_batch := map (\<lambda>t. (t, min deadline (now + sg_operation_timeout (sf_registry c)), None))
                      (take n (cg_waiting g))\<rparr>)"

text \<open>The three futures \<open>drain_runtime\<close> joins once the listener is closed.\<close>

definition closing_done :: "closing \<Rightarrow> bool" where
  "closing_done g \<longleftrightarrow> cg_waiting g = [] \<and> cg_batch g = []"

definition joined :: "closing \<Rightarrow> Coordinator \<Rightarrow> bool" where
  "joined g s \<longleftrightarrow> closing_done g \<and> co_gate_drained s \<and> co_accept s \<noteq> None"

text \<open>What comes from outside.\<close>

inductive coordinator_input :: "Coordinator \<Rightarrow> Coordinator \<Rightarrow> bool" where
  request_shutdown: "coordinator_input s (s\<lparr>co_shutdown := True\<rparr>)"
| transport_failed: "\<not> co_fatal_closed s \<Longrightarrow> coordinator_input s (s\<lparr>co_fatal := co_fatal s @ [e]\<rparr>)"
| fatal_sender_gone: "coordinator_input s (s\<lparr>co_fatal_closed := True\<rparr>)"
| listener_closed: "\<lbrakk>co_drain s \<noteq> None; co_listener_closed s = None\<rbrakk> \<Longrightarrow>
    coordinator_input s (s\<lparr>co_listener_closed := Some True\<rparr>)"
| listener_gone: "\<lbrakk>co_drain s \<noteq> None; co_listener_closed s = None\<rbrakk> \<Longrightarrow>
    coordinator_input s (s\<lparr>co_listener_closed := Some False\<rparr>)"
| transport_ended: "co_accept s = None \<Longrightarrow> coordinator_input s (s\<lparr>co_accept := Some (Inr a)\<rparr>)"
| transport_lost: "co_accept s = None \<Longrightarrow> coordinator_input s (s\<lparr>co_accept := Some (Inl accept_lost)\<rparr>)"
| gate_drained: "co_gate_draining s \<Longrightarrow> coordinator_input s (s\<lparr>co_gate_drained := True\<rparr>)"
| time_passes: "coordinator_input s (s\<lparr>co_now := co_now s + d\<rparr>)"

text \<open>What the coordinator does; \<open>c\<close> is its configuration and \<open>names\<close> the registries of its plan.\<close>

inductive coordinator_progress :: "ServerConfig \<Rightarrow> string list \<Rightarrow> Coordinator \<Rightarrow> Coordinator \<Rightarrow> bool"
  for c :: ServerConfig and names :: "string list" where
  accepting: "co_phase s = CP_Spawned \<Longrightarrow>
    coordinator_progress c names s (goto CP_Accepting (set_state ST_AcceptingNotReady s))"
| registering: "co_phase s = CP_Accepting \<Longrightarrow>
    coordinator_progress c names s (goto (CP_Preparing names) (set_state ST_Registering s))"
| prepared: "co_phase s = CP_Preparing (n # ns) \<Longrightarrow>
    coordinator_progress c names s
      (goto (CP_Preparing ns)
        (s\<lparr>co_tracked := co_tracked s @ [\<lparr>tk_name = n, tk_handle = length (co_tracked s)\<rparr>]\<rparr>))"
| preparation_failed: "\<lbrakk>co_phase s = CP_Preparing (n # ns); e = preparation_rejected n r \<or> e = preparation_panicked n\<rbrakk> \<Longrightarrow>
    coordinator_progress c names s (goto (CP_Startup (activation_of c (Some e) s)) s)"
| all_prepared: "co_phase s = CP_Preparing [] \<Longrightarrow>
    coordinator_progress c names s (goto (CP_Startup (activation_of c None s)) s)"
| startup_cancelled: "\<lbrakk>co_phase s = CP_Startup a; co_shutdown s\<rbrakk> \<Longrightarrow>
    coordinator_progress c names s (goto (failed_startup startup_cancelled) s)"
| startup_polled: "\<lbrakk>co_phase s = CP_Startup a; \<not> co_shutdown s\<rbrakk> \<Longrightarrow>
    coordinator_progress c names s (goto (CP_StartupFatal a) s)"
| startup_fatal: "\<lbrakk>co_phase s = CP_StartupFatal a; fatal_ready s\<rbrakk> \<Longrightarrow>
    coordinator_progress c names s
      (goto (CP_Drain \<lparr>dx_startup_error = Some accept_failed_early, dx_fatal = recv_fatal s\<rparr>) (after_recv s))"
| startup_fatal_polled: "\<lbrakk>co_phase s = CP_StartupFatal a; \<not> fatal_ready s\<rbrakk> \<Longrightarrow>
    coordinator_progress c names s (goto (CP_Activating a) s)"
| not_prepared: "\<lbrakk>co_phase s = CP_Activating a; av_error a = Some e\<rbrakk> \<Longrightarrow>
    coordinator_progress c names s (goto (failed_startup e) s)"
| start_activation: "\<lbrakk>co_phase s = CP_Activating a; av_error a = None; av_pending a = t # ts;
      length (av_running a) < sg_max_concurrent_operations (sf_registry c)\<rbrakk> \<Longrightarrow>
    coordinator_progress c names s
      (goto (CP_Activating
          (a\<lparr>av_pending := ts,
             av_running := av_running a @ [(t, co_now s + sg_operation_timeout (sf_registry c))]\<rparr>)) s)"
| activated: "\<lbrakk>co_phase s = CP_Activating a; i < length (av_running a); av_running a ! i = (t, due)\<rbrakk> \<Longrightarrow>
    coordinator_progress c names s
      (goto (CP_Activating (a\<lparr>av_running := take i (av_running a) @ drop (Suc i) (av_running a)\<rparr>))
        (s\<lparr>co_activated := co_activated s @ [tk_handle t],
           co_events := co_events s @ [LV_Operation (tk_name t) ''activate_registration'' MO_Success]\<rparr>))"
| activation_failed: "\<lbrakk>co_phase s = CP_Activating a; i < length (av_running a); av_running a ! i = (t, due);
      activation_error (tk_name t) r = Some e; r = OR_Elapsed \<longrightarrow> due \<le> co_now s\<rbrakk> \<Longrightarrow>
    coordinator_progress c names s
      (goto (failed_startup e)
        (s\<lparr>co_events := co_events s @ [LV_Operation (tk_name t) ''activate_registration'' (operation_outcome r)]\<rparr>))"
| activation_pending: "\<lbrakk>co_phase s = CP_Activating a; av_error a = None; av_running a \<noteq> []; co_now s < av_deadline a\<rbrakk> \<Longrightarrow>
    coordinator_progress c names s (goto (CP_Startup a) s)"
| activation_elapsed: "\<lbrakk>co_phase s = CP_Activating a; av_error a = None; av_running a \<noteq> []; av_deadline a \<le> co_now s\<rbrakk> \<Longrightarrow>
    coordinator_progress c names s (goto (failed_startup startup_deadline_elapsed) s)"
| all_activated: "\<lbrakk>co_phase s = CP_Activating a; av_error a = None; av_pending a = []; av_running a = []\<rbrakk> \<Longrightarrow>
    coordinator_progress c names s (goto CP_Started s)"
| ready: "co_phase s = CP_Started \<Longrightarrow>
    coordinator_progress c names s (goto CP_MarkReady (s\<lparr>co_readiness := RS_Ready\<rparr>))"
| mark_ready: "co_phase s = CP_MarkReady \<Longrightarrow>
    coordinator_progress c names s (goto CP_Announce (set_state ST_Ready s))"
| announce: "co_phase s = CP_Announce \<Longrightarrow>
    coordinator_progress c names s (goto CP_Serving (s\<lparr>co_startup := Some (Inr ())\<rparr>))"
| serving_shutdown: "\<lbrakk>co_phase s = CP_Serving; co_shutdown s\<rbrakk> \<Longrightarrow>
    coordinator_progress c names s (goto (CP_Drain \<lparr>dx_startup_error = None, dx_fatal = None\<rparr>) s)"
| serving_polled: "\<lbrakk>co_phase s = CP_Serving; \<not> co_shutdown s\<rbrakk> \<Longrightarrow>
    coordinator_progress c names s (goto CP_ServingFatal s)"
| serving_fatal: "\<lbrakk>co_phase s = CP_ServingFatal; fatal_ready s\<rbrakk> \<Longrightarrow>
    coordinator_progress c names s
      (goto (CP_Drain \<lparr>dx_startup_error = None, dx_fatal = recv_fatal s\<rparr>) (after_recv s))"
| serving_pending: "\<lbrakk>co_phase s = CP_ServingFatal; \<not> fatal_ready s\<rbrakk> \<Longrightarrow>
    coordinator_progress c names s (goto CP_Serving s)"
| drain: "co_phase s = CP_Drain x \<Longrightarrow>
    coordinator_progress c names s (goto (CP_DrainGate x) (s\<lparr>co_readiness := RS_Draining\<rparr>))"
| drain_gate: "co_phase s = CP_DrainGate x \<Longrightarrow>
    coordinator_progress c names s (goto (CP_DrainSend x) (s\<lparr>co_gate_draining := True\<rparr>))"
| drain_send: "\<lbrakk>co_phase s = CP_DrainSend x; deadline = co_now s + sf_graceful_shutdown_timeout c\<rbrakk> \<Longrightarrow>
    coordinator_progress c names s (goto (CP_AwaitListener x deadline) (s\<lparr>co_drain := Some deadline\<rparr>))"
| listener_confirmed: "\<lbrakk>co_phase s = CP_AwaitListener x deadline; co_listener_closed s = Some True\<rbrakk> \<Longrightarrow>
    coordinator_progress c names s
      (goto (CP_Closing x deadline None (closing_of s)) (set_state ST_Draining s))"
| listener_unconfirmed: "\<lbrakk>co_phase s = CP_AwaitListener x deadline; co_listener_closed s = Some False\<rbrakk> \<Longrightarrow>
    coordinator_progress c names s (goto (CP_Closing x deadline (Some listener_lost) (closing_of s)) s)"
| listener_elapsed: "\<lbrakk>co_phase s = CP_AwaitListener x deadline; co_listener_closed s = None; deadline \<le> co_now s\<rbrakk> \<Longrightarrow>
    coordinator_progress c names s
      (goto (CP_Drained x (Inl shutdown_deadline_elapsed)) (s\<lparr>co_force_cancel := True\<rparr>))"
| close_start: "\<lbrakk>co_phase s = CP_Closing x deadline e g; cg_batch g = []; cg_waiting g \<noteq> []; co_now s < deadline\<rbrakk> \<Longrightarrow>
    coordinator_progress c names s
      (goto (CP_Closing x deadline e (close_batch c (co_now s) deadline g))
        (s\<lparr>co_closed := co_closed s @ map (tk_handle \<circ> fst) (cg_batch (close_batch c (co_now s) deadline g))\<rparr>))"
| close_late: "\<lbrakk>co_phase s = CP_Closing x deadline e g; cg_batch g = []; cg_waiting g \<noteq> []; deadline \<le> co_now s\<rbrakk> \<Longrightarrow>
    coordinator_progress c names s
      (goto (CP_Closing x deadline e
          (g\<lparr>cg_waiting := [], cg_outcome := (cg_outcome g)\<lparr>cl_timed_out := True\<rparr>\<rparr>)) s)"
| closed: "\<lbrakk>co_phase s = CP_Closing x deadline e g; i < length (cg_batch g); cg_batch g ! i = (t, due, None);
      r = OR_Elapsed \<longrightarrow> due \<le> co_now s\<rbrakk> \<Longrightarrow>
    coordinator_progress c names s
      (goto (CP_Closing x deadline e (g\<lparr>cg_batch := (cg_batch g)[i := (t, due, Some r)]\<rparr>))
        (s\<lparr>co_events := co_events s @ [LV_Operation (tk_name t) ''close_registration'' (operation_outcome r)]\<rparr>))"
| batch_closed: "\<lbrakk>co_phase s = CP_Closing x deadline e g; cg_batch g \<noteq> [];
      map (snd \<circ> snd) (cg_batch g) = map Some rs\<rbrakk> \<Longrightarrow>
    coordinator_progress c names s
      (goto (CP_Closing x deadline e (g\<lparr>cg_batch := [], cg_outcome := collect_closes rs (cg_outcome g)\<rparr>)) s)"
| drained: "\<lbrakk>co_phase s = CP_Closing x deadline e g; joined g s; co_accept s = Some accept\<rbrakk> \<Longrightarrow>
    coordinator_progress c names s
      (goto (CP_Drained x (resolve_shutdown_result (cg_outcome g) accept (dx_fatal x) e)) s)"
| drain_elapsed: "\<lbrakk>co_phase s = CP_Closing x deadline e g; \<not> joined g s; deadline \<le> co_now s\<rbrakk> \<Longrightarrow>
    coordinator_progress c names s
      (goto (CP_Drained x (Inl shutdown_deadline_elapsed)) (s\<lparr>co_force_cancel := True\<rparr>))"
| record_shutdown: "co_phase s = CP_Drained x r \<Longrightarrow>
    coordinator_progress c names s
      (goto (case dx_startup_error x of None \<Rightarrow> CP_Finish r | Some e \<Rightarrow> CP_Report (rolled_back e r))
        (s\<lparr>co_events := co_events s @ [LV_Shutdown (shutdown_outcome r)]\<rparr>))"
| report: "co_phase s = CP_Report r \<Longrightarrow>
    coordinator_progress c names s (goto (CP_Finish r) (s\<lparr>co_startup := Some r\<rparr>))"
| finish: "co_phase s = CP_Finish r \<Longrightarrow>
    coordinator_progress c names s (goto (CP_Stopping r) (s\<lparr>co_readiness := RS_Stopped\<rparr>))"
| stopped: "co_phase s = CP_Stopping r \<Longrightarrow>
    coordinator_progress c names s (goto (CP_Complete r) (set_state ST_Stopped s))"
| complete: "co_phase s = CP_Complete r \<Longrightarrow>
    coordinator_progress c names s (goto CP_Done (s\<lparr>co_completion := Some r\<rparr>))"

definition coordinator_step :: "ServerConfig \<Rightarrow> string list \<Rightarrow> Coordinator \<Rightarrow> Coordinator \<Rightarrow> bool" where
  "coordinator_step c names s s' \<longleftrightarrow> coordinator_input s s' \<or> coordinator_progress c names s s'"

text \<open>\<open>ServerHandle::wait\<close> returns the completion once there is one.\<close>

definition handle_wait :: "Coordinator \<Rightarrow> (ServerError + unit) option" where
  "handle_wait s = co_completion s"

end
