(* ===== verification/Server_Lifecycle_Theorems.thy ===== *)
theory Server_Lifecycle_Theorems
  imports Server_Lifecycle Config_Theorems
begin

text \<open>
  The lifecycle of a server: it is ready only when everything it planned is registered, what is observed of it only
  moves forward, everything it registered is deregistered in reverse order before it reports its end, and a requested
  shutdown ends.
\<close>

inductive_cases coordinator_inputE: "coordinator_input s s'"
inductive_cases coordinator_progressE: "coordinator_progress c names s s'"

section \<open>The observable state\<close>

lemma server_state_round_trip [simp]: "server_state_from_u8 (server_state_as_u8 v) = v"
  by (cases v) (simp_all add: server_state_from_u8_def)

text \<open>What a phase says of the stored state, the readiness and the two results.\<close>

definition before_drain :: "drain_context \<Rightarrow> ServerState" where
  "before_drain x = (if dx_startup_error x = None then ST_Ready else ST_Registering)"

fun phase_state :: "coordinator_phase \<Rightarrow> ServerState set" where
  "phase_state CP_Spawned = {ST_Validated}"
| "phase_state CP_Accepting = {ST_AcceptingNotReady}"
| "phase_state (CP_Preparing _) = {ST_Registering}"
| "phase_state (CP_Startup _) = {ST_Registering}"
| "phase_state (CP_StartupFatal _) = {ST_Registering}"
| "phase_state (CP_Activating _) = {ST_Registering}"
| "phase_state CP_Started = {ST_Registering}"
| "phase_state CP_MarkReady = {ST_Registering}"
| "phase_state CP_Announce = {ST_Ready}"
| "phase_state CP_Serving = {ST_Ready}"
| "phase_state CP_ServingFatal = {ST_Ready}"
| "phase_state (CP_Drain x) = {before_drain x}"
| "phase_state (CP_DrainGate x) = {before_drain x}"
| "phase_state (CP_DrainSend x) = {before_drain x}"
| "phase_state (CP_AwaitListener x _) = {before_drain x}"
| "phase_state (CP_Closing x _ e _) = {if e = None then ST_Draining else before_drain x}"
| "phase_state (CP_Drained x _) = {before_drain x, ST_Draining}"
| "phase_state (CP_Report _) = {ST_Registering, ST_Draining}"
| "phase_state (CP_Finish _) = {ST_Registering, ST_Ready, ST_Draining}"
| "phase_state (CP_Stopping _) = {ST_Registering, ST_Ready, ST_Draining}"
| "phase_state (CP_Complete _) = {ST_Stopped}"
| "phase_state CP_Done = {ST_Stopped}"

fun phase_readiness :: "coordinator_phase \<Rightarrow> Readiness" where
  "phase_readiness CP_MarkReady = RS_Ready"
| "phase_readiness CP_Announce = RS_Ready"
| "phase_readiness CP_Serving = RS_Ready"
| "phase_readiness CP_ServingFatal = RS_Ready"
| "phase_readiness (CP_Drain x) = (if dx_startup_error x = None then RS_Ready else RS_NotReady)"
| "phase_readiness (CP_DrainGate x) = RS_Draining"
| "phase_readiness (CP_DrainSend x) = RS_Draining"
| "phase_readiness (CP_AwaitListener x _) = RS_Draining"
| "phase_readiness (CP_Closing x _ e _) = RS_Draining"
| "phase_readiness (CP_Drained _ _) = RS_Draining"
| "phase_readiness (CP_Report _) = RS_Draining"
| "phase_readiness (CP_Finish _) = RS_Draining"
| "phase_readiness (CP_Stopping _) = RS_Stopped"
| "phase_readiness (CP_Complete _) = RS_Stopped"
| "phase_readiness CP_Done = RS_Stopped"
| "phase_readiness _ = RS_NotReady"

text \<open>Whether the caller of \<open>start\<close> was told that the server is ready, in phases that follow from the context.\<close>

definition told_ready :: "Coordinator \<Rightarrow> bool" where
  "told_ready s \<longleftrightarrow> co_startup s = Some (Inr ())"

fun phase_startup :: "coordinator_phase \<Rightarrow> (ServerError + unit) option \<Rightarrow> bool" where
  "phase_startup CP_Serving st \<longleftrightarrow> st = Some (Inr ())"
| "phase_startup CP_ServingFatal st \<longleftrightarrow> st = Some (Inr ())"
| "phase_startup (CP_Drain x) st \<longleftrightarrow> st = (if dx_startup_error x = None then Some (Inr ()) else None)"
| "phase_startup (CP_DrainGate x) st \<longleftrightarrow> st = (if dx_startup_error x = None then Some (Inr ()) else None)"
| "phase_startup (CP_DrainSend x) st \<longleftrightarrow> st = (if dx_startup_error x = None then Some (Inr ()) else None)"
| "phase_startup (CP_AwaitListener x _) st \<longleftrightarrow> st = (if dx_startup_error x = None then Some (Inr ()) else None)"
| "phase_startup (CP_Closing x _ _ _) st \<longleftrightarrow> st = (if dx_startup_error x = None then Some (Inr ()) else None)"
| "phase_startup (CP_Drained x _) st \<longleftrightarrow> st = (if dx_startup_error x = None then Some (Inr ()) else None)"
| "phase_startup (CP_Report r) st \<longleftrightarrow> st = None \<and> isl r"
| "phase_startup (CP_Finish r) st \<longleftrightarrow> st = Some (Inr ()) \<or> st = Some r \<and> isl r"
| "phase_startup (CP_Stopping r) st \<longleftrightarrow> st = Some (Inr ()) \<or> st = Some r \<and> isl r"
| "phase_startup (CP_Complete r) st \<longleftrightarrow> st = Some (Inr ()) \<or> st = Some r \<and> isl r"
| "phase_startup CP_Done st \<longleftrightarrow> st \<noteq> None"
| "phase_startup _ st \<longleftrightarrow> st = None"

fun phase_deadline :: "coordinator_phase \<Rightarrow> instant option" where
  "phase_deadline (CP_AwaitListener x d) = Some d"
| "phase_deadline (CP_Closing x d e g) = Some d"
| "phase_deadline _ = None"

definition observed_ok :: "Coordinator \<Rightarrow> bool" where
  "observed_ok s \<longleftrightarrow>
     co_state s \<in> server_state_as_u8 ` phase_state (co_phase s)
   \<and> co_readiness s = phase_readiness (co_phase s)
   \<and> phase_startup (co_phase s) (co_startup s)
   \<and> (co_completion s = None \<longleftrightarrow> co_phase s \<noteq> CP_Done)
   \<and> (co_state s = server_state_as_u8 ST_Ready \<longrightarrow> co_phase s = CP_Announce \<or> told_ready s)
   \<and> (phase_deadline (co_phase s) \<noteq> None \<longrightarrow> co_drain s = phase_deadline (co_phase s))
   \<and> (\<forall>r. co_completion s = Some r \<longrightarrow> told_ready s \<or> co_startup s = Some r \<and> isl r)"

lemmas coordinator_updates = goto_def set_state_def failed_startup_def after_recv_def

lemma rolled_back_isl: "isl (rolled_back e r)"
  by (simp add: rolled_back_def split: sum.splits)

lemma observed_ok_start: "observed_ok (coordinator_start now)"
  by (simp add: observed_ok_def coordinator_start_def)

lemma observed_ok_input: "coordinator_input s s' \<Longrightarrow> observed_ok s \<Longrightarrow> observed_ok s'"
  by (erule coordinator_inputE) (simp_all add: observed_ok_def told_ready_def)

lemma observed_ok_progress:
  assumes "coordinator_progress c names s s'" and "observed_ok s"
  shows "observed_ok s'"
  using assms
  by cases (auto simp: observed_ok_def coordinator_updates before_drain_def rolled_back_isl told_ready_def
      split: option.splits if_splits)

section \<open>Registrations\<close>

text \<open>The tracked handles are those of the planned registries prepared so far, in order.\<close>

fun phase_unprepared :: "string list \<Rightarrow> coordinator_phase \<Rightarrow> string list option" where
  "phase_unprepared names CP_Spawned = Some names"
| "phase_unprepared names CP_Accepting = Some names"
| "phase_unprepared names (CP_Preparing ns) = Some ns"
| "phase_unprepared names (CP_Startup a) = (if av_error a = None then Some [] else None)"
| "phase_unprepared names (CP_StartupFatal a) = (if av_error a = None then Some [] else None)"
| "phase_unprepared names (CP_Activating a) = (if av_error a = None then Some [] else None)"
| "phase_unprepared names CP_Started = Some []"
| "phase_unprepared names CP_MarkReady = Some []"
| "phase_unprepared names CP_Announce = Some []"
| "phase_unprepared names CP_Serving = Some []"
| "phase_unprepared names CP_ServingFatal = Some []"
| "phase_unprepared names _ = None"

definition handles :: "Coordinator \<Rightarrow> nat list" where
  "handles s = map tk_handle (co_tracked s)"

definition prepared_ok :: "string list \<Rightarrow> Coordinator \<Rightarrow> bool" where
  "prepared_ok names s \<longleftrightarrow>
     handles s = [0..<length (co_tracked s)]
   \<and> (\<exists>rest. map tk_name (co_tracked s) @ rest = names \<and>
        (case phase_unprepared names (co_phase s) of Some ns \<Rightarrow> ns = rest | None \<Rightarrow> True))
   \<and> (told_ready s \<longrightarrow> map tk_name (co_tracked s) = names)"

lemma prepared_ok_start: "prepared_ok names (coordinator_start now)"
  by (simp add: prepared_ok_def coordinator_start_def handles_def told_ready_def)

lemma prepared_ok_input: "coordinator_input s s' \<Longrightarrow> prepared_ok names s \<Longrightarrow> prepared_ok names s'"
  by (erule coordinator_inputE) (simp_all add: prepared_ok_def handles_def told_ready_def)

lemma prepared_ok_progress:
  assumes "coordinator_progress c names s s'" and "prepared_ok names s" and "observed_ok s"
  shows "prepared_ok names s'"
  using assms
  by cases (auto simp: prepared_ok_def handles_def told_ready_def coordinator_updates activation_of_def observed_ok_def
      split: option.splits)

text \<open>A handle is activated, in flight or waiting until the server has started.\<close>

definition activation_handles :: "activation \<Rightarrow> nat set" where
  "activation_handles a = tk_handle ` set (av_pending a) \<union> tk_handle ` fst ` set (av_running a)"

fun phase_unactivated :: "coordinator_phase \<Rightarrow> nat set option" where
  "phase_unactivated (CP_Startup a) = (if av_error a = None then Some (activation_handles a) else None)"
| "phase_unactivated (CP_StartupFatal a) = (if av_error a = None then Some (activation_handles a) else None)"
| "phase_unactivated (CP_Activating a) = (if av_error a = None then Some (activation_handles a) else None)"
| "phase_unactivated CP_Started = Some {}"
| "phase_unactivated CP_MarkReady = Some {}"
| "phase_unactivated CP_Announce = Some {}"
| "phase_unactivated CP_Serving = Some {}"
| "phase_unactivated CP_ServingFatal = Some {}"
| "phase_unactivated _ = None"

definition activated_ok :: "Coordinator \<Rightarrow> bool" where
  "activated_ok s \<longleftrightarrow>
     (case phase_unactivated (co_phase s) of Some h \<Rightarrow> set (handles s) \<subseteq> set (co_activated s) \<union> h | None \<Rightarrow> True)
   \<and> (told_ready s \<longrightarrow> set (handles s) \<subseteq> set (co_activated s))"

lemma activated_ok_start: "activated_ok (coordinator_start now)"
  by (simp add: activated_ok_def coordinator_start_def told_ready_def)

lemma activated_ok_input: "coordinator_input s s' \<Longrightarrow> activated_ok s \<Longrightarrow> activated_ok s'"
  by (erule coordinator_inputE) (simp_all add: activated_ok_def handles_def told_ready_def split: option.splits)

lemma activation_handles_start:
  "av_pending a = t # ts \<Longrightarrow>
   activation_handles (a\<lparr>av_pending := ts, av_running := av_running a @ [(t, d)]\<rparr>) = activation_handles a"
  by (auto simp: activation_handles_def)

lemma set_take_drop: "i < length xs \<Longrightarrow> set xs = insert (xs ! i) (set (take i xs @ drop (Suc i) xs))"
  by (subst id_take_nth_drop [of i xs]) auto

lemma activation_handles_finish:
  assumes "i < length (av_running a)" "av_running a ! i = (t, due)"
  shows "activation_handles a =
      insert (tk_handle t) (activation_handles (a\<lparr>av_running := take i (av_running a) @ drop (Suc i) (av_running a)\<rparr>))"
  using set_take_drop [OF assms(1)] assms(2) by (simp add: activation_handles_def)

lemma reported_not_ready: "observed_ok s \<Longrightarrow> co_phase s = CP_Report r \<Longrightarrow> r \<noteq> Inr ()"
  by (auto simp: observed_ok_def)

lemma activation_of_handles: "activation_handles (activation_of c e s) = set (handles s)"
  by (simp add: activation_of_def activation_handles_def handles_def)

lemma activation_of_error [simp]: "av_error (activation_of c e s) = e"
  by (simp add: activation_of_def)

lemma activated_ok_progress:
  assumes "coordinator_progress c names s s'" and "activated_ok s" and "observed_ok s"
  shows "activated_ok s'"
  using assms(1)
proof cases
  case (prepared n ns)
  moreover have "\<not> told_ready s" using assms(3) prepared by (simp add: observed_ok_def told_ready_def)
  ultimately show ?thesis by (simp add: activated_ok_def coordinator_updates told_ready_def)
next
  case (start_activation a t ts)
  then show ?thesis using assms(2) activation_handles_start [OF start_activation(4)]
    by (simp add: activated_ok_def coordinator_updates handles_def told_ready_def)
next
  case (activated a i t due)
  then show ?thesis using assms(2) activation_handles_finish [OF activated(3,4)]
    by (cases "av_error a") (simp_all add: activated_ok_def coordinator_updates handles_def told_ready_def subset_insertI2)
next
  case (all_activated a)
  then show ?thesis using assms(2)
    by (simp add: activated_ok_def coordinator_updates handles_def told_ready_def activation_handles_def)
next
  case (startup_polled a)
  then show ?thesis using assms(2)
    by (cases "av_error a") (simp_all add: activated_ok_def coordinator_updates handles_def told_ready_def)
next
  case (startup_fatal_polled a)
  then show ?thesis using assms(2)
    by (cases "av_error a") (simp_all add: activated_ok_def coordinator_updates handles_def told_ready_def)
next
  case (report r)
  then show ?thesis using assms(2) reported_not_ready [OF assms(3)]
    by (simp add: activated_ok_def coordinator_updates handles_def told_ready_def)
next
  case (record_shutdown x r)
  then show ?thesis using assms(2)
    by (simp add: activated_ok_def coordinator_updates handles_def told_ready_def split: option.splits)
qed (use assms(2) in \<open>simp_all add: activated_ok_def handles_def told_ready_def coordinator_updates
      activation_of_handles\<close>)

text \<open>
  The closes begun are those of the tracked handles from the last one on, all of them when the drain ended without
  reaching its deadline, and then the result tells whether one failed.
\<close>

definition closes_ok :: "lifecycle_event list \<Rightarrow> bool" where
  "closes_ok events \<longleftrightarrow>
     (\<forall>name out. LV_Operation name ''close_registration'' out \<in> set events \<longrightarrow> out = MO_Success)"

definition batch_ok :: "closing \<Rightarrow> bool" where
  "batch_ok g \<longleftrightarrow>
     \<not> cl_timed_out (cg_outcome g) \<and> cl_first_error (cg_outcome g) = None
   \<and> set (map (snd \<circ> snd) (cg_batch g)) \<subseteq> {None, Some OR_Ok}"

definition timed_out :: "ServerError + unit \<Rightarrow> bool" where
  "timed_out r \<longleftrightarrow> (\<exists>e. r = Inl e \<and> ve_kind e = VK_Timeout)"

definition all_closed :: "ServerError + unit \<Rightarrow> Coordinator \<Rightarrow> bool" where
  "all_closed r s \<longleftrightarrow> timed_out r \<or> co_closed s = rev (handles s) \<and> (r = Inr () \<longrightarrow> closes_ok (co_events s))"

fun phase_closes :: "coordinator_phase \<Rightarrow> Coordinator \<Rightarrow> bool" where
  "phase_closes (CP_Closing x deadline e g) s \<longleftrightarrow>
     (cl_timed_out (cg_outcome g) \<or> co_closed s @ map tk_handle (cg_waiting g) = rev (handles s))
     \<and> (batch_ok g \<longrightarrow> closes_ok (co_events s)) \<and> (\<forall>f. e = Some f \<longrightarrow> ve_kind f \<noteq> VK_Timeout)"
| "phase_closes (CP_Drained x r) s \<longleftrightarrow> all_closed r s"
| "phase_closes (CP_Report r) s \<longleftrightarrow> all_closed r s"
| "phase_closes (CP_Finish r) s \<longleftrightarrow> all_closed r s"
| "phase_closes (CP_Stopping r) s \<longleftrightarrow> all_closed r s"
| "phase_closes (CP_Complete r) s \<longleftrightarrow> all_closed r s"
| "phase_closes CP_Done s \<longleftrightarrow> (\<forall>r. co_completion s = Some r \<longrightarrow> all_closed r s)"
| "phase_closes _ s \<longleftrightarrow> co_closed s = [] \<and> closes_ok (co_events s)"

definition closed_ok :: "Coordinator \<Rightarrow> bool" where
  "closed_ok s \<longleftrightarrow> phase_closes (co_phase s) s"

lemma closed_ok_start: "closed_ok (coordinator_start now)"
  by (simp add: closed_ok_def coordinator_start_def closes_ok_def)

lemma phase_closes_cong:
  "\<lbrakk>co_closed s' = co_closed s; co_tracked s' = co_tracked s; co_events s' = co_events s;
    co_completion s' = co_completion s\<rbrakk> \<Longrightarrow> phase_closes p s' = phase_closes p s"
  by (cases p) (simp_all add: handles_def closes_ok_def all_closed_def)

lemma coordinator_input_keeps:
  "coordinator_input s s' \<Longrightarrow>
   co_phase s' = co_phase s \<and> co_closed s' = co_closed s \<and> co_tracked s' = co_tracked s
   \<and> co_events s' = co_events s \<and> co_completion s' = co_completion s \<and> co_startup s' = co_startup s
   \<and> co_state s' = co_state s \<and> co_readiness s' = co_readiness s"
  by (erule coordinator_inputE) simp_all

lemma closed_ok_input: "coordinator_input s s' \<Longrightarrow> closed_ok s \<Longrightarrow> closed_ok s'"
  using coordinator_input_keeps [of s s'] phase_closes_cong [of s' s "co_phase s"] by (simp add: closed_ok_def)

text \<open>The cases of the result of a drain.\<close>

lemma resolve_cases:
  "resolve_shutdown_result g accept fatal le = r \<Longrightarrow>
   cl_timed_out g \<Longrightarrow> timed_out r"
  by (auto simp: resolve_shutdown_result_def Let_def timed_out_def shutdown_deadline_elapsed_def
      ServerError_message_def split: sum.splits)

lemma resolve_ok: "resolve_shutdown_result g accept fatal le = Inr () \<Longrightarrow>
   \<not> cl_timed_out g \<and> cl_first_error g = None \<and> le = None \<and> fatal = None
   \<and> (\<exists>a. accept = Inr a \<and> ao_fatal_error a = None \<and> \<not> ao_deadline_exceeded a)"
  by (auto simp: resolve_shutdown_result_def Let_def or_else_def split: sum.splits if_splits option.splits)

lemma rolled_back_timed_out: "timed_out r \<Longrightarrow> timed_out (rolled_back e r)"
  by (auto simp: timed_out_def rolled_back_def)

lemma rolled_back_not_ok: "rolled_back e r \<noteq> Inr ()"
  by (auto simp: rolled_back_def split: sum.splits)

lemma collect_closes_ok:
  "\<not> cl_timed_out (collect_closes rs out) \<and> cl_first_error (collect_closes rs out) = None \<longleftrightarrow>
     \<not> cl_timed_out out \<and> cl_first_error out = None \<and> set rs \<subseteq> {OR_Ok}"
  by (induction rs out rule: collect_closes.induct) (auto split: if_splits)

lemma collect_closes_timed_out: "cl_timed_out out \<Longrightarrow> cl_timed_out (collect_closes rs out)"
  by (induction rs out rule: collect_closes.induct) auto

lemma resolve_not_timed_out:
  "cl_timed_out g \<Longrightarrow> timed_out (resolve_shutdown_result g accept fatal le)"
  using resolve_cases by blast

lemma all_closed_rolled_back: "all_closed r s \<Longrightarrow> all_closed (rolled_back e r) s"
  using rolled_back_timed_out rolled_back_not_ok by (auto simp: all_closed_def)

lemma closes_ok_snoc:
  "closes_ok (events @ [v]) \<longleftrightarrow>
     closes_ok events \<and> (\<forall>name out. v = LV_Operation name ''close_registration'' out \<longrightarrow> out = MO_Success)"
  by (auto simp: closes_ok_def)

lemma set_list_update_back: "i < length xs \<Longrightarrow> set xs \<subseteq> insert (xs ! i) (set (xs[i := y]))"
  by (metis list_update_id list_update_overwrite set_update_subset_insert)

lemma batch_ok_update:
  assumes "i < length (cg_batch g)" "cg_batch g ! i = (t, due, None)"
    and "batch_ok (g\<lparr>cg_batch := (cg_batch g)[i := (t, due, Some r)]\<rparr>)"
  shows "batch_ok g \<and> r = OR_Ok"
proof -
  let ?rs = "map (snd \<circ> snd) (cg_batch g)"
  have rs: "set (?rs[i := Some r]) \<subseteq> {None, Some OR_Ok}"
    using assms(3) by (simp add: batch_ok_def map_update del: set_map)
  have i: "i < length ?rs" "?rs ! i = None" using assms(1,2) by simp_all
  have "Some r \<in> set (?rs[i := Some r])" using i(1) by (rule set_update_memI)
  then have "r = OR_Ok" using rs by blast
  moreover have "set ?rs \<subseteq> {None, Some OR_Ok}"
    using set_list_update_back [OF i(1), of "Some r"] rs i(2) by (simp del: set_map) blast
  ultimately show ?thesis using assms(3) by (simp add: batch_ok_def del: set_map)
qed

lemma batch_ok_collected:
  assumes "map (snd \<circ> snd) (cg_batch g) = map Some rs"
    and "batch_ok (g\<lparr>cg_batch := [], cg_outcome := collect_closes rs (cg_outcome g)\<rparr>)"
  shows "batch_ok g"
proof -
  have "set rs \<subseteq> {OR_Ok}" "\<not> cl_timed_out (cg_outcome g)" "cl_first_error (cg_outcome g) = None"
    using assms(2) collect_closes_ok [of rs "cg_outcome g"] unfolding batch_ok_def by simp_all
  then show ?thesis unfolding batch_ok_def assms(1) by auto
qed

lemma close_batch_outcome [simp]: "cg_outcome (close_batch c now d g) = cg_outcome g"
  by (simp add: close_batch_def Let_def)

lemma close_batch_ok: "cg_batch g = [] \<Longrightarrow> batch_ok (close_batch c now d g) = batch_ok g"
  by (auto simp: close_batch_def batch_ok_def Let_def)

lemma close_batch_handles:
  "map (tk_handle \<circ> fst) (cg_batch (close_batch c now d g)) @ map tk_handle (cg_waiting (close_batch c now d g)) =
     map tk_handle (cg_waiting g)"
proof -
  let ?n = "sg_max_concurrent_operations (sf_registry c)"
  have "map tk_handle (take ?n (cg_waiting g)) @ map tk_handle (drop ?n (cg_waiting g)) = map tk_handle (cg_waiting g)"
    by (simp only: map_append [symmetric] append_take_drop_id)
  then show ?thesis by (simp add: close_batch_def Let_def comp_def)
qed

lemma closed_ok_progress:
  assumes "coordinator_progress c names s s'" and "closed_ok s"
  shows "closed_ok s'"
  using assms(1)
proof cases
  case (close_start x deadline e g)
  then show ?thesis using assms(2) close_batch_handles [of c "co_now s" deadline g]
    by (simp add: close_batch_ok closed_ok_def handles_def coordinator_updates)
next
  case (closed x deadline e g i t due r)
  have "closes_ok (co_events s @ [LV_Operation (tk_name t) ''close_registration'' (operation_outcome r)])"
      if "batch_ok (g\<lparr>cg_batch := (cg_batch g)[i := (t, due, Some r)]\<rparr>)"
    using batch_ok_update [OF closed(3,4) that] assms(2) closed(2)
    by (simp add: closed_ok_def closes_ok_snoc operation_outcome_def)
  then show ?thesis using assms(2) closed
    by (simp add: closed_ok_def handles_def coordinator_updates)
next
  case (batch_closed x deadline e g rs)
  then show ?thesis using assms(2) batch_ok_collected [OF batch_closed(4)]
      collect_closes_timed_out [of "cg_outcome g" rs]
    by (auto simp: closed_ok_def handles_def coordinator_updates)
next
  case (drained x deadline e g accept)
  let ?r = "resolve_shutdown_result (cg_outcome g) accept (dx_fatal x) e"
  have "all_closed ?r s"
  proof (cases "cl_timed_out (cg_outcome g)")
    case True
    then show ?thesis by (simp add: all_closed_def resolve_not_timed_out)
  next
    case False
    have "co_closed s = rev (handles s)" "batch_ok g \<longrightarrow> closes_ok (co_events s)"
      using assms(2) drained False by (simp_all add: closed_ok_def joined_def closing_done_def)
    moreover have "batch_ok g" if "?r = Inr ()"
      using resolve_ok [OF that] drained(3) by (simp add: batch_ok_def joined_def closing_done_def)
    ultimately show ?thesis by (simp add: all_closed_def)
  qed
  then show ?thesis using drained by (simp add: closed_ok_def all_closed_def handles_def coordinator_updates)
next
  case (record_shutdown x r)
  then have "all_closed r s" using assms(2) by (simp add: closed_ok_def)
  then have "all_closed r s'" "all_closed (rolled_back e r) s'" for e
    using record_shutdown all_closed_rolled_back [of r s']
    by (simp_all add: all_closed_def closes_ok_snoc handles_def coordinator_updates)
  then show ?thesis using record_shutdown by (simp add: closed_ok_def coordinator_updates split: option.splits)
next
  case (close_late x deadline e g)
  then show ?thesis using assms(2) by (simp add: closed_ok_def coordinator_updates batch_ok_def handles_def)
next
  case (listener_elapsed x deadline)
  then show ?thesis
    by (simp add: closed_ok_def coordinator_updates all_closed_def timed_out_def shutdown_deadline_elapsed_def
        ServerError_message_def)
next
  case (drain_elapsed x deadline e g)
  then show ?thesis
    by (simp add: closed_ok_def coordinator_updates all_closed_def timed_out_def shutdown_deadline_elapsed_def
        ServerError_message_def)
qed (use assms(2) in \<open>simp_all add: closed_ok_def handles_def coordinator_updates closes_ok_snoc all_closed_def
      closing_of_def batch_ok_def listener_lost_def ServerError_source_def rev_map\<close>)

section \<open>Reachable states\<close>

definition coordinator_reachable :: "ServerConfig \<Rightarrow> string list \<Rightarrow> Coordinator \<Rightarrow> bool" where
  "coordinator_reachable c names s \<longleftrightarrow> (\<exists>now. (coordinator_step c names)\<^sup>*\<^sup>* (coordinator_start now) s)"

lemma coordinator_reachable_step:
  "coordinator_reachable c names s \<Longrightarrow> coordinator_step c names s s' \<Longrightarrow> coordinator_reachable c names s'"
  unfolding coordinator_reachable_def by (meson rtranclp.rtrancl_into_rtrancl)

definition coordinator_ok :: "string list \<Rightarrow> Coordinator \<Rightarrow> bool" where
  "coordinator_ok names s \<longleftrightarrow> observed_ok s \<and> prepared_ok names s \<and> activated_ok s \<and> closed_ok s"

lemma coordinator_ok_input: "coordinator_input s s' \<Longrightarrow> coordinator_ok names s \<Longrightarrow> coordinator_ok names s'"
  unfolding coordinator_ok_def
  using observed_ok_input prepared_ok_input activated_ok_input closed_ok_input by blast

lemma coordinator_ok_progress:
  assumes "coordinator_progress c names s s'" and "coordinator_ok names s"
  shows "coordinator_ok names s'"
  using assms(2) observed_ok_progress [OF assms(1)] prepared_ok_progress [OF assms(1)]
    activated_ok_progress [OF assms(1)] closed_ok_progress [OF assms(1)]
  unfolding coordinator_ok_def by blast

interpretation coordinator: stepwise "coordinator_step c names" "coordinator_ok names" for c names
  by unfold_locales (use coordinator_ok_input coordinator_ok_progress in \<open>auto simp: coordinator_step_def\<close>)

lemma coordinator_invariant:
  assumes "coordinator_reachable c names s"
  shows "observed_ok s \<and> prepared_ok names s \<and> activated_ok s \<and> closed_ok s"
proof -
  have "coordinator_ok names (coordinator_start now)" for now
    using observed_ok_start prepared_ok_start activated_ok_start closed_ok_start by (simp add: coordinator_ok_def)
  then show ?thesis
    using assms coordinator.along_runs unfolding coordinator_reachable_def coordinator_ok_def [symmetric] by blast
qed

lemma observed_ready:
  assumes "coordinator_reachable c names s"
    and "observed_state s = ST_Ready \<or> co_readiness s = RS_Ready \<or> co_startup s = Some (Inr ())"
  shows "map tk_name (co_tracked s) = names \<and> set (handles s) \<subseteq> set (co_activated s)"
proof -
  note inv = coordinator_invariant [OF assms(1)]
  have "observed_state s = ST_Ready \<Longrightarrow> co_phase s = CP_Announce \<or> told_ready s"
    using inv by (force simp: observed_ok_def observed_state_def)
  moreover have "co_readiness s = RS_Ready \<Longrightarrow> told_ready s \<or> co_phase s \<in> {CP_MarkReady, CP_Announce}"
    using inv by (cases "co_phase s") (auto simp: observed_ok_def told_ready_def split: if_splits)
  ultimately have "told_ready s \<or> co_phase s \<in> {CP_MarkReady, CP_Announce}"
    using assms(2) told_ready_def by blast
  then show ?thesis
    using inv by (elim disjE) (auto simp: prepared_ok_def activated_ok_def simp del: set_upt)
qed

section \<open>Shutting down\<close>

text \<open>An upper bound of the steps of its own the coordinator takes once it was asked to shut down.\<close>

definition activation_work :: "activation \<Rightarrow> nat" where
  "activation_work a = 2 * length (av_pending a) + length (av_running a)"

definition closing_work :: "closing \<Rightarrow> nat" where
  "closing_work g =
     3 * length (cg_waiting g)
     + (if cg_batch g = [] then 0 else Suc (length (filter (\<lambda>b. snd (snd b) = None) (cg_batch g))))"

fun phase_work :: "string list \<Rightarrow> nat \<Rightarrow> coordinator_phase \<Rightarrow> nat" where
  "phase_work names n CP_Spawned = 14 + 3 * (n + length names) + length names"
| "phase_work names n CP_Accepting = 13 + 3 * (n + length names) + length names"
| "phase_work names n (CP_Preparing ns) = 12 + 3 * (n + length ns) + length ns"
| "phase_work names n (CP_Startup a) = 11 + 3 * n"
| "phase_work names n (CP_StartupFatal a) = 17 + 3 * n + activation_work a"
| "phase_work names n (CP_Activating a) = 16 + 3 * n + activation_work a"
| "phase_work names n CP_Started = 15 + 3 * n"
| "phase_work names n CP_MarkReady = 14 + 3 * n"
| "phase_work names n CP_Announce = 13 + 3 * n"
| "phase_work names n CP_Serving = 11 + 3 * n"
| "phase_work names n CP_ServingFatal = 12 + 3 * n"
| "phase_work names n (CP_Drain _) = 10 + 3 * n"
| "phase_work names n (CP_DrainGate _) = 9 + 3 * n"
| "phase_work names n (CP_DrainSend _) = 8 + 3 * n"
| "phase_work names n (CP_AwaitListener _ _) = 7 + 3 * n"
| "phase_work names n (CP_Closing _ _ _ g) = 6 + closing_work g"
| "phase_work names n (CP_Drained _ _) = 5"
| "phase_work names n (CP_Report _) = 4"
| "phase_work names n (CP_Finish _) = 3"
| "phase_work names n (CP_Stopping _) = 2"
| "phase_work names n (CP_Complete _) = 1"
| "phase_work names n CP_Done = 0"

definition coordinator_work :: "string list \<Rightarrow> Coordinator \<Rightarrow> nat" where
  "coordinator_work names s = phase_work names (length (co_tracked s)) (co_phase s)"

lemma filter_map_None: "filter (\<lambda>b. snd (snd b) = None) (map (\<lambda>t. (t, d, None)) ts) = map (\<lambda>t. (t, d, None)) ts"
  by (induction ts) auto

lemma close_batch_work:
  assumes "0 < sg_max_concurrent_operations (sf_registry c)" "cg_batch g = []" "cg_waiting g \<noteq> []"
  shows "closing_work (close_batch c now d g) < closing_work g"
proof -
  let ?n = "sg_max_concurrent_operations (sf_registry c)"
  have "closing_work (close_batch c now d g) \<le>
      3 * (length (cg_waiting g) - ?n) + Suc (min (length (cg_waiting g)) ?n)"
    by (simp add: closing_work_def close_batch_def Let_def filter_map_None comp_def)
  moreover have "closing_work g = 3 * length (cg_waiting g)" using assms(2) by (simp add: closing_work_def)
  moreover have "0 < length (cg_waiting g)" using assms(3) by simp
  ultimately show ?thesis using assms(1) by linarith
qed

lemma length_filter_update:
  assumes "i < length xs" "P (xs ! i)" "\<not> P y"
  shows "length (filter P (xs[i := y])) < length (filter P xs)"
proof -
  have "length (filter P xs) = Suc (length (filter P (take i xs @ drop (Suc i) xs)))"
    by (subst (1) id_take_nth_drop [OF assms(1)]) (simp add: assms(2))
  moreover have "length (filter P (xs[i := y])) = length (filter P (take i xs @ drop (Suc i) xs))"
    using assms by (simp add: upd_conv_take_nth_drop)
  ultimately show ?thesis by simp
qed

lemma closed_work:
  assumes "i < length (cg_batch g)" "cg_batch g ! i = (t, due, None)"
  shows "closing_work (g\<lparr>cg_batch := (cg_batch g)[i := (t, due, Some r)]\<rparr>) < closing_work g"
  using length_filter_update [of i "cg_batch g" "\<lambda>b. snd (snd b) = None" "(t, due, Some r)"] assms
  by (auto simp: closing_work_def)

lemma shutdown_progress_decreases:
  assumes "coordinator_progress c names s s'" and "co_shutdown s"
    and "0 < sg_max_concurrent_operations (sf_registry c)"
  shows "coordinator_work names s' < coordinator_work names s"
  using assms(1)
proof cases
  case (close_start x deadline e g)
  then show ?thesis using close_batch_work [OF assms(3)] by (simp add: coordinator_work_def coordinator_updates)
next
  case (closed x deadline e g i t due r)
  then show ?thesis using closed_work [OF closed(3,4)] by (simp add: coordinator_work_def coordinator_updates)
next
  case (activated a i t due)
  then show ?thesis by (simp add: coordinator_work_def coordinator_updates activation_work_def)
next
  case (record_shutdown x r)
  then show ?thesis by (simp add: coordinator_work_def coordinator_updates split: option.splits)
qed (use assms(2) in \<open>simp_all add: coordinator_work_def coordinator_updates activation_work_def closing_work_def
      closing_of_def activation_of_def\<close>)

lemma shutdown_input_keeps:
  "coordinator_input s s' \<Longrightarrow> co_shutdown s \<Longrightarrow>
   co_shutdown s' \<and> coordinator_work names s' = coordinator_work names s"
  by (erule coordinator_inputE) (simp_all add: coordinator_work_def)

lemma coordinator_not_stuck:
  assumes "co_shutdown s" "co_phase s \<noteq> CP_Done"
    and "\<And>d. phase_deadline (co_phase s) = Some d \<Longrightarrow> d \<le> co_now s"
    and "0 < sg_max_concurrent_operations (sf_registry c)"
  shows "\<exists>s'. coordinator_progress c names s s'"
proof (cases "co_phase s")
  case (CP_Preparing ns)
  then show ?thesis by (cases ns) (blast intro: coordinator_progress.intros)+
next
  case (CP_Activating a)
  show ?thesis
  proof (cases "av_error a")
    case (Some e)
    then show ?thesis using CP_Activating by (blast intro: coordinator_progress.not_prepared)
  next
    case None
    show ?thesis
    proof (cases "av_running a = []")
      case True
      show ?thesis
      proof (cases "av_pending a")
        case Nil
        then show ?thesis using CP_Activating None True by (blast intro: coordinator_progress.all_activated)
      next
        case (Cons t ts)
        moreover have "length (av_running a) < sg_max_concurrent_operations (sf_registry c)" using True assms(4) by simp
        ultimately show ?thesis using CP_Activating None by (blast intro: coordinator_progress.start_activation)
      qed
    next
      case False
      then show ?thesis using CP_Activating None
        by (meson coordinator_progress.activation_pending coordinator_progress.activation_elapsed not_less)
    qed
  qed
next
  case (CP_AwaitListener x d)
  then have "d \<le> co_now s" using assms(3) by simp
  show ?thesis
  proof (cases "co_listener_closed s")
    case None
    show ?thesis
      using coordinator_progress.listener_elapsed [OF CP_AwaitListener None \<open>d \<le> co_now s\<close>] by blast
  next
    case (Some confirmed)
    show ?thesis
    proof (cases confirmed)
      case True
      then have "co_listener_closed s = Some True" using Some by simp
      then show ?thesis using coordinator_progress.listener_confirmed [OF CP_AwaitListener] by blast
    next
      case False
      then have "co_listener_closed s = Some False" using Some by simp
      then show ?thesis using coordinator_progress.listener_unconfirmed [OF CP_AwaitListener] by blast
    qed
  qed
next
  case (CP_Closing x d e g)
  then have "d \<le> co_now s" using assms(3) by simp
  show ?thesis
  proof (cases "joined g s")
    case True
    then obtain accept where "co_accept s = Some accept" by (auto simp: joined_def)
    then show ?thesis using CP_Closing True by (blast intro: coordinator_progress.drained)
  next
    case False
    then show ?thesis using CP_Closing \<open>d \<le> co_now s\<close> by (blast intro: coordinator_progress.drain_elapsed)
  qed
qed (use assms(1,2) in \<open>blast intro: coordinator_progress.intros\<close>)+

lemma observed_advances:
  assumes "coordinator_progress c names s s'" "observed_ok s"
  shows "co_state s \<le> co_state s'"
  using assms
  by cases (auto simp: observed_ok_def coordinator_updates before_drain_def split: option.splits if_splits)

fun readiness_rank :: "Readiness \<Rightarrow> nat" where
  "readiness_rank RS_NotReady = 0"
| "readiness_rank RS_Ready = 1"
| "readiness_rank RS_Draining = 2"
| "readiness_rank RS_Stopped = 3"

lemma readiness_advances:
  assumes "coordinator_progress c names s s'" "observed_ok s"
  shows "readiness_rank (co_readiness s) \<le> readiness_rank (co_readiness s')"
  using assms
  by cases (auto simp: observed_ok_def coordinator_updates split: option.splits)

lemma results_stay:
  assumes "coordinator_progress c names s s'" "observed_ok s"
  shows "(co_startup s \<noteq> None \<longrightarrow> co_startup s' = co_startup s)
       \<and> (co_completion s \<noteq> None \<longrightarrow> co_completion s' = co_completion s)"
  using assms
  by cases (simp_all add: observed_ok_def coordinator_updates)

section \<open>Properties\<close>

text \<open>
  C2.  A server is observed as ready, answers requests or has its \<open>start\<close> return only when all the registrations of its
  plan were prepared, in the order of the plan, and every one of them was activated.
\<close>
theorem ready_only_when_registered:
  assumes "coordinator_reachable c names s"
    and "observed_state s = ST_Ready \<or> co_readiness s = RS_Ready \<or> co_startup s = Some (Inr ())"
  shows "map tk_name (co_tracked s) = names \<and> map tk_handle (co_tracked s) = [0..<length names]
       \<and> {0..<length names} \<subseteq> set (co_activated s)"
proof -
  have "map tk_name (co_tracked s) = names" "set (handles s) \<subseteq> set (co_activated s)"
    using observed_ready [OF assms] by auto
  moreover have "handles s = [0..<length (co_tracked s)]"
    using coordinator_invariant [OF assms(1)] by (simp add: prepared_ok_def)
  moreover have "length (co_tracked s) = length names" using calculation(1) by (metis length_map)
  moreover have "set (handles s) = {0..<length names}" using calculation(3,4) by simp
  ultimately show ?thesis unfolding handles_def by metis
qed

text \<open>
  C40.  The observable state and the readiness of a server never go back, the results of \<open>start\<close> and of \<open>wait\<close> are given
  once, and a server whose end is reported is stopped.
\<close>
theorem lifecycle_only_advances:
  assumes "coordinator_reachable c names s" and "coordinator_step c names s s'"
  shows "server_state_as_u8 (observed_state s) \<le> server_state_as_u8 (observed_state s')
       \<and> readiness_rank (co_readiness s) \<le> readiness_rank (co_readiness s')
       \<and> co_startup s' \<in> {co_startup s} \<union> (if co_startup s = None then UNIV else {})
       \<and> handle_wait s' \<in> {handle_wait s} \<union> (if handle_wait s = None then UNIV else {})
       \<and> (handle_wait s' = None \<or> observed_state s' = ST_Stopped \<and> co_readiness s' = RS_Stopped)"
proof -
  have ok: "observed_ok s" "observed_ok s'"
    using coordinator_invariant assms coordinator_reachable_step by blast+
  have as: "server_state_as_u8 (observed_state t) = co_state t" if "observed_ok t" for t
  proof -
    have "co_state t \<in> range server_state_as_u8" using that unfolding observed_ok_def by blast
    then obtain v where "co_state t = server_state_as_u8 v" by blast
    then show ?thesis by (simp add: observed_state_def)
  qed
  have "co_state s \<le> co_state s' \<and> readiness_rank (co_readiness s) \<le> readiness_rank (co_readiness s')
      \<and> (co_startup s \<noteq> None \<longrightarrow> co_startup s' = co_startup s)
      \<and> (co_completion s \<noteq> None \<longrightarrow> co_completion s' = co_completion s)"
    using assms(2) ok(1) coordinator_input_keeps [of s s'] observed_advances readiness_advances results_stay
    unfolding coordinator_step_def by (metis order_refl)
  moreover have "co_completion s' = None \<or> observed_state s' = ST_Stopped \<and> co_readiness s' = RS_Stopped"
    using ok(2)
    by (cases "co_phase s' = CP_Done") (simp_all add: observed_ok_def observed_state_def server_state_from_u8_def)
  ultimately show ?thesis using as [OF ok(1)] as [OF ok(2)] by (auto simp: handle_wait_def)
qed


text \<open>
   C12.  A server that was asked to shut down ends: every step of its own takes one from a bound that nothing outside
  raises, and until its end is reported it has such a step, unless it still waits for its drain deadline.
\<close>
theorem requested_shutdown_ends:
  assumes "coordinator_reachable c names s" and "co_shutdown s" and "server_config_wf c"
  shows "(\<forall>s'. coordinator_progress c names s s' \<longrightarrow> coordinator_work names s' < coordinator_work names s)
       \<and> (\<forall>s'. coordinator_input s s' \<longrightarrow> co_shutdown s' \<and> coordinator_work names s' = coordinator_work names s)
       \<and> (handle_wait s \<noteq> None \<or> (\<exists>d. co_drain s = Some d \<and> co_now s < d)
          \<or> (\<exists>s'. coordinator_progress c names s s'))"
proof -
  have pos: "0 < sg_max_concurrent_operations (sf_registry c)"
    using assms(3) by (simp add: server_config_wf_def registry_wf_def)
  have inv: "observed_ok s" using coordinator_invariant [OF assms(1)] by simp
  have "\<exists>s'. coordinator_progress c names s s'"
    if "handle_wait s = None" "\<not> (\<exists>d. co_drain s = Some d \<and> co_now s < d)"
  proof (rule coordinator_not_stuck [OF assms(2) _ _ pos])
    show "co_phase s \<noteq> CP_Done" using inv that(1) by (simp add: observed_ok_def handle_wait_def)
    show "d \<le> co_now s" if "phase_deadline (co_phase s) = Some d" for d
      using inv that \<open>\<not> (\<exists>d. co_drain s = Some d \<and> co_now s < d)\<close> by (auto simp: observed_ok_def not_less)
  qed
  then show ?thesis
    using shutdown_progress_decreases [OF _ assms(2) pos] shutdown_input_keeps [OF _ assms(2)] by blast
qed

text \<open>
  An operation that exceeds its own timeout is reported as the timeout of the whole shutdown, however much of the
  shutdown deadline is left.
\<close>
lemma operation_timeout_reported_as_shutdown_timeout:
  "OR_Elapsed \<in> set rs \<Longrightarrow>
   resolve_shutdown_result (collect_closes rs out) accept fatal le = Inl shutdown_deadline_elapsed"
proof -
  assume "OR_Elapsed \<in> set rs"
  then have "cl_timed_out (collect_closes rs out)"
    by (induction rs out rule: collect_closes.induct) (auto simp: collect_closes_timed_out)
  then show ?thesis by (auto simp: resolve_shutdown_result_def Let_def split: sum.splits)
qed

section \<open>A server that starts, serves and stops\<close>

definition demo_tracked :: TrackedRegistration where
  "demo_tracked = \<lparr>tk_name = ''nacos'', tk_handle = 0\<rparr>"

definition demo_event :: "string \<Rightarrow> lifecycle_event" where
  "demo_event op = LV_Operation ''nacos'' op MO_Success"

text \<open>Its states while it starts, and while it stops.\<close>

definition starting ::
  "coordinator_phase \<Rightarrow> ServerState \<Rightarrow> Readiness \<Rightarrow> TrackedRegistration list \<Rightarrow> bool \<Rightarrow> (ServerError + unit) option \<Rightarrow>
   Coordinator" where
  "starting p st rd tracked active startup =
     \<lparr>co_phase = p, co_state = server_state_as_u8 st, co_readiness = rd,
      co_shutdown = False, co_fatal = [], co_fatal_closed = False, co_gate_draining = False, co_gate_drained = False,
      co_drain = None, co_listener_closed = None, co_accept = None, co_force_cancel = False, co_startup = startup,
      co_completion = None, co_tracked = tracked, co_activated = (if active then [0] else []), co_closed = [],
      co_events = (if active then [demo_event ''activate_registration''] else []), co_now = 0\<rparr>"

definition demo_activation ::
  "TrackedRegistration list \<Rightarrow> (TrackedRegistration \<times> instant) list \<Rightarrow> activation" where
  "demo_activation pending running =
     \<lparr>av_error = None, av_deadline = sg_startup_timeout (sf_registry ServerConfig_default), av_pending = pending,
      av_running = running\<rparr>"

abbreviation demo_reach :: "Coordinator \<Rightarrow> bool" where
  "demo_reach s \<equiv> coordinator_reachable ServerConfig_default [''nacos''] s"

lemma demo_progress:
  "\<lbrakk>demo_reach s; coordinator_progress ServerConfig_default [''nacos''] s s'; s' = t\<rbrakk> \<Longrightarrow> demo_reach t"
  using coordinator_reachable_step by (simp add: coordinator_step_def)

lemma demo_input: "\<lbrakk>demo_reach s; coordinator_input s s'; s' = t\<rbrakk> \<Longrightarrow> demo_reach t"
  using coordinator_reachable_step by (simp add: coordinator_step_def)

lemma demo_started: "demo_reach (starting CP_Spawned ST_Validated RS_NotReady [] False None)"
  unfolding coordinator_reachable_def
  by (rule exI [of _ 0]) (simp add: coordinator_start_def starting_def)

lemmas demo_simps = starting_def coordinator_updates activation_of_def demo_activation_def demo_tracked_def
  demo_event_def fatal_ready_def ServerConfig_default_def ServerRegistryConfig_default_def

lemma demo_ready: "demo_reach (starting CP_Serving ST_Ready RS_Ready [demo_tracked] True (Some (Inr ())))"
proof -
  let ?due = "sg_operation_timeout (sf_registry ServerConfig_default)"
  let ?waiting = "demo_activation [demo_tracked] []" and ?flying = "demo_activation [] [(demo_tracked, ?due)]"
  have 1: "demo_reach (starting CP_Accepting ST_AcceptingNotReady RS_NotReady [] False None)"
    by (rule demo_progress [OF demo_started coordinator_progress.accepting]) (simp_all add: demo_simps)
  have 2: "demo_reach (starting (CP_Preparing [''nacos'']) ST_Registering RS_NotReady [] False None)"
    by (rule demo_progress [OF 1 coordinator_progress.registering]) (simp_all add: demo_simps)
  have 3: "demo_reach (starting (CP_Preparing []) ST_Registering RS_NotReady [demo_tracked] False None)"
    by (rule demo_progress [OF 2 coordinator_progress.prepared [where n = "''nacos''" and ns = "[]"]])
       (simp_all add: demo_simps)
  have 4: "demo_reach (starting (CP_Startup ?waiting) ST_Registering RS_NotReady [demo_tracked] False None)"
    by (rule demo_progress [OF 3 coordinator_progress.all_prepared]) (simp_all add: demo_simps)
  have 5: "demo_reach (starting (CP_StartupFatal ?waiting) ST_Registering RS_NotReady [demo_tracked] False None)"
    by (rule demo_progress [OF 4 coordinator_progress.startup_polled [where a = ?waiting]]) (simp_all add: demo_simps)
  have 6: "demo_reach (starting (CP_Activating ?waiting) ST_Registering RS_NotReady [demo_tracked] False None)"
    by (rule demo_progress [OF 5 coordinator_progress.startup_fatal_polled [where a = ?waiting]])
       (simp_all add: demo_simps)
  have 7: "demo_reach (starting (CP_Activating ?flying) ST_Registering RS_NotReady [demo_tracked] False None)"
    by (rule demo_progress [OF 6 coordinator_progress.start_activation
          [where a = ?waiting and t = demo_tracked and ts = "[]"]]) (simp_all add: demo_simps)
  have 8: "demo_reach (starting (CP_Activating (demo_activation [] [])) ST_Registering RS_NotReady [demo_tracked] True None)"
    by (rule demo_progress [OF 7 coordinator_progress.activated
          [where a = ?flying and t = demo_tracked and i = 0 and due = ?due]]) (simp_all add: demo_simps)
  have 9: "demo_reach (starting CP_Started ST_Registering RS_NotReady [demo_tracked] True None)"
    by (rule demo_progress [OF 8 coordinator_progress.all_activated [where a = "demo_activation [] []"]])
       (simp_all add: demo_simps)
  have 10: "demo_reach (starting CP_MarkReady ST_Registering RS_Ready [demo_tracked] True None)"
    by (rule demo_progress [OF 9 coordinator_progress.ready]) (simp_all add: demo_simps)
  have 11: "demo_reach (starting CP_Announce ST_Ready RS_Ready [demo_tracked] True None)"
    by (rule demo_progress [OF 10 coordinator_progress.mark_ready]) (simp_all add: demo_simps)
  show ?thesis
    by (rule demo_progress [OF 11 coordinator_progress.announce]) (simp_all add: demo_simps)
qed

definition stopping ::
  "coordinator_phase \<Rightarrow> ServerState \<Rightarrow> Readiness \<Rightarrow> bool \<Rightarrow> instant option \<Rightarrow> bool \<Rightarrow> nat list \<Rightarrow> lifecycle_event list \<Rightarrow>
   (ServerError + unit) option \<Rightarrow> Coordinator" where
  "stopping p st rd gate drain outside closed events completion =
     \<lparr>co_phase = p, co_state = server_state_as_u8 st, co_readiness = rd,
      co_shutdown = True, co_fatal = [], co_fatal_closed = False, co_gate_draining = gate, co_gate_drained = outside,
      co_drain = drain, co_listener_closed = (if outside then Some True else None),
      co_accept = (if outside then Some (Inr \<lparr>ao_fatal_error = None, ao_deadline_exceeded = False\<rparr>) else None),
      co_force_cancel = False, co_startup = Some (Inr ()), co_completion = completion, co_tracked = [demo_tracked],
      co_activated = [0], co_closed = closed, co_events = demo_event ''activate_registration'' # events, co_now = 0\<rparr>"

definition demo_drain :: drain_context where
  "demo_drain = \<lparr>dx_startup_error = None, dx_fatal = None\<rparr>"

definition demo_closing ::
  "TrackedRegistration list \<Rightarrow> (TrackedRegistration \<times> instant \<times> operation_result option) list \<Rightarrow> closing" where
  "demo_closing waiting batch =
     \<lparr>cg_waiting = waiting, cg_batch = batch, cg_outcome = \<lparr>cl_timed_out = False, cl_first_error = None\<rparr>\<rparr>"

lemmas stop_simps = stopping_def demo_drain_def demo_closing_def closing_of_def close_batch_def demo_simps
  joined_def closing_done_def

abbreviation demo_deadline :: instant where
  "demo_deadline \<equiv> sf_graceful_shutdown_timeout ServerConfig_default"

lemma demo_draining:
  "demo_reach (stopping (CP_Closing demo_drain demo_deadline None (demo_closing [demo_tracked] [])) ST_Draining
     RS_Draining True (Some demo_deadline) True [] [] None)"
proof -
  have 1: "demo_reach (stopping CP_Serving ST_Ready RS_Ready False None False [] [] None)"
    by (rule demo_input [OF demo_ready coordinator_input.request_shutdown]) (simp add: stop_simps)
  have 2: "demo_reach (stopping (CP_Drain demo_drain) ST_Ready RS_Ready False None False [] [] None)"
    by (rule demo_progress [OF 1 coordinator_progress.serving_shutdown]) (simp_all add: stop_simps)
  have 3: "demo_reach (stopping (CP_DrainGate demo_drain) ST_Ready RS_Draining False None False [] [] None)"
    by (rule demo_progress [OF 2 coordinator_progress.drain [where x = demo_drain]]) (simp_all add: stop_simps)
  have 4: "demo_reach (stopping (CP_DrainSend demo_drain) ST_Ready RS_Draining True None False [] [] None)"
    by (rule demo_progress [OF 3 coordinator_progress.drain_gate [where x = demo_drain]]) (simp_all add: stop_simps)
  let ?await = "CP_AwaitListener demo_drain demo_deadline"
  have 5: "demo_reach (stopping ?await ST_Ready RS_Draining True (Some demo_deadline) False [] [] None)"
    by (rule demo_progress [OF 4 coordinator_progress.drain_send [where x = demo_drain and deadline = demo_deadline]])
       (simp_all add: stop_simps)
  note 6 = demo_input [OF 5 coordinator_input.listener_closed refl]
  note 7 = demo_input [OF 6 coordinator_input.gate_drained refl]
  have 8: "demo_reach (stopping ?await ST_Ready RS_Draining True (Some demo_deadline) True [] [] None)"
    by (rule demo_input [OF 7 coordinator_input.transport_ended
          [where a = "\<lparr>ao_fatal_error = None, ao_deadline_exceeded = False\<rparr>"]]) (simp_all add: stop_simps)
  show ?thesis
    by (rule demo_progress [OF 8 coordinator_progress.listener_confirmed
          [where x = demo_drain and deadline = demo_deadline]]) (simp_all add: stop_simps)
qed

lemma demo_stopped:
  "demo_reach (stopping CP_Done ST_Stopped RS_Stopped True (Some demo_deadline) True [0]
     [demo_event ''close_registration'', LV_Shutdown MO_Success] (Some (Inr ())))"
proof -
  let ?due = "min demo_deadline (sg_operation_timeout (sf_registry ServerConfig_default))"
  let ?at = "\<lambda>g. CP_Closing demo_drain demo_deadline None g"
  let ?st = "\<lambda>p rd. stopping p ST_Draining rd True (Some demo_deadline) True [0]"
  let ?flying = "demo_closing [] [(demo_tracked, ?due, None)]"
  let ?flown = "demo_closing [] [(demo_tracked, ?due, Some OR_Ok)]"
  have 1: "demo_reach (?st (?at ?flying) RS_Draining [] None)"
    by (rule demo_progress [OF demo_draining coordinator_progress.close_start [where x = demo_drain
          and deadline = demo_deadline and e = None and g = "demo_closing [demo_tracked] []"]])
       (simp_all add: stop_simps from_secs_def NANOS_PER_SEC_def)
  have 2: "demo_reach (?st (?at ?flown) RS_Draining [demo_event ''close_registration''] None)"
    by (rule demo_progress [OF 1 coordinator_progress.closed [where x = demo_drain and deadline = demo_deadline
          and e = None and g = ?flying and i = 0 and t = demo_tracked and due = ?due and r = OR_Ok]])
       (simp_all add: stop_simps operation_outcome_def)
  have 3: "demo_reach (?st (?at (demo_closing [] [])) RS_Draining [demo_event ''close_registration''] None)"
    by (rule demo_progress [OF 2 coordinator_progress.batch_closed [where x = demo_drain and deadline = demo_deadline
          and e = None and g = ?flown and rs = "[OR_Ok]"]]) (simp_all add: stop_simps)
  have 4: "demo_reach (?st (CP_Drained demo_drain (Inr ())) RS_Draining [demo_event ''close_registration''] None)"
    by (rule demo_progress [OF 3 coordinator_progress.drained [where x = demo_drain and deadline = demo_deadline
          and e = None and g = "demo_closing [] []"
          and accept = "Inr \<lparr>ao_fatal_error = None, ao_deadline_exceeded = False\<rparr>"]])
       (simp_all add: stop_simps resolve_shutdown_result_def or_else_def)
  let ?events = "[demo_event ''close_registration'', LV_Shutdown MO_Success]"
  have 5: "demo_reach (?st (CP_Finish (Inr ())) RS_Draining ?events None)"
    by (rule demo_progress [OF 4 coordinator_progress.record_shutdown [where x = demo_drain and r = "Inr ()"]])
       (simp_all add: stop_simps shutdown_outcome_def)
  have 6: "demo_reach (?st (CP_Stopping (Inr ())) RS_Stopped ?events None)"
    by (rule demo_progress [OF 5 coordinator_progress.finish [where r = "Inr ()"]]) (simp_all add: stop_simps)
  have 7: "demo_reach (stopping (CP_Complete (Inr ())) ST_Stopped RS_Stopped True (Some demo_deadline) True [0] ?events None)"
    by (rule demo_progress [OF 6 coordinator_progress.stopped [where r = "Inr ()"]]) (simp_all add: stop_simps)
  show ?thesis
    by (rule demo_progress [OF 7 coordinator_progress.complete [where r = "Inr ()"]]) (simp_all add: stop_simps)
qed

theorem ready_only_when_registered_witness:
  "\<exists>s. demo_reach s \<and> observed_state s = ST_Ready \<and> map tk_name (co_tracked s) = [''nacos''] \<and> {0} \<subseteq> set (co_activated s)"
proof -
  let ?s = "starting CP_Serving ST_Ready RS_Ready [demo_tracked] True (Some (Inr ()))"
  have ready: "observed_state ?s = ST_Ready" by (simp add: observed_state_def starting_def server_state_from_u8_def)
  then show ?thesis using demo_ready ready_only_when_registered [OF demo_ready] by auto
qed

theorem lifecycle_only_advances_witness:
  "\<exists>s s'. coordinator_step ServerConfig_default [''nacos''] s s' \<and> observed_state s = ST_Ready
     \<and> server_state_as_u8 ST_Ready \<le> server_state_as_u8 (observed_state s')"
proof -
  let ?s = "starting CP_Serving ST_Ready RS_Ready [demo_tracked] True (Some (Inr ()))"
  have ready: "observed_state ?s = ST_Ready" by (simp add: observed_state_def starting_def server_state_from_u8_def)
  have step: "coordinator_step ServerConfig_default [''nacos''] ?s (?s\<lparr>co_shutdown := True\<rparr>)"
    by (simp add: coordinator_step_def coordinator_input.request_shutdown)
  have "server_state_as_u8 ST_Ready \<le> server_state_as_u8 (observed_state (?s\<lparr>co_shutdown := True\<rparr>))"
    using lifecycle_only_advances [OF demo_ready step] unfolding ready by blast
  then show ?thesis using step ready by blast
qed


theorem requested_shutdown_ends_witness:
  "\<exists>s s'. demo_reach s \<and> coordinator_progress ServerConfig_default [''nacos''] s s'
     \<and> coordinator_work [''nacos''] s' < coordinator_work [''nacos''] s"
proof -
  let ?s = "stopping (CP_Closing demo_drain demo_deadline None (demo_closing [demo_tracked] [])) ST_Draining
     RS_Draining True (Some demo_deadline) True [] [] None"
  have shutdown: "co_shutdown ?s" by (simp add: stopping_def)
  have phase: "co_phase ?s = CP_Closing demo_drain demo_deadline None (demo_closing [demo_tracked] [])"
    by (simp add: stopping_def)
  have "cg_batch (demo_closing [demo_tracked] []) = []" "cg_waiting (demo_closing [demo_tracked] []) \<noteq> []"
    by (simp_all add: demo_closing_def)
  moreover have "co_now ?s < demo_deadline"
    by (simp add: stopping_def ServerConfig_default_def from_secs_def NANOS_PER_SEC_def)
  ultimately obtain s' where step: "coordinator_progress ServerConfig_default [''nacos''] ?s s'"
    using coordinator_progress.close_start [OF phase] by blast
  then show ?thesis
    using requested_shutdown_ends [OF demo_draining shutdown server_default_wf] demo_draining by blast
qed

end
