(* ===== verification/Spec2Isabelle.thy ===== *)
theory Spec2Isabelle
  imports Breaker_Properties Breaker_Store_Theorems Retry_Theorems Contract_Theorems
    Routes_Claims Routes_Arguments Wire_Problem_Theorems Budget Admission Wire_Request_Theorems Wire_Body_Theorems
    Hot_Config_Theorems Hot_Lifecycle_Theorems Subscription_Theorems Attempts_Theorems Projection_Theorems Config_Theorems Nacos_Theorems
    Server_Http_Theorems Server_Build_Theorems Server_Lifecycle_Theorems
begin

text \<open>
  A verification library of fusen-rs, a service framework in Rust: a client that discovers instances of a service and
  invokes them over HTTP with retries, circuit breakers and budgets, a server that validates, routes, admits and answers
  such requests, registries and configuration sources behind small provider interfaces, and a contract crate both sides
  share.  File names are relative to the repository.

  \<^bold>\<open>How the parts interact.\<close>  The contract crate says what a service is: identities, HTTP operations with their templates and
  parameters, endpoints and capabilities.  A server is built from descriptors (\<open>Server_Build\<close>), routes by them
  (\<open>Routes\<close>), is run by a coordinator that registers, serves and deregisters (\<open>Server_Lifecycle\<close>), and handles every
  request in one pipeline (\<open>Server_Http\<close>) over the admission gate (\<open>Admission\<close>) and the byte budget (\<open>Budget\<close>).  A registry
  publishes instances into a directory (\<open>Directory\<close>; the Nacos one is \<open>Nacos_Registry\<close>), a subscription of the client
  forwards and ages it (\<open>Subscription\<close>), and an invocation selects an instance under the endpoint's breaker
  (\<open>Selection\<close>, \<open>Breaker_Store\<close>, \<open>Breaker\<close>), sends it and retries (\<open>Attempts\<close>, \<open>Retry\<close>).  What crosses the wire is
  encoded and parsed by \<open>Wire_Headers\<close>, \<open>Wire_Request\<close>, \<open>Wire_Body\<close> and \<open>Wire_Problem\<close>; what may be logged of it is
  decided by \<open>Projection\<close>.

  \<^bold>\<open>Which theory models what.\<close>
  \<^item> \<open>Prelude\<close>, \<open>Utf8\<close>, \<open>Ordered_Map\<close>, \<open>Float_Ratio\<close>, \<open>Watch\<close>: number types with saturation and wrap-around, time, byte strings, the
    maps of the standard library (locale \<open>dictionary\<close>), the comparison of a ratio in \<open>f64\<close>, the channel of
    \<open>tokio::sync::watch\<close>, and the locale \<open>stepwise\<close> of invariants that every step relation of the library interprets.
  \<^item> \<open>Contract\<close>, \<open>Template\<close>, \<open>Capabilities\<close> with \<open>Contract_Theorems\<close>, \<open>Contract_Properties\<close>: \<open>fusen-contract/src/service.rs\<close> and
    \<open>http.rs\<close>.  The validators are equivalent to grammars of well-formed paths, parameters and descriptors.
  \<^item> \<open>Errors\<close>, \<open>Classify\<close>: \<open>fusen/src/error/invocation.rs\<close>, \<open>resilience/classify.rs\<close>.
  \<^item> \<open>Breaker_Window\<close>, \<open>Breaker\<close>, \<open>Breaker_Store\<close>, \<open>Permits\<close> with \<open>Breaker_Machine\<close>, \<open>Breaker_Properties\<close>, \<open>Breaker_Store_Theorems\<close>:
    \<open>resilience/breaker.rs\<close> and \<open>client/endpoint_breakers.rs\<close>.  The rolling window refines the list of the outcomes it holds;
    permits are accounted for by an invariant over all interleavings of acquisitions, completions and drops.
  \<^item> \<open>Retry\<close>, \<open>Selection\<close>, \<open>Attempts\<close> with their theorems: \<open>resilience/retry.rs\<close> and the selection and attempt loops of
    \<open>client/invocation.rs\<close> and \<open>client/transport.rs\<close>.
  \<^item> \<open>Subscription\<close>, \<open>Directory\<close> with \<open>Subscription_Theorems\<close>: \<open>client/subscription.rs\<close>, \<open>fusen-register/src/directory.rs\<close> and
    \<open>error.rs\<close>, as a step relation of a supervisor.
  \<^item> \<open>Routes\<close> with \<open>Routes_Theorems\<close>, \<open>Routes_Claims\<close>, \<open>Routes_Arguments\<close>: \<open>server/routes.rs\<close>; the trie refines the list of its
    routes (locale \<open>trie\<close>), matching finds the most specific route.
  \<^item> \<open>Budget\<close>, \<open>Budget_Ledger\<close>, \<open>Admission\<close>: \<open>runtime/budget.rs\<close> and \<open>runtime/admission.rs\<close>, every atomic access a step.
  \<^item> \<open>Wire_Headers\<close>, \<open>Wire_Request\<close>, \<open>Wire_Body\<close>, \<open>Wire_Problem\<close>, \<open>Uri_Reference\<close> with their theorems: \<open>fusen/src/wire/mod.rs\<close>,
    \<open>wire/problem.rs\<close>, the bodies of \<open>context.rs\<close> and \<open>codec.rs\<close>.
  \<^item> \<open>Projection\<close> with \<open>Projection_Theorems\<close>: \<open>fusen/src/sensitive.rs\<close>, \<open>projection.rs\<close>, \<open>fusen-contract/src/sensitivity.rs\<close>.
  \<^item> \<open>Client_Config\<close>, \<open>Server_Config\<close> with \<open>Config_Theorems\<close>: \<open>client/config.rs\<close>, \<open>server/config.rs\<close>, \<open>error/validation.rs\<close>.  The
    validations are equivalent to well-formedness predicates, and these give the assumptions the other theorems make.
  \<^item> \<open>Hot_Config\<close>, \<open>Hot_Lifecycle\<close> with their theorems: \<open>fusen-config\<close>, the typed view and the lifecycle of its handle.
  \<^item> \<open>Nacos\<close>, \<open>Nacos_Registry\<close> with \<open>Nacos_Theorems\<close>: the crate \<open>fusen-nacos\<close>.
  \<^item> \<open>Server_Http\<close>, \<open>Server_Build\<close>, \<open>Server_Lifecycle\<close> with their theorems: \<open>server/http.rs\<close>, the builder and the coordinator of
    \<open>server/mod.rs\<close>, \<open>error/lifecycle.rs\<close>.

  \<^bold>\<open>Conventions.\<close>
  \<^item> Code outside the repository is an argument of the definitions that use it: URL, MIME, JSON, TOML, YAML and percent-coding
    crates, HTTP dates, the Nacos SDK, user callbacks (handlers, interceptors, routers, balancers, policies, sanitizers).
    A theorem that needs their documented behaviour names it as a hypothesis.  A callback that may panic has the panic as one
    of its results, because the code catches it there.
  \<^item> Durations and instants are numbers of nanoseconds; the reads of a clock are arguments, parts of a script, or a free step.
    Unsigned integers are naturals with the saturation, wrap-around and limits written out; the version set of an endpoint is
    an 8-bit word.  \<open>usize\<close> has 64 bits.  Allocation does not fail.
  \<^item> A body is the finite list of its frames.  A \<open>HashMap\<close> is an association list whose order no operation depends on, a
    \<open>BTreeMap\<close> one in the order of its keys.  Errors are values of sums; their \<open>source\<close> chains are kept where the code reads them.
  \<^item> Functions that run to their end without a choice are functions of an explicit state; where the environment chooses, it
    is a script (pipeline, attempts) or an input step (subscription, lifecycles, gate).  Tasks interleave at their atomic
    accesses, in a sequentially consistent order; the code uses \<open>Acquire\<close>/\<open>Release\<close> or stronger orders on each of these
    locations.  \<open>Semaphore\<close>, \<open>Notify\<close>, \<open>watch\<close>, \<open>select!\<close> and timeouts of tokio act as documented.

  \<^bold>\<open>Bounds and fuel.\<close>  The projection follows schemas that may refer to themselves; its recursion carries the
  fuel \<open>shape_fuel\<close>, spent on an \<open>Optional\<close> around one value and filled up for each element and field, and
  \<open>projections_end\<close> shows that the outcome that stands for running out never occurs.  All other functions are total by structural recursion or a
  measure.  Progress of the step relations is shown by measures that every own step decreases
  (\<open>requested_close_completes\<close>, \<open>requested_shutdown_ends\<close>, \<open>gate_calls_terminate\<close>) together with the absence of stuck states.

  \<^bold>\<open>What is proved.\<close>  Invariants: half-open probes and permits of a breaker, cached breakers and memberships, budget, gate,
  subscription, monotone lifecycle.  Safety: what a handler sees, readiness only after registration, deregistration in reverse
  order before the end, diagnostics that depend on revealed data only, results given once.  Equivalence and refinement:
  validators and grammars, trie and route list, typed view and last good document, snapshot gate and newest snapshot.  Round
  trips: requests, control headers, problem documents, Nacos registrations.  Bounds: retries, requests of an invocation,
  staleness, projections.  Termination and liveness: projections, closes, shutdown, wake-ups of a drain.

  \<^bold>\<open>Not modelled.\<close>  The macro crate (code generation over token streams); the accept loop and hyper connections
  (\<open>server/transport.rs\<close>), signal handlers, connectors and TLS (\<open>client/transport.rs\<close>, \<open>client/builder.rs\<close>): input and output;
  the caches of the client runtime and the dispatch of generated stubs (\<open>client/runtime.rs\<close>, \<open>interface.rs\<close>, \<open>service.rs\<close>);
  the lifecycle of registry handles (\<open>fusen-register/src/lib.rs\<close>), which has the states of \<open>Hot_Lifecycle\<close> over other
  types; metrics events outside the pipeline and the coordinator; \<open>Debug\<close> and log texts; examples, benchmarks and fuzz targets.
\<close>

end
